(* ===== verification/Prelude.thy ===== *)
theory Prelude
  imports Main "HOL-Library.Word"
begin

text \<open>
  Shared material of the development: the machine integers of the Rust sources, their
  saturating operations, little-endian byte strings and byte slices, results as sums, and the
  theorem collections the component theories use.

  Arithmetic is that of the release profile, the one the repository's Dockerfile builds: the
  plain operators wrap around (\<^verbatim>\<open>+\<close>, \<^verbatim>\<open>-\<close>,
  \<^verbatim>\<open>*\<close>, \<^verbatim>\<open>pow\<close> on words), a debug build panics
  at the same points. The bounds theorems of the components say where neither happens.
\<close>

unbundle bit_operations_syntax

section \<open>Machine integers\<close>

declare of_nat_unat [simp del]

lemma word_of_nat_unat [simp]: "word_of_nat (unat w) = w"
  by (simp add: of_nat_unat)

type_synonym u8 = "8 word"
type_synonym u16 = "16 word"
type_synonym u32 = "32 word"
type_synonym u64 = "64 word"
type_synonym u128 = "128 word"
type_synonym i64 = "64 word"
type_synonym i128 = "128 word"

text \<open>
  \<open>sat_simps\<close> collects the readings of the saturating operations as natural numbers,
  \<open>slice_simps\<close> the facts about byte slices of concatenations, \<open>frame_simps\<close> the
  facts that an operation leaves a field alone.
\<close>

named_theorems sat_simps "saturating operations read as natural numbers"
named_theorems slice_simps "slices of concatenated byte strings"
named_theorems frame_simps "fields an operation leaves alone"

definition sat_add :: "'a::len word \<Rightarrow> 'a word \<Rightarrow> 'a word" where
  "sat_add x y = (if unat x + unat y < 2 ^ LENGTH('a) then x + y else - 1)"

definition sat_mul :: "'a::len word \<Rightarrow> 'a word \<Rightarrow> 'a word" where
  "sat_mul x y = (if unat x * unat y < 2 ^ LENGTH('a) then x * y else - 1)"

definition sat_sub :: "'a::len word \<Rightarrow> 'a word \<Rightarrow> 'a word" where
  "sat_sub x y = (if y \<le> x then x - y else 0)"

lemma unat_minus_one_word': "unat (- 1 :: 'a::len word) = 2 ^ LENGTH('a) - 1"
  using unsigned_minus_1_eq_mask [where 'a = nat and 'b = 'a] by (simp add: mask_eq_exp_minus_1)

lemma unat_sat_add [sat_simps]:
  "unat (sat_add x y) = min (unat x + unat y) (2 ^ LENGTH('a) - 1)" for x :: "'a::len word"
  by (cases "unat x + unat y < 2 ^ LENGTH('a)")
    (simp_all add: sat_add_def unat_minus_one_word' unat_word_ariths)

lemma unat_sat_mul [sat_simps]:
  "unat (sat_mul x y) = min (unat x * unat y) (2 ^ LENGTH('a) - 1)" for x :: "'a::len word"
  by (cases "unat x * unat y < 2 ^ LENGTH('a)")
    (simp_all add: sat_mul_def unat_minus_one_word' unat_word_ariths)

lemma unat_sat_sub [sat_simps]: "unat (sat_sub x y) = unat x - unat y"
  by (auto simp: sat_sub_def unat_sub word_le_nat_alt)

lemma sat_mul_exact:
  "unat x * unat y < 2 ^ LENGTH('a) \<Longrightarrow> unat (sat_mul x y) = unat x * unat y"
  for x :: "'a::len word"
  by (simp add: unat_sat_mul)

lemma unat_mult_exact:
  "unat x * unat y < 2 ^ LENGTH('a) \<Longrightarrow> unat (x * y) = unat x * unat y"
  for x :: "'a::len word"
  by (simp add: unat_word_ariths)

lemma unat_plus_exact:
  "unat x + unat y < 2 ^ LENGTH('a) \<Longrightarrow> unat (x + y) = unat x + unat y"
  for x :: "'a::len word"
  by (simp add: unat_word_ariths)

lemma unat_bound8: "unat (w :: u8) < 256"
  using unsigned_less [of w] by simp

lemma unat_bound16: "unat (w :: u16) < 65536"
  using unsigned_less [of w] by simp

lemma unat_bound32: "unat (w :: u32) < 4294967296"
  using unsigned_less [of w] by simp

lemma unat_bound64: "unat (w :: u64) < 18446744073709551616"
  using unsigned_less [of w] by simp

lemma unat_ucast_up:
  "LENGTH('a) \<le> LENGTH('b) \<Longrightarrow> unat (ucast (w :: 'a::len word) :: 'b::len word) = unat w"
  by (simp add: unsigned_ucast_eq take_bit_nat_eq_self less_le_trans [OF unsigned_less])

lemma unat_ucast64_128: "unat (ucast (w :: u64) :: u128) = unat w"
  by (rule unat_ucast_up) simp

lemma unat_ucast16_128: "unat (ucast (w :: u16) :: u128) = unat w"
  by (rule unat_ucast_up) simp

lemma unat_ucast16_64: "unat (ucast (w :: u16) :: u64) = unat w"
  by (rule unat_ucast_up) simp

lemmas ucast_exact = unat_ucast64_128 unat_ucast16_128 unat_ucast16_64

lemma unat_ucast128_64: "unat (ucast (w :: u128) :: u64) = unat w mod 2 ^ 64"
  by (simp add: unsigned_ucast_eq take_bit_eq_mod)

lemma sint_small:
  "unat w < 2 ^ (LENGTH('a) - 1) \<Longrightarrow> sint w = int (unat w)" for w :: "'a::len word"
proof -
  assume "unat w < 2 ^ (LENGTH('a) - 1)"
  then have "int (unat w) < int (2 ^ (LENGTH('a) - 1))"
    by (simp only: of_nat_less_iff)
  then have "uint w < 2 ^ (LENGTH('a) - 1)"
    by (simp only: uint_nat of_nat_power of_nat_numeral)
  moreover have "- (2 ^ (LENGTH('a) - 1)) \<le> uint w"
    by (rule order_trans [of _ 0]) simp_all
  ultimately show ?thesis
    by (simp add: sint_uint signed_take_bit_int_eq_self of_nat_unat)
qed

lemma unat_sint_nonneg:
  "0 \<le> sint w \<Longrightarrow> int (unat w) = sint w" for w :: "'a::len word"
proof -
  assume "0 \<le> sint w"
  moreover have "sint w < 2 ^ LENGTH('a)"
    using sint_lt [of w] by (rule less_le_trans) (simp add: power_increasing)
  ultimately have "uint w = sint w"
    by (simp add: uint_sint take_bit_int_eq_self)
  then show ?thesis by (simp add: uint_nat)
qed

lemma unat_scast64_128:
  assumes "0 \<le> sint w" shows "int (unat (scast (w :: i64) :: u128)) = sint w"
proof -
  have "sint w < 2 ^ 63" using sint_lt [of w] by simp
  then have "sint w < 2 ^ 128" by (rule less_trans) simp
  then have "take_bit 128 (sint w) = sint w"
    using assms by (intro take_bit_int_eq_self)
  moreover have "uint (scast w :: u128) = take_bit LENGTH(128) (sint w)"
    by (simp only: scast_eq uint_word_of_int_eq)
  ultimately show ?thesis by (simp add: uint_nat)
qed

lemma sint_diff_exact:
  fixes g c :: "64 word"
  assumes "unat c < 2 ^ 63" "- (2 ^ 63) \<le> sint g - int (unat c)"
  shows "sint (g - c) = sint g - int (unat c)"
proof -
  have c: "sint c = int (unat c)" using assms(1) by (intro sint_small) simp
  have "sint g < 2 ^ 63" using sint_lt [of g] by simp
  moreover have "0 \<le> int (unat c)" by simp
  ultimately have "sint g - sint c < 2 ^ 63" unfolding c by linarith
  then have "signed_take_bit 63 (sint g - sint c) = sint g - sint c"
    using assms(2) unfolding c by (intro signed_take_bit_int_eq_self)
  then show ?thesis unfolding sint_word_ariths(2) by (simp only: c len_bit0 len_num1) simp
qed

lemma sint_diff_small:
  fixes x y :: "'a::len word"
  assumes "unat x < 2 ^ (LENGTH('a) - 1)" "unat y < 2 ^ (LENGTH('a) - 1)"
  shows "sint (x - y) = int (unat x) - int (unat y)"
proof -
  have xy: "sint x = int (unat x)" "sint y = int (unat y)"
    using assms by (simp_all add: sint_small)
  have "int (unat x) < int (2 ^ (LENGTH('a) - 1))" "int (unat y) < int (2 ^ (LENGTH('a) - 1))"
    using assms by (simp_all only: of_nat_less_iff)
  then have b: "int (unat x) < 2 ^ (LENGTH('a) - 1)" "int (unat y) < 2 ^ (LENGTH('a) - 1)"
    by (simp_all only: of_nat_power of_nat_numeral)
  have "signed_take_bit (LENGTH('a) - 1) (int (unat x) - int (unat y)) = int (unat x) - int (unat y)"
    by (rule signed_take_bit_int_eq_self) (use b in linarith)+
  then show ?thesis by (simp add: sint_word_ariths(2) xy)
qed

text \<open>Signed division truncates towards zero; the signed saturating product.\<close>

definition trunc_div :: "int \<Rightarrow> int \<Rightarrow> int" where
  "trunc_div a b = sgn a * sgn b * (\<bar>a\<bar> div \<bar>b\<bar>)"

definition signed_div :: "'a::len word \<Rightarrow> 'a word \<Rightarrow> 'a word" where
  "signed_div v w = word_of_int (trunc_div (sint v) (sint w))"

definition signed_sat_mul :: "'a::len word \<Rightarrow> 'a word \<Rightarrow> 'a word" where
  "signed_sat_mul v w =
     (let p = sint v * sint w
      in word_of_int (max (- (2 ^ (LENGTH('a) - 1))) (min (2 ^ (LENGTH('a) - 1) - 1) p)))"

lemma trunc_div_nonneg: "0 \<le> a \<Longrightarrow> 0 \<le> b \<Longrightarrow> trunc_div a b = a div b"
  by (cases "a = 0"; cases "b = 0") (simp_all add: trunc_div_def)

text \<open>A word below half its range, on which signed and unsigned readings agree.\<close>

lemma signed_div_exact:
  fixes v w :: "'a::len word"
  assumes "unat v < 2 ^ (LENGTH('a) - 1)" "unat w < 2 ^ (LENGTH('a) - 1)"
  shows "unat (signed_div v w) = unat v div unat w"
proof -
  have "trunc_div (sint v) (sint w) = int (unat v div unat w)"
    using assms by (simp add: sint_small trunc_div_nonneg zdiv_int)
  then have "signed_div v w = word_of_nat (unat v div unat w)"
    by (simp add: signed_div_def)
  moreover have "unat v div unat w < 2 ^ LENGTH('a)"
    using unsigned_less [of v, where ?'a = nat] by (meson div_le_dividend le_less_trans)
  ultimately show ?thesis by (simp add: unat_of_nat take_bit_nat_eq_self)
qed

section \<open>Little-endian byte strings\<close>

text \<open>
  \<^verbatim>\<open>to_le_bytes\<close> and \<^verbatim>\<open>from_le_bytes\<close>
  of the Rust integer types, over natural numbers and a byte count, then per width.
\<close>

fun nat_le_bytes :: "nat \<Rightarrow> nat \<Rightarrow> u8 list" where
  "nat_le_bytes 0 n = []"
| "nat_le_bytes (Suc k) n = word_of_nat n # nat_le_bytes k (n div 256)"

fun le_nat :: "u8 list \<Rightarrow> nat" where
  "le_nat [] = 0"
| "le_nat (b # bs) = unat b + 256 * le_nat bs"

definition u16_le :: "u16 \<Rightarrow> u8 list" where "u16_le w = nat_le_bytes 2 (unat w)"
definition u32_le :: "u32 \<Rightarrow> u8 list" where "u32_le w = nat_le_bytes 4 (unat w)"
definition u64_le :: "u64 \<Rightarrow> u8 list" where "u64_le w = nat_le_bytes 8 (unat w)"
definition u128_le :: "u128 \<Rightarrow> u8 list" where "u128_le w = nat_le_bytes 16 (unat w)"

definition word_of_le :: "u8 list \<Rightarrow> 'a::len word" where
  "word_of_le bs = word_of_nat (le_nat bs)"

lemma length_nat_le_bytes [simp]: "length (nat_le_bytes k n) = k"
  by (induction k arbitrary: n) auto

lemma length_le_bytes [simp]:
  "length (u16_le a) = 2" "length (u32_le b) = 4" "length (u64_le c) = 8" "length (u128_le d) = 16"
  by (simp_all add: u16_le_def u32_le_def u64_le_def u128_le_def)

lemma le_nat_nat_le_bytes: "le_nat (nat_le_bytes k n) = n mod 256 ^ k"
proof (induction k arbitrary: n)
  case 0
  then show ?case by simp
next
  case (Suc k)
  have "unat (word_of_nat n :: u8) = n mod 256"
    by (simp add: unat_of_nat take_bit_eq_mod)
  then have "le_nat (nat_le_bytes (Suc k) n) = n mod 256 + 256 * (n div 256 mod 256 ^ k)"
    by (simp add: Suc.IH)
  also have "\<dots> = n mod (256 * 256 ^ k)"
    by (simp add: mod_mult2_eq)
  finally show ?case by simp
qed

lemma word_of_le_bytes [simp]:
  "word_of_le (u16_le a) = a" "word_of_le (u32_le b) = b"
  "word_of_le (u64_le c) = c" "word_of_le (u128_le d) = d"
proof -
  have *: "word_of_le (nat_le_bytes k (unat w)) = w" if "LENGTH('a) = 8 * k"
    for k and w :: "'a::len word"
  proof -
    have "unat w < 256 ^ k"
      using unsigned_less [of w, where ?'a = nat] that by (simp add: power_mult)
    then show ?thesis
      by (simp add: word_of_le_def le_nat_nat_le_bytes)
  qed
  show "word_of_le (u16_le a) = a" "word_of_le (u32_le b) = b"
    "word_of_le (u64_le c) = c" "word_of_le (u128_le d) = d"
    by (simp_all add: u16_le_def u32_le_def u64_le_def u128_le_def *)
qed

lemma le_nat_bound: "le_nat bs < 256 ^ length bs"
proof (induction bs)
  case (Cons b bs)
  have "le_nat bs + 1 \<le> 256 ^ length bs" using Cons.IH by simp
  then have "256 * le_nat bs + 256 \<le> 256 * 256 ^ length bs"
    by (metis mult.commute mult_le_mono1 distrib_left nat_mult_1_right)
  then show ?case using unat_bound8 [of b] by simp
qed simp

lemma nat_le_bytes_le_nat: "nat_le_bytes (length bs) (le_nat bs) = bs"
proof (induction bs)
  case (Cons b bs)
  have "(unat b + 256 * le_nat bs) div 256 = le_nat bs"
    using unat_bound8 [of b] by simp
  moreover have "word_of_nat (unat b + 256 * le_nat bs) = b"
  proof (rule word_unat_eq_iff [THEN iffD2])
    show "unat (word_of_nat (unat b + 256 * le_nat bs) :: u8) = unat b"
      using unat_bound8 [of b] by (simp only: unat_of_nat) simp
  qed
  ultimately show ?case using Cons.IH by simp
qed simp

section \<open>Slices of byte buffers\<close>

text \<open>
  \<^verbatim>\<open>data[a..b]\<close>. The sources take such slices only behind a length check,
  which the models keep, so a slice is never shorter than \<open>b - a\<close> where it is read.
\<close>

definition slice :: "'a list \<Rightarrow> nat \<Rightarrow> nat \<Rightarrow> 'a list" where
  "slice xs a b = take (b - a) (drop a xs)"

lemma length_slice: "b \<le> length xs \<Longrightarrow> length (slice xs a b) = b - a"
  by (simp add: slice_def)

lemma slice_prefix [slice_simps]: "length xs = b \<Longrightarrow> slice (xs @ ys) 0 b = xs"
  by (simp add: slice_def)

lemma slice_all [slice_simps]: "length xs = b \<Longrightarrow> slice xs 0 b = xs"
  by (simp add: slice_def)

lemma slice_skip [slice_simps]:
  "length xs \<le> a \<Longrightarrow> slice (xs @ ys) a b = slice ys (a - length xs) (b - length xs)"
  by (simp add: slice_def)

lemma slice_skip_Cons [slice_simps]: "0 < a \<Longrightarrow> slice (x # ys) a b = slice ys (a - 1) (b - 1)"
  by (cases a) (simp_all add: slice_def)

text \<open>\<^verbatim>\<open>data[a..a + n].copy_from_slice(ys)\<close>.\<close>

definition splice :: "'a list \<Rightarrow> nat \<Rightarrow> 'a list \<Rightarrow> 'a list" where
  "splice xs a ys = take a xs @ ys @ drop (a + length ys) xs"

lemma length_splice [simp]: "a + length ys \<le> length xs \<Longrightarrow> length (splice xs a ys) = length xs"
  by (simp add: splice_def)

lemma slice_splice_same [slice_simps]:
  "b = a + length ys \<Longrightarrow> a + length ys \<le> length xs \<Longrightarrow> slice (splice xs a ys) a b = ys"
  by (simp add: slice_def splice_def)

lemma slice_splice_below [slice_simps]:
  "d \<le> a \<Longrightarrow> a \<le> length xs \<Longrightarrow> slice (splice xs a ys) c d = slice xs c d"
  by (cases "c \<le> a") (auto simp: slice_def splice_def min_def take_drop)

lemma slice_splice_above [slice_simps]:
  "a + length ys \<le> c \<Longrightarrow> a + length ys \<le> length xs \<Longrightarrow> slice (splice xs a ys) c d = slice xs c d"
  by (simp add: slice_def splice_def)

lemma nth_splice_other:
  "i < a \<or> a + length ys \<le> i \<Longrightarrow> a + length ys \<le> length xs \<Longrightarrow> splice xs a ys ! i = xs ! i"
  by (auto simp: splice_def nth_append)

lemma slice_update [slice_simps]: "b \<le> i \<or> i < a \<Longrightarrow> slice (xs[i := x]) a b = slice xs a b"
proof (cases "b \<le> i")
  case True
  then show ?thesis by (simp add: slice_def flip: drop_take)
qed (simp add: slice_def)

lemma slice_append_right: "length xs = n \<Longrightarrow> drop n (xs @ ys) = ys"
  by simp

section \<open>Results\<close>

text \<open>A Rust \<^verbatim>\<open>Result<T, E>\<close> is a sum, \<open>Inl\<close> the error;
  \<open>and_then\<close> is the \<^verbatim>\<open>?\<close> operator, \<open>ok_or\<close> turns a missing
  value into an error.\<close>

definition and_then :: "'e + 'a \<Rightarrow> ('a \<Rightarrow> 'e + 'b) \<Rightarrow> 'e + 'b" where
  "and_then r f = (case r of Inl e \<Rightarrow> Inl e | Inr x \<Rightarrow> f x)"

definition ok_or :: "'a option \<Rightarrow> 'e \<Rightarrow> 'e + 'a" where
  "ok_or v e = (case v of None \<Rightarrow> Inl e | Some x \<Rightarrow> Inr x)"

lemma and_then_simps [simp]:
  "and_then (Inl e) f = Inl e" "and_then (Inr x) f = f x"
  by (simp_all add: and_then_def)

lemma ok_or_simps [simp]: "ok_or None e = Inl e" "ok_or (Some x) e = Inr x"
  by (simp_all add: ok_or_def)

lemma and_then_Inr_iff: "and_then r f = Inr y \<longleftrightarrow> (\<exists>x. r = Inr x \<and> f x = Inr y)"
  by (cases r) auto

lemma and_then_Inl_iff:
  "and_then r f = Inl e \<longleftrightarrow> r = Inl e \<or> (\<exists>x. r = Inr x \<and> f x = Inl e)"
  by (cases r) auto

section \<open>Lists\<close>

text \<open>
  The sources drop duplicates with a \<^verbatim>\<open>seen\<close> vector: keep the first
  occurrence of each element, in order (\<open>remdups\<close> of the library keeps the last).
\<close>

fun dedup_from :: "'a list \<Rightarrow> 'a list \<Rightarrow> 'a list" where
  "dedup_from seen [] = []"
| "dedup_from seen (x # xs) =
     (if x \<in> set seen then dedup_from seen xs else x # dedup_from (seen @ [x]) xs)"

abbreviation dedup :: "'a list \<Rightarrow> 'a list" where
  "dedup xs \<equiv> dedup_from [] xs"

lemma set_dedup_from [simp]: "set (dedup_from seen xs) = set xs - set seen"
  by (induction seen xs rule: dedup_from.induct) auto

lemma distinct_dedup_from [simp]: "distinct (dedup_from seen xs)"
  by (induction seen xs rule: dedup_from.induct) auto

lemma dedup_from_distinct:
  "distinct xs \<Longrightarrow> set xs \<inter> set seen = {} \<Longrightarrow> dedup_from seen xs = xs"
  by (induction seen xs rule: dedup_from.induct) auto

lemma length_dedup_from: "length (dedup_from seen xs) \<le> length xs"
  by (induction seen xs rule: dedup_from.induct) auto

lemma map_filter_append [simp]:
  "List.map_filter f (xs @ ys) = List.map_filter f xs @ List.map_filter f ys"
  by (simp add: List.map_filter_def)

lemma find_Some_set: "List.find P xs = Some x \<Longrightarrow> x \<in> set xs \<and> P x"
  by (auto simp: find_Some_iff)

lemma find_map_key:
  "List.find (\<lambda>y. f y = k) xs = Some x \<Longrightarrow> f x = k"
  by (auto simp: find_Some_iff)

text \<open>\<^verbatim>\<open>Iterator::max_by_key\<close>: of several maxima the last one.\<close>

definition max_by_key :: "('a \<Rightarrow> 'k::linorder) \<Rightarrow> 'a list \<Rightarrow> 'a option" where
  "max_by_key f xs = foldl (\<lambda>acc x. case acc of None \<Rightarrow> Some x
                              | Some y \<Rightarrow> if f x < f y then Some y else Some x) None xs"

lemma max_by_key_snoc:
  "max_by_key f (xs @ [x]) = (case max_by_key f xs of None \<Rightarrow> Some x
     | Some y \<Rightarrow> if f x < f y then Some y else Some x)"
  by (simp add: max_by_key_def)

lemma max_by_key_correct:
  "case max_by_key f xs of None \<Rightarrow> xs = []
   | Some y \<Rightarrow> y \<in> set xs \<and> f y = Max (f ` set xs)"
proof (induction xs rule: rev_induct)
  case Nil
  then show ?case by (simp add: max_by_key_def)
next
  case (snoc x xs)
  have "max_by_key f [x] = Some x" by (simp add: max_by_key_def)
  with snoc show ?case
    by (cases "xs = []") (auto simp: max_by_key_snoc max_def split: option.splits)
qed

lemma max_by_key_Nil [simp]: "max_by_key f [] = None"
  by (simp add: max_by_key_def)

lemma max_by_key_None [simp]: "max_by_key f xs = None \<longleftrightarrow> xs = []"
  using max_by_key_correct [where f = f and xs = xs] by (auto simp: max_by_key_def split: option.splits)

section \<open>Text\<close>

text \<open>Decimal numerals of unsigned integers, as \<^verbatim>\<open>Display\<close> prints and
  \<^verbatim>\<open>parse\<close> reads them.\<close>

definition newline :: string where "newline = [CHR 0x0A]"

definition digit_char :: "nat \<Rightarrow> char" where "digit_char d = char_of (48 + d)"

fun show_nat :: "nat \<Rightarrow> string" where
  "show_nat n = (if n < 10 then [digit_char n] else show_nat (n div 10) @ [digit_char (n mod 10)])"

declare show_nat.simps [simp del]

definition digit_val :: "char \<Rightarrow> nat option" where
  "digit_val ch = (let v = of_char ch in if 48 \<le> v \<and> v < 58 then Some (v - 48) else None)"

fun parse_digits :: "nat \<Rightarrow> string \<Rightarrow> nat option" where
  "parse_digits acc [] = Some acc"
| "parse_digits acc (ch # cs) =
     (case digit_val ch of None \<Rightarrow> None | Some d \<Rightarrow> parse_digits (10 * acc + d) cs)"

lemma digit_val_digit_char [simp]: "d < 10 \<Longrightarrow> digit_val (digit_char d) = Some d"
  by (simp add: digit_val_def digit_char_def Let_def)

lemma parse_digits_append:
  "parse_digits acc (xs @ ys) = Option.bind (parse_digits acc xs) (\<lambda>a. parse_digits a ys)"
  by (induction acc xs rule: parse_digits.induct) (auto split: option.splits)

lemma parse_show_nat: "parse_digits 0 (show_nat n) = Some n"
proof (induction n rule: show_nat.induct)
  case (1 n)
  show ?case
    using 1 by (subst show_nat.simps) (auto simp: parse_digits_append)
qed

lemma show_nat_inject [simp]: "show_nat m = show_nat n \<longleftrightarrow> m = n"
  by (metis parse_show_nat option.inject)

end
