(* ===== verification/CoreTypes.thy ===== *)
theory CoreTypes
  imports Prelude
begin

text \<open>
  The value types of \<^verbatim>\<open>crates/liq-core/src/types.rs\<close>: public keys,
  protocols, candidate bands, update sources, fixed-point prices and health factors.
  \<^verbatim>\<open>from_f64\<close> and \<^verbatim>\<open>to_f64\<close> are in theory \<open>LiveHealth\<close>, the
  formatting traits are left out; base58 is the external crate \<^verbatim>\<open>bs58\<close> (see theory
  Instructions).
\<close>

section \<open>Public keys\<close>

text \<open>A key is the list of its bytes; \<open>pubkey_wf\<close> is the array length 32, which
  every constructor of the source guarantees.\<close>

datatype pubkey = Pubkey (pk_bytes: "u8 list")

definition pubkey_wf :: "pubkey \<Rightarrow> bool" where
  "pubkey_wf k \<longleftrightarrow> length (pk_bytes k) = 32"

definition pubkey_default :: pubkey where
  "pubkey_default = Pubkey (replicate 32 0)"

definition pubkey_from_bytes :: "u8 list \<Rightarrow> pubkey option" where
  "pubkey_from_bytes bs = (if length bs \<noteq> 32 then None else Some (Pubkey bs))"

definition pubkey_test :: "u8 \<Rightarrow> u64 \<Rightarrow> pubkey" where
  "pubkey_test tag index = Pubkey (replicate 24 tag @ u64_le index)"

lemma pubkey_wf_simps [simp]:
  "pubkey_wf pubkey_default" "pubkey_wf (pubkey_test t i)"
  "pubkey_wf (Pubkey bs) \<longleftrightarrow> length bs = 32"
  by (simp_all add: pubkey_wf_def pubkey_default_def pubkey_test_def)

lemma pubkey_from_bytes_Some:
  "pubkey_from_bytes bs = Some k \<longleftrightarrow> length bs = 32 \<and> k = Pubkey bs"
  by (auto simp: pubkey_from_bytes_def)

lemma pubkey_from_bytes_pk_bytes [simp]: "pubkey_wf k \<Longrightarrow> pubkey_from_bytes (pk_bytes k) = Some k"
  by (simp add: pubkey_from_bytes_def pubkey_wf_def)

lemma u64_le_inject [simp]: "u64_le a = u64_le b \<longleftrightarrow> a = b"
  by (metis word_of_le_bytes(3))

lemma pubkey_test_inject [simp]: "pubkey_test s i = pubkey_test t j \<longleftrightarrow> s = t \<and> i = j"
  by (auto simp: pubkey_test_def)

lemma hd_pubkey_test [simp]: "hd (pk_bytes (pubkey_test t i)) = t"
  by (simp add: pubkey_test_def hd_append)

lemma distinct_by_hd: "distinct (map (\<lambda>k. hd (pk_bytes k)) ks) \<Longrightarrow> distinct ks"
  by (simp add: distinct_map)

section \<open>Enumerations\<close>

datatype protocol = Kamino | Project0 | Save

text \<open>The variant names the derived \<^verbatim>\<open>Debug\<close> prints.\<close>

fun protocol_debug :: "protocol \<Rightarrow> string" where
  "protocol_debug Kamino = ''Kamino''"
| "protocol_debug Project0 = ''Project0''"
| "protocol_debug Save = ''Save''"

datatype candidate_band = Critical | Hot | Warm | Cold

fun band_index :: "candidate_band \<Rightarrow> nat" where
  "band_index Critical = 0"
| "band_index Hot = 1"
| "band_index Warm = 2"
| "band_index Cold = 3"

lemma band_index_inject: "band_index a = band_index b \<longleftrightarrow> a = b"
  by (cases a; cases b) auto

text \<open>The derived \<^verbatim>\<open>Ord\<close>: by discriminant.\<close>

instantiation candidate_band :: linorder
begin

definition less_eq_candidate_band :: "candidate_band \<Rightarrow> candidate_band \<Rightarrow> bool" where
  "less_eq_candidate_band a b \<longleftrightarrow> band_index a \<le> band_index b"

definition less_candidate_band :: "candidate_band \<Rightarrow> candidate_band \<Rightarrow> bool" where
  "less_candidate_band a b \<longleftrightarrow> band_index a < band_index b"

instance
  by standard
    (auto simp: less_eq_candidate_band_def less_candidate_band_def band_index_inject)

end

fun band_as_str :: "candidate_band \<Rightarrow> string" where
  "band_as_str Critical = ''CRITICAL''"
| "band_as_str Hot = ''HOT''"
| "band_as_str Warm = ''WARM''"
| "band_as_str Cold = ''COLD''"

datatype update_source = Geyser | Rpc | Replay | Mock | Computed

section \<open>Fixed-point numbers\<close>

text \<open>\<^verbatim>\<open>PriceFx(u128)\<close> with nine decimals and
  \<^verbatim>\<open>HealthFx(i128)\<close> with six; the \<^verbatim>\<open>i128\<close> is the word
  read by \<open>sint\<close>.\<close>

datatype price_fx = PriceFx (px: u128)
datatype health_fx = HealthFx (hf: i128)

text \<open>The derived \<^verbatim>\<open>Ord\<close> of prices.\<close>

instantiation price_fx :: linorder
begin

definition less_eq_price_fx :: "price_fx \<Rightarrow> price_fx \<Rightarrow> bool" where
  "less_eq_price_fx a b \<longleftrightarrow> px a \<le> px b"

definition less_price_fx :: "price_fx \<Rightarrow> price_fx \<Rightarrow> bool" where
  "less_price_fx a b \<longleftrightarrow> px a < px b"

instance
  by standard (auto simp: less_eq_price_fx_def less_price_fx_def price_fx.expand)

end

lemma price_fx_le_simps [simp]:
  "PriceFx a \<le> PriceFx b \<longleftrightarrow> a \<le> b" "PriceFx a < PriceFx b \<longleftrightarrow> a < b"
  by (simp_all add: less_eq_price_fx_def less_price_fx_def)

definition price_scale :: u128 where "price_scale = 1000000000"
definition health_scale :: i128 where "health_scale = 1000000"

definition is_liquidatable_hf :: "health_fx \<Rightarrow> bool" where
  "is_liquidatable_hf h \<longleftrightarrow> sint (hf h) < sint health_scale"

lemma sint_health_scale [simp]: "sint health_scale = 1000000"
  by (simp add: health_scale_def)

end
