(* ===== verification/Instructions.thy ===== *)
theory Instructions
  imports CoreTypes
begin

text \<open>
  Wire instructions (\<^verbatim>\<open>crates/liq-core/src/instruction.rs\<close>) and program
  derived addresses (\<^verbatim>\<open>crates/liq-core/src/pda.rs\<close>). The external
  crates the code calls (\<^verbatim>\<open>bs58\<close>, \<^verbatim>\<open>sha2\<close>,
  \<^verbatim>\<open>curve25519-dalek\<close>) are the fields of the record \<open>crypto\<close>,
  an argument of every definition that reaches them.
\<close>

record crypto =
  b58_decode :: "string \<Rightarrow> u8 list option"
  sha256 :: "u8 list \<Rightarrow> u8 list"
  on_curve :: "u8 list \<Rightarrow> bool"

definition pubkey_from_base58 :: "crypto \<Rightarrow> string \<Rightarrow> pubkey option" where
  "pubkey_from_base58 c s = Option.bind (b58_decode c s) pubkey_from_bytes"

section \<open>Account metas and instructions\<close>

record account_meta =
  am_pubkey :: pubkey
  am_is_signer :: bool
  am_is_writable :: bool

definition meta_new :: "pubkey \<Rightarrow> bool \<Rightarrow> account_meta" where
  "meta_new k signer = \<lparr>am_pubkey = k, am_is_signer = signer, am_is_writable = True\<rparr>"

definition meta_new_readonly :: "pubkey \<Rightarrow> bool \<Rightarrow> account_meta" where
  "meta_new_readonly k signer = \<lparr>am_pubkey = k, am_is_signer = signer, am_is_writable = False\<rparr>"

lemma meta_simps [simp]:
  "am_pubkey (meta_new k s) = k" "am_is_signer (meta_new k s) = s" "am_is_writable (meta_new k s)"
  "am_pubkey (meta_new_readonly k s) = k" "am_is_signer (meta_new_readonly k s) = s"
  "\<not> am_is_writable (meta_new_readonly k s)"
  by (simp_all add: meta_new_def meta_new_readonly_def)

record instruction =
  ix_program_id :: pubkey
  ix_accounts :: "account_meta list"
  ix_data :: "u8 list"

definition instruction_new :: "pubkey \<Rightarrow> account_meta list \<Rightarrow> u8 list \<Rightarrow> instruction" where
  "instruction_new p as d = \<lparr>ix_program_id = p, ix_accounts = as, ix_data = d\<rparr>"

lemma instruction_new_simps [simp]:
  "ix_program_id (instruction_new p as d) = p" "ix_accounts (instruction_new p as d) = as"
  "ix_data (instruction_new p as d) = d"
  by (simp_all add: instruction_new_def)

definition is_wire_ready :: "instruction \<Rightarrow> bool" where
  "is_wire_ready ix \<longleftrightarrow> ix_data ix \<noteq> [] \<or> ix_accounts ix \<noteq> []"

record labeled_ix =
  li_label :: string
  li_ix :: instruction

definition labeled :: "string \<Rightarrow> instruction \<Rightarrow> labeled_ix" where
  "labeled l i = \<lparr>li_label = l, li_ix = i\<rparr>"

lemma labeled_simps [simp]: "li_label (labeled l i) = l" "li_ix (labeled l i) = i"
  by (simp_all add: labeled_def)

section \<open>Program ids\<close>

definition prog_system :: pubkey where
  "prog_system = Pubkey (replicate 32 0)"

definition prog_token :: pubkey where
  "prog_token = Pubkey
    [6, 221, 246, 225, 215, 101, 161, 147, 217, 203, 225, 70, 206, 235, 121, 172, 28, 180,
     133, 237, 95, 91, 55, 145, 58, 140, 245, 133, 126, 255, 0, 169]"

definition prog_compute_budget :: pubkey where
  "prog_compute_budget = Pubkey
    [3, 6, 70, 111, 229, 33, 23, 50, 255, 236, 173, 186, 114, 195, 155, 231, 188, 140, 229,
     187, 197, 247, 18, 107, 44, 67, 155, 58, 64, 0, 0, 0]"

definition prog_sysvar_instructions :: pubkey where
  "prog_sysvar_instructions = Pubkey
    [6, 167, 213, 23, 24, 123, 209, 102, 53, 218, 212, 4, 85, 253, 194, 192, 193, 36, 198,
     143, 33, 86, 117, 165, 219, 186, 203, 95, 8, 0, 0, 0]"

definition prog_klend :: pubkey where
  "prog_klend = Pubkey
    [4, 178, 172, 177, 18, 88, 204, 227, 104, 44, 65, 139, 168, 114, 255, 61, 249, 17, 2,
     113, 47, 21, 175, 18, 182, 190, 105, 179, 67, 91, 0, 8]"

definition prog_save :: pubkey where
  "prog_save = Pubkey
    [6, 155, 139, 152, 90, 171, 83, 42, 69, 9, 13, 232, 85, 127, 205, 220, 190, 108, 183,
     239, 199, 58, 10, 101, 176, 111, 146, 3, 93, 183, 62, 236]"

definition prog_marginfi :: pubkey where
  "prog_marginfi = Pubkey
    [5, 48, 122, 214, 69, 75, 188, 94, 30, 78, 146, 5, 146, 83, 161, 139, 184, 200, 134,
     140, 88, 166, 49, 46, 200, 106, 57, 230, 34, 78, 55, 59]"

definition from_base58_or_default :: "crypto \<Rightarrow> string \<Rightarrow> pubkey" where
  "from_base58_or_default c s =
     (case pubkey_from_base58 c s of None \<Rightarrow> pubkey_default | Some k \<Rightarrow> k)"

definition prog_associated_token :: "crypto \<Rightarrow> pubkey" where
  "prog_associated_token c = from_base58_or_default c ''ATokenGPvbdGVxr1b2hvZbsiqW5xWH25efTNsLJA8knL''"

definition prog_token_2022 :: "crypto \<Rightarrow> pubkey" where
  "prog_token_2022 c = from_base58_or_default c ''TokenzQdBNbLqP5VEhdkAS6EPFLC1PHnBqCXEpPxuEb''"

definition prog_kfarms :: "crypto \<Rightarrow> pubkey" where
  "prog_kfarms c = from_base58_or_default c ''FarmsPZpWu9i7Kky8tPN37rs2TpmMrAZrC7S7vJa91Hr''"

lemma prog_wf [simp]:
  "pubkey_wf prog_system" "pubkey_wf prog_token" "pubkey_wf prog_compute_budget"
  "pubkey_wf prog_sysvar_instructions" "pubkey_wf prog_klend" "pubkey_wf prog_save"
  "pubkey_wf prog_marginfi"
  by (simp_all add: prog_system_def prog_token_def prog_compute_budget_def
      prog_sysvar_instructions_def prog_klend_def prog_save_def prog_marginfi_def)

lemma from_base58_or_default_wf [simp]: "pubkey_wf (from_base58_or_default c s)"
  by (auto simp: from_base58_or_default_def pubkey_from_base58_def pubkey_from_bytes_Some
      split: option.splits bind_splits)

lemma prog_wf_b58 [simp]:
  "pubkey_wf (prog_associated_token c)" "pubkey_wf (prog_token_2022 c)" "pubkey_wf (prog_kfarms c)"
  by (simp_all add: prog_associated_token_def prog_token_2022_def prog_kfarms_def)

section \<open>Program derived addresses\<close>

text \<open>
  \<^verbatim>\<open>find_program_address\<close>: the bumps 255 down to 0, the first hash off the
  curve; the fallback after the loop is the source's. \<open>pda_hash\<close> is the hash of one
  iteration.
\<close>

definition ascii :: "string \<Rightarrow> u8 list" where
  "ascii s = map (\<lambda>ch. word_of_nat (of_char ch)) s"

definition pda_hash :: "crypto \<Rightarrow> u8 list list \<Rightarrow> pubkey \<Rightarrow> u8 \<Rightarrow> u8 list" where
  "pda_hash c seeds program bump =
     sha256 c (concat seeds @ [bump] @ pk_bytes program @ ascii ''ProgramDerivedAddress'')"

fun pda_search :: "crypto \<Rightarrow> u8 list list \<Rightarrow> pubkey \<Rightarrow> nat \<Rightarrow> pubkey \<times> u8" where
  "pda_search c seeds program n =
     (let bytes = pda_hash c seeds program (word_of_nat n)
      in if \<not> on_curve c bytes then (Pubkey bytes, word_of_nat n)
         else case n of 0 \<Rightarrow> (pubkey_default, 0) | Suc m \<Rightarrow> pda_search c seeds program m)"

declare pda_search.simps [simp del]

definition find_program_address :: "crypto \<Rightarrow> u8 list list \<Rightarrow> pubkey \<Rightarrow> pubkey \<times> u8" where
  "find_program_address c seeds program = pda_search c seeds program 255"

definition get_associated_token_address ::
    "crypto \<Rightarrow> pubkey \<Rightarrow> pubkey \<Rightarrow> pubkey \<Rightarrow> pubkey" where
  "get_associated_token_address c owner mint token_program =
     fst (find_program_address c [pk_bytes owner, pk_bytes token_program, pk_bytes mint]
            (prog_associated_token c))"

definition get_associated_token_address_token :: "crypto \<Rightarrow> pubkey \<Rightarrow> pubkey \<Rightarrow> pubkey" where
  "get_associated_token_address_token c owner mint =
     get_associated_token_address c owner mint prog_token"

definition klend_referrer_token_state :: "crypto \<Rightarrow> pubkey \<Rightarrow> pubkey \<Rightarrow> pubkey" where
  "klend_referrer_token_state c referrer reserve =
     fst (find_program_address c [ascii ''referrer_acc'', pk_bytes referrer, pk_bytes reserve]
            prog_klend)"

text \<open>The search returns the largest bump whose hash is off the curve.\<close>

lemma pda_search_correct:
  assumes "n < 256"
  shows "(\<exists>b \<le> n. \<not> on_curve c (pda_hash c seeds p (word_of_nat b))
              \<and> pda_search c seeds p n = (Pubkey (pda_hash c seeds p (word_of_nat b)), word_of_nat b)
              \<and> (\<forall>b'. b < b' \<and> b' \<le> n \<longrightarrow> on_curve c (pda_hash c seeds p (word_of_nat b'))))
       \<or> ((\<forall>b \<le> n. on_curve c (pda_hash c seeds p (word_of_nat b)))
              \<and> pda_search c seeds p n = (pubkey_default, 0))"
  using assms
proof (induction n)
  case 0
  then show ?case by (subst (1 2) pda_search.simps) (auto simp: Let_def)
next
  case (Suc n)
  show ?case
  proof (cases "on_curve c (pda_hash c seeds p (word_of_nat (Suc n)))")
    case True
    then have step: "pda_search c seeds p (Suc n) = pda_search c seeds p n"
      by (subst pda_search.simps) (simp add: Let_def)
    from Suc show ?thesis unfolding step using True by (auto simp: le_Suc_eq)
  next
    case False
    then have "pda_search c seeds p (Suc n)
        = (Pubkey (pda_hash c seeds p (word_of_nat (Suc n))), word_of_nat (Suc n))"
      by (subst pda_search.simps) (simp add: Let_def)
    with False show ?thesis by (intro disjI1 exI [of _ "Suc n"] conjI allI impI) (auto simp del: of_nat_Suc)
  qed
qed

section \<open>Shared instruction builders\<close>

definition create_ata_idempotent ::
    "crypto \<Rightarrow> pubkey \<Rightarrow> pubkey \<Rightarrow> pubkey \<Rightarrow> pubkey \<Rightarrow> instruction" where
  "create_ata_idempotent c payer owner mint token_program =
     (let ata = get_associated_token_address c owner mint token_program
      in instruction_new (prog_associated_token c)
           [meta_new payer True, meta_new ata False, meta_new_readonly owner False,
            meta_new_readonly mint False, meta_new_readonly prog_system False,
            meta_new_readonly token_program False]
           [1])"

definition token_program_from_mint_owner :: "crypto \<Rightarrow> pubkey \<Rightarrow> pubkey" where
  "token_program_from_mint_owner c mint_owner =
     (if mint_owner = prog_token_2022 c then prog_token_2022 c else prog_token)"

definition compute_unit_limit :: "u32 \<Rightarrow> instruction" where
  "compute_unit_limit units = instruction_new prog_compute_budget [] ([2] @ u32_le units)"

definition compute_unit_price :: "u64 \<Rightarrow> instruction" where
  "compute_unit_price micro_lamports = instruction_new prog_compute_budget [] ([3] @ u64_le micro_lamports)"

text \<open>The two compute-budget instructions every builder starts with.\<close>

definition cu_limit_ix :: "u32 \<Rightarrow> labeled_ix" where
  "cu_limit_ix n = labeled ''ComputeBudget:SetComputeUnitLimit'' (compute_unit_limit n)"

definition cu_price_ix :: "u64 \<Rightarrow> labeled_ix" where
  "cu_price_ix n = labeled ''ComputeBudget:SetComputeUnitPrice'' (compute_unit_price n)"

end
