(* ===== verification/KeyedCache.thy ===== *)
theory KeyedCache
  imports Prelude
begin

text \<open>
  The contract of the lock-protected hash maps the program uses as caches: an entry is stored under
  its own key and read back until an entry with the same key replaces it. The route cache, the
  lookup-table registry and the template cache provide it.
\<close>

locale keyed_cache =
  fixes get :: "'m \<Rightarrow> 'k \<Rightarrow> 'e option"
    and put :: "'m \<Rightarrow> 'e \<Rightarrow> 'm"
    and empty :: 'm
    and key :: "'e \<Rightarrow> 'k"
  assumes get_empty: "get empty k = None"
    and get_put: "get (put m e) k = (if k = key e then Some e else get m k)"
begin

lemma get_puts: "get (foldl put m es) k =
    (case List.find (\<lambda>e. key e = k) (rev es) of Some e \<Rightarrow> Some e | None \<Rightarrow> get m k)"
proof (induction es rule: rev_induct)
  case (snoc e es)
  then show ?case by (auto simp: get_put)
qed simp

text \<open>What is read is the entry stored last under the key.\<close>

lemma get_latest: "get (foldl put empty es) k = List.find (\<lambda>e. key e = k) (rev es)"
  by (simp add: get_puts get_empty split: option.split)

end

end
