(* ===== verification/StateStore.thy ===== *)
theory StateStore
  imports CoreTypes "HOL-Library.Multiset"
begin

text \<open>
  The in-memory account store of \<^verbatim>\<open>crates/liq-core/src/state_store.rs\<close>:
  entries versioned by (slot, write version), an upsert that only accepts newer versions. The
  hash map under its lock is a partial map; the receive time stamp is an argument of
  \<open>stored_account_new\<close>. The locale \<open>versioned_store\<close> states what the users of
  the store rely on, and its lemmas are proved from that interface alone.
\<close>

section \<open>The interface: a store that keeps the newest version per key\<close>

locale versioned_store =
  fixes get :: "'s \<Rightarrow> 'k \<Rightarrow> 'e option"
    and put :: "'s \<Rightarrow> 'e \<Rightarrow> bool \<times> 's"
    and key :: "'e \<Rightarrow> 'k"
    and ver :: "'e \<Rightarrow> nat"
  assumes put_flag: "fst (put s e) \<longleftrightarrow> (case get s (key e) of None \<Rightarrow> True | Some f \<Rightarrow> ver f < ver e)"
    and put_get: "get (snd (put s e)) = (if fst (put s e) then (get s)(key e := Some e) else get s)"
begin

lemma put_other: "k \<noteq> key e \<Longrightarrow> get (snd (put s e)) k = get s k"
  by (simp add: put_get)

lemma put_present: "\<exists>f. get (snd (put s e)) (key e) = Some f \<and> ver e \<le> ver f"
  using put_flag [of s e] by (cases "fst (put s e)") (auto simp: put_get split: option.splits)

lemma put_mono:
  assumes "get s k = Some f"
  shows "\<exists>g. get (snd (put s e)) k = Some g \<and> ver f \<le> ver g"
  using assms put_flag [of s e] by (cases "k = key e") (auto simp: put_get split: if_splits)

lemma put_twice: "\<not> fst (put (snd (put s e)) e)"
  using put_present [of s e] put_flag [of "snd (put s e)" e] by auto

lemma fold_put_mono:
  "get s k = Some f \<Longrightarrow> \<exists>g. get (fold (\<lambda>e t. snd (put t e)) es s) k = Some g \<and> ver f \<le> ver g"
proof (induction es arbitrary: s f)
  case (Cons e es)
  from put_mono [OF Cons.prems, of e] obtain g
    where "get (snd (put s e)) k = Some g" "ver f \<le> ver g" by blast
  with Cons.IH [of "snd (put s e)" g] show ?case by fastforce
qed auto

lemma fold_put_sound:
  "get (fold (\<lambda>e t. snd (put t e)) es s) k = Some f \<Longrightarrow> get s k = Some f \<or> (f \<in> set es \<and> key f = k)"
proof (induction es arbitrary: s)
  case (Cons e es)
  then have "get (snd (put s e)) k = Some f \<or> f \<in> set es \<and> key f = k" by simp
  then show ?case
    by (cases "k = key e"; cases "fst (put s e)") (auto simp: put_get)
qed auto

lemma fold_put_covers:
  "e \<in> set es \<Longrightarrow> \<exists>f. get (fold (\<lambda>e t. snd (put t e)) es s) (key e) = Some f \<and> ver e \<le> ver f"
proof (induction es arbitrary: s)
  case (Cons a es)
  show ?case
  proof (cases "e \<in> set es")
    case True
    with Cons.IH [of "snd (put s a)"] show ?thesis by simp
  next
    case False
    with Cons.prems have a: "e = a" by simp
    obtain f where f: "get (snd (put s e)) (key e) = Some f" "ver e \<le> ver f"
      using put_present [of s e] by blast
    obtain g where "get (fold (\<lambda>e t. snd (put t e)) es (snd (put s e))) (key e) = Some g" "ver f \<le> ver g"
      using fold_put_mono [OF f(1), of es] by blast
    with f(2) a show ?thesis by auto
  qed
qed simp

text \<open>The final store does not depend on the order in which distinct versions arrive.\<close>

lemma fold_put_order:
  assumes empty: "\<And>k. get s k = None"
    and perm: "set es = set fs"
    and uniq: "\<And>e f. e \<in> set es \<Longrightarrow> f \<in> set es \<Longrightarrow> key e = key f \<Longrightarrow> ver e = ver f \<Longrightarrow> e = f"
  shows "get (fold (\<lambda>e t. snd (put t e)) es s) = get (fold (\<lambda>e t. snd (put t e)) fs s)"
proof
  fix k
  let ?g = "\<lambda>es. get (fold (\<lambda>e t. snd (put t e)) es s) k"
  have sound: "\<And>es f. ?g es = Some f \<Longrightarrow> f \<in> set es \<and> key f = k"
    using fold_put_sound empty by (metis option.distinct(1))
  show "?g es = ?g fs"
  proof (cases "\<exists>e \<in> set es. key e = k")
    case False
    then have "?g es = None" "?g fs = None"
      using sound [of es] sound [of fs] perm by (cases "?g es"; cases "?g fs"; auto)+
    then show ?thesis by simp
  next
    case True
    then obtain e where e: "e \<in> set es" "key e = k" by blast
    then obtain f where f: "?g es = Some f" using fold_put_covers [of e es s] by auto
    obtain g where g: "?g fs = Some g" using fold_put_covers [of e fs s] e perm by auto
    note fs = sound [OF f] and gs = sound [OF g]
    have "ver g \<le> ver f" using fold_put_covers [of g es s] gs perm f by auto
    moreover have "ver f \<le> ver g" using fold_put_covers [of f fs s] fs perm g by auto
    ultimately have "f = g" using uniq [of f g] fs gs perm by simp
    with f g show ?thesis by simp
  qed
qed

end

section \<open>The store of the program\<close>

record 'a stored_account =
  sa_slot :: u64
  sa_write_version :: u64
  sa_pubkey :: pubkey
  sa_decoded :: 'a
  sa_source :: update_source
  sa_recv_ts_us :: u64

definition stored_account_new ::
    "u64 \<Rightarrow> u64 \<Rightarrow> u64 \<Rightarrow> pubkey \<Rightarrow> 'a \<Rightarrow> update_source \<Rightarrow> 'a stored_account" where
  "stored_account_new now_us slot write_version k decoded source =
     \<lparr>sa_slot = slot, sa_write_version = write_version, sa_pubkey = k, sa_decoded = decoded,
      sa_source = source, sa_recv_ts_us = now_us\<rparr>"

lemma stored_account_new_simps [simp]:
  "sa_slot (stored_account_new t s w k d src) = s"
  "sa_write_version (stored_account_new t s w k d src) = w"
  "sa_pubkey (stored_account_new t s w k d src) = k"
  "sa_decoded (stored_account_new t s w k d src) = d"
  "sa_source (stored_account_new t s w k d src) = src"
  by (simp_all add: stored_account_new_def)

definition is_stale_vs :: "'a stored_account \<Rightarrow> u64 \<Rightarrow> u64 \<Rightarrow> bool" where
  "is_stale_vs a other_slot other_wv \<longleftrightarrow>
     sa_slot a < other_slot \<or> sa_slot a = other_slot \<and> sa_write_version a < other_wv"

type_synonym 'a state_store = "pubkey \<rightharpoonup> 'a stored_account"

definition store_new :: "'a state_store" where "store_new = Map.empty"

definition store_get :: "'a state_store \<Rightarrow> pubkey \<Rightarrow> 'a stored_account option" where
  "store_get s k = s k"

definition store_len :: "'a state_store \<Rightarrow> nat" where "store_len s = card (dom s)"

definition store_upsert :: "'a state_store \<Rightarrow> 'a stored_account \<Rightarrow> bool \<times> 'a state_store" where
  "store_upsert s e =
     (case s (sa_pubkey e) of
        Some existing \<Rightarrow>
          if \<not> is_stale_vs existing (sa_slot e) (sa_write_version e) then (False, s)
          else (True, s(sa_pubkey e \<mapsto> e))
      | None \<Rightarrow> (True, s(sa_pubkey e \<mapsto> e)))"

definition store_remove ::
    "'a state_store \<Rightarrow> pubkey \<Rightarrow> 'a stored_account option \<times> 'a state_store" where
  "store_remove s k = (s k, s(k := None))"

definition store_retain ::
    "(pubkey \<Rightarrow> 'a stored_account \<Rightarrow> bool) \<Rightarrow> 'a state_store \<Rightarrow> 'a state_store" where
  "store_retain f s = (\<lambda>k. case s k of None \<Rightarrow> None | Some v \<Rightarrow> if f k v then Some v else None)"

text \<open>The lexicographic version as one number.\<close>

definition account_version :: "'a stored_account \<Rightarrow> nat" where
  "account_version a = unat (sa_slot a) * 2 ^ 64 + unat (sa_write_version a)"

lemma is_stale_vs_version:
  "is_stale_vs f (sa_slot e) (sa_write_version e) \<longleftrightarrow> account_version f < account_version e"
  using unat_bound64 [of "sa_write_version f"] unat_bound64 [of "sa_write_version e"]
  by (auto simp: is_stale_vs_def account_version_def word_less_nat_alt word_unat_eq_iff)

lemma account_version_inject:
  "account_version e = account_version f \<longleftrightarrow>
     sa_slot e = sa_slot f \<and> sa_write_version e = sa_write_version f"
proof -
  have "a * N + b = c * N + d \<longleftrightarrow> a = c \<and> b = d" if "b < N" "d < N" for a b c d N :: nat
    using that by (metis add.commute div_mult_self3 div_less add_cancel_right_left
        mod_mult_self3 mod_less less_nat_zero_code)
  from this [of "unat (sa_write_version e)" "2 ^ 64" "unat (sa_write_version f)"
      "unat (sa_slot e)" "unat (sa_slot f)"]
  show ?thesis
    using unat_bound64 [of "sa_write_version f"] unat_bound64 [of "sa_write_version e"]
    by (simp add: account_version_def word_unat_eq_iff)
qed

interpretation vs: versioned_store store_get store_upsert sa_pubkey account_version
  by unfold_locales
    (auto simp: store_get_def store_upsert_def is_stale_vs_version fun_eq_iff split: option.splits)

definition upsert_all :: "'a state_store \<Rightarrow> 'a stored_account list \<Rightarrow> 'a state_store" where
  "upsert_all s es = fold (\<lambda>e t. snd (store_upsert t e)) es s"

lemma store_get_eq [simp]: "store_get s = s"
  by (simp add: store_get_def fun_eq_iff)

section \<open>Properties\<close>

text \<open>
  the upsert accepts an entry exactly when its key is absent or its (slot, write version)
  is lexicographically newer than the stored one; an accepted entry becomes the stored one, a
  refused one changes nothing, and no other key is touched.
\<close>

lemma store_upsert_spec:
  "store_upsert s e = (accepted, s') \<Longrightarrow>
     (accepted \<longleftrightarrow> (\<forall>f. s (sa_pubkey e) = Some f \<longrightarrow>
        unat (sa_slot f) < unat (sa_slot e)
        \<or> sa_slot f = sa_slot e \<and> unat (sa_write_version f) < unat (sa_write_version e)))
     \<and> s' = (if accepted then s(sa_pubkey e \<mapsto> e) else s)"
  by (auto simp: store_upsert_def is_stale_vs_def word_less_nat_alt split: option.splits if_splits)

text \<open>
  C27: whatever entries arrive and in whatever order, every key ends with an entry that
  did arrive for it (or was there before) and that no arrived entry for the key is newer than.
\<close>

theorem upsert_all_newest:
  "e \<in> set es \<Longrightarrow>
     \<exists>f. upsert_all s es (sa_pubkey e) = Some f
       \<and> (s (sa_pubkey e) = Some f \<or> f \<in> set es \<and> sa_pubkey f = sa_pubkey e)
       \<and> account_version e \<le> account_version f"
  using vs.fold_put_covers [of e es s] vs.fold_put_sound [of es s "sa_pubkey e"]
  by (fastforce simp: upsert_all_def)

theorem upsert_all_newest_witness:
  "\<exists>f. upsert_all Map.empty
        [stored_account_new 0 10 2 pubkey_default (1::u8) Mock,
         stored_account_new 0 9 7 pubkey_default 2 Rpc] pubkey_default = Some f
     \<and> account_version (stored_account_new 0 9 7 pubkey_default (2::u8) Rpc) \<le> account_version f"
  using upsert_all_newest
      [of "stored_account_new 0 9 7 pubkey_default 2 Rpc"
          "[stored_account_new 0 10 2 pubkey_default (1::u8) Mock,
            stored_account_new 0 9 7 pubkey_default 2 Rpc]" Map.empty]
  by auto

text \<open>
  two feeds that deliver the same entries in different orders (geyser, RPC, replay)
  leave the same store, provided no two different entries carry the same key and version.
\<close>

lemma upsert_all_order_independent:
  assumes "mset es = mset fs"
    and "\<And>e f. e \<in> set es \<Longrightarrow> f \<in> set es \<Longrightarrow> sa_pubkey e = sa_pubkey f \<Longrightarrow> sa_slot e = sa_slot f
           \<Longrightarrow> sa_write_version e = sa_write_version f \<Longrightarrow> e = f"
  shows "upsert_all store_new es = upsert_all store_new fs"
  using vs.fold_put_order [of store_new es fs] assms mset_eq_setD [OF assms(1)]
  by (simp add: upsert_all_def store_new_def account_version_inject)

text \<open>replaying an entry that was accepted or refused before never changes the store.\<close>

lemma store_upsert_idempotent:
  "store_upsert (snd (store_upsert s e)) e = (False, snd (store_upsert s e))"
  using vs.put_twice [of s e] vs.put_get [of "snd (store_upsert s e)" e]
  by (auto simp: prod_eq_iff)

end
