(* ===== verification/CandidateIndex.thy ===== *)
theory CandidateIndex
  imports CoreTypes
begin

text \<open>
  The candidate index of \<^verbatim>\<open>crates/liq-core/src/candidate_index.rs\<close>: candidates by account
  and by band, liquidation price triggers by asset and side, and the scan that finds the
  triggers a price move crosses. Each lock-protected map of the source is a field of the
  record; a \<^verbatim>\<open>HashSet\<close> is a list without duplicates whose order (the iteration order,
  which the standard library leaves open) no theorem depends on, a \<^verbatim>\<open>BTreeMap\<close> from
  prices is a list sorted by price. \<^verbatim>\<open>classify_band\<close> (floating point) is in theory \<open>LiveHealth\<close>.
\<close>

section \<open>The ordered price ladder\<close>

text \<open>What the index needs of the ordered map from trigger prices to sets of accounts.\<close>

locale price_ladder =
  fixes insert_at :: "'m \<Rightarrow> 'p::linorder \<Rightarrow> 'a \<Rightarrow> 'm"
    and remove_at :: "'m \<Rightarrow> 'p \<Rightarrow> 'a \<Rightarrow> 'm"
    and range_of :: "'m \<Rightarrow> 'p \<Rightarrow> 'p \<Rightarrow> ('p \<times> 'a list) list"
    and rel :: "'m \<Rightarrow> ('p \<times> 'a) set"
    and inv :: "'m \<Rightarrow> bool"
  assumes inv_insert: "inv m \<Longrightarrow> inv (insert_at m p a)"
    and inv_remove: "inv m \<Longrightarrow> inv (remove_at m p a)"
    and rel_insert: "inv m \<Longrightarrow> rel (insert_at m p a) = insert (p, a) (rel m)"
    and rel_remove: "inv m \<Longrightarrow> rel (remove_at m p a) = rel m - {(p, a)}"
    and rel_range: "inv m \<Longrightarrow>
      {(q, b). \<exists>bs. (q, bs) \<in> set (range_of m lo hi) \<and> b \<in> set bs}
        = {(q, b) \<in> rel m. lo \<le> q \<and> q \<le> hi}"
    and range_sorted: "inv m \<Longrightarrow> sorted_wrt (<) (map fst (range_of m lo hi))"
    and range_distinct: "inv m \<Longrightarrow> (q, bs) \<in> set (range_of m lo hi) \<Longrightarrow> distinct bs"
begin

lemma range_filter:
  assumes "inv m"
  shows "{(q, b). \<exists>bs. (q, bs) \<in> set (range_of m lo hi) \<and> b \<in> set bs \<and> P q}
      = {(q, b) \<in> rel m. lo \<le> q \<and> q \<le> hi \<and> P q}"
  using rel_range [OF assms, of lo hi] by (auto simp: set_eq_iff)

lemma range_pairs_distinct:
  assumes "inv m"
  shows "distinct (concat (map (\<lambda>(q, bs). if P q then map (Pair q) bs else []) (range_of m lo hi)))"
proof -
  have "distinct (concat (map (\<lambda>(q, bs). if P q then map (Pair q) bs else []) xs))"
    if "sorted_wrt (<) (map fst xs)" "\<And>q bs. (q, bs) \<in> set xs \<Longrightarrow> distinct bs" for xs :: "('p \<times> 'a list) list"
    using that
  proof (induction xs)
    case (Cons x xs)
    obtain q bs where x: "x = (q, bs)" by (cases x)
    have "q < q'" if "(q', bs') \<in> set xs" for q' bs'
      using Cons.prems(1) that x by force
    moreover have "distinct bs" using Cons.prems(2) [of q bs] x by simp
    ultimately show ?case
      using Cons by (auto simp: x distinct_map inj_on_def split: if_splits)
  qed simp
  with range_sorted [OF assms] range_distinct [OF assms] show ?thesis by blast
qed

end

definition hs_insert :: "'a \<Rightarrow> 'a list \<Rightarrow> 'a list" where
  "hs_insert x xs = (if x \<in> set xs then xs else xs @ [x])"

definition hs_remove :: "'a \<Rightarrow> 'a list \<Rightarrow> 'a list" where
  "hs_remove x xs = filter (\<lambda>y. y \<noteq> x) xs"

lemma hs_simps [simp]:
  "set (hs_insert x xs) = insert x (set xs)" "set (hs_remove x xs) = set xs - {x}"
  "distinct xs \<Longrightarrow> distinct (hs_insert x xs)" "distinct xs \<Longrightarrow> distinct (hs_remove x xs)"
  by (auto simp: hs_insert_def hs_remove_def)

type_synonym ladder = "(price_fx \<times> pubkey list) list"

fun ladder_insert :: "ladder \<Rightarrow> price_fx \<Rightarrow> pubkey \<Rightarrow> ladder" where
  "ladder_insert [] p a = [(p, [a])]"
| "ladder_insert ((q, as) # m) p a =
     (if p < q then (p, [a]) # (q, as) # m
      else if p = q then (q, hs_insert a as) # m
      else (q, as) # ladder_insert m p a)"

fun ladder_remove :: "ladder \<Rightarrow> price_fx \<Rightarrow> pubkey \<Rightarrow> ladder" where
  "ladder_remove [] p a = []"
| "ladder_remove ((q, as) # m) p a =
     (if p = q then (let as' = hs_remove a as in if as' = [] then m else (q, as') # m)
      else (q, as) # ladder_remove m p a)"

definition ladder_range :: "ladder \<Rightarrow> price_fx \<Rightarrow> price_fx \<Rightarrow> (price_fx \<times> pubkey list) list" where
  "ladder_range m lo hi = filter (\<lambda>(q, as). lo \<le> q \<and> q \<le> hi) m"

definition ladder_rel :: "ladder \<Rightarrow> (price_fx \<times> pubkey) set" where
  "ladder_rel m = {(p, a). \<exists>as. (p, as) \<in> set m \<and> a \<in> set as}"

definition ladder_inv :: "ladder \<Rightarrow> bool" where
  "ladder_inv m \<longleftrightarrow> sorted_wrt (<) (map fst m) \<and> (\<forall>(p, as) \<in> set m. distinct as \<and> as \<noteq> [])"

lemma ladder_inv_simps [simp]:
  "ladder_inv []"
  "ladder_inv ((q, as) # m) \<longleftrightarrow>
     (\<forall>p \<in> fst ` set m. q < p) \<and> distinct as \<and> as \<noteq> [] \<and> ladder_inv m"
  by (auto simp: ladder_inv_def)

lemma ladder_rel_simps [simp]:
  "ladder_rel [] = {}"
  "ladder_rel ((q, as) # m) = {q} \<times> set as \<union> ladder_rel m"
  by (auto simp: ladder_rel_def)

lemma ladder_rel_dom: "(p, a) \<in> ladder_rel m \<Longrightarrow> p \<in> fst ` set m"
  by (force simp: ladder_rel_def)

lemma keys_ladder_insert: "fst ` set (ladder_insert m p a) = insert p (fst ` set m)"
  by (induction m p a rule: ladder_insert.induct) auto

lemma keys_ladder_remove: "fst ` set (ladder_remove m p a) \<subseteq> fst ` set m"
  by (induction m p a rule: ladder_remove.induct) (auto simp: Let_def)

lemma hs_insert_ne [simp]: "hs_insert a as \<noteq> []"
  by (auto simp: hs_insert_def)

lemma ladder_inv_insert: "ladder_inv m \<Longrightarrow> ladder_inv (ladder_insert m p a)"
  by (induction m p a rule: ladder_insert.induct) (auto simp: keys_ladder_insert)

lemma ladder_inv_remove: "ladder_inv m \<Longrightarrow> ladder_inv (ladder_remove m p a)"
proof (induction m p a rule: ladder_remove.induct)
  case (2 q as m p a)
  then have "\<forall>r \<in> fst ` set (ladder_remove m p a). q < r"
    using keys_ladder_remove [of m p a] by (meson ladder_inv_simps(2) subsetD)
  with 2 show ?case by (auto simp: Let_def)
qed simp

lemma ladder_rel_insert: "ladder_inv m \<Longrightarrow> ladder_rel (ladder_insert m p a) = insert (p, a) (ladder_rel m)"
  by (induction m p a rule: ladder_insert.induct) auto

lemma hs_remove_Nil: "hs_remove a as = [] \<longleftrightarrow> set as \<subseteq> {a}"
  by (auto simp: hs_remove_def filter_empty_conv)

lemma ladder_rel_remove: "ladder_inv m \<Longrightarrow> ladder_rel (ladder_remove m p a) = ladder_rel m - {(p, a)}"
  by (induction m p a rule: ladder_remove.induct)
    (auto simp: Let_def hs_remove_Nil dest: ladder_rel_dom)

interpretation ladder: price_ladder ladder_insert ladder_remove ladder_range ladder_rel ladder_inv
proof (unfold_locales, goal_cases)
  case (5 m lo hi)
  show ?case by (auto simp: ladder_rel_def ladder_range_def)
next
  case (6 m lo hi)
  then have "sorted_wrt (\<lambda>x y. fst x < fst y) m" by (simp add: ladder_inv_def sorted_wrt_map)
  then show ?case by (simp add: ladder_range_def sorted_wrt_map sorted_wrt_filter)
next
  case (7 m q bs lo hi)
  then show ?case by (auto simp: ladder_range_def ladder_inv_def)
qed (simp_all add: ladder_inv_insert ladder_inv_remove ladder_rel_insert ladder_rel_remove)

section \<open>The index\<close>

datatype trigger_side = CollateralDown | DebtUp

record candidate_meta =
  cm_account :: pubkey
  cm_protocol :: protocol
  cm_band :: candidate_band
  cm_health :: health_fx
  cm_assets :: "pubkey list"

record price_trigger =
  pt_account :: pubkey
  pt_asset :: pubkey
  pt_side :: trigger_side
  pt_trigger_price :: price_fx

record asset_index =
  collateral_down :: ladder
  debt_up :: ladder

record candidate_index =
  by_account :: "pubkey \<rightharpoonup> candidate_meta"
  by_band :: "candidate_band \<rightharpoonup> pubkey list"
  by_asset :: "pubkey \<rightharpoonup> asset_index"
  account_triggers :: "pubkey \<rightharpoonup> price_trigger list"

record trigger_hit =
  th_account :: pubkey
  th_asset :: pubkey
  th_side :: trigger_side
  th_trigger_price :: price_fx
  th_new_price :: price_fx

definition index_new :: candidate_index where
  "index_new = \<lparr>by_account = Map.empty, by_band = Map.empty, by_asset = Map.empty,
     account_triggers = Map.empty\<rparr>"

definition or_default :: "'a \<Rightarrow> 'a option \<Rightarrow> 'a" where
  "or_default d v = (case v of None \<Rightarrow> d | Some x \<Rightarrow> x)"

lemma or_default_simps [simp]: "or_default d None = d" "or_default d (Some x) = x"
  by (simp_all add: or_default_def)

text \<open>\<^verbatim>\<open>if let Some(set) = by_band.get_mut(&band) { set.remove(&account); }\<close>\<close>

definition band_remove :: "(candidate_band \<rightharpoonup> pubkey list) \<Rightarrow> candidate_band \<Rightarrow> pubkey
    \<Rightarrow> (candidate_band \<rightharpoonup> pubkey list)" where
  "band_remove bb b a = (case bb b of None \<Rightarrow> bb | Some as \<Rightarrow> bb(b \<mapsto> hs_remove a as))"

definition upsert_candidate :: "candidate_index \<Rightarrow> candidate_meta \<Rightarrow> candidate_index" where
  "upsert_candidate ix meta =
     (let account = cm_account meta; band = cm_band meta;
          bb = (case by_account ix account of
                  None \<Rightarrow> by_band ix
                | Some prev \<Rightarrow> band_remove (by_band ix) (cm_band prev) account)
      in ix\<lparr>by_account := (by_account ix)(account \<mapsto> meta),
            by_band := bb(band \<mapsto> hs_insert account (or_default [] (bb band)))\<rparr>)"

definition empty_asset_index :: asset_index where
  "empty_asset_index = \<lparr>collateral_down = [], debt_up = []\<rparr>"

fun ladder_of :: "trigger_side \<Rightarrow> asset_index \<Rightarrow> ladder" where
  "ladder_of CollateralDown idx = collateral_down idx"
| "ladder_of DebtUp idx = debt_up idx"

fun map_ladder :: "trigger_side \<Rightarrow> (ladder \<Rightarrow> ladder) \<Rightarrow> asset_index \<Rightarrow> asset_index" where
  "map_ladder CollateralDown f idx = idx\<lparr>collateral_down := f (collateral_down idx)\<rparr>"
| "map_ladder DebtUp f idx = idx\<lparr>debt_up := f (debt_up idx)\<rparr>"

definition remove_trigger ::
    "pubkey \<Rightarrow> price_trigger \<Rightarrow> (pubkey \<rightharpoonup> asset_index) \<Rightarrow> (pubkey \<rightharpoonup> asset_index)" where
  "remove_trigger account t ba =
     (case ba (pt_asset t) of
        None \<Rightarrow> ba
      | Some idx \<Rightarrow> ba(pt_asset t \<mapsto>
          map_ladder (pt_side t) (\<lambda>m. ladder_remove m (pt_trigger_price t) account) idx))"

definition insert_trigger ::
    "pubkey \<Rightarrow> price_trigger \<Rightarrow> (pubkey \<rightharpoonup> asset_index) \<Rightarrow> (pubkey \<rightharpoonup> asset_index)" where
  "insert_trigger account t ba =
     ba(pt_asset t \<mapsto>
          map_ladder (pt_side t) (\<lambda>m. ladder_insert m (pt_trigger_price t) account)
            (or_default empty_asset_index (ba (pt_asset t))))"

definition clear_triggers :: "candidate_index \<Rightarrow> pubkey \<Rightarrow> candidate_index" where
  "clear_triggers ix account =
     (case account_triggers ix account of
        None \<Rightarrow> ix
      | Some old \<Rightarrow> ix\<lparr>account_triggers := (account_triggers ix)(account := None),
                      by_asset := fold (remove_trigger account) old (by_asset ix)\<rparr>)"

definition set_triggers :: "candidate_index \<Rightarrow> pubkey \<Rightarrow> price_trigger list \<Rightarrow> candidate_index" where
  "set_triggers ix account triggers =
     (let ix' = clear_triggers ix account
      in ix'\<lparr>by_asset := fold (insert_trigger account) triggers (by_asset ix'),
             account_triggers := (account_triggers ix')(account \<mapsto> triggers)\<rparr>)"

definition remove_candidate :: "candidate_index \<Rightarrow> pubkey \<Rightarrow> candidate_index" where
  "remove_candidate ix account =
     (let ix' = clear_triggers ix account
      in case by_account ix' account of
           None \<Rightarrow> ix'
         | Some prev \<Rightarrow> ix'\<lparr>by_account := (by_account ix')(account := None),
                            by_band := band_remove (by_band ix') (cm_band prev) account\<rparr>)"

definition accounts_in_band :: "candidate_index \<Rightarrow> candidate_band \<Rightarrow> pubkey list" where
  "accounts_in_band ix b = or_default [] (by_band ix b)"

definition candidate_count :: "candidate_index \<Rightarrow> nat" where
  "candidate_count ix = card (dom (by_account ix))"

definition trigger_count :: "candidate_index \<Rightarrow> nat" where
  "trigger_count ix = (\<Sum>a \<in> dom (account_triggers ix). length (the (account_triggers ix a)))"

text \<open>
  The scan of \<^verbatim>\<open>on_price_update\<close>: the range of the ladder between the two prices, the strict
  crossing test, one hit per account.
\<close>

definition scan_ladder ::
    "(price_fx \<Rightarrow> bool) \<Rightarrow> pubkey \<Rightarrow> trigger_side \<Rightarrow> price_fx \<Rightarrow> (price_fx \<times> pubkey list) list
      \<Rightarrow> trigger_hit list" where
  "scan_ladder crossed asset side new_price entries =
     concat (map (\<lambda>(trig_px, accounts).
       if crossed trig_px
       then map (\<lambda>account. \<lparr>th_account = account, th_asset = asset, th_side = side,
                  th_trigger_price = trig_px, th_new_price = new_price\<rparr>) accounts
       else []) entries)"

definition on_price_update ::
    "candidate_index \<Rightarrow> pubkey \<Rightarrow> price_fx \<Rightarrow> price_fx \<Rightarrow> trigger_hit list" where
  "on_price_update ix asset prev_price new_price =
     (case by_asset ix asset of
        None \<Rightarrow> []
      | Some idx \<Rightarrow>
          if new_price < prev_price then
            scan_ladder (\<lambda>trig. trig < prev_price \<and> new_price \<le> trig) asset CollateralDown new_price
              (ladder_range (collateral_down idx) new_price prev_price)
          else if prev_price < new_price then
            scan_ladder (\<lambda>trig. prev_price < trig \<and> trig \<le> new_price) asset DebtUp new_price
              (ladder_range (debt_up idx) prev_price new_price)
          else [])"

section \<open>Invariant\<close>

text \<open>
  The two secondary maps are determined by the two primary ones: an account is in a band's set
  exactly when its stored meta has that band, and in a ladder at a price exactly when one of
  its stored triggers says so.
\<close>

definition ba_inv :: "(pubkey \<rightharpoonup> asset_index) \<Rightarrow> bool" where
  "ba_inv ba \<longleftrightarrow> (\<forall>asset idx side. ba asset = Some idx \<longrightarrow> ladder_inv (ladder_of side idx))"

definition ba_rel :: "(pubkey \<rightharpoonup> asset_index) \<Rightarrow> (pubkey \<times> trigger_side \<times> price_fx \<times> pubkey) set" where
  "ba_rel ba = {(asset, side, p, a). \<exists>idx. ba asset = Some idx \<and> (p, a) \<in> ladder_rel (ladder_of side idx)}"

definition trigger_key :: "pubkey \<Rightarrow> price_trigger \<Rightarrow> pubkey \<times> trigger_side \<times> price_fx \<times> pubkey" where
  "trigger_key a t = (pt_asset t, pt_side t, pt_trigger_price t, a)"

definition trigger_keys ::
    "(pubkey \<rightharpoonup> price_trigger list) \<Rightarrow> (pubkey \<times> trigger_side \<times> price_fx \<times> pubkey) set" where
  "trigger_keys at = {(asset, side, p, a).
     \<exists>ts. at a = Some ts \<and> (\<exists>t \<in> set ts. pt_asset t = asset \<and> pt_side t = side \<and> pt_trigger_price t = p)}"

definition trigger_inv :: "candidate_index \<Rightarrow> bool" where
  "trigger_inv ix \<longleftrightarrow> ba_inv (by_asset ix) \<and> ba_rel (by_asset ix) = trigger_keys (account_triggers ix)"

definition band_inv :: "candidate_index \<Rightarrow> bool" where
  "band_inv ix \<longleftrightarrow>
     (\<forall>b as. by_band ix b = Some as \<longrightarrow> distinct as)
     \<and> (\<forall>b a. a \<in> set (accounts_in_band ix b) \<longleftrightarrow> (\<exists>m. by_account ix a = Some m \<and> cm_band m = b))
     \<and> (\<forall>a m. by_account ix a = Some m \<longrightarrow> cm_account m = a)"

lemma trigger_keys_upd:
  "trigger_keys (at(a := None)) = trigger_keys at - (\<Union>ts \<in> set_option (at a). trigger_key a ` set ts)"
  "trigger_keys (at(a \<mapsto> us)) = trigger_keys (at(a := None)) \<union> trigger_key a ` set us"
  by (force simp: trigger_keys_def trigger_key_def split: if_splits)+

lemma ladder_of_map_ladder:
  "ladder_of side (map_ladder side' f idx) =
     (if side = side' then f (ladder_of side idx) else ladder_of side idx)"
  by (cases side; cases side') auto

lemma ladder_of_empty [simp]: "ladder_of side empty_asset_index = []"
  by (cases side) (auto simp: empty_asset_index_def)

lemma ba_inv_remove: "ba_inv ba \<Longrightarrow> ba_inv (remove_trigger a t ba)"
  by (auto simp: ba_inv_def remove_trigger_def ladder_of_map_ladder ladder.inv_remove split: option.splits)

lemma ba_inv_insert: "ba_inv ba \<Longrightarrow> ba_inv (insert_trigger a t ba)"
  by (auto simp: ba_inv_def insert_trigger_def ladder_of_map_ladder or_default_def
      split: option.splits intro!: ladder.inv_insert)

lemma ba_rel_remove: "ba_inv ba \<Longrightarrow> ba_rel (remove_trigger a t ba) = ba_rel ba - {trigger_key a t}"
  by (auto simp: ba_rel_def ba_inv_def remove_trigger_def trigger_key_def ladder_of_map_ladder
      ladder.rel_remove split: option.splits if_splits)

lemma ba_rel_insert: "ba_inv ba \<Longrightarrow> ba_rel (insert_trigger a t ba) = insert (trigger_key a t) (ba_rel ba)"
  by (auto simp: ba_rel_def ba_inv_def insert_trigger_def trigger_key_def ladder_of_map_ladder
      ladder.rel_insert or_default_def split: option.splits if_splits)

lemma fold_remove_trigger:
  "ba_inv ba \<Longrightarrow> ba_inv (fold (remove_trigger a) ts ba)
     \<and> ba_rel (fold (remove_trigger a) ts ba) = ba_rel ba - trigger_key a ` set ts"
  by (induction ts arbitrary: ba) (auto simp: ba_inv_remove ba_rel_remove)

lemma fold_insert_trigger:
  "ba_inv ba \<Longrightarrow> ba_inv (fold (insert_trigger a) ts ba)
     \<and> ba_rel (fold (insert_trigger a) ts ba) = ba_rel ba \<union> trigger_key a ` set ts"
  by (induction ts arbitrary: ba) (auto simp: ba_inv_insert ba_rel_insert)

lemma clear_triggers_frame [frame_simps, simp]:
  "by_account (clear_triggers ix a) = by_account ix" "by_band (clear_triggers ix a) = by_band ix"
  "account_triggers (clear_triggers ix a) = (account_triggers ix)(a := None)"
  by (auto simp: clear_triggers_def split: option.splits)

lemma set_triggers_frame [frame_simps, simp]:
  "by_account (set_triggers ix a ts) = by_account ix" "by_band (set_triggers ix a ts) = by_band ix"
  "account_triggers (set_triggers ix a ts) = (account_triggers ix)(a \<mapsto> ts)"
  by (auto simp: set_triggers_def Let_def)

lemma upsert_candidate_frame [frame_simps, simp]:
  "by_asset (upsert_candidate ix m) = by_asset ix"
  "account_triggers (upsert_candidate ix m) = account_triggers ix"
  "by_account (upsert_candidate ix m) = (by_account ix)(cm_account m \<mapsto> m)"
  by (auto simp: upsert_candidate_def Let_def)

lemma remove_candidate_frame [frame_simps, simp]:
  "by_asset (remove_candidate ix a) = by_asset (clear_triggers ix a)"
  "account_triggers (remove_candidate ix a) = (account_triggers ix)(a := None)"
  "by_account (remove_candidate ix a) = (by_account ix)(a := None)"
  by (auto simp: remove_candidate_def Let_def split: option.splits)

lemma clear_triggers_inv: "trigger_inv ix \<Longrightarrow> trigger_inv (clear_triggers ix a)"
proof (cases "account_triggers ix a")
  case None
  assume "trigger_inv ix"
  with None show ?thesis by (simp add: clear_triggers_def)
next
  case (Some old)
  assume inv: "trigger_inv ix"
  then have 1: "ba_inv (by_asset ix)" by (simp add: trigger_inv_def)
  from inv Some fold_remove_trigger [OF 1, of a old] show ?thesis
    by (simp add: trigger_inv_def clear_triggers_def trigger_keys_upd)
qed

lemma set_triggers_inv:
  assumes "trigger_inv ix" shows "trigger_inv (set_triggers ix a ts)"
proof -
  let ?c = "clear_triggers ix a"
  have c: "trigger_inv ?c" using assms by (rule clear_triggers_inv)
  then have 1: "ba_inv (by_asset ?c)" by (simp add: trigger_inv_def)
  have "by_asset (set_triggers ix a ts) = fold (insert_trigger a) ts (by_asset ?c)"
    by (simp add: set_triggers_def Let_def)
  with c fold_insert_trigger [OF 1, of a ts] show ?thesis
    by (simp add: trigger_inv_def trigger_keys_upd(2))
qed

lemma accounts_in_band_cong: "by_band ix = by_band iy \<Longrightarrow> accounts_in_band ix = accounts_in_band iy"
  by (simp add: accounts_in_band_def fun_eq_iff)

lemma or_default_band_remove:
  "set (or_default [] (band_remove bb b a b')) =
     (if b' = b then set (or_default [] (bb b)) - {a} else set (or_default [] (bb b')))"
  by (auto simp: band_remove_def split: option.splits)

lemma band_remove_distinct:
  "\<forall>b as. bb b = Some as \<longrightarrow> distinct as \<Longrightarrow> \<forall>b as. band_remove bb c a b = Some as \<longrightarrow> distinct as"
  by (auto simp: band_remove_def split: option.splits)

lemma or_default_distinct:
  "\<forall>b as. bb b = Some as \<longrightarrow> distinct as \<Longrightarrow> distinct (or_default [] (bb b))"
  by (cases "bb b") auto

lemma upsert_candidate_band_inv:
  assumes "band_inv ix" shows "band_inv (upsert_candidate ix m)"
proof (cases "by_account ix (cm_account m)")
  case None
  then have "by_band (upsert_candidate ix m) = (by_band ix)
      (cm_band m \<mapsto> hs_insert (cm_account m) (or_default [] (by_band ix (cm_band m))))"
    by (simp add: upsert_candidate_def Let_def)
  with assms None show ?thesis
    by (auto simp: band_inv_def accounts_in_band_def or_default_distinct)
next
  case (Some prev)
  let ?bb = "band_remove (by_band ix) (cm_band prev) (cm_account m)"
  have "by_band (upsert_candidate ix m) = ?bb
      (cm_band m \<mapsto> hs_insert (cm_account m) (or_default [] (?bb (cm_band m))))"
    using Some by (simp add: upsert_candidate_def Let_def)
  moreover have "\<forall>b as. ?bb b = Some as \<longrightarrow> distinct as"
    using assms by (intro band_remove_distinct) (simp add: band_inv_def)
  ultimately show ?thesis
    using assms Some
    by (auto simp: band_inv_def accounts_in_band_def or_default_distinct or_default_band_remove)
qed

lemma remove_candidate_band_inv:
  assumes "band_inv ix" shows "band_inv (remove_candidate ix a)"
proof (cases "by_account ix a")
  case None
  then have "by_band (remove_candidate ix a) = by_band ix"
    by (simp add: remove_candidate_def Let_def)
  with assms None show ?thesis
    by (auto simp: band_inv_def accounts_in_band_def)
next
  case (Some prev)
  then have bb: "by_band (remove_candidate ix a) = band_remove (by_band ix) (cm_band prev) a"
    by (simp add: remove_candidate_def Let_def)
  have "\<forall>b as. band_remove (by_band ix) (cm_band prev) a b = Some as \<longrightarrow> distinct as"
    using assms by (intro band_remove_distinct) (simp add: band_inv_def)
  with assms Some show ?thesis
    by (auto simp: band_inv_def accounts_in_band_def bb or_default_band_remove)
qed

section \<open>Runs\<close>

datatype index_op =
    UpsertCandidate candidate_meta
  | RemoveCandidate pubkey
  | SetTriggers pubkey "price_trigger list"
  | ClearTriggers pubkey

fun index_step :: "index_op \<Rightarrow> candidate_index \<Rightarrow> candidate_index" where
  "index_step (UpsertCandidate m) ix = upsert_candidate ix m"
| "index_step (RemoveCandidate a) ix = remove_candidate ix a"
| "index_step (SetTriggers a ts) ix = set_triggers ix a ts"
| "index_step (ClearTriggers a) ix = clear_triggers ix a"

definition index_run :: "index_op list \<Rightarrow> candidate_index" where
  "index_run ops = fold index_step ops index_new"

lemma upsert_candidate_trigger_inv: "trigger_inv ix \<Longrightarrow> trigger_inv (upsert_candidate ix m)"
  by (simp add: trigger_inv_def)

lemma remove_candidate_trigger_inv: "trigger_inv ix \<Longrightarrow> trigger_inv (remove_candidate ix a)"
  using clear_triggers_inv [of ix a] by (simp add: trigger_inv_def)

lemma band_inv_cong:
  "by_account ix = by_account iy \<Longrightarrow> by_band ix = by_band iy \<Longrightarrow> band_inv ix \<longleftrightarrow> band_inv iy"
  by (simp add: band_inv_def accounts_in_band_def)

lemma clear_triggers_band_inv: "band_inv (clear_triggers ix a) \<longleftrightarrow> band_inv ix"
  by (rule band_inv_cong) simp_all

lemma set_triggers_band_inv: "band_inv (set_triggers ix a ts) \<longleftrightarrow> band_inv ix"
  by (rule band_inv_cong) simp_all

lemmas index_op_inv = upsert_candidate_trigger_inv remove_candidate_trigger_inv set_triggers_inv
  clear_triggers_inv upsert_candidate_band_inv remove_candidate_band_inv

lemma index_step_inv:
  "trigger_inv ix \<and> band_inv ix \<Longrightarrow> trigger_inv (index_step op ix) \<and> band_inv (index_step op ix)"
  by (cases op) (simp_all add: index_op_inv set_triggers_band_inv clear_triggers_band_inv)

lemma index_new_inv: "trigger_inv index_new \<and> band_inv index_new"
  by (auto simp: trigger_inv_def band_inv_def index_new_def ba_inv_def ba_rel_def trigger_keys_def
      accounts_in_band_def)

lemma index_run_inv: "trigger_inv (index_run ops) \<and> band_inv (index_run ops)"
  unfolding index_run_def using index_new_inv
  by (rule fold_invariant [where Q = "\<lambda>_. True", rotated]) (auto simp: index_step_inv)

section \<open>Properties\<close>

fun crossed :: "trigger_side \<Rightarrow> price_fx \<Rightarrow> price_fx \<Rightarrow> price_fx \<Rightarrow> bool" where
  "crossed CollateralDown prev new trig \<longleftrightarrow> new \<le> trig \<and> trig < prev"
| "crossed DebtUp prev new trig \<longleftrightarrow> prev < trig \<and> trig \<le> new"

definition has_trigger :: "candidate_index \<Rightarrow> pubkey \<Rightarrow> pubkey \<Rightarrow> trigger_side \<Rightarrow> price_fx \<Rightarrow> bool" where
  "has_trigger ix account asset side p \<longleftrightarrow>
     (\<exists>ts t. account_triggers ix account = Some ts \<and> t \<in> set ts
        \<and> pt_asset t = asset \<and> pt_side t = side \<and> pt_trigger_price t = p)"

lemma scan_ladder_map:
  "scan_ladder c asset side new entries =
     map (\<lambda>(p, a). \<lparr>th_account = a, th_asset = asset, th_side = side, th_trigger_price = p, th_new_price = new\<rparr>)
       (concat (map (\<lambda>(q, bs). if c q then map (Pair q) bs else []) entries))"
  by (induction entries) (auto simp: scan_ladder_def)

lemma trigger_inv_ladder:
  assumes "trigger_inv ix" "by_asset ix asset = Some idx"
  shows "ladder_inv (ladder_of side idx)"
    and "(p, a) \<in> ladder_rel (ladder_of side idx) \<longleftrightarrow> has_trigger ix a asset side p"
proof -
  show "ladder_inv (ladder_of side idx)"
    using assms by (simp add: trigger_inv_def ba_inv_def)
  have "(asset, side, p, a) \<in> ba_rel (by_asset ix) \<longleftrightarrow> (asset, side, p, a) \<in> trigger_keys (account_triggers ix)"
    using assms(1) by (simp add: trigger_inv_def)
  then show "(p, a) \<in> ladder_rel (ladder_of side idx) \<longleftrightarrow> has_trigger ix a asset side p"
    using assms(2) by (auto simp: ba_rel_def trigger_keys_def has_trigger_def)
qed

lemma trigger_inv_no_asset:
  assumes "trigger_inv ix" "by_asset ix asset = None"
  shows "\<not> has_trigger ix a asset side p"
proof
  assume "has_trigger ix a asset side p"
  then have "(asset, side, p, a) \<in> trigger_keys (account_triggers ix)"
    by (auto simp: trigger_keys_def has_trigger_def)
  then have "(asset, side, p, a) \<in> ba_rel (by_asset ix)"
    using assms(1) by (simp add: trigger_inv_def)
  with assms(2) show False by (simp add: ba_rel_def)
qed

lemma scan_ladder_correct:
  assumes "trigger_inv ix" "by_asset ix asset = Some idx"
    and m: "m = ladder_of side idx"
  shows "distinct (scan_ladder c asset side new (ladder_range m lo hi))"
    and "h \<in> set (scan_ladder c asset side new (ladder_range m lo hi)) \<longleftrightarrow>
       th_asset h = asset \<and> th_side h = side \<and> th_new_price h = new
       \<and> has_trigger ix (th_account h) asset side (th_trigger_price h)
       \<and> c (th_trigger_price h) \<and> lo \<le> th_trigger_price h \<and> th_trigger_price h \<le> hi"
proof -
  note inv = trigger_inv_ladder(1) [OF assms(1,2), of side, folded m]
  show "distinct (scan_ladder c asset side new (ladder_range m lo hi))"
    using ladder.range_pairs_distinct [OF inv, of c lo hi]
    by (auto simp: scan_ladder_map distinct_map inj_on_def)
  let ?l = "concat (map (\<lambda>(q, bs). if c q then map (Pair q) bs else []) (ladder_range m lo hi))"
  have "set ?l = {(q, b). \<exists>bs. (q, bs) \<in> set (ladder_range m lo hi) \<and> b \<in> set bs \<and> c q}"
    by (auto split: if_splits)
  also have "\<dots> = {(q, b) \<in> ladder_rel m. lo \<le> q \<and> q \<le> hi \<and> c q}"
    by (rule ladder.range_filter [OF inv])
  finally have "set ?l = {(q, b). has_trigger ix b asset side q \<and> lo \<le> q \<and> q \<le> hi \<and> c q}"
    using trigger_inv_ladder(2) [OF assms(1,2)] by (auto simp: m)
  then show "h \<in> set (scan_ladder c asset side new (ladder_range m lo hi)) \<longleftrightarrow>
       th_asset h = asset \<and> th_side h = side \<and> th_new_price h = new
       \<and> has_trigger ix (th_account h) asset side (th_trigger_price h)
       \<and> c (th_trigger_price h) \<and> lo \<le> th_trigger_price h \<and> th_trigger_price h \<le> hi"
    unfolding scan_ladder_map set_map image_iff by (cases h) (auto simp del: set_concat)
qed

lemma on_price_update_iff:
  assumes "trigger_inv ix"
  shows "distinct (on_price_update ix asset prev new)"
    and "h \<in> set (on_price_update ix asset prev new) \<longleftrightarrow>
       th_asset h = asset \<and> th_new_price h = new
       \<and> has_trigger ix (th_account h) asset (th_side h) (th_trigger_price h)
       \<and> crossed (th_side h) prev new (th_trigger_price h)"
proof -
  have "distinct (on_price_update ix asset prev new) \<and>
      (h \<in> set (on_price_update ix asset prev new) \<longleftrightarrow>
       th_asset h = asset \<and> th_new_price h = new
       \<and> has_trigger ix (th_account h) asset (th_side h) (th_trigger_price h)
       \<and> crossed (th_side h) prev new (th_trigger_price h))"
  proof (cases "by_asset ix asset")
    case None
    with trigger_inv_no_asset [OF assms] show ?thesis by (simp add: on_price_update_def)
  next
    case (Some idx)
    note down = scan_ladder_correct [OF assms Some, of "collateral_down idx" CollateralDown]
      and up = scan_ladder_correct [OF assms Some, of "debt_up idx" DebtUp]
    consider "new < prev" | "prev < new" | "new = prev" by (rule linorder_cases)
    then show ?thesis
      using Some by cases (cases "th_side h"; auto simp: on_price_update_def down up)+
  qed
  then show "distinct (on_price_update ix asset prev new)"
    and "h \<in> set (on_price_update ix asset prev new) \<longleftrightarrow>
       th_asset h = asset \<and> th_new_price h = new
       \<and> has_trigger ix (th_account h) asset (th_side h) (th_trigger_price h)
       \<and> crossed (th_side h) prev new (th_trigger_price h)"
    by auto
qed

lemma bands_card:
  assumes inv: "band_inv ix" and fin: "finite (dom (by_account ix))"
  shows "(\<Sum>b \<in> {Critical, Hot, Warm, Cold}. length (accounts_in_band ix b)) = candidate_count ix"
proof -
  have len: "length (accounts_in_band ix b) = card {a. \<exists>m. by_account ix a = Some m \<and> cm_band m = b}" for b
  proof -
    have "distinct (accounts_in_band ix b)"
      using inv by (cases "by_band ix b") (auto simp: band_inv_def accounts_in_band_def)
    then have "length (accounts_in_band ix b) = card (set (accounts_in_band ix b))"
      by (simp add: distinct_card)
    also have "set (accounts_in_band ix b) = {a. \<exists>m. by_account ix a = Some m \<and> cm_band m = b}"
      using inv by (auto simp: band_inv_def)
    finally show ?thesis .
  qed
  have "dom (by_account ix) = (\<Union>b \<in> {Critical, Hot, Warm, Cold}. {a. \<exists>m. by_account ix a = Some m \<and> cm_band m = b})"
    by (auto simp: dom_def) (metis candidate_band.exhaust)
  then have "candidate_count ix = card (\<Union>b \<in> {Critical, Hot, Warm, Cold}. {a. \<exists>m. by_account ix a = Some m \<and> cm_band m = b})"
    by (simp add: candidate_count_def)
  also have "\<dots> = (\<Sum>b \<in> {Critical, Hot, Warm, Cold}. card {a. \<exists>m. by_account ix a = Some m \<and> cm_band m = b})"
    by (rule card_UN_disjoint) (auto intro: finite_subset [OF _ fin])
  finally show ?thesis by (simp add: len)
qed

lemma finite_step: "finite (dom (by_account ix)) \<Longrightarrow> finite (dom (by_account (index_step op ix)))"
  by (cases op) simp_all

lemma finite_run: "finite (dom (by_account (index_run ops)))"
  unfolding index_run_def
  by (rule fold_invariant [where Q = "\<lambda>_. True", rotated]) (auto simp: finite_step index_new_def)

text \<open>
  C8: After any sequence of operations the four secondary structures agree: an account is in
  the set of a band exactly when its stored meta has that band, it is in one band only, the sets
  have no duplicates, their sizes add up to the number of candidates, and the price ladders hold
  exactly the stored triggers, sorted by price with no empty bucket.
\<close>

theorem index_run_consistent:
  "trigger_inv (index_run ops) \<and> band_inv (index_run ops)
     \<and> (\<Sum>b \<in> {Critical, Hot, Warm, Cold}. length (accounts_in_band (index_run ops) b))
       = candidate_count (index_run ops)"
  using index_run_inv bands_card [OF conjunct2 [OF index_run_inv] finite_run] by blast

text \<open>
  C9: A price update of an asset reports every stored trigger it crosses and no other, each
  once: a collateral trigger when the price falls from above it to it or below, a debt trigger
  when the price rises from below it to it or above.
\<close>

theorem on_price_update_correct:
  "distinct (on_price_update (index_run ops) asset prev new)
     \<and> (h \<in> set (on_price_update (index_run ops) asset prev new) \<longleftrightarrow>
         th_asset h = asset \<and> th_new_price h = new
         \<and> has_trigger (index_run ops) (th_account h) asset (th_side h) (th_trigger_price h)
         \<and> crossed (th_side h) prev new (th_trigger_price h))"
  by (rule conjI) (rule on_price_update_iff [OF conjunct1 [OF index_run_inv]])+

definition hit_keys :: "trigger_hit list \<Rightarrow> (pubkey \<times> trigger_side \<times> price_fx) set" where
  "hit_keys hs = (\<lambda>h. (th_account h, th_side h, th_trigger_price h)) ` set hs"

lemma hit_keys_iff:
  "trigger_inv ix \<Longrightarrow> (a, side, p) \<in> hit_keys (on_price_update ix asset prev new) \<longleftrightarrow>
     has_trigger ix a asset side p \<and> crossed side prev new p"
proof
  assume inv: "trigger_inv ix" and "has_trigger ix a asset side p \<and> crossed side prev new p"
  then have "\<lparr>th_account = a, th_asset = asset, th_side = side, th_trigger_price = p, th_new_price = new\<rparr>
      \<in> set (on_price_update ix asset prev new)"
    by (simp add: on_price_update_iff(2))
  then show "(a, side, p) \<in> hit_keys (on_price_update ix asset prev new)"
    by (force simp: hit_keys_def)
qed (auto simp: hit_keys_def on_price_update_iff(2))

text \<open>
  Replaying a monotone price move in two steps fires the same triggers as the move at once,
  each in exactly one of the two steps (no trigger is lost or fired twice at the intermediate
  price).
\<close>

lemma on_price_update_split:
  assumes "p0 \<le> p1 \<and> p1 \<le> p2 \<or> p2 \<le> p1 \<and> p1 \<le> p0"
  shows "hit_keys (on_price_update (index_run ops) asset p0 p2) =
           hit_keys (on_price_update (index_run ops) asset p0 p1)
           \<union> hit_keys (on_price_update (index_run ops) asset p1 p2)
         \<and> hit_keys (on_price_update (index_run ops) asset p0 p1)
           \<inter> hit_keys (on_price_update (index_run ops) asset p1 p2) = {}"
proof -
  note iff = hit_keys_iff [OF conjunct1 [OF index_run_inv]]
  have "crossed side p0 p2 p \<longleftrightarrow> crossed side p0 p1 p \<or> crossed side p1 p2 p"
    and "\<not> (crossed side p0 p1 p \<and> crossed side p1 p2 p)" for side p
    using assms by (cases side; auto)+
  then show ?thesis by (auto simp: set_eq_iff iff)
qed

end
