(* ===== verification/Metrics.thy ===== *)
theory Metrics
  imports Prelude
begin

text \<open>
  The metrics registry of \<^verbatim>\<open>crates/liq-telemetry/src/metrics.rs\<close>: counters,
  gauges, the bucketed histogram and the Prometheus text. An atomic is its value;
  \<^verbatim>\<open>fetch_add\<close> wraps around, as the standard library documents.
\<close>

section \<open>Counters, gauges, histogram\<close>

type_synonym counter = u64
type_synonym gauge = u64

definition counter_add :: "counter \<Rightarrow> u64 \<Rightarrow> counter" where
  "counter_add c n = c + n"

definition counter_inc :: "counter \<Rightarrow> counter" where
  "counter_inc c = counter_add c 1"

definition gauge_set :: "gauge \<Rightarrow> u64 \<Rightarrow> gauge" where
  "gauge_set g v = v"

record histogram =
  hg_bounds :: "u64 list"
  hg_counts :: "u64 list"
  hg_sum :: u64
  hg_count :: u64

definition with_buckets :: "u64 list \<Rightarrow> histogram" where
  "with_buckets bounds =
     \<lparr>hg_bounds = bounds, hg_counts = replicate (length bounds + 1) 0, hg_sum = 0, hg_count = 0\<rparr>"

text \<open>The loop of \<^verbatim>\<open>observe\<close>: the first bound that is at least the value, or the overflow
  bucket.\<close>

fun bucket_from :: "nat \<Rightarrow> u64 list \<Rightarrow> u64 \<Rightarrow> nat option" where
  "bucket_from i [] v = None"
| "bucket_from i (b # bs) v = (if v \<le> b then Some i else bucket_from (i + 1) bs v)"

definition bucket_index :: "histogram \<Rightarrow> u64 \<Rightarrow> nat" where
  "bucket_index h v =
     (case bucket_from 0 (hg_bounds h) v of Some i \<Rightarrow> i | None \<Rightarrow> length (hg_counts h) - 1)"

definition observe :: "histogram \<Rightarrow> u64 \<Rightarrow> histogram" where
  "observe h v =
     (let i = bucket_index h v
      in h\<lparr>hg_sum := hg_sum h + v, hg_count := hg_count h + 1,
           hg_counts := (hg_counts h)[i := hg_counts h ! i + 1]\<rparr>)"

definition histogram_wf :: "histogram \<Rightarrow> bool" where
  "histogram_wf h \<longleftrightarrow> length (hg_counts h) = length (hg_bounds h) + 1"

lemma bucket_from_bound: "bucket_from i bs v = Some j \<Longrightarrow> i \<le> j \<and> j < i + length bs"
  by (induction i bs v rule: bucket_from.induct) (auto split: if_splits)

lemma bucket_from_spec:
  "bucket_from i bs v = r \<Longrightarrow>
     (case r of
        Some j \<Rightarrow> i \<le> j \<and> j < i + length bs \<and> v \<le> bs ! (j - i) \<and> (\<forall>k < j - i. bs ! k < v)
      | None \<Rightarrow> \<forall>b \<in> set bs. b < v)"
proof (induction i bs v arbitrary: r rule: bucket_from.induct)
  case (2 i b bs v)
  show ?case
  proof (cases "v \<le> b")
    case False
    then have eq: "bucket_from (i + 1) bs v = r" using "2.prems" by simp
    from "2.IH" [OF False eq] False show ?thesis
      by (auto simp: nth_Cons split: option.splits nat.splits)
        (metis Suc_diff_Suc Suc_le_eq nat.inject)
  qed (use "2.prems" in auto)
qed auto

lemma bucket_index_bound: "histogram_wf h \<Longrightarrow> bucket_index h v < length (hg_counts h)"
  using bucket_from_bound [of 0 "hg_bounds h" v]
  by (auto simp: bucket_index_def histogram_wf_def split: option.splits)

lemma sum_list_update_inc:
  "i < length xs \<Longrightarrow> sum_list (xs[i := xs ! i + 1]) = sum_list xs + (1 :: 'a::len word)"
  by (induction xs arbitrary: i) (auto simp: nth_Cons split: nat.splits)

lemma observe_wf [simp]: "histogram_wf h \<Longrightarrow> histogram_wf (observe h v)"
  by (simp add: observe_def histogram_wf_def Let_def)

lemma observe_counts_sum:
  "histogram_wf h \<Longrightarrow> sum_list (hg_counts (observe h v)) = sum_list (hg_counts h) + 1"
  by (simp add: observe_def Let_def sum_list_update_inc bucket_index_bound)

lemma with_buckets_wf [simp]: "histogram_wf (with_buckets bs)"
  by (simp add: histogram_wf_def with_buckets_def)

definition observe_all :: "u64 list \<Rightarrow> u64 list \<Rightarrow> histogram" where
  "observe_all bs vs = fold (\<lambda>v g. observe g v) vs (with_buckets bs)"

lemma histogram_invariant:
  assumes h: "h = observe_all bs vs"
  shows "histogram_wf h" "hg_bounds h = bs" "sum_list (hg_counts h) = hg_count h"
    "hg_count h = word_of_nat (length vs)" "hg_sum h = sum_list vs"
proof -
  have "histogram_wf (fold (\<lambda>v g. observe g v) vs g)
      \<and> hg_bounds (fold (\<lambda>v g. observe g v) vs g) = hg_bounds g
      \<and> sum_list (hg_counts (fold (\<lambda>v g. observe g v) vs g)) = sum_list (hg_counts g) + word_of_nat (length vs)
      \<and> hg_count (fold (\<lambda>v g. observe g v) vs g) = hg_count g + word_of_nat (length vs)
      \<and> hg_sum (fold (\<lambda>v g. observe g v) vs g) = hg_sum g + sum_list vs"
    if "histogram_wf g" for g
    using that
  proof (induction vs arbitrary: g)
    case (Cons v vs)
    have "hg_bounds (observe g v) = hg_bounds g" "hg_count (observe g v) = hg_count g + 1"
      "hg_sum (observe g v) = hg_sum g + v"
      by (simp_all add: observe_def Let_def)
    with Cons.IH [of "observe g v"] Cons.prems show ?case
      by (simp add: observe_counts_sum)
  qed simp
  from this [OF with_buckets_wf [of bs]] show "histogram_wf h" "hg_bounds h = bs"
    "sum_list (hg_counts h) = hg_count h" "hg_count h = word_of_nat (length vs)" "hg_sum h = sum_list vs"
    by (simp_all add: h observe_all_def with_buckets_def sum_list_replicate)
qed

section \<open>The registry\<close>

record metrics =
  m_oracle_updates :: counter
  m_trigger_hits :: counter
  m_candidates_woken :: counter
  m_liquidations_attempted :: counter
  m_liquidations_succeeded :: counter
  m_liquidations_failed :: counter
  m_dry_run_skips :: counter
  m_circuit_breaker_trips :: counter
  m_candidates_critical :: gauge
  m_candidates_hot :: gauge
  m_submit_latency_us :: histogram
  m_labels :: "string \<rightharpoonup> string"

definition metrics_new :: metrics where
  "metrics_new = \<lparr>m_oracle_updates = 0, m_trigger_hits = 0, m_candidates_woken = 0,
     m_liquidations_attempted = 0, m_liquidations_succeeded = 0, m_liquidations_failed = 0,
     m_dry_run_skips = 0, m_circuit_breaker_trips = 0, m_candidates_critical = 0,
     m_candidates_hot = 0,
     m_submit_latency_us = with_buckets [100, 500, 1000, 5000, 20000, 100000],
     m_labels = Map.empty\<rparr>"

definition set_label :: "metrics \<Rightarrow> string \<Rightarrow> string \<Rightarrow> metrics" where
  "set_label m k v = m\<lparr>m_labels := (m_labels m)(k \<mapsto> v)\<rparr>"

record metrics_snapshot =
  ms_oracle_updates :: u64
  ms_trigger_hits :: u64
  ms_liquidations_attempted :: u64

definition snapshot :: "metrics \<Rightarrow> metrics_snapshot" where
  "snapshot m = \<lparr>ms_oracle_updates = m_oracle_updates m, ms_trigger_hits = m_trigger_hits m,
     ms_liquidations_attempted = m_liquidations_attempted m\<rparr>"

text \<open>\<^verbatim>\<open>encode_prometheus\<close>: one block of three lines per metric; \<open>newline\<close> is the
  escape of the format strings.\<close>

definition prom_line :: "string \<Rightarrow> string \<Rightarrow> string \<Rightarrow> u64 \<Rightarrow> string" where
  "prom_line name help ty v =
     ''# HELP '' @ name @ '' '' @ help @ newline @ ''# TYPE '' @ name @ '' '' @ ty @ newline
       @ name @ '' '' @ show_nat (unat v) @ newline"

definition encode_prometheus :: "metrics \<Rightarrow> string" where
  "encode_prometheus m =
     prom_line ''liq_oracle_updates_total'' ''Oracle price updates'' ''counter'' (m_oracle_updates m)
     @ prom_line ''liq_trigger_hits_total'' ''Price trigger crossings'' ''counter'' (m_trigger_hits m)
     @ prom_line ''liq_candidates_woken_total'' ''Candidates woken by triggers'' ''counter'' (m_candidates_woken m)
     @ prom_line ''liq_liquidations_attempted_total'' ''Liquidation attempts'' ''counter'' (m_liquidations_attempted m)
     @ prom_line ''liq_liquidations_succeeded_total'' ''Successful liquidations'' ''counter'' (m_liquidations_succeeded m)
     @ prom_line ''liq_liquidations_failed_total'' ''Failed liquidations'' ''counter'' (m_liquidations_failed m)
     @ prom_line ''liq_dry_run_skips_total'' ''Dry-run skips'' ''counter'' (m_dry_run_skips m)
     @ prom_line ''liq_circuit_breaker_trips_total'' ''Circuit breaker trips'' ''counter'' (m_circuit_breaker_trips m)
     @ prom_line ''liq_candidates_critical'' ''CRITICAL band size'' ''gauge'' (m_candidates_critical m)
     @ prom_line ''liq_candidates_hot'' ''HOT band size'' ''gauge'' (m_candidates_hot m)"

section \<open>Properties\<close>

text \<open>
  After any observations the bucket counts of a histogram add up to its count, which is
  the number of observations modulo 2^64, its sum is the wrapping sum of the values, and a
  further observation lands in the first bucket whose bound is at least the value, or in the
  overflow bucket when every bound is smaller.
\<close>

lemma histogram_observations:
  "let h = observe_all bs vs in
    sum_list (hg_counts h) = hg_count h \<and> hg_count h = word_of_nat (length vs)
    \<and> hg_sum h = sum_list vs
    \<and> (\<exists>i \<le> length bs. hg_counts (observe h v) = (hg_counts h)[i := hg_counts h ! i + 1]
          \<and> (i = length bs \<or> v \<le> bs ! i) \<and> list_all (\<lambda>b. b < v) (take i bs))"
proof -
  let ?h = "observe_all bs vs"
  note inv = histogram_invariant [OF refl, of bs vs]
  have len: "length (hg_counts ?h) = length bs + 1"
    using inv(1,2) by (simp add: histogram_wf_def)
  have "bucket_index ?h v \<le> length bs"
    using bucket_index_bound [OF inv(1), of v] len by simp
  moreover have "(bucket_index ?h v = length bs \<or> v \<le> bs ! bucket_index ?h v)
      \<and> list_all (\<lambda>b. b < v) (take (bucket_index ?h v) bs)"
    using bucket_from_spec [of 0 bs v, OF refl] len
    by (auto simp: bucket_index_def inv(2) list_all_length list_all_iff split: option.splits)
  ultimately show ?thesis
    unfolding Let_def using inv(3-5)
    by (intro conjI exI [of _ "bucket_index ?h v"]) (simp_all add: observe_def Let_def)
qed

end
