(* ===== verification/OraclePath.thy ===== *)
theory OraclePath
  imports StateStore CandidateIndex Metrics
begin

text \<open>
  The wake path of \<^verbatim>\<open>crates/liq-core/src/oracle_path.rs\<close>: an oracle update goes through the
  versioned oracle store, then replaces the price of the asset in the price book, and the
  candidate index reports the triggers the move crosses. The shared handles
  (\<^verbatim>\<open>Arc\<close>) are fields of one record, returned updated; the wall clock of
  \<^verbatim>\<open>StoredAccount::new\<close> is an argument.
\<close>

type_synonym price_book = "pubkey \<rightharpoonup> price_fx"

definition price_book_get :: "price_book \<Rightarrow> pubkey \<Rightarrow> price_fx option" where
  "price_book_get b asset = b asset"

definition price_book_set :: "price_book \<Rightarrow> pubkey \<Rightarrow> price_fx \<Rightarrow> price_book" where
  "price_book_set b asset p = b(asset \<mapsto> p)"

record oracle_path =
  op_prices :: price_book
  op_index :: candidate_index
  op_store :: "price_fx state_store"
  op_metrics :: metrics

definition oracle_path_new :: "candidate_index \<Rightarrow> metrics \<Rightarrow> oracle_path" where
  "oracle_path_new ix m =
     \<lparr>op_prices = Map.empty, op_index = ix, op_store = store_new, op_metrics = m\<rparr>"

definition wake_all :: "trigger_hit list \<Rightarrow> metrics \<Rightarrow> metrics" where
  "wake_all hits m = fold (\<lambda>_ n. n\<lparr>m_candidates_woken := counter_inc (m_candidates_woken n)\<rparr>) hits m"

definition count_hits :: "trigger_hit list \<Rightarrow> metrics \<Rightarrow> metrics" where
  "count_hits hits m =
     (let m1 = m\<lparr>m_oracle_updates := counter_inc (m_oracle_updates m)\<rparr>;
          m2 = m1\<lparr>m_trigger_hits := counter_add (m_trigger_hits m1) (word_of_nat (length hits))\<rparr>
      in wake_all hits m2)"

definition apply_oracle_update ::
    "u64 \<Rightarrow> oracle_path \<Rightarrow> pubkey \<Rightarrow> price_fx \<Rightarrow> u64 \<Rightarrow> u64 \<Rightarrow> update_source
      \<Rightarrow> trigger_hit list \<times> oracle_path" where
  "apply_oracle_update now_us op asset new_price slot write_version source =
     (let prev = or_default new_price (price_book_get (op_prices op) asset);
          (updated, store') = store_upsert (op_store op)
             (stored_account_new now_us slot write_version asset new_price source);
          op' = op\<lparr>op_store := store'\<rparr>
      in if \<not> updated \<and> price_book_get (op_prices op') asset = Some new_price then ([], op')
         else let hits = on_price_update (op_index op') asset prev new_price
              in (hits, op'\<lparr>op_prices := price_book_set (op_prices op') asset new_price,
                            op_metrics := count_hits hits (op_metrics op')\<rparr>))"

section \<open>Lemmas\<close>

lemma wake_all_fields [simp]:
  "m_oracle_updates (wake_all hits m) = m_oracle_updates m"
  "m_trigger_hits (wake_all hits m) = m_trigger_hits m"
  "m_candidates_woken (wake_all hits m) = m_candidates_woken m + word_of_nat (length hits)"
  unfolding wake_all_def
  by (induction hits arbitrary: m) (simp_all add: counter_inc_def counter_add_def)

lemma count_hits_fields:
  "m_oracle_updates (count_hits hits m) = m_oracle_updates m + 1"
  "m_trigger_hits (count_hits hits m) = m_trigger_hits m + word_of_nat (length hits)"
  "m_candidates_woken (count_hits hits m) = m_candidates_woken m + word_of_nat (length hits)"
  by (simp_all add: count_hits_def counter_inc_def counter_add_def Let_def)

lemma on_price_update_same: "on_price_update ix asset p p = []"
  by (simp add: on_price_update_def split: option.splits)

lemma on_price_update_no_index: "by_asset ix asset = None \<Longrightarrow> on_price_update ix asset p q = []"
  by (simp add: on_price_update_def)

text \<open>One update, seen from the price book: the hits are those of the index between the last
  price and the new one, whatever the store says.\<close>

lemma apply_oracle_update_prices:
  "op_prices (snd (apply_oracle_update t op asset p slot wv src)) = (op_prices op)(asset \<mapsto> p)"
  "fst (apply_oracle_update t op asset p slot wv src)
     = on_price_update (op_index op) asset (or_default p (op_prices op asset)) p"
  "op_index (snd (apply_oracle_update t op asset p slot wv src)) = op_index op"
  "op_store (snd (apply_oracle_update t op asset p slot wv src))
     = snd (store_upsert (op_store op) (stored_account_new t slot wv asset p src))"
  by (auto simp: apply_oracle_update_def Let_def split_beta price_book_get_def price_book_set_def
      on_price_update_same fun_upd_idem)

text \<open>A feed of updates of one asset, in arrival order.\<close>

fun apply_feed :: "pubkey \<Rightarrow> oracle_path \<Rightarrow> (price_fx \<times> u64 \<times> u64 \<times> update_source) list
    \<Rightarrow> trigger_hit list \<times> oracle_path" where
  "apply_feed asset op [] = ([], op)"
| "apply_feed asset op ((p, slot, wv, src) # us) =
     (let (hits, op') = apply_oracle_update 0 op asset p slot wv src;
          (hits', op'') = apply_feed asset op' us
      in (hits @ hits', op''))"

fun price_path :: "price_fx \<Rightarrow> (price_fx \<times> 'b) list \<Rightarrow> price_fx list" where
  "price_path p [] = [p]"
| "price_path p ((q, r) # us) = p # price_path q us"

lemma price_path_ne [simp]: "price_path p us \<noteq> []"
  by (cases "(p, us)" rule: price_path.cases) auto

lemma price_path_last: "last (price_path p us) = (if us = [] then p else fst (last us))"
  by (induction p us rule: price_path.induct) auto

lemma hit_keys_append [simp]: "hit_keys (xs @ ys) = hit_keys xs \<union> hit_keys ys"
  by (auto simp: hit_keys_def)

lemma hit_keys_Nil [simp]: "hit_keys [] = {}"
  by (simp add: hit_keys_def)

lemma falling_path_le:
  "sorted_wrt (\<ge>) (price_path p us) \<Longrightarrow> last (price_path p us) \<le> p"
proof (induction p us rule: price_path.induct)
  case (2 p q r us)
  have "last (price_path q us) \<in> set (price_path q us)"
    by (rule last_in_set) simp
  with 2 show ?case by (cases us) auto
qed simp

lemma falling_feed_hits:
  assumes "trigger_inv (op_index op)" "op_prices op asset = Some p" "sorted_wrt (\<ge>) (price_path p us)"
  shows "hit_keys (fst (apply_feed asset op us))
    = {(a, side, q). has_trigger (op_index op) a asset side q
         \<and> crossed side p (last (price_path p us)) q}"
  using assms
proof (induction us arbitrary: op p)
  case Nil
  then show ?case by (auto elim: crossed.elims)
next
  case (Cons u us)
  obtain p' slot wv src where u: "u = (p', slot, wv, src)" by (cases u)
  let ?r = "apply_oracle_update 0 op asset p' slot wv src"
  have le: "p' \<le> p" using Cons.prems(3) u by (cases us) auto
  have path: "sorted_wrt (\<ge>) (price_path p' us)" using Cons.prems(3) u by simp
  have "hit_keys (fst (apply_feed asset (snd ?r) us))
      = {(a, side, q). has_trigger (op_index op) a asset side q \<and> crossed side p' (last (price_path p' us)) q}"
    using Cons.IH [of "snd ?r" p'] Cons.prems path by (simp add: apply_oracle_update_prices)
  moreover have "hit_keys (fst ?r) = {(a, side, q). has_trigger (op_index op) a asset side q \<and> crossed side p p' q}"
    using Cons.prems by (auto simp: apply_oracle_update_prices hit_keys_iff)
  moreover have "crossed side p (last (price_path p' us)) q
      \<longleftrightarrow> crossed side p p' q \<or> crossed side p' (last (price_path p' us)) q" for side q
    using falling_path_le [OF path] le by (cases side) auto
  ultimately show ?case
    by (auto simp: u Let_def split_beta)
qed

section \<open>Properties\<close>

text \<open>
  C29: An update of an asset with a known price fires exactly the stored triggers crossed by the
  move from the last price to the new one, each once; the new price becomes the known one; the
  number of hits goes into the trigger and wake counters alike. The first price of an asset
  fires nothing.
\<close>

theorem apply_oracle_update_correct:
  assumes "op_index op = index_run ops" "apply_oracle_update t op asset p slot wv src = (hits, op')"
  shows "distinct hits
    \<and> set hits = {h. th_asset h = asset \<and> th_new_price h = p
         \<and> has_trigger (index_run ops) (th_account h) asset (th_side h) (th_trigger_price h)
         \<and> (\<exists>prev. op_prices op asset = Some prev \<and> crossed (th_side h) prev p (th_trigger_price h))}
    \<and> op_prices op' = (op_prices op)(asset \<mapsto> p) \<and> op_index op' = index_run ops
    \<and> m_trigger_hits (op_metrics op') - m_trigger_hits (op_metrics op) = word_of_nat (length hits)
    \<and> m_candidates_woken (op_metrics op') - m_candidates_woken (op_metrics op) = word_of_nat (length hits)"
proof -
  have inv: "trigger_inv (op_index op)" using assms(1) index_run_inv by simp
  have r: "hits = fst (apply_oracle_update t op asset p slot wv src)"
    "op' = snd (apply_oracle_update t op asset p slot wv src)"
    using assms(2) by simp_all
  have hits: "hits = on_price_update (op_index op) asset (or_default p (op_prices op asset)) p"
    unfolding r by (rule apply_oracle_update_prices)
  have "op_metrics op' = op_metrics op \<and> hits = []
      \<or> op_metrics op' = count_hits hits (op_metrics op)"
    using assms(2) by (auto simp: apply_oracle_update_def Let_def split_beta split: if_splits)
  then have met: "m_trigger_hits (op_metrics op') - m_trigger_hits (op_metrics op) = word_of_nat (length hits)
    \<and> m_candidates_woken (op_metrics op') - m_candidates_woken (op_metrics op) = word_of_nat (length hits)"
    by (auto simp: count_hits_fields)
  have "distinct hits" unfolding hits by (rule on_price_update_iff(1) [OF inv])
  moreover have "\<not> crossed side p p q" for side q by (cases side) auto
  then have "set hits = {h. th_asset h = asset \<and> th_new_price h = p
         \<and> has_trigger (index_run ops) (th_account h) asset (th_side h) (th_trigger_price h)
         \<and> (\<exists>prev. op_prices op asset = Some prev \<and> crossed (th_side h) prev p (th_trigger_price h))}"
    unfolding hits
    by (cases "op_prices op asset") (auto simp: on_price_update_iff(2) [OF inv] assms(1) [symmetric] on_price_update_same)
  ultimately show ?thesis
    using met by (simp add: r assms(1) apply_oracle_update_prices)
qed

definition sample_trigger :: price_trigger where
  "sample_trigger = \<lparr>pt_account = pubkey_test 1 1, pt_asset = pubkey_test 2 1,
     pt_side = CollateralDown, pt_trigger_price = PriceFx 95\<rparr>"

definition sample_path :: oracle_path where
  "sample_path = (oracle_path_new (index_run [SetTriggers (pubkey_test 1 1) [sample_trigger]]) metrics_new)
     \<lparr>op_prices := [pubkey_test 2 1 \<mapsto> PriceFx 100]\<rparr>"

theorem apply_oracle_update_correct_witness:
  "\<lparr>th_account = pubkey_test 1 1, th_asset = pubkey_test 2 1, th_side = CollateralDown,
     th_trigger_price = PriceFx 95, th_new_price = PriceFx 90\<rparr>
   \<in> set (fst (apply_oracle_update 0 sample_path (pubkey_test 2 1) (PriceFx 90) 1 0 Mock))"
proof -
  have ix: "op_index sample_path = index_run [SetTriggers (pubkey_test 1 1) [sample_trigger]]"
    by (simp add: sample_path_def oracle_path_new_def)
  have "has_trigger (index_run [SetTriggers (pubkey_test 1 1) [sample_trigger]])
      (pubkey_test 1 1) (pubkey_test 2 1) CollateralDown (PriceFx 95)"
    by (simp add: has_trigger_def index_run_def sample_trigger_def)
  then show ?thesis
    using apply_oracle_update_correct [OF ix surjective_pairing,
        of 0 "pubkey_test 2 1" "PriceFx 90" 1 0 Mock]
    by (simp add: sample_path_def)
qed

text \<open>
  A falling price, however finely the feed slices it and whatever the slots, versions and
  sources of its updates, fires over the whole feed exactly the collateral triggers between the
  first and the last price.
\<close>

lemma falling_feed_fires_all:
  assumes "op_index op = index_run ops" "op_prices op asset = Some p"
    and "sorted_wrt (\<ge>) (price_path p us)"
  shows "hit_keys (fst (apply_feed asset op us))
    = {(a, side, q). side = CollateralDown \<and> has_trigger (index_run ops) a asset side q
         \<and> last (price_path p us) \<le> q \<and> q < p}"
proof -
  have "crossed side p (last (price_path p us)) q \<longleftrightarrow>
      side = CollateralDown \<and> last (price_path p us) \<le> q \<and> q < p" for side q
    using falling_path_le [OF assms(3)] by (cases side) auto
  with falling_feed_hits [of op asset p us] assms index_run_inv [of ops] show ?thesis by auto
qed

text \<open>
  The version check does not protect the price book: an update the oracle store refuses as
  older still replaces the known price of the asset, and fires the triggers between the current
  price and the outdated one.
\<close>

lemma refused_update_moves_price:
  "\<not> fst (store_upsert (op_store op) (stored_account_new t slot wv asset p src)) \<Longrightarrow>
     op_store (snd (apply_oracle_update t op asset p slot wv src)) = op_store op
     \<and> op_prices (snd (apply_oracle_update t op asset p slot wv src)) asset = Some p
     \<and> fst (apply_oracle_update t op asset p slot wv src)
         = on_price_update (op_index op) asset (or_default p (op_prices op asset)) p"
  by (auto simp: apply_oracle_update_prices store_upsert_def split: option.splits if_splits)

end
