(* ===== verification/Health.thy ===== *)
theory Health
  imports CoreTypes
begin

text \<open>
  Health factors and trigger prices: \<^verbatim>\<open>crates/liq-core/src/health.rs\<close>. All arithmetic is on
  \<^verbatim>\<open>u128\<close>, saturating where the source saturates; \<^verbatim>\<open>pow\<close> wraps
  around. The constant \<^verbatim>\<open>HealthFx::from_f64(1000.0)\<close> is its exact value.
\<close>

record position_leg =
  pl_asset :: pubkey
  pl_amount :: u128
  pl_decimals :: u8
  pl_is_collateral :: bool

record weight_params =
  wp_asset :: pubkey
  wp_maint_weight_fx :: u64
  wp_liq_threshold_fx :: u64

definition pow10 :: "u8 \<Rightarrow> u128" where
  "pow10 d = 10 ^ unat d"

definition health_factor_ratio :: "u128 \<Rightarrow> u128 \<Rightarrow> health_fx" where
  "health_factor_ratio coll borrow =
     (if borrow = 0 then HealthFx 1000000000
      else HealthFx (sat_mul coll health_scale div borrow))"

definition amount_to_usd_micro :: "u128 \<Rightarrow> u8 \<Rightarrow> price_fx \<Rightarrow> u128" where
  "amount_to_usd_micro amount decimals price =
     (let den = sat_mul (pow10 decimals) price_scale
      in sat_mul (sat_mul amount (px price)) 1000000 div max den 1)"

definition collateral_trigger_price :: "u128 \<Rightarrow> u8 \<Rightarrow> u64 \<Rightarrow> u128 \<Rightarrow> u128 \<Rightarrow> price_fx option" where
  "collateral_trigger_price coll_amount coll_decimals liq_threshold_fx other_power borrow =
     (if coll_amount = 0 \<or> borrow \<le> other_power then None
      else let need = borrow - other_power;
               num = sat_mul (sat_mul need (pow10 coll_decimals)) price_scale;
               den = sat_mul coll_amount (ucast liq_threshold_fx)
           in if den = 0 then None else Some (PriceFx (num div den)))"

section \<open>Exactness\<close>

lemma unat_pow10: "unat d \<le> 38 \<Longrightarrow> unat (pow10 d) = 10 ^ unat d"
proof -
  assume d: "unat d \<le> 38"
  have *: "unat ((10 :: u128) ^ n) = 10 ^ n" if "n \<le> 38" for n
    using that
  proof (induction n)
    case (Suc n)
    have "(10::nat) ^ Suc n \<le> 10 ^ 38" using Suc.prems by (rule power_increasing) simp
    moreover have "(10::nat) ^ 38 < 2 ^ 128" by simp
    ultimately have "(10::nat) * 10 ^ n < 2 ^ 128" by (simp only: power_Suc) 
    with Suc show ?case by (simp add: unat_word_ariths)
  qed simp
  from * [OF d] show ?thesis by (simp add: pow10_def)
qed

lemma unat_scales [simp]: "unat price_scale = 1000000000" "unat health_scale = 1000000"
  by (simp_all add: price_scale_def health_scale_def)

lemma unat_max_1: "unat (max w 1 :: 'a::len word) = max (unat w) 1"
  by (cases "w = 0") (auto simp: max_def word_le_nat_alt unat_eq_zero not_le less_Suc_eq dest: unat_eq_zero [THEN iffD1])

lemma sint_nonneg: "unat w < 2 ^ 127 \<Longrightarrow> sint (w :: i128) = int (unat w)"
  by (rule sint_small) simp

lemma health_factor_ratio_exact:
  assumes "borrow \<noteq> 0" "unat coll * 1000000 < 2 ^ 127"
  shows "sint (hf (health_factor_ratio coll borrow)) = int (unat coll * 1000000 div unat borrow)"
proof -
  have "unat (sat_mul coll health_scale) = unat coll * 1000000"
    using assms(2) by (simp add: unat_sat_mul)
  then have u: "unat (hf (health_factor_ratio coll borrow)) = unat coll * 1000000 div unat borrow"
    using assms(1) by (simp add: health_factor_ratio_def unat_div)
  also have "\<dots> < 2 ^ 127"
    using assms(2) by (meson div_le_dividend le_less_trans)
  finally show ?thesis using u by (simp add: sint_nonneg)
qed

lemma amount_to_usd_micro_exact:
  assumes "unat d \<le> 29" "unat amount * unat (px p) * 1000000 < 2 ^ 128"
  shows "unat (amount_to_usd_micro amount d p)
    = unat amount * unat (px p) * 1000000 div (10 ^ unat d * 10 ^ 9)"
proof -
  have "(10::nat) ^ unat d \<le> 10 ^ 29" using assms(1) by (rule power_increasing) simp
  then have "(10::nat) ^ unat d * 10 ^ 9 < 2 ^ 128"
    by (rule le_less_trans [OF mult_le_mono1]) simp
  then have den: "unat (sat_mul (pow10 d) price_scale) = 10 ^ unat d * 10 ^ 9"
    using assms(1) by (simp add: unat_sat_mul unat_pow10)
  have "unat (sat_mul amount (px p)) = unat amount * unat (px p)"
    using assms(2) by (simp add: unat_sat_mul)
  then have "unat (sat_mul (sat_mul amount (px p)) 1000000) = unat amount * unat (px p) * 1000000"
    using assms(2) by (simp add: unat_sat_mul)
  with den show ?thesis
    by (simp add: amount_to_usd_micro_def Let_def unat_div unat_max_1 max_absorb1)
qed

text \<open>
  The dollar value of an amount over the natural numbers, at any amount and price: the two
  products stop at the largest 128-bit number.
\<close>

definition cap128 :: "nat \<Rightarrow> nat" where
  "cap128 n = min n (2 ^ 128 - 1)"

definition usd_value :: "nat \<Rightarrow> nat \<Rightarrow> nat \<Rightarrow> nat" where
  "usd_value amount decimals price =
     cap128 (cap128 (amount * price) * 10 ^ 6) div cap128 (10 ^ decimals * 10 ^ 9)"

lemma cap128_le: "cap128 n \<le> n" "cap128 n < 2 ^ 128"
  by (simp_all add: cap128_def)

lemma cap128_exact: "n < 2 ^ 128 \<Longrightarrow> cap128 n = n"
  by (simp add: cap128_def)

lemma unat_sat_mul_cap128: "unat (sat_mul x y :: u128) = cap128 (unat x * unat y)"
  by (simp add: unat_sat_mul cap128_def)

lemma amount_to_usd_micro_value:
  assumes "unat d \<le> 38"
  shows "unat (amount_to_usd_micro amount d p) = usd_value (unat amount) (unat d) (unat (px p))"
proof -
  have "1 \<le> cap128 (10 ^ unat d * 10 ^ 9)"
    by (simp add: cap128_def)
  with assms show ?thesis
    by (simp add: amount_to_usd_micro_def usd_value_def Let_def unat_div unat_max_1
        unat_sat_mul_cap128 unat_pow10 max_absorb1)
qed

lemma health_factor_cmp:
  "unat coll * 1000000 < 2 ^ 127 \<Longrightarrow>
     is_liquidatable_hf (health_factor_ratio coll borrow) \<longleftrightarrow> unat coll < unat borrow"
proof (cases "borrow = 0")
  case False
  assume *: "unat coll * 1000000 < 2 ^ 127"
  have "0 < unat borrow" using False by (simp add: unat_gt_0)
  then have "unat coll * 1000000 div unat borrow < 1000000 \<longleftrightarrow> unat coll < unat borrow"
    by (simp add: div_less_iff_less_mult mult.commute)
  then show ?thesis
    unfolding is_liquidatable_hf_def health_factor_ratio_exact [OF False *] sint_health_scale
    by linarith
qed (simp add: is_liquidatable_hf_def health_factor_ratio_def)

section \<open>Properties\<close>

text \<open>
  The health factor is the floor of the scaled ratio and decides liquidation exactly: while
  the scaled collateral stays below 2^127, a position with debt is liquidatable if and only if
  its collateral is worth less than its debt, and a position without debt never is.
\<close>

lemma health_factor_liquidatable_iff:
  "unat coll * 1000000 < 2 ^ 127 \<Longrightarrow>
     (is_liquidatable_hf (health_factor_ratio coll borrow) \<longleftrightarrow> unat coll < unat borrow)
     \<and> sint (hf (health_factor_ratio coll borrow))
         = (if borrow = 0 then 10 ^ 9 else int (unat coll * 1000000 div unat borrow))"
  using health_factor_cmp [of coll borrow] health_factor_ratio_exact [of borrow coll]
  by (cases "borrow = 0") (simp_all, simp add: health_factor_ratio_def)

text \<open>
  C32: The trigger price is the exact break-even: while the intermediate products fit in 128
  bits, it is the largest price at which the weighted collateral does not exceed what the debt
  leaves uncovered, so the position is at or under water at a price exactly when the price is at
  or below the trigger.
\<close>

theorem collateral_trigger_price_break_even:
  assumes "collateral_trigger_price amount d thr other borrow = Some p"
    and "unat d \<le> 38" "unat borrow * 10 ^ unat d * 10 ^ 9 < 2 ^ 128"
    and "unat amount * unat thr < 2 ^ 128"
  shows "q \<le> unat (px p) \<longleftrightarrow>
    unat amount * q * unat thr + unat other * (10 ^ unat d * 10 ^ 9)
      \<le> unat borrow * (10 ^ unat d * 10 ^ 9)"
proof -
  let ?S = "10 ^ unat d * 10 ^ 9 :: nat" and ?need = "unat borrow - unat other"
  from assms(1) have lt: "unat other < unat borrow" and ne: "sat_mul amount (ucast thr) \<noteq> 0"
    and p: "p = PriceFx (sat_mul (sat_mul (borrow - other) (pow10 d)) price_scale
        div sat_mul amount (ucast thr))"
    by (auto simp: collateral_trigger_price_def Let_def word_le_nat_alt split: if_splits)
  have need: "unat (borrow - other) = ?need"
    using lt by (simp add: unat_sub word_le_nat_alt)
  have den: "unat (sat_mul amount (ucast thr)) = unat amount * unat thr"
    using assms(4) by (simp add: unat_sat_mul unat_ucast64_128)
  have "?need * ?S \<le> unat borrow * ?S" by (rule mult_le_mono1) simp
  also have "\<dots> < 2 ^ 128" using assms(3) by (simp add: mult.assoc)
  finally have b: "?need * ?S < 2 ^ 128" .
  moreover have "?need * 10 ^ unat d \<le> ?need * ?S" by simp
  ultimately have b': "?need * 10 ^ unat d < 2 ^ 128" by linarith
  have "unat (sat_mul (borrow - other) (pow10 d)) = ?need * 10 ^ unat d"
    using b' by (simp add: unat_sat_mul need unat_pow10 [OF assms(2)])
  then have num: "unat (sat_mul (sat_mul (borrow - other) (pow10 d)) price_scale) = ?need * ?S"
    using b by (simp add: unat_sat_mul mult.assoc)
  have pos: "0 < unat amount * unat thr"
    using ne den by (metis unat_gt_0)
  have "q \<le> unat (px p) \<longleftrightarrow> q \<le> ?need * ?S div (unat amount * unat thr)"
    by (simp add: p unat_div num den)
  also have "\<dots> \<longleftrightarrow> q * (unat amount * unat thr) \<le> ?need * ?S"
    using pos by (rule less_eq_div_iff_mult_less_eq)
  also have "\<dots> \<longleftrightarrow> unat amount * q * unat thr + unat other * ?S \<le> unat borrow * ?S"
  proof -
    have "?need * ?S + unat other * ?S = unat borrow * ?S"
      using lt by (simp flip: add_mult_distrib)
    then show ?thesis by (simp add: ac_simps) linarith
  qed
  finally show ?thesis .
qed

theorem collateral_trigger_price_break_even_witness:
  "unat (10 ^ 9 :: u128) * 100 * unat (800000 :: u64) \<le> unat (80000000 :: u128) * (10 ^ 9 * 10 ^ 9)"
proof -
  have "collateral_trigger_price (10 ^ 9) 9 800000 0 80000000 = Some (PriceFx 100000000000)"
    by (simp add: collateral_trigger_price_def pow10_def sat_mul_def price_scale_def Let_def)
  from collateral_trigger_price_break_even [OF this, of 100] show ?thesis by simp
qed

end
