(* ===== verification/Profitability.thy ===== *)
theory Profitability
  imports CoreTypes
begin

text \<open>
  The profit gate of \<^verbatim>\<open>crates/liq-core/src/profitability.rs\<close>, on 64-bit words:
  \<^verbatim>\<open>i64\<close> profits are read by \<open>sint\<close>, the casts of the source are
  \<open>ucast\<close> (to an unsigned or narrower type) and \<open>scast\<close> (sign extension).
\<close>

record profit_config =
  pc_min_profit_usd_micro :: u64
  pc_min_roi_bps :: u64
  pc_max_cost_usd_micro :: u64
  pc_min_notional_usd_micro :: u64

definition profit_config_default :: profit_config where
  "profit_config_default = \<lparr>pc_min_profit_usd_micro = 500000, pc_min_roi_bps = 10,
     pc_max_cost_usd_micro = 2000000, pc_min_notional_usd_micro = 10000000\<rparr>"

record profit_input =
  pi_gross_profit_usd_micro :: i64
  pi_swap_cost_usd_micro :: u64
  pi_chain_cost_usd_micro :: u64
  pi_capital_used_usd_micro :: u64
  pi_notional_usd_micro :: u64

datatype profit_reject_reason =
  BelowMinProfit | BelowMinRoi | CostTooHigh | NotionalTooSmall | NegativeNet

datatype profit_decision =
    Accept (pd_net: i64) (pd_roi: u64)
  | Reject (pd_reason: profit_reject_reason) (pd_net: i64)

definition roi_bps :: "i64 \<Rightarrow> u64 \<Rightarrow> u64" where
  "roi_bps net capital =
     (if capital = 0 then - 1
      else ucast ((scast net :: u128) * 10000 div (ucast capital :: u128)))"

definition profit_evaluate :: "profit_config \<Rightarrow> profit_input \<Rightarrow> profit_decision" where
  "profit_evaluate cfg inp =
     (let total_cost = sat_add (pi_swap_cost_usd_micro inp) (pi_chain_cost_usd_micro inp);
          net = pi_gross_profit_usd_micro inp - total_cost
      in if pc_max_cost_usd_micro cfg < total_cost then Reject CostTooHigh net
         else if pi_notional_usd_micro inp < pc_min_notional_usd_micro cfg then Reject NotionalTooSmall net
         else if sint net \<le> 0 then Reject NegativeNet net
         else if net < pc_min_profit_usd_micro cfg then Reject BelowMinProfit net
         else let roi = roi_bps net (pi_capital_used_usd_micro inp)
              in if roi < pc_min_roi_bps cfg then Reject BelowMinRoi net else Accept net roi)"

section \<open>The gate over the integers\<close>

text \<open>What the gate promises, with no width: the decision as a reason, or acceptance, and the
  net profit.\<close>

record profit_figures =
  pf_gross :: int
  pf_cost :: nat
  pf_capital :: nat
  pf_notional :: nat

definition figures_of :: "profit_input \<Rightarrow> profit_figures" where
  "figures_of inp =
     \<lparr>pf_gross = sint (pi_gross_profit_usd_micro inp),
      pf_cost = unat (pi_swap_cost_usd_micro inp) + unat (pi_chain_cost_usd_micro inp),
      pf_capital = unat (pi_capital_used_usd_micro inp),
      pf_notional = unat (pi_notional_usd_micro inp)\<rparr>"

definition profit_spec :: "profit_config \<Rightarrow> profit_figures \<Rightarrow> profit_reject_reason option \<times> int" where
  "profit_spec cfg f =
     (let net = pf_gross f - int (pf_cost f)
      in (if unat (pc_max_cost_usd_micro cfg) < pf_cost f then Some CostTooHigh
          else if pf_notional f < unat (pc_min_notional_usd_micro cfg) then Some NotionalTooSmall
          else if net \<le> 0 then Some NegativeNet
          else if net < int (unat (pc_min_profit_usd_micro cfg)) then Some BelowMinProfit
          else if pf_capital f \<noteq> 0
            \<and> net * 10000 div int (pf_capital f) < int (unat (pc_min_roi_bps cfg)) then Some BelowMinRoi
          else None, net))"

fun decision_reason :: "profit_decision \<Rightarrow> profit_reject_reason option" where
  "decision_reason (Accept n r) = None"
| "decision_reason (Reject e n) = Some e"

text \<open>No intermediate value leaves its type: the costs and the net fit in \<^verbatim>\<open>i64\<close>, the
  return on capital in \<^verbatim>\<open>u64\<close>.\<close>

definition profit_in_range :: "profit_input \<Rightarrow> bool" where
  "profit_in_range inp \<longleftrightarrow>
     pf_cost (figures_of inp) < 2 ^ 63
     \<and> - (2 ^ 63) \<le> pf_gross (figures_of inp) - int (pf_cost (figures_of inp))
     \<and> pf_gross (figures_of inp) * 10000 < 2 ^ 64 * int (max 1 (pf_capital (figures_of inp)))"

lemma roi_bps_exact:
  assumes "0 < sint net" "sint net * 10000 < 2 ^ 64 * int (max 1 (unat capital))" "capital \<noteq> 0"
  shows "int (unat (roi_bps net capital)) = sint net * 10000 div int (unat capital)"
proof -
  have cap: "0 < unat capital" using assms(3) by (simp add: unat_gt_0)
  have n: "int (unat (scast net :: u128)) = sint net"
    using assms(1) by (simp add: unat_scast64_128)
  have "sint net * 10000 < 2 ^ 128"
    using sint_lt [of net] by simp
  then have "int (unat (scast net :: u128) * 10000) < int (2 ^ 128)"
    by (simp add: n)
  then have "unat (scast net :: u128) * 10000 < 2 ^ 128"
    by (simp only: of_nat_less_iff)
  then have m: "unat ((scast net :: u128) * 10000) = unat (scast net :: u128) * 10000"
    by (simp add: unat_mult_exact)
  let ?q = "unat (scast net :: u128) * 10000 div unat capital"
  have "int (unat (scast net :: u128) * 10000) < int (2 ^ 64 * unat capital)"
    using assms(2) cap n by (simp add: max_absorb2)
  then have "?q < 2 ^ 64"
    using cap by (simp only: of_nat_less_iff div_less_iff_less_mult) 
  then have "unat (roi_bps net capital) = ?q"
    using assms(3) by (simp add: roi_bps_def unat_ucast128_64 unat_div m unat_ucast64_128)
  also have "int ?q = sint net * 10000 div int (unat capital)"
    by (simp add: zdiv_int n del: of_nat_unat)
  finally show ?thesis .
qed

lemma roi_bps_less:
  assumes "0 < sint net" "sint net * 10000 < 2 ^ 64 * int (max 1 (unat capital))"
  shows "roi_bps net capital < v \<longleftrightarrow>
    unat capital \<noteq> 0 \<and> sint net * 10000 div int (unat capital) < int (unat v)"
proof (cases "capital = 0")
  case True
  then show ?thesis by (simp add: roi_bps_def not_less)
next
  case False
  then show ?thesis
    unfolding word_less_nat_alt roi_bps_exact [OF assms False, symmetric] by (simp add: unat_eq_zero)
qed

section \<open>Properties\<close>

text \<open>
  C30: While no intermediate value leaves its type, the gate computes exactly the decision of the
  integer specification: the same reason in the same order of precedence (cost, notional,
  negative net, minimum profit, return on capital), or acceptance, with the exact net profit.
\<close>

theorem profit_evaluate_refines:
  assumes "profit_in_range inp"
  shows "(decision_reason (profit_evaluate cfg inp), sint (pd_net (profit_evaluate cfg inp)))
    = profit_spec cfg (figures_of inp)"
proof -
  let ?f = "figures_of inp" and ?c = "sat_add (pi_swap_cost_usd_micro inp) (pi_chain_cost_usd_micro inp)"
  let ?net = "pi_gross_profit_usd_micro inp - ?c"
  have c: "unat ?c = pf_cost ?f"
    using assms by (simp add: profit_in_range_def figures_of_def unat_sat_add)
  have net: "sint ?net = pf_gross ?f - int (pf_cost ?f)"
    using assms sint_diff_exact [of ?c "pi_gross_profit_usd_micro inp"] unfolding c
    by (simp add: profit_in_range_def figures_of_def)
  have nn: "int (unat ?net) = sint ?net" if "\<not> sint ?net \<le> 0"
    using that by (intro unat_sint_nonneg) simp
  have cost_iff: "pc_max_cost_usd_micro cfg < ?c \<longleftrightarrow> unat (pc_max_cost_usd_micro cfg) < pf_cost ?f"
    by (simp add: word_less_nat_alt c)
  have notional_iff: "pi_notional_usd_micro inp < pc_min_notional_usd_micro cfg
      \<longleftrightarrow> pf_notional ?f < unat (pc_min_notional_usd_micro cfg)"
    by (simp add: word_less_nat_alt figures_of_def)
  have profit_iff: "?net < pc_min_profit_usd_micro cfg
      \<longleftrightarrow> sint ?net < int (unat (pc_min_profit_usd_micro cfg))" if "\<not> sint ?net \<le> 0"
    by (simp add: word_less_nat_alt nn [OF that, symmetric])
  have roi_iff: "roi_bps ?net (pi_capital_used_usd_micro inp) < pc_min_roi_bps cfg
      \<longleftrightarrow> pf_capital ?f \<noteq> 0
        \<and> sint ?net * 10000 div int (pf_capital ?f) < int (unat (pc_min_roi_bps cfg))"
    if "\<not> sint ?net \<le> 0"
  proof -
    have "sint ?net \<le> pf_gross ?f" using net by simp
    then have "sint ?net * 10000 < 2 ^ 64 * int (max 1 (unat (pi_capital_used_usd_micro inp)))"
      using assms by (simp add: profit_in_range_def figures_of_def)
    with that show ?thesis by (simp add: roi_bps_less figures_of_def)
  qed
  show ?thesis
    unfolding profit_evaluate_def profit_spec_def Let_def cost_iff notional_iff net [symmetric]
    using profit_iff roi_iff by (simp split: if_split)
qed

theorem profit_evaluate_refines_witness:
  "profit_evaluate profit_config_default
     \<lparr>pi_gross_profit_usd_micro = 5000000, pi_swap_cost_usd_micro = 200000,
      pi_chain_cost_usd_micro = 100000, pi_capital_used_usd_micro = 100000000,
      pi_notional_usd_micro = 100000000\<rparr> = Accept 4700000 470
   \<and> snd (profit_spec profit_config_default (figures_of
     \<lparr>pi_gross_profit_usd_micro = 5000000, pi_swap_cost_usd_micro = 200000,
      pi_chain_cost_usd_micro = 100000, pi_capital_used_usd_micro = 100000000,
      pi_notional_usd_micro = 100000000\<rparr>)) = 4700000"
proof -
  let ?i = "\<lparr>pi_gross_profit_usd_micro = 5000000, pi_swap_cost_usd_micro = 200000,
      pi_chain_cost_usd_micro = 100000, pi_capital_used_usd_micro = 100000000,
      pi_notional_usd_micro = 100000000\<rparr>"
  have e: "profit_evaluate profit_config_default ?i = Accept 4700000 470"
    by (simp add: profit_evaluate_def profit_config_default_def roi_bps_def sat_add_def Let_def)
  have "profit_in_range ?i"
    by (simp add: profit_in_range_def figures_of_def)
  from arg_cong [OF profit_evaluate_refines [OF this, of profit_config_default], of snd] e
  show ?thesis by simp
qed

end
