(* ===== verification/Funding.thy ===== *)
theory Funding
  imports Profitability
begin

text \<open>
  Funding paths and their choice: \<^verbatim>\<open>crates/liq-core/src/funding.rs\<close>. The
  \<^verbatim>\<open>i128\<close> product and quotient of the score have non-negative operands, so they
  are those of unsigned words. \<^verbatim>\<open>sort_by\<close> is stable, as \<open>sort_key\<close>.
\<close>

datatype funding_strategy = Inventory | SaveFlashLoan | KaminoFlashBorrow | Project0Receivership

fun strategy_as_str :: "funding_strategy \<Rightarrow> string" where
  "strategy_as_str Inventory = ''Inventory''"
| "strategy_as_str SaveFlashLoan = ''SaveFlashLoan''"
| "strategy_as_str KaminoFlashBorrow = ''KaminoFlashBorrow''"
| "strategy_as_str Project0Receivership = ''Project0Receivership''"

fun applicable_for :: "protocol \<Rightarrow> funding_strategy list" where
  "applicable_for Kamino = [Inventory, KaminoFlashBorrow]"
| "applicable_for Save = [Inventory, SaveFlashLoan]"
| "applicable_for Project0 = [Inventory, Project0Receivership]"

record funding_path_input =
  fp_strategy :: funding_strategy
  fp_protocol :: protocol
  fp_gross_profit_usd_micro :: i64
  fp_swap_cost_usd_micro :: u64
  fp_chain_cost_usd_micro :: u64
  fp_flash_fee_usd_micro :: u64
  fp_tip_usd_micro :: u64
  fp_capital_used_usd_micro :: u64
  fp_notional_usd_micro :: u64
  fp_landing_prob_bps :: u64
  fp_latency_weight :: u64
  fp_feasible :: bool

record scored_funding_path =
  sp_strategy :: funding_strategy
  sp_protocol :: protocol
  sp_net_profit_usd_micro :: i64
  sp_expected_value_score :: i64
  sp_decision :: profit_decision
  sp_flash_fee_usd_micro :: u64
  sp_tip_usd_micro :: u64
  sp_capital_used_usd_micro :: u64

record opportunity_plan =
  plan_protocol :: protocol
  plan_account :: string
  plan_candidates :: "scored_funding_path list"
  plan_best :: "scored_funding_path option"

definition funding_profit_input :: "funding_path_input \<Rightarrow> profit_input" where
  "funding_profit_input i =
     \<lparr>pi_gross_profit_usd_micro = fp_gross_profit_usd_micro i,
      pi_swap_cost_usd_micro = fp_swap_cost_usd_micro i,
      pi_chain_cost_usd_micro = sat_add (fp_chain_cost_usd_micro i)
        (sat_add (fp_flash_fee_usd_micro i) (fp_tip_usd_micro i)),
      pi_capital_used_usd_micro = max (fp_capital_used_usd_micro i) 1,
      pi_notional_usd_micro = fp_notional_usd_micro i\<rparr>"

definition expected_value_score :: "i64 \<Rightarrow> u64 \<Rightarrow> u64 \<Rightarrow> i64" where
  "expected_value_score net landing latency =
     (if sint net \<le> 0 then net
      else ucast ((scast net :: i128) * ucast landing div ucast (max latency 1)))"

definition score_one :: "profit_config \<Rightarrow> funding_path_input \<Rightarrow> scored_funding_path option" where
  "score_one cfg i =
     (if \<not> fp_feasible i then None
      else let decision = profit_evaluate cfg (funding_profit_input i);
               net = pd_net decision
           in Some \<lparr>sp_strategy = fp_strategy i, sp_protocol = fp_protocol i,
                sp_net_profit_usd_micro = net,
                sp_expected_value_score =
                  expected_value_score net (fp_landing_prob_bps i) (fp_latency_weight i),
                sp_decision = decision, sp_flash_fee_usd_micro = fp_flash_fee_usd_micro i,
                sp_tip_usd_micro = fp_tip_usd_micro i,
                sp_capital_used_usd_micro = fp_capital_used_usd_micro i\<rparr>)"

fun is_accept :: "profit_decision \<Rightarrow> bool" where
  "is_accept (Accept n r) = True"
| "is_accept (Reject e n) = False"

definition pick_best :: "profit_config \<Rightarrow> funding_path_input list \<Rightarrow> opportunity_plan" where
  "pick_best cfg inputs =
     (let candidates = sort_key (\<lambda>c. - sint (sp_expected_value_score c))
            (List.map_filter (score_one cfg) inputs);
          best = (case List.find (\<lambda>c. is_accept (sp_decision c)) candidates of
                    Some c \<Rightarrow> Some c
                  | None \<Rightarrow> (case candidates of [] \<Rightarrow> None | c # _ \<Rightarrow> Some c))
      in \<lparr>plan_protocol = (case inputs of [] \<Rightarrow> Kamino | i # _ \<Rightarrow> fp_protocol i),
          plan_account = '''', plan_candidates = candidates, plan_best = best\<rparr>)"

definition default_path ::
    "protocol \<Rightarrow> i64 \<Rightarrow> u64 \<Rightarrow> u64 \<Rightarrow> u64 \<Rightarrow> u64 \<Rightarrow> u64 \<Rightarrow> u64 \<Rightarrow> funding_strategy \<Rightarrow> funding_path_input" where
  "default_path protocol gross swap_cost chain_cost tip notional inventory flash_fee strategy =
     (let (capital, fee, latency, landing, feasible) =
        (case strategy of
           Inventory \<Rightarrow> (max (min inventory notional) 1, 0, 10, 8500, notional div 2 \<le> inventory)
         | SaveFlashLoan \<Rightarrow> (1, flash_fee, 14, 7500, protocol = Save)
         | KaminoFlashBorrow \<Rightarrow> (1, flash_fee, 14, 7500, protocol = Kamino)
         | Project0Receivership \<Rightarrow> (notional div 20 + 1, 0, 18, 7000, protocol = Project0))
      in \<lparr>fp_strategy = strategy, fp_protocol = protocol, fp_gross_profit_usd_micro = gross,
          fp_swap_cost_usd_micro = swap_cost, fp_chain_cost_usd_micro = chain_cost,
          fp_flash_fee_usd_micro = fee, fp_tip_usd_micro = tip,
          fp_capital_used_usd_micro = capital, fp_notional_usd_micro = notional,
          fp_landing_prob_bps = landing, fp_latency_weight = latency, fp_feasible = feasible\<rparr>)"

definition default_paths_for ::
    "protocol \<Rightarrow> i64 \<Rightarrow> u64 \<Rightarrow> u64 \<Rightarrow> u64 \<Rightarrow> u64 \<Rightarrow> u64 \<Rightarrow> u64 \<Rightarrow> funding_path_input list" where
  "default_paths_for protocol gross swap_cost chain_cost tip notional inventory flash_fee_bps =
     (let flash_fee = sat_mul notional flash_fee_bps div 10000
      in map (default_path protocol gross swap_cost chain_cost tip notional inventory flash_fee)
           (applicable_for protocol))"

section \<open>Lemmas\<close>

lemma score_one_Some:
  "score_one cfg i = Some c \<Longrightarrow> fp_feasible i \<and> sp_strategy c = fp_strategy i
     \<and> sp_decision c = profit_evaluate cfg (funding_profit_input i)
     \<and> sp_net_profit_usd_micro c = pd_net (sp_decision c)"
  by (auto simp: score_one_def Let_def split: if_splits)

lemma find_sorted_min:
  fixes f :: "'a \<Rightarrow> int"
  assumes "sorted (map f xs)" "List.find P xs = Some x" "y \<in> set xs" "P y"
  shows "f x \<le> f y"
  using assms
proof (induction xs)
  case (Cons z xs)
  then show ?case by (auto split: if_splits)
qed simp

lemma pick_best_candidates:
  "set (plan_candidates (pick_best cfg inputs)) = {c. \<exists>i \<in> set inputs. score_one cfg i = Some c}"
  "sorted (map (\<lambda>c. - sint (sp_expected_value_score c)) (plan_candidates (pick_best cfg inputs)))"
  by (force simp: pick_best_def Let_def List.map_filter_def) (simp add: pick_best_def Let_def)

lemma pick_best_best:
  "plan_best (pick_best cfg inputs) =
     (case List.find (\<lambda>c. is_accept (sp_decision c)) (plan_candidates (pick_best cfg inputs)) of
        Some c \<Rightarrow> Some c
      | None \<Rightarrow> (case plan_candidates (pick_best cfg inputs) of [] \<Rightarrow> None | c # _ \<Rightarrow> Some c))"
  unfolding pick_best_def Let_def opportunity_plan.simps ..

lemma pick_best_None: "plan_best (pick_best cfg inputs) = None \<longleftrightarrow> plan_candidates (pick_best cfg inputs) = []"
  by (auto simp: pick_best_best split: option.splits list.splits)

lemma score_one_None [simp]: "score_one cfg i = None \<longleftrightarrow> \<not> fp_feasible i"
  by (simp add: score_one_def Let_def)

lemma expected_value_score_exact:
  assumes "0 < sint net" "sint net * int (unat landing) < 2 ^ 63 * int (max 1 (unat latency))"
  shows "sint (expected_value_score net landing latency)
    = sint net * int (unat landing) div int (max 1 (unat latency))"
proof -
  let ?L = "max 1 (unat latency)"
  have n: "int (unat (scast net :: u128)) = sint net"
    using assms(1) by (simp add: unat_scast64_128)
  have lat: "unat (max latency 1) = ?L"
    by (cases "latency = 0") (auto simp: max_def word_le_nat_alt unat_eq_zero dest: unat_eq_zero [THEN iffD1])
  have "unat (scast net :: u128) < 2 ^ 63"
    using n sint_lt [of net] by (simp flip: of_nat_less_iff [where 'a = int])
  then have "unat (scast net :: u128) * unat landing < 2 ^ 63 * 2 ^ 64"
    using unat_bound64 [of landing] by (intro mult_strict_mono) auto
  then have m: "unat ((scast net :: u128) * ucast landing) = unat (scast net :: u128) * unat landing"
    by (subst unat_mult_exact) (simp_all add: unat_ucast64_128)
  let ?q = "unat (scast net :: u128) * unat landing div ?L"
  have "int (unat (scast net :: u128) * unat landing) < int (2 ^ 63 * ?L)"
    using assms(2) by (simp add: n)
  then have "unat (scast net :: u128) * unat landing < 2 ^ 63 * ?L"
    by (simp only: of_nat_less_iff)
  then have q: "?q < 2 ^ 63"
    by (simp add: div_less_iff_less_mult)
  have "unat (expected_value_score net landing latency) = ?q mod 2 ^ 64"
    using assms(1) by (simp add: expected_value_score_def unat_ucast128_64 unat_div m unat_ucast64_128 lat)
  with q have "unat (expected_value_score net landing latency) = ?q" by simp
  then have "sint (expected_value_score net landing latency) = int ?q"
    using q by (subst sint_small) simp_all
  then show ?thesis by (simp add: zdiv_int n)
qed

section \<open>Properties\<close>

text \<open>
  C31: The chosen path is one of the feasible ones; when some feasible path passes the profit
  gate, the chosen one passes it and no passing path has a higher score; otherwise it has the
  highest score of all; and no path is chosen only when none is feasible.
\<close>

theorem pick_best_optimal:
  "case plan_best (pick_best cfg inputs) of
     None \<Rightarrow> \<forall>i \<in> set inputs. \<not> fp_feasible i
   | Some c \<Rightarrow> (\<exists>i \<in> set inputs. fp_feasible i \<and> score_one cfg i = Some c)
       \<and> (is_accept (sp_decision c)
           \<longleftrightarrow> (\<exists>i \<in> set inputs. \<exists>d. score_one cfg i = Some d \<and> is_accept (sp_decision d)))
       \<and> (\<forall>i \<in> set inputs. \<forall>d. score_one cfg i = Some d \<longrightarrow>
            (is_accept (sp_decision c) \<longrightarrow> is_accept (sp_decision d)) \<longrightarrow>
            sint (sp_expected_value_score d) \<le> sint (sp_expected_value_score c))"
proof -
  let ?cs = "plan_candidates (pick_best cfg inputs)" and ?P = "\<lambda>c. is_accept (sp_decision c)"
  note set = pick_best_candidates(1) [of cfg inputs] and srt = pick_best_candidates(2) [of cfg inputs]
  show ?thesis
  proof (cases "List.find ?P ?cs")
    case (Some c)
    then have best: "plan_best (pick_best cfg inputs) = Some c" by (simp add: pick_best_best)
    from Some have c: "c \<in> set ?cs" "?P c" by (auto dest: find_Some_set)
    from find_sorted_min [OF srt Some] have "\<forall>d \<in> set ?cs. ?P d \<longrightarrow>
        sint (sp_expected_value_score d) \<le> sint (sp_expected_value_score c)" by force
    with c best show ?thesis unfolding set by (auto dest: score_one_Some)
  next
    case None
    then have none: "\<forall>d \<in> set ?cs. \<not> ?P d" by (auto simp: find_None_iff)
    show ?thesis
    proof (cases ?cs)
      case Nil
      then have "plan_best (pick_best cfg inputs) = None" using None by (simp add: pick_best_best)
      moreover have "score_one cfg i = None" if "i \<in> set inputs" for i
        using set that Nil by (cases "score_one cfg i") auto
      ultimately show ?thesis by auto
    next
      case (Cons c cs)
      then have best: "plan_best (pick_best cfg inputs) = Some c" using None by (simp add: pick_best_best)
      have "c \<in> set ?cs" using Cons by simp
      moreover have "\<forall>d \<in> set ?cs. sint (sp_expected_value_score d) \<le> sint (sp_expected_value_score c)"
        using srt Cons by auto
      ultimately show ?thesis using none best unfolding set by (auto dest: score_one_Some)
    qed
  qed
qed

theorem pick_best_optimal_witness:
  "\<exists>c. plan_best (pick_best profit_config_default
        (default_paths_for Save 8000000 200000 100000 100000 80000000 500000 9)) = Some c
     \<and> (\<forall>i \<in> set (default_paths_for Save 8000000 200000 100000 100000 80000000 500000 9).
          \<forall>d. score_one profit_config_default i = Some d \<longrightarrow>
            (is_accept (sp_decision c) \<longrightarrow> is_accept (sp_decision d)) \<longrightarrow>
            sint (sp_expected_value_score d) \<le> sint (sp_expected_value_score c))"
proof -
  let ?in = "default_paths_for Save 8000000 200000 100000 100000 80000000 500000 9"
  note opt = pick_best_optimal [where cfg = profit_config_default and inputs = ?in]
  have "\<exists>i \<in> set ?in. fp_feasible i"
    by (simp add: default_paths_for_def default_path_def Let_def)
  with opt obtain c where c: "plan_best (pick_best profit_config_default ?in) = Some c"
    by (auto split: option.splits)
  from opt show ?thesis unfolding c by auto
qed
text \<open>
  Over the default paths of a protocol, the plan only ever uses a strategy of that protocol,
  with the flash loans of a protocol reserved to it, and uses the inventory only when it covers
  at least half of the notional; a path charged a flash fee is a flash loan.
\<close>

lemma default_plan_strategy:
  assumes "plan_best (pick_best cfg (default_paths_for protocol gross swap chain tip notional inventory bps)) = Some c"
  shows "sp_strategy c \<in> set (applicable_for protocol)
    \<and> (sp_strategy c = Inventory \<longrightarrow> unat notional div 2 \<le> unat inventory)
    \<and> (sp_flash_fee_usd_micro c \<noteq> 0 \<longrightarrow> sp_strategy c \<in> {SaveFlashLoan, KaminoFlashBorrow})"
proof -
  let ?in = "default_paths_for protocol gross swap chain tip notional inventory bps"
  have "c \<in> set (plan_candidates (pick_best cfg ?in))"
    using assms by (auto simp: pick_best_best dest: find_Some_set split: option.splits list.splits)
  then obtain i where i: "i \<in> set ?in" "score_one cfg i = Some c"
    by (auto simp: pick_best_candidates)
  have flash: "sp_flash_fee_usd_micro c = fp_flash_fee_usd_micro i"
    using i(2) by (auto simp: score_one_def Let_def split: if_splits)
  from i(1) obtain s where s: "s \<in> set (applicable_for protocol)"
    "i = default_path protocol gross swap chain tip notional inventory (sat_mul notional bps div 10000) s"
    by (auto simp: default_paths_for_def Let_def)
  from score_one_Some [OF i(2)] s show ?thesis
    by (cases s) (auto simp: default_path_def flash word_le_nat_alt unat_div)
qed

end
