(* ===== verification/Risk.thy ===== *)
theory Risk
  imports Metrics
begin

text \<open>
  The circuit breaker of \<^verbatim>\<open>crates/liq-risk/src/lib.rs\<close>. An \<^verbatim>\<open>Instant\<close> is a natural
  number of nanoseconds, passed where the source reads the clock; \<^verbatim>\<open>duration_since\<close>
  is zero for a later instant, as natural subtraction. Each lock-protected value is a field.
\<close>

record risk_limits =
  rl_max_concurrent_liquidations :: u32
  rl_max_notional_per_liq_usd_micro :: u64
  rl_max_notional_per_minute_usd_micro :: u64
  rl_max_consecutive_failures :: u32
  rl_oracle_max_staleness_slots :: u64
  rl_pause_on_breaker :: bool

definition risk_limits_default :: risk_limits where
  "risk_limits_default = \<lparr>rl_max_concurrent_liquidations = 4,
     rl_max_notional_per_liq_usd_micro = 500000000000,
     rl_max_notional_per_minute_usd_micro = 2000000000000, rl_max_consecutive_failures = 10,
     rl_oracle_max_staleness_slots = 30, rl_pause_on_breaker = True\<rparr>"

datatype risk_reject =
  CircuitOpen string | MaxNotional | RollingNotional | Concurrency | StaleOracle | Paused

section \<open>The rolling window\<close>

record rolling_window =
  rw_events :: "(nat \<times> u64) list"
  rw_window :: nat

definition rw_new :: "nat \<Rightarrow> rolling_window" where
  "rw_new w = \<lparr>rw_events = [], rw_window = w\<rparr>"

definition rw_prune :: "rolling_window \<Rightarrow> nat \<Rightarrow> rolling_window" where
  "rw_prune r now = r\<lparr>rw_events := filter (\<lambda>(t, _). now - t \<le> rw_window r) (rw_events r)\<rparr>"

definition rw_sum :: "rolling_window \<Rightarrow> nat \<Rightarrow> u64 \<times> rolling_window" where
  "rw_sum r now = (let r' = rw_prune r now in (sum_list (map snd (rw_events r')), r'))"

definition rw_push :: "rolling_window \<Rightarrow> nat \<Rightarrow> u64 \<Rightarrow> rolling_window" where
  "rw_push r now n = (let r' = rw_prune r now in r'\<lparr>rw_events := rw_events r' @ [(now, n)]\<rparr>)"

section \<open>The breaker\<close>

record circuit_breaker =
  cb_limits :: risk_limits
  cb_open :: bool
  cb_reason :: "string option"
  cb_consecutive_failures :: u32
  cb_in_flight :: u32
  cb_rolling :: rolling_window
  cb_paused :: bool
  cb_metrics :: metrics

definition cb_new :: "risk_limits \<Rightarrow> metrics \<Rightarrow> circuit_breaker" where
  "cb_new limits m = \<lparr>cb_limits = limits, cb_open = False, cb_reason = None,
     cb_consecutive_failures = 0, cb_in_flight = 0, cb_rolling = rw_new (60 * 10 ^ 9),
     cb_paused = False, cb_metrics = m\<rparr>"

definition set_paused :: "circuit_breaker \<Rightarrow> bool \<Rightarrow> circuit_breaker" where
  "set_paused cb p = cb\<lparr>cb_paused := p\<rparr>"

definition is_open :: "circuit_breaker \<Rightarrow> bool" where
  "is_open cb \<longleftrightarrow> cb_open cb \<or> cb_paused cb"

definition trip :: "circuit_breaker \<Rightarrow> string \<Rightarrow> circuit_breaker" where
  "trip cb reason = cb\<lparr>cb_open := True, cb_reason := Some reason,
     cb_metrics := (cb_metrics cb)\<lparr>m_circuit_breaker_trips :=
       counter_inc (m_circuit_breaker_trips (cb_metrics cb))\<rparr>\<rparr>"

definition cb_reset :: "circuit_breaker \<Rightarrow> circuit_breaker" where
  "cb_reset cb = cb\<lparr>cb_open := False, cb_reason := None, cb_consecutive_failures := 0\<rparr>"

definition check_allow ::
    "nat \<Rightarrow> circuit_breaker \<Rightarrow> u64 \<Rightarrow> u64 \<Rightarrow> (risk_reject + unit) \<times> circuit_breaker" where
  "check_allow now cb notional staleness =
     (let lim = cb_limits cb
      in if cb_paused cb then (Inl Paused, cb)
         else if cb_open cb then
           (Inl (CircuitOpen (case cb_reason cb of None \<Rightarrow> ''open'' | Some r \<Rightarrow> r)), cb)
         else if rl_oracle_max_staleness_slots lim < staleness then (Inl StaleOracle, cb)
         else if rl_max_notional_per_liq_usd_micro lim < notional then (Inl MaxNotional, cb)
         else if rl_max_concurrent_liquidations lim \<le> cb_in_flight cb then (Inl Concurrency, cb)
         else let (sum, rolling) = rw_sum (cb_rolling cb) now;
                  cb' = cb\<lparr>cb_rolling := rolling\<rparr>
              in if rl_max_notional_per_minute_usd_micro lim < sat_add sum notional
                 then (Inl RollingNotional, cb') else (Inr (), cb'))"

definition cb_begin :: "nat \<Rightarrow> circuit_breaker \<Rightarrow> u64 \<Rightarrow> circuit_breaker" where
  "cb_begin now cb notional =
     cb\<lparr>cb_in_flight := cb_in_flight cb + 1, cb_rolling := rw_push (cb_rolling cb) now notional\<rparr>"

definition end_success :: "circuit_breaker \<Rightarrow> circuit_breaker" where
  "end_success cb = cb\<lparr>cb_in_flight := sat_sub (cb_in_flight cb) 1, cb_consecutive_failures := 0\<rparr>"

definition end_failure :: "circuit_breaker \<Rightarrow> circuit_breaker" where
  "end_failure cb =
     (let f = cb_consecutive_failures cb + 1;
          cb' = cb\<lparr>cb_in_flight := sat_sub (cb_in_flight cb) 1, cb_consecutive_failures := f\<rparr>
      in if rl_max_consecutive_failures (cb_limits cb) \<le> f \<and> rl_pause_on_breaker (cb_limits cb)
         then trip cb' ''max_consecutive_failures'' else cb')"

section \<open>Steps\<close>

text \<open>
  The breaker as the executor uses it: a liquidation begins only right after its check passed.
  A state carries the last clock reading, and clocks do not run backwards; the check and the
  begin read the clock one after the other.
\<close>

datatype risk_event =
  Attempt nat u64 u64 | Succeeded | Failed | Tripped string | WasReset | PauseSet bool

inductive risk_step :: "circuit_breaker \<times> nat \<Rightarrow> risk_event \<Rightarrow> circuit_breaker \<times> nat \<Rightarrow> bool" where
  admit: "t \<le> now \<Longrightarrow> now \<le> later \<Longrightarrow> check_allow now cb n stale = (Inr (), cb')
    \<Longrightarrow> risk_step (cb, t) (Attempt now n stale) (cb_begin later cb' n, later)"
| reject: "t \<le> now \<Longrightarrow> check_allow now cb n stale = (Inl e, cb')
    \<Longrightarrow> risk_step (cb, t) (Attempt now n stale) (cb', now)"
| success: "risk_step (cb, t) Succeeded (end_success cb, t)"
| failure: "risk_step (cb, t) Failed (end_failure cb, t)"
| tripped: "risk_step (cb, t) (Tripped r) (trip cb r, t)"
| reset: "risk_step (cb, t) WasReset (cb_reset cb, t)"
| pause: "risk_step (cb, t) (PauseSet p) (set_paused cb p, t)"

inductive_cases risk_step_cases: "risk_step s e s'"

inductive risk_reach :: "risk_limits \<Rightarrow> circuit_breaker \<times> nat \<Rightarrow> bool" for lim where
  init: "risk_reach lim (cb_new lim m, t)"
| step: "risk_reach lim s \<Longrightarrow> risk_step s e s' \<Longrightarrow> risk_reach lim s'"

definition window_notional :: "rolling_window \<Rightarrow> nat \<Rightarrow> nat" where
  "window_notional r now =
     sum_list (map (\<lambda>(t, n). unat n) (filter (\<lambda>(t, n). now - t \<le> rw_window r) (rw_events r)))"

definition risk_inv :: "risk_limits \<Rightarrow> circuit_breaker \<times> nat \<Rightarrow> bool" where
  "risk_inv lim s \<longleftrightarrow> cb_limits (fst s) = lim
     \<and> unat (cb_in_flight (fst s)) \<le> unat (rl_max_concurrent_liquidations lim)
     \<and> rw_window (cb_rolling (fst s)) = 60 * 10 ^ 9
     \<and> window_notional (cb_rolling (fst s)) (snd s) \<le> unat (rl_max_notional_per_minute_usd_micro lim)
     \<and> (\<forall>(t, n) \<in> set (rw_events (cb_rolling (fst s))).
          t \<le> snd s \<and> unat n \<le> unat (rl_max_notional_per_liq_usd_micro lim))"

lemma window_notional_mono:
  "t \<le> now \<Longrightarrow> window_notional r now \<le> window_notional r t"
proof -
  assume "t \<le> now"
  then have "sum_list (map (\<lambda>(t, n). unat n) (filter (\<lambda>(u, n). now - u \<le> w) es))
      \<le> sum_list (map (\<lambda>(t, n). unat n) (filter (\<lambda>(u, n). t - u \<le> w) (es :: (nat \<times> u64) list)))" for w es
    by (induction es) auto
  then show ?thesis by (simp add: window_notional_def)
qed

lemma rw_prune_simps [simp]:
  "rw_window (rw_prune r now) = rw_window r"
  "set (rw_events (rw_prune r now)) = {(t, n) \<in> set (rw_events r). now - t \<le> rw_window r}"
  by (auto simp: rw_prune_def)

lemma window_notional_prune [simp]: "window_notional (rw_prune r now) now = window_notional r now"
  by (simp add: window_notional_def rw_prune_def)

lemma unat_sum_list:
  "sum_list (map unat ws) < 2 ^ LENGTH('a) \<Longrightarrow> unat (sum_list ws) = sum_list (map unat ws)"
  for ws :: "'a::len word list"
  by (induction ws) (simp_all add: unat_plus_exact)

lemma rw_sum_exact:
  assumes "window_notional r now < 2 ^ 64"
  shows "unat (fst (rw_sum r now)) = window_notional r now"
proof -
  have "window_notional r now = sum_list (map unat (map snd (rw_events (rw_prune r now))))"
    by (simp add: window_notional_def rw_prune_def comp_def case_prod_unfold)
  with assms show ?thesis
    by (simp add: rw_sum_def Let_def unat_sum_list)
qed

lemma rw_push_window:
  "window_notional (rw_push r now n) now = window_notional r now + unat n"
proof -
  have "window_notional (rw_push r now n) now = window_notional (rw_prune r now) now + unat n"
    by (simp add: window_notional_def rw_push_def Let_def)
  then show ?thesis by simp
qed

lemma check_allow_state:
  "snd (check_allow now cb n stale) = cb \<or>
   snd (check_allow now cb n stale) = cb\<lparr>cb_rolling := rw_prune (cb_rolling cb) now\<rparr>"
  by (auto simp: check_allow_def Let_def rw_sum_def)

lemma check_allow_Inr:
  "check_allow now cb n stale = (Inr (), cb') \<longleftrightarrow>
     \<not> cb_paused cb \<and> \<not> cb_open cb \<and> stale \<le> rl_oracle_max_staleness_slots (cb_limits cb)
     \<and> n \<le> rl_max_notional_per_liq_usd_micro (cb_limits cb)
     \<and> cb_in_flight cb < rl_max_concurrent_liquidations (cb_limits cb)
     \<and> sat_add (fst (rw_sum (cb_rolling cb) now)) n \<le> rl_max_notional_per_minute_usd_micro (cb_limits cb)
     \<and> cb' = cb\<lparr>cb_rolling := rw_prune (cb_rolling cb) now\<rparr>"
  by (auto simp: check_allow_def Let_def rw_sum_def not_less not_le)

section \<open>Invariant\<close>

lemma risk_inv_frame:
  "risk_inv lim (cb, t) \<Longrightarrow> cb_limits cb' = cb_limits cb \<Longrightarrow> cb_rolling cb' = cb_rolling cb
     \<Longrightarrow> unat (cb_in_flight cb') \<le> unat (cb_in_flight cb) \<Longrightarrow> risk_inv lim (cb', t)"
  by (auto simp: risk_inv_def)

lemma cb_op_frame [frame_simps, simp]:
  "cb_limits (end_success cb) = cb_limits cb" "cb_rolling (end_success cb) = cb_rolling cb"
  "cb_limits (end_failure cb) = cb_limits cb" "cb_rolling (end_failure cb) = cb_rolling cb"
  "cb_limits (trip cb r) = cb_limits cb" "cb_rolling (trip cb r) = cb_rolling cb"
  "cb_limits (cb_reset cb) = cb_limits cb" "cb_rolling (cb_reset cb) = cb_rolling cb"
  "cb_limits (set_paused cb p) = cb_limits cb" "cb_rolling (set_paused cb p) = cb_rolling cb"
  "cb_limits (cb_begin now cb n) = cb_limits cb"
  "cb_in_flight (trip cb r) = cb_in_flight cb" "cb_in_flight (cb_reset cb) = cb_in_flight cb"
  "cb_in_flight (set_paused cb p) = cb_in_flight cb"
  by (simp_all add: end_success_def end_failure_def trip_def cb_reset_def set_paused_def
      cb_begin_def Let_def)

lemma end_in_flight:
  "unat (cb_in_flight (end_success cb)) = unat (cb_in_flight cb) - 1"
  "unat (cb_in_flight (end_failure cb)) = unat (cb_in_flight cb) - 1"
  by (simp_all add: end_success_def end_failure_def trip_def Let_def unat_sat_sub)

lemma risk_inv_prune:
  assumes "risk_inv lim (cb, t)" "t \<le> now"
  shows "risk_inv lim (cb\<lparr>cb_rolling := rw_prune (cb_rolling cb) now\<rparr>, now)"
    and "risk_inv lim (cb, now)"
  using assms window_notional_mono [OF assms(2), of "cb_rolling cb"]
  by (force simp: risk_inv_def)+

lemma sat_add_le_iff:
  "sat_add x y \<le> z \<Longrightarrow> z \<noteq> - 1 \<Longrightarrow> unat x + unat y \<le> unat z" for x :: "'a::len word"
proof -
  assume "sat_add x y \<le> z" "z \<noteq> - 1"
  moreover have "unat z \<noteq> 2 ^ LENGTH('a) - 1"
    using \<open>z \<noteq> - 1\<close> by (simp add: word_unat_eq_iff unat_minus_one_word')
  moreover have "unat z < 2 ^ LENGTH('a)" by simp
  ultimately have "unat z < 2 ^ LENGTH('a) - 1" "min (unat x + unat y) (2 ^ LENGTH('a) - 1) \<le> unat z"
    by (linarith, simp add: word_le_nat_alt unat_sat_add)
  then show ?thesis by (simp add: min_def split: if_splits)
qed

lemma risk_inv_admit:
  assumes inv: "risk_inv lim (cb, t)" and time: "t \<le> now" "now \<le> later"
    and "check_allow now cb n stale = (Inr (), cb')"
    and max: "rl_max_notional_per_minute_usd_micro lim \<noteq> - 1"
  shows "risk_inv lim (cb_begin later cb' n, later)"
proof -
  note ok = assms(4) [unfolded check_allow_Inr]
  have lim: "cb_limits cb = lim" using inv by (simp add: risk_inv_def)
  have inv': "risk_inv lim (cb', later)"
    using risk_inv_prune(2) [OF risk_inv_prune(1) [OF inv time(1)] time(2)] ok by simp
  have "unat (cb_in_flight cb) + unat (1 :: u32) < 2 ^ LENGTH(32)"
    using ok unat_bound32 [of "rl_max_concurrent_liquidations (cb_limits cb)"]
    by (simp add: word_less_nat_alt)
  then have fl: "unat (cb_in_flight cb + 1) = unat (cb_in_flight cb) + 1"
    by (simp add: unat_plus_exact)
  have win: "window_notional (cb_rolling cb) now \<le> unat (rl_max_notional_per_minute_usd_micro lim)"
    using risk_inv_prune(2) [OF inv time(1)] by (simp add: risk_inv_def)
  then have "unat (fst (rw_sum (cb_rolling cb) now)) = window_notional (cb_rolling cb) now"
    using unat_bound64 [of "rl_max_notional_per_minute_usd_micro lim"] by (intro rw_sum_exact) simp
  then have sum: "window_notional (cb_rolling cb) now + unat n \<le> unat (rl_max_notional_per_minute_usd_micro lim)"
    using ok sat_add_le_iff [OF _ max] lim by metis
  have roll: "cb_rolling cb' = rw_prune (cb_rolling cb) now" "cb_in_flight cb' = cb_in_flight cb"
    "cb_limits cb' = lim"
    using ok lim by simp_all
  have "window_notional (rw_push (cb_rolling cb') later n) later \<le> window_notional (cb_rolling cb) now + unat n"
    using window_notional_mono [OF time(2), of "cb_rolling cb'"] by (simp add: rw_push_window roll)
  moreover have "set (rw_events (rw_push (cb_rolling cb') later n))
      \<subseteq> set (rw_events (cb_rolling cb')) \<union> {(later, n)}"
    by (auto simp: rw_push_def Let_def)
  moreover have "rw_window (rw_push (cb_rolling cb') later n) = rw_window (cb_rolling cb')"
    by (simp add: rw_push_def Let_def)
  ultimately show ?thesis
    using inv' sum ok lim fl roll
    by (auto simp: risk_inv_def cb_begin_def word_less_nat_alt word_le_nat_alt)
qed

lemma risk_step_inv:
  assumes "risk_step s e s'" "risk_inv lim s" "rl_max_notional_per_minute_usd_micro lim \<noteq> - 1"
  shows "risk_inv lim s'"
  using assms
proof (induction rule: risk_step.induct)
  case (admit t now later cb n stale cb')
  then show ?case by (blast intro: risk_inv_admit)
next
  case (reject t now cb n stale e cb')
  with check_allow_state [of now cb n stale] risk_inv_prune [of lim cb t now] show ?case by auto
qed (auto elim!: risk_inv_frame simp: end_in_flight)

lemma risk_reach_inv:
  "risk_reach lim s \<Longrightarrow> rl_max_notional_per_minute_usd_micro lim \<noteq> - 1 \<Longrightarrow> risk_inv lim s"
proof (induction rule: risk_reach.induct)
  case (init t)
  then show ?case by (simp add: risk_inv_def cb_new_def rw_new_def window_notional_def)
qed (blast intro: risk_step_inv)

section \<open>Failures\<close>

lemma end_failure_fields:
  "cb_consecutive_failures (end_failure cb) = cb_consecutive_failures cb + 1"
  "cb_open (end_failure cb) \<longleftrightarrow> cb_open cb \<or>
     rl_max_consecutive_failures (cb_limits cb) \<le> cb_consecutive_failures cb + 1
     \<and> rl_pause_on_breaker (cb_limits cb)"
  by (auto simp: end_failure_def trip_def Let_def)

lemma end_failures:
  "cb_consecutive_failures ((end_failure ^^ k) cb) = cb_consecutive_failures cb + word_of_nat k"
  "cb_limits ((end_failure ^^ k) cb) = cb_limits cb"
  "cb_open cb \<Longrightarrow> cb_open ((end_failure ^^ k) cb)"
  by (induction k) (simp_all add: end_failure_fields)

lemma open_rejects:
  "is_open cb \<Longrightarrow> \<exists>e. check_allow now cb n stale = (Inl e, cb)"
  by (auto simp: is_open_def check_allow_def Let_def)

section \<open>Properties\<close>



text \<open>
  The check rejects for the first limit that is exceeded, in the order paused, open, stale
  oracle, single notional, concurrency, rolling notional; it allows exactly when none is; and
  it changes nothing but the expired events of the rolling window.
\<close>

lemma check_allow_decision:
  "fst (check_allow now cb n stale) =
     (if cb_paused cb then Inl Paused
      else if cb_open cb then Inl (CircuitOpen (case cb_reason cb of None \<Rightarrow> ''open'' | Some r \<Rightarrow> r))
      else if unat (rl_oracle_max_staleness_slots (cb_limits cb)) < unat stale then Inl StaleOracle
      else if unat (rl_max_notional_per_liq_usd_micro (cb_limits cb)) < unat n then Inl MaxNotional
      else if unat (rl_max_concurrent_liquidations (cb_limits cb)) \<le> unat (cb_in_flight cb)
        then Inl Concurrency
      else if unat (rl_max_notional_per_minute_usd_micro (cb_limits cb))
          < min (unat (fst (rw_sum (cb_rolling cb) now)) + unat n) (2 ^ 64 - 1)
        then Inl RollingNotional
      else Inr ())
   \<and> (snd (check_allow now cb n stale) = cb
      \<or> snd (check_allow now cb n stale) = cb\<lparr>cb_rolling := rw_prune (cb_rolling cb) now\<rparr>)"
  using check_allow_state [of now cb n stale]
  by (auto simp: check_allow_def Let_def rw_sum_def word_less_nat_alt word_le_nat_alt unat_sat_add)

text \<open>
  The configured number of consecutive failures opens the breaker when it pauses on failures,
  and every check is then refused, at any time and for any amount, with the state left alone.
\<close>

lemma failures_trip_breaker:
  assumes "rl_pause_on_breaker (cb_limits cb)" "cb_consecutive_failures cb = 0"
    and "unat (rl_max_consecutive_failures (cb_limits cb)) \<le> k" "0 < k" "k < 2 ^ 32"
  shows "is_open ((end_failure ^^ k) cb)
    \<and> (\<exists>e. check_allow now ((end_failure ^^ k) cb) n stale = (Inl e, (end_failure ^^ k) cb))"
proof -
  obtain j where k: "k = Suc j" using assms(4) by (cases k) auto
  let ?c = "(end_failure ^^ j) cb"
  have "unat (word_of_nat (Suc j) :: u32) = Suc j"
    using assms(5) k by (simp only: unat_of_nat take_bit_eq_mod) simp
  then have "rl_max_consecutive_failures (cb_limits cb) \<le> word_of_nat (Suc j)"
    using assms(3) k by (simp only: word_le_nat_alt)
  then have "cb_open (end_failure ?c)"
    using assms(1,2) by (simp add: end_failure_fields end_failures add.commute)
  then have "is_open ((end_failure ^^ k) cb)" by (simp add: k is_open_def)
  with open_rejects [OF this] show ?thesis by blast
qed

text \<open>
  The check and the begin are two separate locked sections: with a limit of one
  liquidation, two callers that both check before either begins are both admitted and two
  liquidations are in flight.
\<close>

lemma check_then_begin_race:
  "\<exists>cb cb1 cb2. cb_in_flight cb = 0 \<and> rl_max_concurrent_liquidations (cb_limits cb) = 1
     \<and> check_allow now cb n 0 = (Inr (), cb1) \<and> check_allow now cb1 n 0 = (Inr (), cb2)
     \<and> cb_in_flight (cb_begin now (cb_begin now cb2 n) n) = 2"
proof -
  let ?lim = "risk_limits_default\<lparr>rl_max_concurrent_liquidations := 1,
    rl_max_notional_per_minute_usd_micro := - 1, rl_max_notional_per_liq_usd_micro := - 1\<rparr>"
  let ?c = "cb_new ?lim metrics_new"
  let ?d = "?c\<lparr>cb_rolling := rw_prune (cb_rolling ?c) now\<rparr>"
  have "check_allow now ?c n 0 = (Inr (), ?d)" "check_allow now ?d n 0 = (Inr (), ?d)"
    by (simp_all add: check_allow_Inr cb_new_def risk_limits_default_def rw_prune_def rw_new_def)
  moreover have "cb_in_flight (cb_begin now (cb_begin now ?d n) n) = 2"
    by (simp add: cb_begin_def cb_new_def)
  moreover have "cb_in_flight ?c = 0" "rl_max_concurrent_liquidations (cb_limits ?c) = 1"
    by (simp_all add: cb_new_def)
  ultimately show ?thesis by blast
qed

end
