(* ===== verification/Lending.thy ===== *)
theory Lending
  imports Health
begin

text \<open>
  What the health computations of the Kamino and the Save adapter share: the price list with its
  lookup, the loop over priced legs (as a locale, interpreted once per loop), the close factor,
  and the bounds that keep every sum below its width.
\<close>

section \<open>Prices\<close>

text \<open>\<^verbatim>\<open>PriceMap\<close> and \<^verbatim>\<open>SavePrices\<close>: an association list, the first match
  wins.\<close>

type_synonym price_map = "(pubkey \<times> price_fx) list"

definition price_get :: "price_map \<Rightarrow> pubkey \<Rightarrow> price_fx option" where
  "price_get prices mint = map_option snd (List.find (\<lambda>(k, _). k = mint) prices)"

lemma price_get_map_of: "price_get prices mint = map_of prices mint"
  unfolding price_get_def by (induction prices) auto

section \<open>The loop over priced legs\<close>

text \<open>
  Empty legs are skipped, an active leg without a price is an error, the values of the others
  are added (with wrap-around) to an accumulator.
\<close>

locale priced_legs =
  fixes total :: "price_map \<Rightarrow> 'd list \<Rightarrow> u128 \<Rightarrow> 'e + u128"
    and amount :: "'d \<Rightarrow> u64"
    and mint :: "'d \<Rightarrow> pubkey"
    and leg_value :: "'d \<Rightarrow> price_fx \<Rightarrow> u128"
    and missing :: 'e
    and leg_ok :: "'d \<Rightarrow> bool"
    and worth :: "'d \<Rightarrow> nat \<Rightarrow> nat"
  assumes total_Nil: "total ps [] a = Inr a"
    and total_Cons: "total ps (d # ds) a =
      (if amount d = 0 then total ps ds a
       else and_then (ok_or (price_get ps (mint d)) missing) (\<lambda>p. total ps ds (a + leg_value d p)))"
    and leg_exact: "leg_ok d \<Longrightarrow> unat (leg_value d p) = worth d (unat (px p))"
    and leg_bound: "leg_ok d \<Longrightarrow> worth d q < 2 ^ 99"
begin

definition priced_value :: "price_map \<Rightarrow> 'd \<Rightarrow> nat" where
  "priced_value ps d =
     (if amount d = 0 then 0 else case price_get ps (mint d) of None \<Rightarrow> 0 | Some p \<Rightarrow> worth d (unat (px p)))"

lemma total_Inl_iff:
  "total ps ds a = Inl e \<longleftrightarrow> e = missing \<and> (\<exists>d \<in> set ds. amount d \<noteq> 0 \<and> price_get ps (mint d) = None)"
proof (induction ds arbitrary: a)
  case (Cons d ds)
  then show ?case by (cases "price_get ps (mint d)") (auto simp: total_Cons)
qed (simp add: total_Nil)

lemma total_Inr_exact:
  assumes "\<forall>d \<in> set ds. leg_ok d" "total ps ds a = Inr v" "unat a + sum_list (map (priced_value ps) ds) < 2 ^ 128"
  shows "unat v = unat a + sum_list (map (priced_value ps) ds)"
  using assms
proof (induction ds arbitrary: a)
  case (Cons d ds)
  show ?case
  proof (cases "amount d = 0")
    case False
    with Cons.prems(2) obtain p where p: "price_get ps (mint d) = Some p"
      "total ps ds (a + leg_value d p) = Inr v"
      by (cases "price_get ps (mint d)") (auto simp: total_Cons)
    have leg: "unat (leg_value d p) = priced_value ps d"
      using leg_exact [of d p] Cons.prems(1) False p(1) by (simp add: priced_value_def)
    with Cons.prems(3) have *: "unat (a + leg_value d p) = unat a + unat (leg_value d p)"
      by (intro unat_plus_exact) simp
    from Cons.IH [OF _ p(2)] Cons.prems(1,3) * leg show ?thesis by simp
  qed (use Cons in \<open>simp add: total_Cons priced_value_def\<close>)
qed (simp add: total_Nil)

lemma priced_value_bound: "leg_ok d \<Longrightarrow> priced_value ps d < 2 ^ 99"
  using leg_bound by (simp add: priced_value_def split: option.splits)

lemma sum_bound:
  assumes "\<forall>d \<in> set ds. leg_ok d" "length ds \<le> 64"
  shows "sum_list (map (priced_value ps) ds) < 2 ^ 106"
proof -
  have "sum_list (map (priced_value ps) ds) \<le> length ds * 2 ^ 99"
    using assms(1)
  proof (induction ds)
    case (Cons d ds)
    with priced_value_bound [of d ps] show ?case by simp
  qed simp
  also have "\<dots> \<le> 64 * 2 ^ 99" using assms(2) by (rule mult_le_mono1)
  finally show ?thesis by simp
qed

lemma total_small:
  assumes "\<forall>d \<in> set ds. leg_ok d" "length ds \<le> 64" "total ps ds 0 = Inr v"
  shows "unat v = sum_list (map (priced_value ps) ds)" "unat v < 2 ^ 106"
  using total_Inr_exact [OF assms(1,3)] sum_bound [OF assms(1,2), of ps] by simp_all

end

section \<open>Bounds of a leg\<close>

lemma pow10_scale_ge: "unat d \<le> 38 \<Longrightarrow> 10 ^ 9 \<le> unat (sat_mul (pow10 d) price_scale)"
  using one_le_power [of "10::nat" "unat d"] by (simp add: unat_sat_mul unat_pow10)

lemma amount_to_usd_micro_bound:
  assumes "unat d \<le> 38" shows "unat (amount_to_usd_micro a d p) < 2 ^ 99"
proof -
  let ?n = "unat (sat_mul (sat_mul a (px p)) 1000000)" and ?d = "unat (sat_mul (pow10 d) price_scale)"
  have "unat (amount_to_usd_micro a d p) = ?n div max ?d 1"
    by (simp add: amount_to_usd_micro_def Let_def unat_div unat_max_1)
  also have "\<dots> \<le> ?n div 10 ^ 9"
    using pow10_scale_ge [OF assms] by (intro div_le_mono2) simp_all
  also have "\<dots> < 2 ^ 99"
    using unsigned_less [of "sat_mul (sat_mul a (px p)) 1000000", where ?'a = nat]
    by (simp add: div_less_iff_less_mult)
  finally show ?thesis .
qed

lemma usd_value_bound:
  assumes "d \<le> 38" shows "usd_value a d q < 2 ^ 99"
proof -
  have "10 ^ 9 \<le> cap128 (10 ^ d * 10 ^ 9)"
    using one_le_power [of "10::nat" d] by (simp add: cap128_def)
  then have "usd_value a d q \<le> cap128 (cap128 (a * q) * 10 ^ 6) div 10 ^ 9"
    unfolding usd_value_def by (intro div_le_mono2) simp_all
  also have "\<dots> < 2 ^ 99"
    using cap128_le(2) [of "cap128 (a * q) * 10 ^ 6"] by (simp add: div_less_iff_less_mult)
  finally show ?thesis .
qed

text \<open>A leg weighted by a threshold in basis points: \<^verbatim>\<open>usd * bps / 10_000\<close>.\<close>

definition weighted_usd :: "u128 \<Rightarrow> u16 \<Rightarrow> u128" where
  "weighted_usd usd bps = usd * ucast bps div 10000"

lemma weighted_usd_exact:
  "unat usd < 2 ^ 99 \<Longrightarrow> unat (weighted_usd usd bps) = unat usd * unat bps div 10000"
proof -
  assume "unat usd < 2 ^ 99"
  then have "unat usd * unat bps < 2 ^ 99 * 65536"
    using unat_bound16 [of bps] by (intro mult_strict_mono) simp_all
  then have "unat (usd * ucast bps) = unat usd * unat bps"
    by (subst unat_mult_exact) (simp_all add: unat_ucast16_128)
  then show ?thesis by (simp add: weighted_usd_def unat_div)
qed

lemma weighted_usd_le:
  "unat usd < 2 ^ 99 \<Longrightarrow> unat bps \<le> 10000 \<Longrightarrow> unat (weighted_usd usd bps) \<le> unat usd"
  by (simp add: weighted_usd_exact div_le_mono [THEN order_trans]
      order_trans [OF div_le_mono [OF mult_le_mono2 [of "unat bps" 10000 "unat usd"]]])

lemma threshold_le: "bps \<le> 10000 \<Longrightarrow> v * bps div 10000 \<le> (v::nat)"
  using div_le_mono [OF mult_le_mono2 [of bps 10000 v], of 10000] by simp

text \<open>\<^verbatim>\<open>borrowed as u128 * bps as u128 / 10_000\<close>, cast back to \<^verbatim>\<open>u64\<close>.\<close>

definition close_factor_cap :: "u64 \<Rightarrow> u16 \<Rightarrow> u64" where
  "close_factor_cap borrowed bps = ucast ((ucast borrowed :: u128) * ucast bps div 10000)"

lemma close_factor_cap_exact:
  assumes "unat borrowed * unat bps div 10000 < 2 ^ 64"
  shows "unat (close_factor_cap borrowed bps) = unat borrowed * unat bps div 10000"
proof -
  have "unat borrowed * unat bps < 2 ^ 64 * 65536"
    using unat_bound64 [of borrowed] unat_bound16 [of bps] by (intro mult_strict_mono) simp_all
  then have "unat ((ucast borrowed :: u128) * ucast bps) = unat borrowed * unat bps"
    by (subst unat_mult_exact) (simp_all add: ucast_exact)
  with assms show ?thesis
    by (simp add: close_factor_cap_def unat_ucast128_64 unat_div)
qed

lemma close_factor_cap_le:
  assumes "unat bps \<le> 10000"
  shows "unat borrowed * unat bps div 10000 \<le> unat borrowed"
    "unat (close_factor_cap borrowed bps) = unat borrowed * unat bps div 10000"
proof -
  have "unat borrowed * unat bps \<le> unat borrowed * 10000" using assms by simp
  from div_le_mono [OF this, of 10000] show le: "unat borrowed * unat bps div 10000 \<le> unat borrowed"
    by simp
  have "unat borrowed < 2 ^ 64" using unat_bound64 [of borrowed] by simp
  with le have "unat borrowed * unat bps div 10000 < 2 ^ 64" by linarith
  then show "unat (close_factor_cap borrowed bps) = unat borrowed * unat bps div 10000"
    by (rule close_factor_cap_exact)
qed

end
