(* ===== verification/KaminoHealth.thy ===== *)
theory KaminoHealth
  imports Lending Instructions
begin

text \<open>
  The Kamino adapter's data and health computation: \<^verbatim>\<open>crates/liq-kamino/src/lib.rs\<close>.
\<close>

datatype kamino_error = MissingPrice | InvalidAmount | ScopeStale

record kamino_deposit =
  kd_reserve :: pubkey
  kd_mint :: pubkey
  kd_deposited_amount :: u64
  kd_decimals :: u8
  kd_liq_threshold_bps :: u16

record kamino_borrow =
  kb_reserve :: pubkey
  kb_mint :: pubkey
  kb_borrowed_amount :: u64
  kb_decimals :: u8

record kamino_obligation =
  ko_address :: pubkey
  ko_market :: pubkey
  ko_deposits :: "kamino_deposit list"
  ko_borrows :: "kamino_borrow list"

definition deposit_allowed :: "kamino_deposit \<Rightarrow> price_fx \<Rightarrow> u128" where
  "deposit_allowed d p =
     weighted_usd (amount_to_usd_micro (ucast (kd_deposited_amount d)) (kd_decimals d) p)
       (kd_liq_threshold_bps d)"

definition borrow_usd :: "kamino_borrow \<Rightarrow> price_fx \<Rightarrow> u128" where
  "borrow_usd b p = amount_to_usd_micro (ucast (kb_borrowed_amount b)) (kb_decimals b) p"

fun total_allowed :: "price_map \<Rightarrow> kamino_deposit list \<Rightarrow> u128 \<Rightarrow> kamino_error + u128" where
  "total_allowed prices [] allowed = Inr allowed"
| "total_allowed prices (d # ds) allowed =
     (if kd_deposited_amount d = 0 then total_allowed prices ds allowed
      else and_then (ok_or (price_get prices (kd_mint d)) MissingPrice) (\<lambda>p.
             total_allowed prices ds (allowed + deposit_allowed d p)))"

fun total_borrowed :: "price_map \<Rightarrow> kamino_borrow list \<Rightarrow> u128 \<Rightarrow> kamino_error + u128" where
  "total_borrowed prices [] borrowed = Inr borrowed"
| "total_borrowed prices (b # bs) borrowed =
     (if kb_borrowed_amount b = 0 then total_borrowed prices bs borrowed
      else and_then (ok_or (price_get prices (kb_mint b)) MissingPrice) (\<lambda>p.
             total_borrowed prices bs (borrowed + borrow_usd b p)))"

definition obligation_health ::
    "kamino_obligation \<Rightarrow> price_map \<Rightarrow> kamino_error + (health_fx \<times> u128 \<times> u128)" where
  "obligation_health obl prices =
     and_then (total_allowed prices (ko_deposits obl) 0) (\<lambda>allowed.
     and_then (total_borrowed prices (ko_borrows obl) 0) (\<lambda>borrowed.
       Inr (health_factor_ratio allowed borrowed, allowed, borrowed)))"

definition is_liquidatable :: "kamino_obligation \<Rightarrow> price_map \<Rightarrow> kamino_error + bool" where
  "is_liquidatable obl prices =
     and_then (obligation_health obl prices) (\<lambda>(health, _, borrowed).
       Inr (0 < borrowed \<and> is_liquidatable_hf health))"

definition max_repay_amount :: "u64 \<Rightarrow> u16 \<Rightarrow> u64" where
  "max_repay_amount borrowed_amount close_factor_bps = close_factor_cap borrowed_amount close_factor_bps"

definition collateral_out_amount ::
    "u64 \<Rightarrow> u8 \<Rightarrow> price_fx \<Rightarrow> u8 \<Rightarrow> price_fx \<Rightarrow> u16 \<Rightarrow> u64" where
  "collateral_out_amount repay_amount repay_decimals repay_price withdraw_decimals withdraw_price bonus_bps =
     (let repay_usd = amount_to_usd_micro (ucast repay_amount) repay_decimals repay_price;
          with_bonus = repay_usd * (10000 + ucast bonus_bps) div 10000;
          num = sat_mul (sat_mul with_bonus (pow10 withdraw_decimals)) price_scale;
          den = sat_mul (px withdraw_price) 1000000
      in if den = 0 then 0 else ucast (num div den))"

section \<open>Instruction data\<close>

definition disc_refresh_reserve :: "u8 list" where
  "disc_refresh_reserve = [2, 218, 138, 235, 79, 201, 25, 102]"

definition disc_refresh_obligation :: "u8 list" where
  "disc_refresh_obligation = [33, 132, 147, 228, 151, 192, 72, 89]"

definition disc_liquidate_v2 :: "u8 list" where
  "disc_liquidate_v2 = [162, 161, 35, 143, 30, 187, 185, 103]"

definition encode_liquidate_v2_data :: "u64 \<Rightarrow> u64 \<Rightarrow> u64 \<Rightarrow> u8 list" where
  "encode_liquidate_v2_data liquidity_amount min_acceptable_received max_allowed_ltv_override_percent =
     disc_liquidate_v2 @ u64_le liquidity_amount @ u64_le min_acceptable_received
       @ u64_le max_allowed_ltv_override_percent"

definition encode_refresh_reserve :: "u8 list" where
  "encode_refresh_reserve = disc_refresh_reserve"

definition encode_refresh_obligation :: "u8 list" where
  "encode_refresh_obligation = disc_refresh_obligation"

definition liquidation_ix_order :: "string list" where
  "liquidation_ix_order = [''ComputeBudget'', ''scope_refresh_optional'', ''refresh_reserve*'',
     ''refresh_obligation'', ''liquidate_obligation_and_redeem_reserve_collateral_v2'', ''swap_optional'']"

section \<open>The loops as priced legs\<close>

definition deposit_ok :: "kamino_deposit \<Rightarrow> bool" where
  "deposit_ok d \<longleftrightarrow> unat (kd_decimals d) \<le> 38 \<and> unat (kd_liq_threshold_bps d) \<le> 10000"

definition borrow_ok :: "kamino_borrow \<Rightarrow> bool" where
  "borrow_ok b \<longleftrightarrow> unat (kb_decimals b) \<le> 38"

text \<open>What a leg is worth in micro-dollars at a price, over the natural numbers.\<close>

definition deposit_worth :: "kamino_deposit \<Rightarrow> nat \<Rightarrow> nat" where
  "deposit_worth d q =
     usd_value (unat (kd_deposited_amount d)) (unat (kd_decimals d)) q * unat (kd_liq_threshold_bps d) div 10000"

definition borrow_worth :: "kamino_borrow \<Rightarrow> nat \<Rightarrow> nat" where
  "borrow_worth b q = usd_value (unat (kb_borrowed_amount b)) (unat (kb_decimals b)) q"

interpretation dep: priced_legs total_allowed kd_deposited_amount kd_mint deposit_allowed
  MissingPrice deposit_ok deposit_worth
proof
  fix d p q assume ok: "deposit_ok d"
  let ?usd = "amount_to_usd_micro (ucast (kd_deposited_amount d)) (kd_decimals d) p"
  have u: "unat ?usd = usd_value (unat (kd_deposited_amount d)) (unat (kd_decimals d)) (unat (px p))"
    using ok by (simp add: amount_to_usd_micro_value deposit_ok_def unat_ucast64_128)
  then show "unat (deposit_allowed d p) = deposit_worth d (unat (px p))"
    using ok
    by (simp add: deposit_allowed_def deposit_worth_def deposit_ok_def weighted_usd_exact [OF amount_to_usd_micro_bound])
  have "deposit_worth d q \<le> usd_value (unat (kd_deposited_amount d)) (unat (kd_decimals d)) q"
    using ok by (simp add: deposit_worth_def deposit_ok_def threshold_le)
  with ok show "deposit_worth d q < 2 ^ 99"
    by (simp add: deposit_ok_def le_less_trans [OF _ usd_value_bound [simplified]])
qed simp_all

interpretation bor: priced_legs total_borrowed kb_borrowed_amount kb_mint borrow_usd
  MissingPrice borrow_ok borrow_worth
  by unfold_locales
    (simp_all add: borrow_usd_def borrow_ok_def borrow_worth_def amount_to_usd_micro_value unat_ucast64_128 usd_value_bound [simplified])

definition obligation_ok :: "kamino_obligation \<Rightarrow> bool" where
  "obligation_ok obl \<longleftrightarrow>
     length (ko_deposits obl) \<le> 64 \<and> (\<forall>d \<in> set (ko_deposits obl). deposit_ok d)
     \<and> length (ko_borrows obl) \<le> 64 \<and> (\<forall>b \<in> set (ko_borrows obl). borrow_ok b)"

text \<open>The micro-dollar value of the weighted collateral and of the debt, summed without width.\<close>

definition allowed_value :: "price_map \<Rightarrow> kamino_obligation \<Rightarrow> nat" where
  "allowed_value prices obl = sum_list (map (dep.priced_value prices) (ko_deposits obl))"

definition borrowed_value :: "price_map \<Rightarrow> kamino_obligation \<Rightarrow> nat" where
  "borrowed_value prices obl = sum_list (map (bor.priced_value prices) (ko_borrows obl))"

lemma obligation_health_Inr:
  assumes "obligation_health obl prices = Inr (h, a, b)" "obligation_ok obl"
  shows "unat a = allowed_value prices obl" "unat b = borrowed_value prices obl"
    "h = health_factor_ratio a b" "unat a * 1000000 < 2 ^ 127"
proof -
  from assms(1) have a: "total_allowed prices (ko_deposits obl) 0 = Inr a"
    and b: "total_borrowed prices (ko_borrows obl) 0 = Inr b" and h: "h = health_factor_ratio a b"
    by (auto simp: obligation_health_def and_then_Inr_iff)
  from assms(2) dep.total_small [OF _ _ a] bor.total_small [OF _ _ b]
  show "unat a = allowed_value prices obl" "unat b = borrowed_value prices obl"
    "unat a * 1000000 < 2 ^ 127"
    by (simp_all add: obligation_ok_def allowed_value_def borrowed_value_def)
  from h show "h = health_factor_ratio a b" .
qed

section \<open>Properties\<close>

text \<open>
  C16: For obligations of at most 64 deposits and 64 borrows, with decimals up to 38 and
  thresholds up to 100 percent, no sum overflows at any amount and any price, and the obligation
  is reported liquidatable exactly when its debt is worth more than its weighted collateral, in
  natural numbers whose products stop at 2^128 - 1.
\<close>

theorem kamino_liquidatable_iff:
  assumes "is_liquidatable obl prices = Inr r" "obligation_ok obl"
  shows "r \<longleftrightarrow> allowed_value prices obl < borrowed_value prices obl"
proof -
  from assms(1) obtain h a b where o: "obligation_health obl prices = Inr (h, a, b)"
    and r: "r \<longleftrightarrow> 0 < b \<and> is_liquidatable_hf h"
    by (auto simp: is_liquidatable_def and_then_Inr_iff)
  note ok = obligation_health_Inr [OF o assms(2)]
  have "is_liquidatable_hf h \<longleftrightarrow> unat a < unat b"
    using ok(4) unfolding ok(3) by (rule health_factor_cmp)
  moreover have "0 < b \<longleftrightarrow> 0 < unat b" by (simp add: word_less_nat_alt)
  ultimately show ?thesis unfolding r ok(1,2) by auto
qed

definition sample_obligation :: kamino_obligation where
  "sample_obligation = \<lparr>ko_address = pubkey_test 2 1, ko_market = pubkey_test 2 2,
     ko_deposits = [\<lparr>kd_reserve = pubkey_test 3 1, kd_mint = pubkey_test 1 1,
       kd_deposited_amount = 10000000000, kd_decimals = 9, kd_liq_threshold_bps = 8000\<rparr>],
     ko_borrows = [\<lparr>kb_reserve = pubkey_test 3 2, kb_mint = pubkey_test 1 2,
       kb_borrowed_amount = 900000000, kb_decimals = 6\<rparr>]\<rparr>"

definition sample_prices :: price_map where
  "sample_prices = [(pubkey_test 1 1, PriceFx 100000000000), (pubkey_test 1 2, PriceFx 1000000000)]"

theorem kamino_liquidatable_iff_witness:
  "is_liquidatable sample_obligation sample_prices = Inr True
   \<and> allowed_value sample_prices sample_obligation < borrowed_value sample_prices sample_obligation"
proof -
  have r: "is_liquidatable sample_obligation sample_prices = Inr True"
    by (simp add: is_liquidatable_def obligation_health_def sample_obligation_def sample_prices_def
        price_get_map_of deposit_allowed_def borrow_usd_def weighted_usd_def amount_to_usd_micro_def
        health_factor_ratio_def is_liquidatable_hf_def sat_mul_def pow10_def price_scale_def
        health_scale_def Let_def)
  have "obligation_ok sample_obligation"
    by (simp add: obligation_ok_def deposit_ok_def borrow_ok_def sample_obligation_def)
  from kamino_liquidatable_iff [OF r this] r show ?thesis by simp
qed

text \<open>
  The health computation fails exactly when an active leg (a deposit or borrow with a
  non-zero amount) has no price, always with the missing-price error; legs of amount zero never
  need a price.
\<close>

lemma obligation_health_error_iff:
  "obligation_health obl prices = Inl e \<longleftrightarrow> e = MissingPrice \<and>
     ((\<exists>d \<in> set (ko_deposits obl). kd_deposited_amount d \<noteq> 0 \<and> price_get prices (kd_mint d) = None)
      \<or> (\<exists>b \<in> set (ko_borrows obl). kb_borrowed_amount b \<noteq> 0 \<and> price_get prices (kb_mint b) = None))"
proof -
  let ?t = "total_allowed prices (ko_deposits obl) 0"
  show ?thesis
  proof (cases ?t)
    case (Inl e')
    then show ?thesis using dep.total_Inl_iff [of prices "ko_deposits obl" 0 e']
      by (auto simp: obligation_health_def)
  next
    case (Inr a)
    then have "\<not> (\<exists>d \<in> set (ko_deposits obl). kd_deposited_amount d \<noteq> 0 \<and> price_get prices (kd_mint d) = None)"
      using dep.total_Inl_iff [of prices "ko_deposits obl" 0 MissingPrice] by auto
    with Inr show ?thesis
      by (auto simp: obligation_health_def and_then_Inl_iff bor.total_Inl_iff)
  qed
qed

end
