(* ===== verification/FlashPlan.thy ===== *)
theory FlashPlan
  imports Instructions
begin

text \<open>
  The shape shared by the flash-loan transactions of the Save and the Kamino adapter: a borrow
  instruction after some prefix, and as last instruction a repay that carries the index of the
  borrow in one byte. The locale states what the two programs' instruction encodings promise.
\<close>

definition flash_sandwich ::
    "labeled_ix list \<Rightarrow> labeled_ix \<Rightarrow> labeled_ix list \<Rightarrow> (u8 \<Rightarrow> labeled_ix) \<Rightarrow> labeled_ix list" where
  "flash_sandwich pre borrow mid repay = pre @ [borrow] @ mid @ [repay (word_of_nat (length pre))]"

locale flash_loan =
  fixes borrow_ix :: "'b \<Rightarrow> u64 \<Rightarrow> instruction"
    and repay_ix :: "'r \<Rightarrow> u64 \<Rightarrow> u8 \<Rightarrow> instruction"
    and is_borrow :: "instruction \<Rightarrow> bool"
    and amount_of :: "instruction \<Rightarrow> u64"
  assumes borrow_is_borrow: "is_borrow (borrow_ix b a)"
    and repay_not_borrow: "\<not> is_borrow (repay_ix r a i)"
    and amount_borrow: "amount_of (borrow_ix b a) = a"
    and amount_repay: "amount_of (repay_ix r a i) = a"
    and repay_index: "last (ix_data (repay_ix r a i)) = i"
begin

text \<open>What the runtime checks of a flash loan: the last instruction repays, its index byte points at
  an earlier borrow, and both move the same amount.\<close>

definition paired :: "labeled_ix list \<Rightarrow> bool" where
  "paired ixs \<longleftrightarrow> ixs \<noteq> [] \<and>
     (let repay = li_ix (last ixs); i = unat (last (ix_data repay))
      in i < length ixs - 1 \<and> is_borrow (li_ix (ixs ! i)) \<and> \<not> is_borrow repay
         \<and> amount_of (li_ix (ixs ! i)) = amount_of repay)"

lemma sandwich_index:
  "last (ix_data (li_ix (last (flash_sandwich pre borrow mid (\<lambda>i. labeled l (repay_ix r a i))))))
     = word_of_nat (length pre)"
  by (simp add: flash_sandwich_def repay_index)

lemma sandwich_paired:
  assumes "length pre < 256"
  shows "paired (flash_sandwich pre (labeled k (borrow_ix b a)) mid (\<lambda>i. labeled l (repay_ix r a i)))"
proof -
  have "unat (word_of_nat (length pre) :: u8) = length pre"
    using assms by (simp add: unat_of_nat take_bit_nat_eq_self)
  then show ?thesis
    by (simp add: paired_def flash_sandwich_def repay_index nth_append borrow_is_borrow
        repay_not_borrow amount_borrow amount_repay Let_def)
qed

end

lemma sandwich_nth:
  "flash_sandwich pre borrow mid repay ! length pre = borrow"
  "i < length mid \<Longrightarrow> flash_sandwich pre borrow mid repay ! (length pre + 1 + i) = mid ! i"
  by (simp_all add: flash_sandwich_def nth_append)

lemma sandwich_slice:
  "slice (flash_sandwich pre borrow mid repay) (length pre + 1) (length pre + 1 + length mid) = mid"
  by (simp add: flash_sandwich_def slice_def)

lemma length_sandwich: "length (flash_sandwich pre borrow mid repay) = length pre + length mid + 2"
  by (simp add: flash_sandwich_def)

end
