(* ===== verification/Save.thy ===== *)
theory Save
  imports Lending FlashPlan
begin

text \<open>
  The Save (Solend) adapter: \<^verbatim>\<open>crates/liq-save/src\<close> (\<^verbatim>\<open>lib.rs\<close>,
  \<^verbatim>\<open>close_factor.rs\<close>, \<^verbatim>\<open>accounts.rs\<close>,
  \<^verbatim>\<open>ordering.rs\<close>, \<^verbatim>\<open>flash.rs\<close>). Names that the Kamino
  adapter also uses carry the suffix \<^verbatim>\<open>_save\<close>.
\<close>

section \<open>Tags and errors\<close>

datatype save_ix =
  InitLendingMarket | SetLendingMarketOwner | InitReserve | RefreshReserve
| DepositReserveLiquidity | RedeemReserveCollateral | InitObligation | RefreshObligation
| DepositObligationCollateral | WithdrawObligationCollateral | BorrowObligationLiquidity
| RepayObligationLiquidity | LiquidateObligation | FlashLoan
| DepositReserveLiquidityAndObligationCollateral
| WithdrawObligationCollateralAndRedeemReserveCollateral | UpdateReserveConfig
| LiquidateObligationAndRedeemReserveCollateral | RedeemFees
| FlashBorrowReserveLiquidity | FlashRepayReserveLiquidity

fun save_tag :: "save_ix \<Rightarrow> u8" where
  "save_tag InitLendingMarket = 0"
| "save_tag SetLendingMarketOwner = 1"
| "save_tag InitReserve = 2"
| "save_tag RefreshReserve = 3"
| "save_tag DepositReserveLiquidity = 4"
| "save_tag RedeemReserveCollateral = 5"
| "save_tag InitObligation = 6"
| "save_tag RefreshObligation = 7"
| "save_tag DepositObligationCollateral = 8"
| "save_tag WithdrawObligationCollateral = 9"
| "save_tag BorrowObligationLiquidity = 10"
| "save_tag RepayObligationLiquidity = 11"
| "save_tag LiquidateObligation = 12"
| "save_tag FlashLoan = 13"
| "save_tag DepositReserveLiquidityAndObligationCollateral = 14"
| "save_tag WithdrawObligationCollateralAndRedeemReserveCollateral = 15"
| "save_tag UpdateReserveConfig = 16"
| "save_tag LiquidateObligationAndRedeemReserveCollateral = 17"
| "save_tag RedeemFees = 18"
| "save_tag FlashBorrowReserveLiquidity = 19"
| "save_tag FlashRepayReserveLiquidity = 20"

datatype save_error = SaveMissingPrice | EmptyRepay

section \<open>Obligations and health\<close>

record save_deposit =
  sd_reserve :: pubkey
  sd_mint :: pubkey
  sd_deposited_amount :: u64
  sd_decimals :: u8
  sd_liq_threshold_bps :: u16
  sd_liq_bonus_bps :: u16

record save_borrow =
  sb_reserve :: pubkey
  sb_mint :: pubkey
  sb_borrowed_amount :: u64
  sb_decimals :: u8

record save_obligation =
  so_address :: pubkey
  so_lending_market :: pubkey
  so_deposits :: "save_deposit list"
  so_borrows :: "save_borrow list"

definition deposit_allowed_save :: "save_deposit \<Rightarrow> price_fx \<Rightarrow> u128" where
  "deposit_allowed_save d p =
     weighted_usd (amount_to_usd_micro (ucast (sd_deposited_amount d)) (sd_decimals d) p)
       (sd_liq_threshold_bps d)"

definition borrow_usd_save :: "save_borrow \<Rightarrow> price_fx \<Rightarrow> u128" where
  "borrow_usd_save b p = amount_to_usd_micro (ucast (sb_borrowed_amount b)) (sb_decimals b) p"

fun total_allowed_save :: "price_map \<Rightarrow> save_deposit list \<Rightarrow> u128 \<Rightarrow> save_error + u128" where
  "total_allowed_save prices [] allowed = Inr allowed"
| "total_allowed_save prices (d # ds) allowed =
     (if sd_deposited_amount d = 0 then total_allowed_save prices ds allowed
      else and_then (ok_or (price_get prices (sd_mint d)) SaveMissingPrice) (\<lambda>p.
             total_allowed_save prices ds (allowed + deposit_allowed_save d p)))"

fun total_borrowed_save :: "price_map \<Rightarrow> save_borrow list \<Rightarrow> u128 \<Rightarrow> save_error + u128" where
  "total_borrowed_save prices [] borrowed = Inr borrowed"
| "total_borrowed_save prices (b # bs) borrowed =
     (if sb_borrowed_amount b = 0 then total_borrowed_save prices bs borrowed
      else and_then (ok_or (price_get prices (sb_mint b)) SaveMissingPrice) (\<lambda>p.
             total_borrowed_save prices bs (borrowed + borrow_usd_save b p)))"

definition obligation_health_save ::
    "save_obligation \<Rightarrow> price_map \<Rightarrow> save_error + (health_fx \<times> u128 \<times> u128)" where
  "obligation_health_save obl prices =
     and_then (total_allowed_save prices (so_deposits obl) 0) (\<lambda>allowed.
     and_then (total_borrowed_save prices (so_borrows obl) 0) (\<lambda>borrowed.
       Inr (health_factor_ratio allowed borrowed, allowed, borrowed)))"

definition is_liquidatable_save :: "save_obligation \<Rightarrow> price_map \<Rightarrow> save_error + bool" where
  "is_liquidatable_save obl prices =
     and_then (obligation_health_save obl prices) (\<lambda>(health, _, borrowed).
       Inr (0 < borrowed \<and> is_liquidatable_hf health))"

section \<open>Close factor\<close>

definition default_close_factor_bps :: u16 where
  "default_close_factor_bps = 5000"

definition max_repay :: "u64 \<Rightarrow> u16 \<Rightarrow> u64" where
  "max_repay borrowed_amount close_factor_bps = close_factor_cap borrowed_amount close_factor_bps"

definition size_repay :: "u64 \<Rightarrow> u64 \<Rightarrow> u16 \<Rightarrow> save_error + u64" where
  "size_repay borrowed_amount desired_repay close_factor_bps =
     (let cap = max_repay borrowed_amount close_factor_bps;
          amt = min (min desired_repay cap) borrowed_amount
      in if amt = 0 then Inl EmptyRepay else Inr amt)"

definition seize_collateral_amount :: "u128 \<Rightarrow> u128 \<Rightarrow> u8 \<Rightarrow> u16 \<Rightarrow> u64" where
  "seize_collateral_amount repay_usd_micro coll_price coll_decimals bonus_bps =
     (if coll_price = 0 then 0
      else let with_bonus = repay_usd_micro * (10000 + ucast bonus_bps) div 10000;
               tokens = sat_mul with_bonus (pow10 coll_decimals) div coll_price
           in ucast tokens)"

section \<open>Instruction data\<close>

definition encode_liquidate_obligation :: "u64 \<Rightarrow> u8 list" where
  "encode_liquidate_obligation amount = [save_tag LiquidateObligation] @ u64_le amount"

definition encode_liquidate_and_redeem :: "u64 \<Rightarrow> u8 list" where
  "encode_liquidate_and_redeem amount =
     [save_tag LiquidateObligationAndRedeemReserveCollateral] @ u64_le amount"

definition encode_refresh_reserve_save :: "u8 list" where
  "encode_refresh_reserve_save = [save_tag RefreshReserve]"

definition encode_refresh_obligation_save :: "u8 list" where
  "encode_refresh_obligation_save = [save_tag RefreshObligation]"

definition encode_flash_borrow_save :: "u64 \<Rightarrow> u8 list" where
  "encode_flash_borrow_save amount = [19] @ u64_le amount"

definition encode_flash_repay_save :: "u64 \<Rightarrow> u8 \<Rightarrow> u8 list" where
  "encode_flash_repay_save amount borrow_index = [20] @ u64_le amount @ [borrow_index]"

definition encode_flash_loan_legacy :: "u64 \<Rightarrow> u8 list" where
  "encode_flash_loan_legacy amount = [save_tag FlashLoan] @ u64_le amount"

definition liquidation_ix_order_save :: "string list" where
  "liquidation_ix_order_save = [''ComputeBudget'', ''RefreshReserve*'', ''RefreshObligation'',
     ''LiquidateObligationAndRedeemReserveCollateral'', ''SwapOptional'']"

section \<open>Accounts\<close>

record liquidate_obligation_accounts =
  lo_source_liquidity :: pubkey
  lo_destination_collateral :: pubkey
  lo_repay_reserve :: pubkey
  lo_repay_reserve_liquidity_supply :: pubkey
  lo_withdraw_reserve :: pubkey
  lo_withdraw_reserve_collateral_supply :: pubkey
  lo_obligation :: pubkey
  lo_lending_market :: pubkey
  lo_lending_market_authority :: pubkey
  lo_user_transfer_authority :: pubkey
  lo_clock_sysvar :: pubkey
  lo_token_program :: pubkey

definition liquidate_obligation_names :: "string list" where
  "liquidate_obligation_names =
     [''source_liquidity'', ''destination_collateral'', ''repay_reserve'',
      ''repay_reserve_liquidity_supply'', ''withdraw_reserve'',
      ''withdraw_reserve_collateral_supply'', ''obligation'', ''lending_market'',
      ''lending_market_authority'', ''user_transfer_authority'', ''clock'', ''token_program'']"

definition liquidate_obligation_keys :: "liquidate_obligation_accounts \<Rightarrow> pubkey list" where
  "liquidate_obligation_keys a =
     [lo_source_liquidity a, lo_destination_collateral a, lo_repay_reserve a,
      lo_repay_reserve_liquidity_supply a, lo_withdraw_reserve a,
      lo_withdraw_reserve_collateral_supply a, lo_obligation a, lo_lending_market a,
      lo_lending_market_authority a, lo_user_transfer_authority a, lo_clock_sysvar a,
      lo_token_program a]"

record flash_borrow_accounts_save =
  sfb_source_liquidity :: pubkey
  sfb_destination_liquidity :: pubkey
  sfb_reserve :: pubkey
  sfb_lending_market :: pubkey
  sfb_lending_market_authority :: pubkey

definition flash_borrow_metas_save :: "flash_borrow_accounts_save \<Rightarrow> account_meta list" where
  "flash_borrow_metas_save a =
     [meta_new (sfb_source_liquidity a) False, meta_new (sfb_destination_liquidity a) False,
      meta_new (sfb_reserve a) False, meta_new_readonly (sfb_lending_market a) False,
      meta_new_readonly (sfb_lending_market_authority a) False,
      meta_new_readonly prog_sysvar_instructions False, meta_new_readonly prog_token False]"

definition flash_borrow_build_ix_save :: "flash_borrow_accounts_save \<Rightarrow> u64 \<Rightarrow> instruction" where
  "flash_borrow_build_ix_save a amount =
     instruction_new prog_save (flash_borrow_metas_save a) (encode_flash_borrow_save amount)"

record flash_repay_accounts_save =
  sfr_source_liquidity :: pubkey
  sfr_destination_liquidity :: pubkey
  sfr_fee_receiver :: pubkey
  sfr_host_fee_receiver :: pubkey
  sfr_reserve :: pubkey
  sfr_lending_market :: pubkey
  sfr_user_transfer_authority :: pubkey

definition flash_repay_metas_save :: "flash_repay_accounts_save \<Rightarrow> account_meta list" where
  "flash_repay_metas_save a =
     [meta_new (sfr_source_liquidity a) False, meta_new (sfr_destination_liquidity a) False,
      meta_new (sfr_fee_receiver a) False, meta_new (sfr_host_fee_receiver a) False,
      meta_new (sfr_reserve a) False, meta_new_readonly (sfr_lending_market a) False,
      meta_new_readonly (sfr_user_transfer_authority a) True,
      meta_new_readonly prog_sysvar_instructions False, meta_new_readonly prog_token False]"

definition flash_repay_build_ix_save :: "flash_repay_accounts_save \<Rightarrow> u64 \<Rightarrow> u8 \<Rightarrow> instruction" where
  "flash_repay_build_ix_save a amount borrow_ix_index =
     instruction_new prog_save (flash_repay_metas_save a) (encode_flash_repay_save amount borrow_ix_index)"

record save_liquidate_accounts =
  sl_source_liquidity :: pubkey
  sl_destination_collateral :: pubkey
  sl_destination_liquidity :: pubkey
  sl_repay_reserve :: pubkey
  sl_repay_reserve_liquidity_supply :: pubkey
  sl_withdraw_reserve :: pubkey
  sl_withdraw_reserve_collateral_mint :: pubkey
  sl_withdraw_reserve_collateral_supply :: pubkey
  sl_withdraw_reserve_liquidity_supply :: pubkey
  sl_withdraw_reserve_fee_receiver :: pubkey
  sl_obligation :: pubkey
  sl_lending_market :: pubkey
  sl_lending_market_authority :: pubkey
  sl_user_transfer_authority :: pubkey

definition save_liquidate_metas :: "save_liquidate_accounts \<Rightarrow> account_meta list" where
  "save_liquidate_metas a =
     [meta_new (sl_source_liquidity a) False, meta_new (sl_destination_collateral a) False,
      meta_new (sl_destination_liquidity a) False, meta_new (sl_repay_reserve a) False,
      meta_new (sl_repay_reserve_liquidity_supply a) False, meta_new (sl_withdraw_reserve a) False,
      meta_new (sl_withdraw_reserve_collateral_mint a) False,
      meta_new (sl_withdraw_reserve_collateral_supply a) False,
      meta_new (sl_withdraw_reserve_liquidity_supply a) False,
      meta_new (sl_withdraw_reserve_fee_receiver a) False, meta_new (sl_obligation a) False,
      meta_new_readonly (sl_lending_market a) False,
      meta_new_readonly (sl_lending_market_authority a) False,
      meta_new_readonly (sl_user_transfer_authority a) True, meta_new_readonly prog_token False]"

definition save_liquidate_build_ix :: "save_liquidate_accounts \<Rightarrow> u64 \<Rightarrow> instruction" where
  "save_liquidate_build_ix a amount =
     instruction_new prog_save (save_liquidate_metas a) (encode_liquidate_and_redeem amount)"

section \<open>Plans\<close>

record save_liquidation_plan =
  slp_labels :: "string list"
  slp_datas :: "u8 list list"
  slp_reserves_refreshed :: "pubkey list"
  slp_obligation :: pubkey
  slp_liquidity_amount :: u64

definition build_liquidation_plan ::
    "pubkey \<Rightarrow> pubkey list \<Rightarrow> pubkey list \<Rightarrow> u64 \<Rightarrow> save_liquidation_plan" where
  "build_liquidation_plan obligation deposit_reserves borrow_reserves amount =
     (let reserves = dedup (deposit_reserves @ borrow_reserves)
      in \<lparr>slp_labels = map (\<lambda>_. ''RefreshReserve'') reserves
            @ [''RefreshObligation'', ''LiquidateObligationAndRedeemReserveCollateral''],
          slp_datas = map (\<lambda>_. encode_refresh_reserve_save) reserves
            @ [encode_refresh_obligation_save, encode_liquidate_and_redeem amount],
          slp_reserves_refreshed = reserves, slp_obligation = obligation,
          slp_liquidity_amount = amount\<rparr>)"

record save_flash_plan_accounts =
  sfp_flash_borrow :: flash_borrow_accounts_save
  sfp_liquidate :: save_liquidate_accounts
  sfp_flash_repay :: flash_repay_accounts_save
  sfp_refresh_reserves :: "pubkey list"
  sfp_obligation :: pubkey

record save_flash_atomic_plan =
  sap_labeled :: "labeled_ix list"
  sap_flash_borrow_index :: u8
  sap_liquidity_amount :: u64

definition refresh_reserve_ix_save :: "pubkey \<Rightarrow> labeled_ix" where
  "refresh_reserve_ix_save r =
     labeled ''RefreshReserve'' (instruction_new prog_save [meta_new r False] encode_refresh_reserve_save)"

definition refresh_obligation_ix_save :: "pubkey \<Rightarrow> labeled_ix" where
  "refresh_obligation_ix_save obl =
     labeled ''RefreshObligation'' (instruction_new prog_save [meta_new obl False] encode_refresh_obligation_save)"

definition liquidate_ix_save :: "save_liquidate_accounts \<Rightarrow> u64 \<Rightarrow> labeled_ix" where
  "liquidate_ix_save a amount =
     labeled ''LiquidateObligationAndRedeemReserveCollateral'' (save_liquidate_build_ix a amount)"

definition build_flash_atomic_plan ::
    "save_flash_plan_accounts \<Rightarrow> u64 \<Rightarrow> labeled_ix list \<Rightarrow> u32 \<Rightarrow> u64 \<Rightarrow> save_flash_atomic_plan" where
  "build_flash_atomic_plan accounts amount swap_ixs cu_limit cu_price =
     (let pre = [cu_limit_ix cu_limit, cu_price_ix cu_price]
            @ map refresh_reserve_ix_save (sfp_refresh_reserves accounts)
            @ [refresh_obligation_ix_save (sfp_obligation accounts)];
          flash_borrow_index = word_of_nat (length pre)
      in \<lparr>sap_labeled = pre
            @ [labeled ''FlashBorrowReserveLiquidity''
                 (flash_borrow_build_ix_save (sfp_flash_borrow accounts) amount)]
            @ [liquidate_ix_save (sfp_liquidate accounts) amount] @ swap_ixs
            @ [labeled ''FlashRepayReserveLiquidity''
                 (flash_repay_build_ix_save (sfp_flash_repay accounts) amount flash_borrow_index)],
          sap_flash_borrow_index = flash_borrow_index, sap_liquidity_amount = amount\<rparr>)"

definition build_inventory_liquidation_plan ::
    "pubkey \<Rightarrow> pubkey list \<Rightarrow> save_liquidate_accounts \<Rightarrow> u64 \<Rightarrow> labeled_ix list \<Rightarrow> u32 \<Rightarrow> u64
      \<Rightarrow> labeled_ix list" where
  "build_inventory_liquidation_plan obligation reserves liquidate amount swap_ixs cu_limit cu_price =
     [cu_limit_ix cu_limit, cu_price_ix cu_price] @ map refresh_reserve_ix_save reserves
       @ [refresh_obligation_ix_save obligation] @ [liquidate_ix_save liquidate amount] @ swap_ixs"

section \<open>Interfaces\<close>

definition deposit_ok_save :: "save_deposit \<Rightarrow> bool" where
  "deposit_ok_save d \<longleftrightarrow> unat (sd_decimals d) \<le> 38 \<and> unat (sd_liq_threshold_bps d) \<le> 10000"

definition borrow_ok_save :: "save_borrow \<Rightarrow> bool" where
  "borrow_ok_save b \<longleftrightarrow> unat (sb_decimals b) \<le> 38"

text \<open>What a leg is worth in micro-dollars at a price, over the natural numbers.\<close>

definition deposit_worth_save :: "save_deposit \<Rightarrow> nat \<Rightarrow> nat" where
  "deposit_worth_save d q =
     usd_value (unat (sd_deposited_amount d)) (unat (sd_decimals d)) q * unat (sd_liq_threshold_bps d) div 10000"

definition borrow_worth_save :: "save_borrow \<Rightarrow> nat \<Rightarrow> nat" where
  "borrow_worth_save b q = usd_value (unat (sb_borrowed_amount b)) (unat (sb_decimals b)) q"

interpretation dep_save: priced_legs total_allowed_save sd_deposited_amount sd_mint deposit_allowed_save
  SaveMissingPrice deposit_ok_save deposit_worth_save
proof
  fix d p q assume ok: "deposit_ok_save d"
  let ?usd = "amount_to_usd_micro (ucast (sd_deposited_amount d)) (sd_decimals d) p"
  have u: "unat ?usd = usd_value (unat (sd_deposited_amount d)) (unat (sd_decimals d)) (unat (px p))"
    using ok by (simp add: amount_to_usd_micro_value deposit_ok_save_def unat_ucast64_128)
  then show "unat (deposit_allowed_save d p) = deposit_worth_save d (unat (px p))"
    using ok
    by (simp add: deposit_allowed_save_def deposit_worth_save_def deposit_ok_save_def weighted_usd_exact [OF amount_to_usd_micro_bound])
  have "deposit_worth_save d q \<le> usd_value (unat (sd_deposited_amount d)) (unat (sd_decimals d)) q"
    using ok by (simp add: deposit_worth_save_def deposit_ok_save_def threshold_le)
  with ok show "deposit_worth_save d q < 2 ^ 99"
    by (simp add: deposit_ok_save_def le_less_trans [OF _ usd_value_bound [simplified]])
qed simp_all

interpretation bor_save: priced_legs total_borrowed_save sb_borrowed_amount sb_mint borrow_usd_save
  SaveMissingPrice borrow_ok_save borrow_worth_save
  by unfold_locales
    (simp_all add: borrow_usd_save_def borrow_ok_save_def borrow_worth_save_def amount_to_usd_micro_value unat_ucast64_128 usd_value_bound [simplified])

definition is_flash_borrow_save :: "instruction \<Rightarrow> bool" where
  "is_flash_borrow_save i \<longleftrightarrow> hd (ix_data i) = save_tag FlashBorrowReserveLiquidity"

definition flash_amount_save :: "instruction \<Rightarrow> u64" where
  "flash_amount_save i = word_of_le (slice (ix_data i) 1 9)"

interpretation flash_save: flash_loan flash_borrow_build_ix_save flash_repay_build_ix_save
  is_flash_borrow_save flash_amount_save
  by unfold_locales
    (simp_all add: flash_borrow_build_ix_save_def flash_repay_build_ix_save_def
      is_flash_borrow_save_def flash_amount_save_def encode_flash_borrow_save_def
      encode_flash_repay_save_def slice_simps)

section \<open>Properties\<close>

definition obligation_ok_save :: "save_obligation \<Rightarrow> bool" where
  "obligation_ok_save obl \<longleftrightarrow>
     length (so_deposits obl) \<le> 64 \<and> (\<forall>d \<in> set (so_deposits obl). deposit_ok_save d)
     \<and> length (so_borrows obl) \<le> 64 \<and> (\<forall>b \<in> set (so_borrows obl). borrow_ok_save b)"

definition allowed_value_save :: "price_map \<Rightarrow> save_obligation \<Rightarrow> nat" where
  "allowed_value_save prices obl = sum_list (map (dep_save.priced_value prices) (so_deposits obl))"

definition borrowed_value_save :: "price_map \<Rightarrow> save_obligation \<Rightarrow> nat" where
  "borrowed_value_save prices obl = sum_list (map (bor_save.priced_value prices) (so_borrows obl))"

text \<open>
  A Save obligation of at most 64 deposits and 64 borrows, with decimals up to 38 and
  thresholds up to 100 percent, is reported liquidatable exactly when its debt is worth more than
  its weighted collateral, in natural numbers whose products stop at 2^128 - 1; no sum overflows
  at any amount and price.
\<close>

lemma save_liquidatable_iff:
  assumes "is_liquidatable_save obl prices = Inr r" "obligation_ok_save obl"
  shows "r \<longleftrightarrow> allowed_value_save prices obl < borrowed_value_save prices obl"
proof -
  from assms(1) obtain a b where a: "total_allowed_save prices (so_deposits obl) 0 = Inr a"
    and b: "total_borrowed_save prices (so_borrows obl) 0 = Inr b"
    and r: "r \<longleftrightarrow> 0 < b \<and> is_liquidatable_hf (health_factor_ratio a b)"
    by (auto simp: is_liquidatable_save_def obligation_health_save_def and_then_Inr_iff)
  from assms(2) dep_save.total_small [OF _ _ a] bor_save.total_small [OF _ _ b]
  have ab: "unat a = allowed_value_save prices obl" "unat b = borrowed_value_save prices obl"
    and small: "unat a * 1000000 < 2 ^ 127"
    by (simp_all add: obligation_ok_save_def allowed_value_save_def borrowed_value_save_def)
  have "0 < b \<longleftrightarrow> 0 < unat b" by (simp add: word_less_nat_alt)
  then show ?thesis unfolding r health_factor_cmp [OF small] ab by auto
qed

definition sample_obligation_save :: save_obligation where
  "sample_obligation_save = \<lparr>so_address = pubkey_test 2 1, so_lending_market = pubkey_test 2 2,
     so_deposits = [\<lparr>sd_reserve = pubkey_test 3 1, sd_mint = pubkey_test 1 1,
       sd_deposited_amount = 1000000000, sd_decimals = 9, sd_liq_threshold_bps = 8500,
       sd_liq_bonus_bps = 500\<rparr>],
     so_borrows = [\<lparr>sb_reserve = pubkey_test 3 2, sb_mint = pubkey_test 1 2,
       sb_borrowed_amount = 200000000, sb_decimals = 6\<rparr>]\<rparr>"

text \<open>
  The repay amount is the smallest of the desired amount, the exact close-factor share of the
  debt and the debt; it is never zero, and sizing fails exactly when that minimum is zero.
\<close>

lemma size_repay_exact:
  "unat bps \<le> 10000 \<Longrightarrow>
     (case size_repay borrowed desired bps of
        Inr amt \<Rightarrow> unat amt = min (unat desired) (unat borrowed * unat bps div 10000)
          \<and> 0 < unat amt \<and> unat amt \<le> unat borrowed
      | Inl e \<Rightarrow> e = EmptyRepay \<and> min (unat desired) (unat borrowed * unat bps div 10000) = 0)"
proof -
  assume bps: "unat bps \<le> 10000"
  let ?amt = "min (min desired (max_repay borrowed bps)) borrowed"
  have "unat ?amt = min (min (unat desired) (unat borrowed * unat bps div 10000)) (unat borrowed)"
    using close_factor_cap_le [OF bps, of borrowed]
    by (simp add: max_repay_def min_def word_le_nat_alt)
  then have amt: "unat ?amt = min (unat desired) (unat borrowed * unat bps div 10000)"
    using close_factor_cap_le(1) [OF bps, of borrowed] by simp
  have "?amt = 0 \<longleftrightarrow> unat ?amt = 0" by (simp add: unat_eq_zero)
  then show ?thesis
    using amt close_factor_cap_le(1) [OF bps, of borrowed]
    by (simp add: size_repay_def Let_def unat_gt_0 min.coboundedI2)
qed


definition sample_flash_accounts :: save_flash_plan_accounts where
  "sample_flash_accounts = \<lparr>
     sfp_flash_borrow = \<lparr>sfb_source_liquidity = pubkey_test 7 1, sfb_destination_liquidity = pubkey_test 7 2,
       sfb_reserve = pubkey_test 7 3, sfb_lending_market = pubkey_test 7 4,
       sfb_lending_market_authority = pubkey_test 7 5\<rparr>,
     sfp_liquidate = \<lparr>sl_source_liquidity = pubkey_test 7 2, sl_destination_collateral = pubkey_test 7 10,
       sl_destination_liquidity = pubkey_test 7 11, sl_repay_reserve = pubkey_test 7 3,
       sl_repay_reserve_liquidity_supply = pubkey_test 7 12, sl_withdraw_reserve = pubkey_test 7 13,
       sl_withdraw_reserve_collateral_mint = pubkey_test 7 14,
       sl_withdraw_reserve_collateral_supply = pubkey_test 7 15,
       sl_withdraw_reserve_liquidity_supply = pubkey_test 7 16,
       sl_withdraw_reserve_fee_receiver = pubkey_test 7 17, sl_obligation = pubkey_test 7 18,
       sl_lending_market = pubkey_test 7 4, sl_lending_market_authority = pubkey_test 7 5,
       sl_user_transfer_authority = pubkey_test 7 19\<rparr>,
     sfp_flash_repay = \<lparr>sfr_source_liquidity = pubkey_test 7 2, sfr_destination_liquidity = pubkey_test 7 1,
       sfr_fee_receiver = pubkey_test 7 20, sfr_host_fee_receiver = pubkey_test 7 21,
       sfr_reserve = pubkey_test 7 3, sfr_lending_market = pubkey_test 7 4,
       sfr_user_transfer_authority = pubkey_test 7 19\<rparr>,
     sfp_refresh_reserves = [pubkey_test 7 3, pubkey_test 7 13], sfp_obligation = pubkey_test 7 18\<rparr>"


text \<open>
  The Save refresh plan names every deposit and borrow reserve exactly once, has one refresh
  per reserve, then the obligation refresh, then the liquidation of the amount, with one label per
  data block.
\<close>

lemma save_refresh_plan:
  "let plan = build_liquidation_plan obl deps bors amount; n = length (slp_reserves_refreshed plan) in
     distinct (slp_reserves_refreshed plan)
     \<and> set (slp_reserves_refreshed plan) = set deps \<union> set bors
     \<and> length (slp_labels plan) = length (slp_datas plan)
     \<and> slp_datas plan = replicate n [3] @ [[7], [17] @ u64_le amount]"
  by (simp add: build_liquidation_plan_def Let_def encode_refresh_reserve_save_def
      encode_refresh_obligation_save_def encode_liquidate_and_redeem_def map_replicate_const)

end
