(* ===== verification/KaminoTx.thy ===== *)
theory KaminoTx
  imports KaminoHealth FlashPlan
begin

text \<open>
  The Kamino transaction builders: \<^verbatim>\<open>crates/liq-kamino/src\<close> files
  \<^verbatim>\<open>accounts.rs\<close>, \<^verbatim>\<open>flash.rs\<close>, \<^verbatim>\<open>refresh.rs\<close>,
  \<^verbatim>\<open>scope.rs\<close> and \<^verbatim>\<open>tx_builder.rs\<close>.
\<close>

section \<open>Liquidation accounts\<close>

datatype meta_role = Writable | Readonly | Signer

datatype account_meta_desc = AccountMetaDesc (md_name: string) (md_key: pubkey) (md_role: meta_role)

record liquidate_v2_accounts =
  lv_liquidator :: pubkey
  lv_obligation :: pubkey
  lv_lending_market :: pubkey
  lv_lending_market_authority :: pubkey
  lv_repay_reserve :: pubkey
  lv_repay_reserve_liquidity_mint :: pubkey
  lv_repay_reserve_liquidity_supply :: pubkey
  lv_withdraw_reserve :: pubkey
  lv_withdraw_reserve_liquidity_mint :: pubkey
  lv_withdraw_reserve_collateral_mint :: pubkey
  lv_withdraw_reserve_collateral_supply :: pubkey
  lv_withdraw_reserve_liquidity_supply :: pubkey
  lv_withdraw_reserve_liquidity_fee_receiver :: pubkey
  lv_user_source_liquidity :: pubkey
  lv_user_destination_collateral :: pubkey
  lv_user_destination_liquidity :: pubkey
  lv_collateral_token_program :: pubkey
  lv_repay_liquidity_token_program :: pubkey
  lv_withdraw_liquidity_token_program :: pubkey
  lv_instruction_sysvar_account :: pubkey
  lv_collateral_obligation_farm_user_state :: "pubkey option"
  lv_collateral_reserve_farm_state :: "pubkey option"
  lv_debt_obligation_farm_user_state :: "pubkey option"
  lv_debt_reserve_farm_state :: "pubkey option"
  lv_farms_program :: pubkey
  lv_deposit_reserves :: "pubkey list"

definition opt_farm :: "string \<Rightarrow> pubkey option \<Rightarrow> pubkey \<Rightarrow> account_meta_desc" where
  "opt_farm name key placeholder =
     (case key of
        Some k \<Rightarrow> AccountMetaDesc name k Writable
      | None \<Rightarrow> AccountMetaDesc name placeholder Readonly)"

definition liquidate_v2_metas :: "liquidate_v2_accounts \<Rightarrow> account_meta_desc list" where
  "liquidate_v2_metas a =
     (let placeholder = prog_klend
      in [AccountMetaDesc ''liquidator'' (lv_liquidator a) Signer,
          AccountMetaDesc ''obligation'' (lv_obligation a) Writable,
          AccountMetaDesc ''lending_market'' (lv_lending_market a) Readonly,
          AccountMetaDesc ''lending_market_authority'' (lv_lending_market_authority a) Readonly,
          AccountMetaDesc ''repay_reserve'' (lv_repay_reserve a) Writable,
          AccountMetaDesc ''repay_reserve_liquidity_mint'' (lv_repay_reserve_liquidity_mint a) Readonly,
          AccountMetaDesc ''repay_reserve_liquidity_supply'' (lv_repay_reserve_liquidity_supply a) Writable,
          AccountMetaDesc ''withdraw_reserve'' (lv_withdraw_reserve a) Writable,
          AccountMetaDesc ''withdraw_reserve_liquidity_mint'' (lv_withdraw_reserve_liquidity_mint a) Readonly,
          AccountMetaDesc ''withdraw_reserve_collateral_mint'' (lv_withdraw_reserve_collateral_mint a) Writable,
          AccountMetaDesc ''withdraw_reserve_collateral_supply'' (lv_withdraw_reserve_collateral_supply a) Writable,
          AccountMetaDesc ''withdraw_reserve_liquidity_supply'' (lv_withdraw_reserve_liquidity_supply a) Writable,
          AccountMetaDesc ''withdraw_reserve_liquidity_fee_receiver'' (lv_withdraw_reserve_liquidity_fee_receiver a) Writable,
          AccountMetaDesc ''user_source_liquidity'' (lv_user_source_liquidity a) Writable,
          AccountMetaDesc ''user_destination_collateral'' (lv_user_destination_collateral a) Writable,
          AccountMetaDesc ''user_destination_liquidity'' (lv_user_destination_liquidity a) Writable,
          AccountMetaDesc ''collateral_token_program'' (lv_collateral_token_program a) Readonly,
          AccountMetaDesc ''repay_liquidity_token_program'' (lv_repay_liquidity_token_program a) Readonly,
          AccountMetaDesc ''withdraw_liquidity_token_program'' (lv_withdraw_liquidity_token_program a) Readonly,
          AccountMetaDesc ''instruction_sysvar_account'' (lv_instruction_sysvar_account a) Readonly,
          opt_farm ''collateral_obligation_farm_user_state'' (lv_collateral_obligation_farm_user_state a) placeholder,
          opt_farm ''collateral_reserve_farm_state'' (lv_collateral_reserve_farm_state a) placeholder,
          opt_farm ''debt_obligation_farm_user_state'' (lv_debt_obligation_farm_user_state a) placeholder,
          opt_farm ''debt_reserve_farm_state'' (lv_debt_reserve_farm_state a) placeholder,
          AccountMetaDesc ''farms_program'' (lv_farms_program a) Readonly]
         @ map (\<lambda>r. AccountMetaDesc ''deposit_reserve'' r Readonly) (lv_deposit_reserves a))"

section \<open>Flash borrow and repay\<close>

definition disc_flash_borrow :: "u8 list" where
  "disc_flash_borrow = [135, 231, 52, 167, 7, 52, 212, 193]"

definition disc_flash_repay :: "u8 list" where
  "disc_flash_repay = [185, 117, 0, 203, 96, 245, 180, 186]"

definition encode_flash_borrow :: "u64 \<Rightarrow> u8 list" where
  "encode_flash_borrow amount = disc_flash_borrow @ u64_le amount"

definition encode_flash_repay :: "u64 \<Rightarrow> u8 \<Rightarrow> u8 list" where
  "encode_flash_repay amount borrow_instruction_index =
     disc_flash_repay @ u64_le amount @ [borrow_instruction_index]"

definition absent_referrer_meta :: account_meta where
  "absent_referrer_meta = meta_new_readonly prog_klend False"

definition referrer_meta :: "pubkey option \<Rightarrow> account_meta" where
  "referrer_meta key = (case key of Some k \<Rightarrow> meta_new k False | None \<Rightarrow> absent_referrer_meta)"

record flash_borrow_accounts =
  kfb_user_transfer_authority :: pubkey
  kfb_lending_market_authority :: pubkey
  kfb_lending_market :: pubkey
  kfb_reserve :: pubkey
  kfb_reserve_liquidity_mint :: pubkey
  kfb_reserve_source_liquidity :: pubkey
  kfb_user_destination_liquidity :: pubkey
  kfb_reserve_liquidity_fee_receiver :: pubkey
  kfb_referrer_token_state :: "pubkey option"
  kfb_referrer_account :: "pubkey option"

definition flash_borrow_metas :: "flash_borrow_accounts \<Rightarrow> account_meta list" where
  "flash_borrow_metas a =
     [meta_new_readonly (kfb_user_transfer_authority a) True,
      meta_new_readonly (kfb_lending_market_authority a) False,
      meta_new_readonly (kfb_lending_market a) False, meta_new (kfb_reserve a) False,
      meta_new_readonly (kfb_reserve_liquidity_mint a) False,
      meta_new (kfb_reserve_source_liquidity a) False,
      meta_new (kfb_user_destination_liquidity a) False,
      meta_new (kfb_reserve_liquidity_fee_receiver a) False,
      referrer_meta (kfb_referrer_token_state a), referrer_meta (kfb_referrer_account a),
      meta_new_readonly prog_sysvar_instructions False, meta_new_readonly prog_token False]"

definition flash_borrow_build_ix :: "flash_borrow_accounts \<Rightarrow> u64 \<Rightarrow> instruction" where
  "flash_borrow_build_ix a amount =
     instruction_new prog_klend (flash_borrow_metas a) (encode_flash_borrow amount)"

record flash_repay_accounts =
  kfr_user_transfer_authority :: pubkey
  kfr_lending_market_authority :: pubkey
  kfr_lending_market :: pubkey
  kfr_reserve :: pubkey
  kfr_reserve_liquidity_mint :: pubkey
  kfr_reserve_destination_liquidity :: pubkey
  kfr_user_source_liquidity :: pubkey
  kfr_reserve_liquidity_fee_receiver :: pubkey
  kfr_referrer_token_state :: "pubkey option"
  kfr_referrer_account :: "pubkey option"

definition flash_repay_metas :: "flash_repay_accounts \<Rightarrow> account_meta list" where
  "flash_repay_metas a =
     [meta_new_readonly (kfr_user_transfer_authority a) True,
      meta_new_readonly (kfr_lending_market_authority a) False,
      meta_new_readonly (kfr_lending_market a) False, meta_new (kfr_reserve a) False,
      meta_new_readonly (kfr_reserve_liquidity_mint a) False,
      meta_new (kfr_reserve_destination_liquidity a) False,
      meta_new (kfr_user_source_liquidity a) False,
      meta_new (kfr_reserve_liquidity_fee_receiver a) False,
      referrer_meta (kfr_referrer_token_state a), referrer_meta (kfr_referrer_account a),
      meta_new_readonly prog_sysvar_instructions False, meta_new_readonly prog_token False]"

definition flash_repay_build_ix :: "flash_repay_accounts \<Rightarrow> u64 \<Rightarrow> u8 \<Rightarrow> instruction" where
  "flash_repay_build_ix a amount borrow_ix_index =
     instruction_new prog_klend (flash_repay_metas a) (encode_flash_repay amount borrow_ix_index)"

section \<open>Refresh plan and oracle freshness\<close>

record refresh_plan =
  rp_reserve_order :: "pubkey list"
  rp_obligation :: pubkey
  rp_datas :: "u8 list list"
  rp_labels :: "string list"

definition build_refresh_plan :: "pubkey \<Rightarrow> pubkey list \<Rightarrow> pubkey list \<Rightarrow> refresh_plan" where
  "build_refresh_plan obligation deposit_reserves borrow_reserves =
     (let reserve_order = dedup (deposit_reserves @ borrow_reserves)
      in \<lparr>rp_reserve_order = reserve_order, rp_obligation = obligation,
          rp_datas = map (\<lambda>_. encode_refresh_reserve) reserve_order @ [encode_refresh_obligation],
          rp_labels = map (\<lambda>_. ''refresh_reserve'') reserve_order @ [''refresh_obligation'']\<rparr>)"

record scope_freshness =
  sf_price_slot :: u64
  sf_current_slot :: u64
  sf_max_age_slots :: u64

definition scope_freshness_new :: "u64 \<Rightarrow> u64 \<Rightarrow> scope_freshness" where
  "scope_freshness_new price_slot current_slot =
     \<lparr>sf_price_slot = price_slot, sf_current_slot = current_slot, sf_max_age_slots = 512\<rparr>"

definition age_slots :: "scope_freshness \<Rightarrow> u64" where
  "age_slots f = sat_sub (sf_current_slot f) (sf_price_slot f)"

definition is_fresh :: "scope_freshness \<Rightarrow> bool" where
  "is_fresh f \<longleftrightarrow> age_slots f \<le> sf_max_age_slots f"

definition scope_check :: "scope_freshness \<Rightarrow> kamino_error + unit" where
  "scope_check f = (if is_fresh f then Inr () else Inl ScopeStale)"

section \<open>Build parameters\<close>

record refresh_reserve_accounts =
  rr_reserve :: pubkey
  rr_lending_market :: pubkey
  rr_pyth_oracle :: pubkey
  rr_switchboard_price :: pubkey
  rr_switchboard_twap :: pubkey
  rr_scope_prices :: pubkey

record ensure_ata =
  ea_payer :: pubkey
  ea_owner :: pubkey
  ea_mint :: pubkey
  ea_token_program :: pubkey

definition ensure_ata_to_labeled_ix :: "crypto \<Rightarrow> ensure_ata \<Rightarrow> labeled_ix" where
  "ensure_ata_to_labeled_ix c e =
     labeled ''CreateIdempotentAssociatedTokenAccount''
       (create_ata_idempotent c (ea_payer e) (ea_owner e) (ea_mint e) (ea_token_program e))"

definition ata_address :: "crypto \<Rightarrow> ensure_ata \<Rightarrow> pubkey" where
  "ata_address c e = get_associated_token_address c (ea_owner e) (ea_mint e) (ea_token_program e)"

record kamino_tx_build_params =
  kp_obligation :: pubkey
  kp_deposit_reserves :: "pubkey list"
  kp_borrow_reserves :: "pubkey list"
  kp_liquidate :: liquidate_v2_accounts
  kp_liquidity_amount :: u64
  kp_min_acceptable_received :: u64
  kp_max_allowed_ltv_override_percent :: u64
  kp_cu_limit :: u32
  kp_cu_price :: u64
  kp_flash :: "(flash_borrow_accounts \<times> flash_repay_accounts) option"
  kp_refresh_reserves :: "refresh_reserve_accounts list"
  kp_referrer_token_states :: "pubkey list"
  kp_ensure_atas :: "ensure_ata list"

section \<open>Instruction builders\<close>

fun ensure_ata_loop :: "crypto \<Rightarrow> pubkey list \<Rightarrow> ensure_ata list \<Rightarrow> labeled_ix list" where
  "ensure_ata_loop c seen [] = []"
| "ensure_ata_loop c seen (spec # specs) =
     (let ata = ata_address c spec
      in if ata \<in> set seen then ensure_ata_loop c seen specs
         else ensure_ata_to_labeled_ix c spec # ensure_ata_loop c (seen @ [ata]) specs)"

definition ensure_ata_ixs :: "crypto \<Rightarrow> kamino_tx_build_params \<Rightarrow> labeled_ix list" where
  "ensure_ata_ixs c p = ensure_ata_loop c [] (kp_ensure_atas p)"

definition fix_oracle_pubkey :: "pubkey \<Rightarrow> pubkey" where
  "fix_oracle_pubkey k = (if k = Pubkey (replicate 32 0) then prog_klend else k)"

definition refresh_reserve_ix :: "kamino_tx_build_params \<Rightarrow> pubkey \<Rightarrow> labeled_ix" where
  "refresh_reserve_ix p reserve =
     (case List.find (\<lambda>r. rr_reserve r = reserve) (kp_refresh_reserves p) of
        Some rr \<Rightarrow> labeled ''refresh_reserve'' (instruction_new prog_klend
          [meta_new (rr_reserve rr) False, meta_new_readonly (rr_lending_market rr) False,
           meta_new_readonly (fix_oracle_pubkey (rr_pyth_oracle rr)) False,
           meta_new_readonly (fix_oracle_pubkey (rr_switchboard_price rr)) False,
           meta_new_readonly (fix_oracle_pubkey (rr_switchboard_twap rr)) False,
           meta_new_readonly (fix_oracle_pubkey (rr_scope_prices rr)) False]
          encode_refresh_reserve)
      | None \<Rightarrow> labeled ''refresh_reserve'' (instruction_new prog_klend
          [meta_new reserve False, meta_new_readonly (lv_lending_market (kp_liquidate p)) False,
           meta_new_readonly prog_klend False, meta_new_readonly prog_klend False,
           meta_new_readonly prog_klend False, meta_new_readonly prog_klend False]
          encode_refresh_reserve))"

definition refresh_obligation_ix :: "kamino_tx_build_params \<Rightarrow> pubkey list \<Rightarrow> labeled_ix" where
  "refresh_obligation_ix p seen_reserves =
     (let positions = kp_deposit_reserves p @ kp_borrow_reserves p;
          fallback = (if length positions = 0 then seen_reserves else [])
      in labeled ''refresh_obligation'' (instruction_new prog_klend
           ([meta_new_readonly (lv_lending_market (kp_liquidate p)) False,
             meta_new (kp_obligation p) False]
            @ map (\<lambda>r. meta_new r False) positions @ map (\<lambda>r. meta_new r False) fallback
            @ map (\<lambda>r. meta_new r False) (kp_referrer_token_states p))
           encode_refresh_obligation))"

definition unique_refresh_reserve_keys :: "kamino_tx_build_params \<Rightarrow> pubkey list" where
  "unique_refresh_reserve_keys p =
     (if kp_refresh_reserves p \<noteq> [] then dedup (map rr_reserve (kp_refresh_reserves p))
      else dedup (kp_deposit_reserves p @ kp_borrow_reserves p))"

definition refresh_ixs :: "kamino_tx_build_params \<Rightarrow> labeled_ix list" where
  "refresh_ixs p =
     (let seen = unique_refresh_reserve_keys p
      in map (refresh_reserve_ix p) seen @ [refresh_obligation_ix p seen])"

definition post_flash_refresh_ixs :: "kamino_tx_build_params \<Rightarrow> pubkey \<Rightarrow> labeled_ix list" where
  "post_flash_refresh_ixs p flash_reserve =
     (let withdraw = lv_withdraw_reserve (kp_liquidate p);
          refreshed = (if withdraw \<noteq> flash_reserve \<and> withdraw \<notin> set [flash_reserve]
                       then [flash_reserve, withdraw] else [flash_reserve])
      in map (refresh_reserve_ix p) refreshed @ [refresh_obligation_ix p refreshed])"

fun meta_of_desc :: "account_meta_desc \<Rightarrow> account_meta" where
  "meta_of_desc (AccountMetaDesc name key Signer) = meta_new_readonly key True"
| "meta_of_desc (AccountMetaDesc name key Writable) = meta_new key False"
| "meta_of_desc (AccountMetaDesc name key Readonly) = meta_new_readonly key False"

definition liquidate_ix :: "kamino_tx_build_params \<Rightarrow> labeled_ix" where
  "liquidate_ix p =
     labeled ''liquidate_obligation_and_redeem_reserve_collateral_v2''
       (instruction_new prog_klend (map meta_of_desc (liquidate_v2_metas (kp_liquidate p)))
          (encode_liquidate_v2_data (kp_liquidity_amount p) (kp_min_acceptable_received p)
             (kp_max_allowed_ltv_override_percent p)))"

definition build_inventory_tx ::
    "crypto \<Rightarrow> kamino_tx_build_params \<Rightarrow> labeled_ix list \<Rightarrow> labeled_ix list" where
  "build_inventory_tx c p swaps =
     [cu_limit_ix (kp_cu_limit p), cu_price_ix (kp_cu_price p)] @ refresh_ixs p
       @ ensure_ata_ixs c p @ [liquidate_ix p] @ swaps"

definition build_flash_tx ::
    "crypto \<Rightarrow> kamino_tx_build_params \<Rightarrow> labeled_ix list \<Rightarrow> labeled_ix list option" where
  "build_flash_tx c p swaps =
     (case kp_flash p of
        None \<Rightarrow> None
      | Some (borrow_acc, repay_acc) \<Rightarrow>
          let pre = [cu_limit_ix (kp_cu_limit p), cu_price_ix (kp_cu_price p)] @ refresh_ixs p
                @ ensure_ata_ixs c p;
              borrow_idx = word_of_nat (length pre)
          in Some (pre
               @ [labeled ''flash_borrow_reserve_liquidity''
                    (flash_borrow_build_ix borrow_acc (kp_liquidity_amount p))]
               @ post_flash_refresh_ixs p (kfb_reserve borrow_acc)
               @ [liquidate_ix p] @ swaps
               @ [labeled ''flash_repay_reserve_liquidity''
                    (flash_repay_build_ix repay_acc (kp_liquidity_amount p) borrow_idx)]))"

section \<open>Lemmas\<close>

definition is_flash_borrow :: "instruction \<Rightarrow> bool" where
  "is_flash_borrow i \<longleftrightarrow> slice (ix_data i) 0 8 = disc_flash_borrow"

definition flash_amount :: "instruction \<Rightarrow> u64" where
  "flash_amount i = word_of_le (slice (ix_data i) 8 16)"

lemma disc_lengths [simp]:
  "length disc_flash_borrow = 8" "length disc_flash_repay = 8" "length disc_liquidate_v2 = 8"
  "length disc_refresh_reserve = 8" "length disc_refresh_obligation = 8"
  by (simp_all add: disc_flash_borrow_def disc_flash_repay_def disc_liquidate_v2_def
      disc_refresh_reserve_def disc_refresh_obligation_def)

lemma disc_distinct: "disc_flash_repay \<noteq> disc_flash_borrow"
  by (simp add: disc_flash_borrow_def disc_flash_repay_def)

interpretation flash_klend: flash_loan flash_borrow_build_ix flash_repay_build_ix is_flash_borrow flash_amount
  by unfold_locales
    (simp_all add: flash_borrow_build_ix_def flash_repay_build_ix_def is_flash_borrow_def
      flash_amount_def encode_flash_borrow_def encode_flash_repay_def slice_simps disc_distinct)

text \<open>The reserve an instruction refreshes: its first account.\<close>

definition refreshed :: "labeled_ix \<Rightarrow> pubkey option" where
  "refreshed l =
     (if ix_data (li_ix l) = encode_refresh_reserve then Some (am_pubkey (hd (ix_accounts (li_ix l)))) else None)"

lemma refreshed_refresh_reserve_ix [simp]: "refreshed (refresh_reserve_ix p r) = Some r"
  by (auto simp: refreshed_def refresh_reserve_ix_def dest: find_map_key split: option.splits)

lemma refreshed_refresh_obligation_ix [simp]: "refreshed (refresh_obligation_ix p rs) = None"
  by (simp add: refreshed_def refresh_obligation_ix_def Let_def encode_refresh_reserve_def
      encode_refresh_obligation_def disc_refresh_reserve_def disc_refresh_obligation_def)

lemma map_filter_refreshed [simp]:
  "List.map_filter refreshed (map (refresh_reserve_ix p) rs) = rs"
  "List.map_filter refreshed [refresh_obligation_ix p rs] = []"
  by (simp_all add: List.map_filter_def comp_def)

lemma ensure_ata_loop_addresses:
  "distinct (map (\<lambda>l. am_pubkey (ix_accounts (li_ix l) ! 1)) (ensure_ata_loop c seen specs))
   \<and> (\<lambda>l. am_pubkey (ix_accounts (li_ix l) ! 1)) ` set (ensure_ata_loop c seen specs)
       = ata_address c ` set specs - set seen"
proof (induction c seen specs rule: ensure_ata_loop.induct)
  case (2 c seen spec specs)
  have "am_pubkey (ix_accounts (li_ix (ensure_ata_to_labeled_ix c spec)) ! 1) = ata_address c spec"
    by (simp add: ensure_ata_to_labeled_ix_def create_ata_idempotent_def ata_address_def Let_def)
  with 2 show ?case by (auto simp: Let_def)
qed simp

lemma post_flash_refreshed:
  "List.map_filter refreshed (post_flash_refresh_ixs p r) =
     (if lv_withdraw_reserve (kp_liquidate p) \<noteq> r then [r, lv_withdraw_reserve (kp_liquidate p)] else [r])"
  by (simp add: post_flash_refresh_ixs_def Let_def)

lemma refresh_ixs_refreshed: "List.map_filter refreshed (refresh_ixs p) = unique_refresh_reserve_keys p"
  by (simp add: refresh_ixs_def Let_def)

lemma refresh_ixs_last: "last (refresh_ixs p) = refresh_obligation_ix p (unique_refresh_reserve_keys p)"
  by (simp add: refresh_ixs_def Let_def)

text \<open>The part of a flash transaction before the borrow, and the transaction as a sandwich.\<close>

definition flash_prefix :: "crypto \<Rightarrow> kamino_tx_build_params \<Rightarrow> labeled_ix list" where
  "flash_prefix c p =
     [cu_limit_ix (kp_cu_limit p), cu_price_ix (kp_cu_price p)] @ refresh_ixs p @ ensure_ata_ixs c p"

lemma length_flash_prefix: "length (flash_prefix c p) = 2 + length (refresh_ixs p) + length (ensure_ata_ixs c p)"
  by (simp add: flash_prefix_def)

lemma flash_tx_sandwich:
  assumes "build_flash_tx c p swaps = Some ixs" "kp_flash p = Some (b, r)"
  shows "ixs = flash_sandwich (flash_prefix c p)
    (labeled ''flash_borrow_reserve_liquidity'' (flash_borrow_build_ix b (kp_liquidity_amount p)))
    (post_flash_refresh_ixs p (kfb_reserve b) @ [liquidate_ix p] @ swaps)
    (\<lambda>i. labeled ''flash_repay_reserve_liquidity'' (flash_repay_build_ix r (kp_liquidity_amount p) i))"
  using assms by (simp add: build_flash_tx_def flash_sandwich_def flash_prefix_def Let_def)

lemma refreshed_length: "length (ix_data (li_ix l)) \<noteq> 8 \<Longrightarrow> refreshed l = None"
  by (auto simp: refreshed_def encode_refresh_reserve_def)

lemma refreshed_other [simp]:
  "refreshed (cu_limit_ix n) = None" "refreshed (cu_price_ix m) = None"
  "refreshed (ensure_ata_to_labeled_ix c e) = None"
  by (simp_all add: refreshed_length cu_limit_ix_def cu_price_ix_def compute_unit_limit_def
      compute_unit_price_def ensure_ata_to_labeled_ix_def create_ata_idempotent_def Let_def)

lemma map_filter_ensure: "List.map_filter refreshed (ensure_ata_loop c seen specs) = []"
  by (induction c seen specs rule: ensure_ata_loop.induct) (simp_all add: List.map_filter_def Let_def)

lemma flash_prefix_refreshed: "List.map_filter refreshed (flash_prefix c p) = unique_refresh_reserve_keys p"
  by (simp add: flash_prefix_def refresh_ixs_refreshed ensure_ata_ixs_def map_filter_ensure
      flip: append_Cons)

lemma flash_prefix_obligation:
  "flash_prefix c p ! (2 + length (unique_refresh_reserve_keys p))
     = refresh_obligation_ix p (unique_refresh_reserve_keys p)"
  by (simp add: flash_prefix_def refresh_ixs_def Let_def nth_append)

text \<open>A flash transaction with a short part before the borrow, read from its repayment: the pair, the index
  of the borrow, and what comes before it.\<close>

lemma flash_tx_reads:
  assumes "build_flash_tx c p swaps = Some ixs" "kp_flash p = Some (b, r)" "length (flash_prefix c p) < 256"
  shows "flash_klend.paired ixs"
    and "unat (last (ix_data (li_ix (last ixs)))) = length (flash_prefix c p)"
    and "take (length (flash_prefix c p)) ixs = flash_prefix c p"
    and "ixs ! (2 + length (unique_refresh_reserve_keys p)) = refresh_obligation_ix p (unique_refresh_reserve_keys p)"
proof -
  note ixs = flash_tx_sandwich [OF assms(1,2)]
  show "flash_klend.paired ixs"
    unfolding ixs by (rule flash_klend.sandwich_paired [OF assms(3)])
  show "unat (last (ix_data (li_ix (last ixs)))) = length (flash_prefix c p)"
    unfolding ixs flash_klend.sandwich_index
    using assms(3) by (simp add: unat_of_nat take_bit_nat_eq_self)
  show pre: "take (length (flash_prefix c p)) ixs = flash_prefix c p"
    unfolding ixs by (simp add: flash_sandwich_def)
  have "2 + length (unique_refresh_reserve_keys p) < length (flash_prefix c p)"
    by (simp add: length_flash_prefix refresh_ixs_def Let_def)
  then show "ixs ! (2 + length (unique_refresh_reserve_keys p)) = refresh_obligation_ix p (unique_refresh_reserve_keys p)"
    by (metis pre nth_take flash_prefix_obligation)
qed

section \<open>Properties\<close>

text \<open>
  A Kamino flash transaction whose part before the borrow has fewer than 256 instructions is
  one the runtime accepts: the last instruction repays the borrow its index byte names, with the
  same amount; between the borrow and the liquidation both reserves the liquidation reads (the
  flash-borrowed one, which the borrow marks stale, and the withdraw one) are refreshed, each
  once, and then the obligation.
\<close>

lemma kamino_flash_tx_sound:
  assumes "build_flash_tx c p swaps = Some ixs" "kp_flash p = Some (b, r)"
    and "k = 2 + length (refresh_ixs p) + length (ensure_ata_ixs c p)" "k < 256"
  shows "flash_klend.paired ixs
    \<and> li_ix (ixs ! k) = flash_borrow_build_ix b (kp_liquidity_amount p)
    \<and> unat (last (ix_data (li_ix (last ixs)))) = k
    \<and> (\<exists>mid. slice ixs (k + 1) (length ixs - 1) = mid @ [liquidate_ix p] @ swaps
        \<and> set (List.map_filter refreshed mid) = {kfb_reserve b, lv_withdraw_reserve (kp_liquidate p)}
        \<and> distinct (List.map_filter refreshed mid)
        \<and> ix_data (li_ix (last mid)) = encode_refresh_obligation)"
proof -
  let ?pre = "flash_prefix c p"
  let ?b = "labeled ''flash_borrow_reserve_liquidity'' (flash_borrow_build_ix b (kp_liquidity_amount p))"
  let ?mid = "post_flash_refresh_ixs p (kfb_reserve b)"
  let ?r = "\<lambda>i. labeled ''flash_repay_reserve_liquidity'' (flash_repay_build_ix r (kp_liquidity_amount p) i)"
  have ixs: "ixs = flash_sandwich ?pre ?b (?mid @ [liquidate_ix p] @ swaps) ?r"
    by (rule flash_tx_sandwich [OF assms(1,2)])
  have len: "length ?pre = k" using assms(3) by (simp add: length_flash_prefix)
  have "length ?pre < 256" using len assms(4) by simp
  note reads = flash_tx_reads [OF assms(1,2) this]
  have "ixs ! k = ?b"
    using sandwich_nth(1) [of ?pre ?b] unfolding ixs len .
  moreover have "slice ixs (k + 1) (length ixs - 1) = ?mid @ [liquidate_ix p] @ swaps"
    using sandwich_slice [of ?pre ?b "?mid @ [liquidate_ix p] @ swaps" ?r]
      length_sandwich [of ?pre ?b "?mid @ [liquidate_ix p] @ swaps" ?r]
    unfolding ixs len by simp
  moreover have "ix_data (li_ix (last ?mid)) = encode_refresh_obligation"
    by (simp add: post_flash_refresh_ixs_def refresh_obligation_ix_def Let_def)
  ultimately show ?thesis
    using reads(1,2) by (intro conjI exI [of _ ?mid]) (auto simp: post_flash_refreshed len)
qed

text \<open>
  Before the liquidation every distinct reserve is refreshed exactly once (the ones with
  explicit oracle accounts, or else the deposit and borrow reserves), then the obligation with one
  account per deposit, borrow and referrer state in slot order; and the token accounts created are
  distinct and cover every requested one.
\<close>

lemma kamino_preparation:
  "distinct (List.map_filter refreshed (refresh_ixs p))
   \<and> set (List.map_filter refreshed (refresh_ixs p)) =
       (if kp_refresh_reserves p \<noteq> [] then rr_reserve ` set (kp_refresh_reserves p)
        else set (kp_deposit_reserves p) \<union> set (kp_borrow_reserves p))
   \<and> (kp_deposit_reserves p @ kp_borrow_reserves p \<noteq> [] \<longrightarrow>
        map am_pubkey (ix_accounts (li_ix (last (refresh_ixs p)))) =
          [lv_lending_market (kp_liquidate p), kp_obligation p] @ kp_deposit_reserves p
            @ kp_borrow_reserves p @ kp_referrer_token_states p)
   \<and> distinct (map (\<lambda>l. am_pubkey (ix_accounts (li_ix l) ! 1)) (ensure_ata_ixs c p))
   \<and> (\<lambda>l. am_pubkey (ix_accounts (li_ix l) ! 1)) ` set (ensure_ata_ixs c p)
       = ata_address c ` set (kp_ensure_atas p)"
proof -
  have "kp_deposit_reserves p @ kp_borrow_reserves p \<noteq> [] \<Longrightarrow>
      map am_pubkey (ix_accounts (li_ix (last (refresh_ixs p)))) =
        [lv_lending_market (kp_liquidate p), kp_obligation p] @ kp_deposit_reserves p
          @ kp_borrow_reserves p @ kp_referrer_token_states p"
    unfolding refresh_ixs_last refresh_obligation_ix_def Let_def
    by (auto simp: comp_def)
  then show ?thesis
    using ensure_ata_loop_addresses [of c "[]" "kp_ensure_atas p"]
    unfolding refresh_ixs_refreshed unique_refresh_reserve_keys_def ensure_ata_ixs_def by auto
qed

text \<open>
  The liquidation instruction has the 25 accounts of the interface definition and one
  read-only account per remaining deposit reserve; the liquidator is the only signer and is not
  writable; an absent farm account is the read-only lending program.
\<close>

lemma kamino_liquidate_metas:
  "let ms = ix_accounts (li_ix (liquidate_ix p)); a = kp_liquidate p in
     length ms = 25 + length (lv_deposit_reserves a)
     \<and> (\<forall>i < length ms. am_is_signer (ms ! i) \<longleftrightarrow> i = 0)
     \<and> am_pubkey (ms ! 0) = lv_liquidator a \<and> \<not> am_is_writable (ms ! 0)
     \<and> drop 25 ms = map (\<lambda>r. meta_new_readonly r False) (lv_deposit_reserves a)
     \<and> (lv_collateral_reserve_farm_state a = None \<longrightarrow> ms ! 21 = meta_new_readonly prog_klend False)"
proof -
  have "\<not> am_is_signer (meta_of_desc (opt_farm n k pl))" for n k pl
    by (cases k) (simp_all add: opt_farm_def)
  then show ?thesis
    by (auto simp: liquidate_ix_def liquidate_v2_metas_def Let_def nth_Cons nth_append opt_farm_def
        split: nat.splits)
qed

definition sample_liquidate :: liquidate_v2_accounts where
  "sample_liquidate = \<lparr>lv_liquidator = pubkey_test 1 1, lv_obligation = pubkey_test 1 2,
     lv_lending_market = pubkey_test 1 3, lv_lending_market_authority = pubkey_test 1 4,
     lv_repay_reserve = pubkey_test 1 5, lv_repay_reserve_liquidity_mint = pubkey_test 1 6,
     lv_repay_reserve_liquidity_supply = pubkey_test 1 7, lv_withdraw_reserve = pubkey_test 1 8,
     lv_withdraw_reserve_liquidity_mint = pubkey_test 1 9,
     lv_withdraw_reserve_collateral_mint = pubkey_test 1 10,
     lv_withdraw_reserve_collateral_supply = pubkey_test 1 11,
     lv_withdraw_reserve_liquidity_supply = pubkey_test 1 12,
     lv_withdraw_reserve_liquidity_fee_receiver = pubkey_test 1 13,
     lv_user_source_liquidity = pubkey_test 1 14, lv_user_destination_collateral = pubkey_test 1 15,
     lv_user_destination_liquidity = pubkey_test 1 16, lv_collateral_token_program = prog_token,
     lv_repay_liquidity_token_program = prog_token, lv_withdraw_liquidity_token_program = prog_token,
     lv_instruction_sysvar_account = prog_sysvar_instructions,
     lv_collateral_obligation_farm_user_state = None, lv_collateral_reserve_farm_state = None,
     lv_debt_obligation_farm_user_state = None, lv_debt_reserve_farm_state = None,
     lv_farms_program = pubkey_test 1 21, lv_deposit_reserves = []\<rparr>"

definition sample_borrow :: flash_borrow_accounts where
  "sample_borrow = \<lparr>kfb_user_transfer_authority = pubkey_test 3 1,
     kfb_lending_market_authority = pubkey_test 1 4, kfb_lending_market = pubkey_test 1 3,
     kfb_reserve = pubkey_test 1 5, kfb_reserve_liquidity_mint = pubkey_test 1 6,
     kfb_reserve_source_liquidity = pubkey_test 1 7, kfb_user_destination_liquidity = pubkey_test 1 14,
     kfb_reserve_liquidity_fee_receiver = pubkey_test 1 13, kfb_referrer_token_state = None,
     kfb_referrer_account = None\<rparr>"

definition sample_repay :: flash_repay_accounts where
  "sample_repay = \<lparr>kfr_user_transfer_authority = pubkey_test 3 1,
     kfr_lending_market_authority = pubkey_test 1 4, kfr_lending_market = pubkey_test 1 3,
     kfr_reserve = pubkey_test 1 5, kfr_reserve_liquidity_mint = pubkey_test 1 6,
     kfr_reserve_destination_liquidity = pubkey_test 1 7, kfr_user_source_liquidity = pubkey_test 1 14,
     kfr_reserve_liquidity_fee_receiver = pubkey_test 1 13, kfr_referrer_token_state = None,
     kfr_referrer_account = None\<rparr>"

definition sample_params :: kamino_tx_build_params where
  "sample_params = \<lparr>kp_obligation = pubkey_test 1 2, kp_deposit_reserves = [pubkey_test 1 8],
     kp_borrow_reserves = [pubkey_test 1 5], kp_liquidate = sample_liquidate,
     kp_liquidity_amount = 1000, kp_min_acceptable_received = 0,
     kp_max_allowed_ltv_override_percent = 0, kp_cu_limit = 400000, kp_cu_price = 1000,
     kp_flash = Some (sample_borrow, sample_repay), kp_refresh_reserves = [],
     kp_referrer_token_states = [], kp_ensure_atas = []\<rparr>"

lemma sample_keys: "unique_refresh_reserve_keys sample_params = [pubkey_test 1 8, pubkey_test 1 5]"
  by (simp add: unique_refresh_reserve_keys_def sample_params_def)

end
