(* ===== verification/KaminoDecode.thy ===== *)
theory KaminoDecode
  imports KaminoHealth
begin

text \<open>
  Account decoding of the Kamino adapter: \<^verbatim>\<open>crates/liq-kamino/src/decode.rs\<close>
  (the planning format with its encoder, the live obligation header and positions, the live
  reserve vaults) and the integer part of \<^verbatim>\<open>crates/liq-kamino/src/live_health.rs\<close>
  (elevation groups, reserve risk fields). A decoder reads slices and indices of the account's
  bytes; a read past the end panics in the source and is the fault \<open>Panic\<close> here, so that the
  absence of panics is a theorem about the length checks.
\<close>

section \<open>Reads that may panic\<close>

datatype decode_error = TooShort | BadMagic | BadVersion

datatype decode_fault = Err decode_error | Panic

definition rd :: "u8 list \<Rightarrow> nat \<Rightarrow> nat \<Rightarrow> decode_fault + u8 list" where
  "rd data a b = (if a \<le> b \<and> b \<le> length data then Inr (slice data a b) else Inl Panic)"

definition rd_u8 :: "u8 list \<Rightarrow> nat \<Rightarrow> decode_fault + u8" where
  "rd_u8 data i = (if i < length data then Inr (data ! i) else Inl Panic)"

definition rd_key :: "u8 list \<Rightarrow> nat \<Rightarrow> decode_fault + pubkey" where
  "rd_key data a = and_then (rd data a (a + 32)) (\<lambda>bs. ok_or (pubkey_from_bytes bs) (Err TooShort))"

definition rd_u16 :: "u8 list \<Rightarrow> nat \<Rightarrow> decode_fault + u16" where
  "rd_u16 data a = and_then (rd data a (a + 2)) (\<lambda>bs. Inr (word_of_le bs))"

definition rd_u64 :: "u8 list \<Rightarrow> nat \<Rightarrow> decode_fault + u64" where
  "rd_u64 data a = and_then (rd data a (a + 8)) (\<lambda>bs. Inr (word_of_le bs))"

definition rd_u128 :: "u8 list \<Rightarrow> nat \<Rightarrow> decode_fault + u128" where
  "rd_u128 data a = and_then (rd data a (a + 16)) (\<lambda>bs. Inr (word_of_le bs))"

named_theorems read_simps "reads within the bounds of the buffer"

lemma rd_ok [read_simps]: "a \<le> b \<Longrightarrow> b \<le> length data \<Longrightarrow> rd data a b = Inr (slice data a b)"
  by (simp add: rd_def)

lemma rd_u8_ok [read_simps]: "i < length data \<Longrightarrow> rd_u8 data i = Inr (data ! i)"
  by (simp add: rd_u8_def)

lemma rd_key_ok [read_simps]:
  "a + 32 \<le> length data \<Longrightarrow> rd_key data a = Inr (Pubkey (slice data a (a + 32)))"
  by (simp add: rd_key_def read_simps pubkey_from_bytes_def length_slice)

lemma rd_u16_ok [read_simps]:
  "a + 2 \<le> length data \<Longrightarrow> rd_u16 data a = Inr (word_of_le (slice data a (a + 2)))"
  by (simp add: rd_u16_def read_simps)

lemma rd_u64_ok [read_simps]:
  "a + 8 \<le> length data \<Longrightarrow> rd_u64 data a = Inr (word_of_le (slice data a (a + 8)))"
  by (simp add: rd_u64_def read_simps)

lemma rd_u128_ok [read_simps]:
  "a + 16 \<le> length data \<Longrightarrow> rd_u128 data a = Inr (word_of_le (slice data a (a + 16)))"
  by (simp add: rd_u128_def read_simps)

section \<open>The planning format\<close>

definition obligation_magic :: "u8 list" where
  "obligation_magic = ascii ''KOBLplan''"

definition decode_obligation_planning :: "pubkey \<Rightarrow> u8 list \<Rightarrow> decode_fault + kamino_obligation" where
  "decode_obligation_planning address data =
     (if length data < 191 then Inl (Err TooShort) else
     and_then (rd data 0 8) (\<lambda>magic.
     if magic \<noteq> obligation_magic then Inl (Err BadMagic) else
     and_then (rd_u8 data 8) (\<lambda>version.
     if version \<noteq> 1 then Inl (Err BadVersion) else
     and_then (rd_u8 data 9) (\<lambda>n_deposits.
     and_then (rd_u8 data 10) (\<lambda>n_borrows.
     and_then (rd_u64 data 11) (\<lambda>deposited_amount.
     and_then (rd_u16 data 19) (\<lambda>liq_threshold_bps.
     and_then (rd_u8 data 21) (\<lambda>deposit_decimals.
     and_then (rd_key data 22) (\<lambda>deposit_mint.
     and_then (rd_key data 54) (\<lambda>deposit_reserve.
     and_then (rd_u64 data 86) (\<lambda>borrowed_amount.
     and_then (rd_u8 data 94) (\<lambda>borrow_decimals.
     and_then (rd_key data 95) (\<lambda>borrow_mint.
     and_then (rd_key data 127) (\<lambda>borrow_reserve.
     and_then (rd_key data 159) (\<lambda>market.
       Inr \<lparr>ko_address = address, ko_market = market,
            ko_deposits = (if 0 < n_deposits
              then [\<lparr>kd_reserve = deposit_reserve, kd_mint = deposit_mint,
                     kd_deposited_amount = deposited_amount, kd_decimals = deposit_decimals,
                     kd_liq_threshold_bps = liq_threshold_bps\<rparr>] else []),
            ko_borrows = (if 0 < n_borrows
              then [\<lparr>kb_reserve = borrow_reserve, kb_mint = borrow_mint,
                     kb_borrowed_amount = borrowed_amount, kb_decimals = borrow_decimals\<rparr>]
              else [])\<rparr>)))))))))))))))"

definition encode_obligation_planning :: "kamino_obligation \<Rightarrow> u8 list" where
  "encode_obligation_planning obl =
     (let (dep_amt, thr, dep_dec, dep_mint, dep_res) =
            (case ko_deposits obl of
               x # _ \<Rightarrow> (kd_deposited_amount x, kd_liq_threshold_bps x, kd_decimals x, kd_mint x, kd_reserve x)
             | [] \<Rightarrow> (0, 0, 0, pubkey_default, pubkey_default));
          (bor_amt, bor_dec, bor_mint, bor_res) =
            (case ko_borrows obl of
               x # _ \<Rightarrow> (kb_borrowed_amount x, kb_decimals x, kb_mint x, kb_reserve x)
             | [] \<Rightarrow> (0, 0, pubkey_default, pubkey_default))
      in obligation_magic @ [1] @ [word_of_nat (min (length (ko_deposits obl)) 255)]
           @ [word_of_nat (min (length (ko_borrows obl)) 255)]
           @ u64_le dep_amt @ u16_le thr @ [dep_dec] @ pk_bytes dep_mint @ pk_bytes dep_res
           @ u64_le bor_amt @ [bor_dec] @ pk_bytes bor_mint @ pk_bytes bor_res
           @ pk_bytes (ko_market obl))"

section \<open>The live obligation\<close>

abbreviation live_obligation_datasize :: nat where "live_obligation_datasize \<equiv> 3344"
abbreviation live_referrer_offset :: nat where "live_referrer_offset \<equiv> 2288"
abbreviation obligation_collateral_size :: nat where "obligation_collateral_size \<equiv> 136"
abbreviation obligation_liquidity_size :: nat where "obligation_liquidity_size \<equiv> 200"
abbreviation live_deposits_offset :: nat where "live_deposits_offset \<equiv> 96"
abbreviation live_borrows_offset :: nat where "live_borrows_offset \<equiv> 1208"
abbreviation live_max_deposits :: nat where "live_max_deposits \<equiv> 8"
abbreviation live_max_borrows :: nat where "live_max_borrows \<equiv> 5"

record live_obligation_header =
  lh_address :: pubkey
  lh_lending_market :: pubkey
  lh_owner :: pubkey
  lh_deposited_value_sf :: u128
  lh_borrow_factor_adjusted_debt_value_sf :: u128
  lh_borrowed_assets_market_value_sf :: u128
  lh_allowed_borrow_value_sf :: u128
  lh_unhealthy_borrow_value_sf :: u128
  lh_has_debt :: bool
  lh_elevation_group :: u8
  lh_referrer :: pubkey

definition decode_obligation_live_header ::
    "pubkey \<Rightarrow> u8 list \<Rightarrow> decode_fault + live_obligation_header" where
  "decode_obligation_live_header address data =
     (if length data < 2288 then Inl (Err TooShort) else
     and_then (rd_key data 32) (\<lambda>lending_market.
     and_then (rd_key data 64) (\<lambda>owner.
     and_then (rd_u128 data 1192) (\<lambda>deposited_value_sf.
     and_then (rd_u128 data 2208) (\<lambda>borrow_factor_adjusted_debt_value_sf.
     and_then (rd_u128 data 2224) (\<lambda>borrowed_assets_market_value_sf.
     and_then (rd_u128 data 2240) (\<lambda>allowed_borrow_value_sf.
     and_then (rd_u128 data 2256) (\<lambda>unhealthy_borrow_value_sf.
     and_then (rd_u8 data 2285) (\<lambda>elevation_group.
     and_then (rd_u8 data 2287) (\<lambda>has_debt.
     and_then (if live_referrer_offset + 32 \<le> length data then rd_key data live_referrer_offset
               else Inr pubkey_default) (\<lambda>referrer.
       Inr \<lparr>lh_address = address, lh_lending_market = lending_market, lh_owner = owner,
            lh_deposited_value_sf = deposited_value_sf,
            lh_borrow_factor_adjusted_debt_value_sf = borrow_factor_adjusted_debt_value_sf,
            lh_borrowed_assets_market_value_sf = borrowed_assets_market_value_sf,
            lh_allowed_borrow_value_sf = allowed_borrow_value_sf,
            lh_unhealthy_borrow_value_sf = unhealthy_borrow_value_sf,
            lh_has_debt = (has_debt \<noteq> 0), lh_elevation_group = elevation_group,
            lh_referrer = referrer\<rparr>)))))))))))"

definition live_obligation_is_liquidatable :: "live_obligation_header \<Rightarrow> bool" where
  "live_obligation_is_liquidatable h =
     (let debt = (if 0 < lh_borrow_factor_adjusted_debt_value_sf h
                  then lh_borrow_factor_adjusted_debt_value_sf h
                  else lh_borrowed_assets_market_value_sf h)
      in lh_has_debt h \<and> 0 < debt \<and> lh_unhealthy_borrow_value_sf h < debt)"

definition live_obligation_has_referrer :: "live_obligation_header \<Rightarrow> bool" where
  "live_obligation_has_referrer h \<longleftrightarrow> pk_bytes (lh_referrer h) \<noteq> replicate 32 0"

record live_deposit_position =
  ld_reserve :: pubkey
  ld_deposited_amount :: u64
  ld_market_value_sf :: u128

record live_borrow_position =
  lb_reserve :: pubkey
  lb_borrowed_amount_sf :: u128
  lb_market_value_sf :: u128

record live_obligation_positions =
  lp_header :: live_obligation_header
  lp_deposits :: "live_deposit_position list"
  lp_borrows :: "live_borrow_position list"

text \<open>One pass of each loop reads a slot; \<open>None\<close> is a slot the loop skips.\<close>

definition deposit_slot :: "u8 list \<Rightarrow> nat \<Rightarrow> decode_fault + live_deposit_position option" where
  "deposit_slot data i =
     (let off = live_deposits_offset + i * obligation_collateral_size in
     and_then (rd_key data off) (\<lambda>reserve.
     and_then (rd_u64 data (off + 32)) (\<lambda>deposited_amount.
     and_then (rd_u128 data (off + 40)) (\<lambda>market_value_sf.
       if deposited_amount = 0 \<and> pk_bytes reserve = replicate 32 0 then Inr None
       else if 0 < deposited_amount \<or> 0 < market_value_sf
         then Inr (Some \<lparr>ld_reserve = reserve, ld_deposited_amount = deposited_amount,
                        ld_market_value_sf = market_value_sf\<rparr>)
       else Inr None))))"

definition borrow_slot :: "u8 list \<Rightarrow> nat \<Rightarrow> decode_fault + live_borrow_position option" where
  "borrow_slot data i =
     (let off = live_borrows_offset + i * obligation_liquidity_size in
     and_then (rd_key data off) (\<lambda>reserve.
     and_then (rd_u128 data (off + 88)) (\<lambda>borrowed_amount_sf.
     and_then (rd_u128 data (off + 104)) (\<lambda>market_value_sf.
       if borrowed_amount_sf = 0 \<and> pk_bytes reserve = replicate 32 0 then Inr None
       else if 0 < borrowed_amount_sf \<or> 0 < market_value_sf
         then Inr (Some \<lparr>lb_reserve = reserve, lb_borrowed_amount_sf = borrowed_amount_sf,
                        lb_market_value_sf = market_value_sf\<rparr>)
       else Inr None))))"

text \<open>\<^verbatim>\<open>for i in ..\<close> with \<^verbatim>\<open>continue\<close> and \<^verbatim>\<open>push\<close>.\<close>

fun collect_slots :: "(nat \<Rightarrow> 'e + 'a option) \<Rightarrow> nat list \<Rightarrow> 'a list \<Rightarrow> 'e + 'a list" where
  "collect_slots slot [] acc = Inr acc"
| "collect_slots slot (i # is) acc =
     and_then (slot i) (\<lambda>s.
       collect_slots slot is (case s of None \<Rightarrow> acc | Some x \<Rightarrow> acc @ [x]))"

definition decode_obligation_live_positions ::
    "pubkey \<Rightarrow> u8 list \<Rightarrow> decode_fault + live_obligation_positions" where
  "decode_obligation_live_positions address data =
     and_then (decode_obligation_live_header address data) (\<lambda>header.
     if length data < live_borrows_offset + live_max_borrows * obligation_liquidity_size
     then Inl (Err TooShort) else
     and_then (collect_slots (deposit_slot data) [0..<live_max_deposits] []) (\<lambda>deposits.
     and_then (collect_slots (borrow_slot data) [0..<live_max_borrows] []) (\<lambda>borrows.
       Inr \<lparr>lp_header = header, lp_deposits = deposits, lp_borrows = borrows\<rparr>)))"

definition pick_liquidate_reserves :: "live_obligation_positions \<Rightarrow> (pubkey \<times> pubkey) option" where
  "pick_liquidate_reserves pos =
     Option.bind (map_option lb_reserve (max_by_key lb_market_value_sf (lp_borrows pos))) (\<lambda>repay.
     Option.bind (map_option ld_reserve (max_by_key ld_market_value_sf (lp_deposits pos))) (\<lambda>withdraw.
       Some (repay, withdraw)))"

section \<open>The live reserve\<close>

abbreviation live_reserve_liquidity_offset :: nat where "live_reserve_liquidity_offset \<equiv> 128"
abbreviation live_reserve_collateral_offset :: nat where "live_reserve_collateral_offset \<equiv> 2560"
abbreviation live_reserve_datasize :: nat where "live_reserve_datasize \<equiv> 8624"
abbreviation live_reserve_config_offset :: nat where "live_reserve_config_offset \<equiv> 4856"

record live_reserve_vaults =
  rv_address :: pubkey
  rv_lending_market :: pubkey
  rv_farm_collateral :: pubkey
  rv_farm_debt :: pubkey
  rv_liquidity_mint :: pubkey
  rv_liquidity_supply :: pubkey
  rv_fee_vault :: pubkey
  rv_mint_decimals :: u8
  rv_token_program :: pubkey
  rv_collateral_mint :: pubkey
  rv_collateral_supply :: pubkey
  rv_pyth_oracle :: pubkey
  rv_switchboard_price :: pubkey
  rv_switchboard_twap :: pubkey
  rv_scope_prices :: pubkey

definition decode_reserve_live_vaults :: "pubkey \<Rightarrow> u8 list \<Rightarrow> decode_fault + live_reserve_vaults" where
  "decode_reserve_live_vaults address data =
     (if length data < live_reserve_collateral_offset + 72 then Inl (Err TooShort) else
     and_then (rd_key data 32) (\<lambda>lending_market.
     and_then (rd_key data 64) (\<lambda>farm_collateral.
     and_then (rd_key data 96) (\<lambda>farm_debt.
     let liq = live_reserve_liquidity_offset in
     and_then (rd_key data liq) (\<lambda>liquidity_mint.
     and_then (rd_key data (liq + 32)) (\<lambda>liquidity_supply.
     and_then (rd_key data (liq + 64)) (\<lambda>fee_vault.
     and_then (rd_u8 data (liq + 144)) (\<lambda>mint_decimals.
     and_then (rd_key data (liq + 280)) (\<lambda>token_program.
     let col = live_reserve_collateral_offset in
     and_then (rd_key data col) (\<lambda>collateral_mint.
     and_then (rd_key data (col + 40)) (\<lambda>collateral_supply.
     if length data < 5256 then Inl (Err TooShort) else
     and_then (rd_key data 5112) (\<lambda>scope_prices.
     and_then (rd_key data 5160) (\<lambda>switchboard_price.
     and_then (rd_key data 5192) (\<lambda>switchboard_twap.
     and_then (rd_key data 5224) (\<lambda>pyth_oracle.
       Inr \<lparr>rv_address = address, rv_lending_market = lending_market,
            rv_farm_collateral = farm_collateral, rv_farm_debt = farm_debt,
            rv_liquidity_mint = liquidity_mint, rv_liquidity_supply = liquidity_supply,
            rv_fee_vault = fee_vault, rv_mint_decimals = mint_decimals,
            rv_token_program = token_program, rv_collateral_mint = collateral_mint,
            rv_collateral_supply = collateral_supply, rv_pyth_oracle = pyth_oracle,
            rv_switchboard_price = switchboard_price, rv_switchboard_twap = switchboard_twap,
            rv_scope_prices = scope_prices\<rparr>)))))))))))))))"

definition lending_market_authority :: "crypto \<Rightarrow> pubkey \<Rightarrow> pubkey" where
  "lending_market_authority c market = fst (find_program_address c [ascii ''lma'', pk_bytes market] prog_klend)"

record live_reserve_risk =
  lr_address :: pubkey
  lr_lending_market :: pubkey
  lr_liquidity_mint :: pubkey
  lr_mint_decimals :: u8
  lr_loan_to_value_pct :: u8
  lr_liquidation_threshold_pct :: u8
  lr_borrow_factor_pct :: u64
  lr_market_price_sf :: u128
  lr_total_available_amount :: u64
  lr_borrowed_amount_sf :: u128
  lr_accumulated_protocol_fees_sf :: u128
  lr_accumulated_referrer_fees_sf :: u128
  lr_pending_referrer_fees_sf :: u128
  lr_collateral_mint_total_supply :: u64
  lr_pyth_oracle :: pubkey
  lr_switchboard_price :: pubkey
  lr_scope_prices :: pubkey

definition decode_reserve_live_risk :: "pubkey \<Rightarrow> u8 list \<Rightarrow> decode_fault + live_reserve_risk" where
  "decode_reserve_live_risk address data =
     (if length data < min live_reserve_datasize 5256
         \<or> length data < live_reserve_config_offset + 152 + 8 then Inl (Err TooShort) else
     and_then (decode_reserve_live_vaults address data) (\<lambda>vaults.
     and_then (rd_u128 data (live_reserve_liquidity_offset + 120)) (\<lambda>market_price_sf.
     and_then (rd_u64 data (live_reserve_liquidity_offset + 96)) (\<lambda>total_available_amount.
     and_then (rd_u128 data (live_reserve_liquidity_offset + 104)) (\<lambda>borrowed_amount_sf.
     and_then (rd_u128 data (live_reserve_liquidity_offset + 216)) (\<lambda>accumulated_protocol_fees_sf.
     and_then (rd_u128 data (live_reserve_liquidity_offset + 232)) (\<lambda>accumulated_referrer_fees_sf.
     and_then (rd_u128 data (live_reserve_liquidity_offset + 248)) (\<lambda>pending_referrer_fees_sf.
     and_then (rd_u64 data (live_reserve_collateral_offset + 32)) (\<lambda>collateral_mint_total_supply.
     and_then (rd_u8 data (live_reserve_config_offset + 16)) (\<lambda>loan_to_value_pct.
     and_then (rd_u8 data (live_reserve_config_offset + 17)) (\<lambda>liquidation_threshold_pct.
     and_then (rd_u64 data (live_reserve_config_offset + 152)) (\<lambda>borrow_factor_pct.
       Inr \<lparr>lr_address = address, lr_lending_market = rv_lending_market vaults,
            lr_liquidity_mint = rv_liquidity_mint vaults, lr_mint_decimals = rv_mint_decimals vaults,
            lr_loan_to_value_pct = loan_to_value_pct,
            lr_liquidation_threshold_pct = liquidation_threshold_pct,
            lr_borrow_factor_pct = (if borrow_factor_pct = 0 then 100 else borrow_factor_pct),
            lr_market_price_sf = market_price_sf,
            lr_total_available_amount = total_available_amount,
            lr_borrowed_amount_sf = borrowed_amount_sf,
            lr_accumulated_protocol_fees_sf = accumulated_protocol_fees_sf,
            lr_accumulated_referrer_fees_sf = accumulated_referrer_fees_sf,
            lr_pending_referrer_fees_sf = pending_referrer_fees_sf,
            lr_collateral_mint_total_supply = collateral_mint_total_supply,
            lr_pyth_oracle = rv_pyth_oracle vaults,
            lr_switchboard_price = rv_switchboard_price vaults,
            lr_scope_prices = rv_scope_prices vaults\<rparr>))))))))))))"

definition decode_reserve_live_risk_and_vaults ::
    "pubkey \<Rightarrow> u8 list \<Rightarrow> decode_fault + (live_reserve_risk \<times> live_reserve_vaults)" where
  "decode_reserve_live_risk_and_vaults address data =
     and_then (decode_reserve_live_risk address data) (\<lambda>risk.
     and_then (decode_reserve_live_vaults address data) (\<lambda>vaults. Inr (risk, vaults)))"

section \<open>Elevation groups of a lending market\<close>

record elevation_group_params =
  eg_id :: u8
  eg_ltv_pct :: u8
  eg_liquidation_threshold_pct :: u8
  eg_max_liquidation_bonus_bps :: u16

abbreviation live_market_elevation_groups_offset :: nat where
  "live_market_elevation_groups_offset \<equiv> 200"
abbreviation elevation_group_size :: nat where "elevation_group_size \<equiv> 72"
abbreviation max_elevation_groups :: nat where "max_elevation_groups \<equiv> 32"

definition elevation_slot :: "u8 list \<Rightarrow> nat \<Rightarrow> decode_fault + elevation_group_params option" where
  "elevation_slot data i =
     (let off = live_market_elevation_groups_offset + i * elevation_group_size in
     and_then (rd_u16 data off) (\<lambda>max_bonus.
     and_then (rd_u8 data (off + 2)) (\<lambda>id.
     and_then (rd_u8 data (off + 3)) (\<lambda>ltv_pct.
     and_then (rd_u8 data (off + 4)) (\<lambda>threshold.
       if id = 0 \<and> ltv_pct = 0 \<and> threshold = 0 then Inr None
       else Inr (Some \<lparr>eg_id = id, eg_ltv_pct = ltv_pct, eg_liquidation_threshold_pct = threshold,
                      eg_max_liquidation_bonus_bps = max_bonus\<rparr>))))))"

fun insert_groups :: "(nat \<Rightarrow> 'e + elevation_group_params option) \<Rightarrow> nat list
    \<Rightarrow> (u8 \<rightharpoonup> elevation_group_params) \<Rightarrow> 'e + (u8 \<rightharpoonup> elevation_group_params)" where
  "insert_groups slot [] m = Inr m"
| "insert_groups slot (i # is) m =
     and_then (slot i) (\<lambda>s.
       insert_groups slot is (case s of None \<Rightarrow> m | Some g \<Rightarrow> m(eg_id g \<mapsto> g)))"

definition decode_lending_market_elevation_groups ::
    "u8 list \<Rightarrow> decode_fault + (u8 \<rightharpoonup> elevation_group_params)" where
  "decode_lending_market_elevation_groups data =
     (let need = live_market_elevation_groups_offset + max_elevation_groups * elevation_group_size
      in if length data < need then Inl (Err TooShort)
         else insert_groups (elevation_slot data) [0..<max_elevation_groups] Map.empty)"

section \<open>The planning format round trip\<close>

definition obligation_keys_wf :: "kamino_obligation \<Rightarrow> bool" where
  "obligation_keys_wf obl \<longleftrightarrow> pubkey_wf (ko_market obl)
     \<and> (\<forall>d \<in> set (ko_deposits obl). pubkey_wf (kd_mint d) \<and> pubkey_wf (kd_reserve d))
     \<and> (\<forall>b \<in> set (ko_borrows obl). pubkey_wf (kb_mint b) \<and> pubkey_wf (kb_reserve b))"

text \<open>The bytes of the format, with the fields as parameters.\<close>

definition planning_bytes ::
    "u8 \<Rightarrow> u8 \<Rightarrow> u64 \<Rightarrow> u16 \<Rightarrow> u8 \<Rightarrow> pubkey \<Rightarrow> pubkey \<Rightarrow> u64 \<Rightarrow> u8 \<Rightarrow> pubkey \<Rightarrow> pubkey \<Rightarrow> pubkey \<Rightarrow> u8 list" where
  "planning_bytes nd nb damt thr ddec dmint dres bamt bdec bmint bres market =
     obligation_magic @ [1] @ [nd] @ [nb] @ u64_le damt @ u16_le thr @ [ddec] @ pk_bytes dmint
       @ pk_bytes dres @ u64_le bamt @ [bdec] @ pk_bytes bmint @ pk_bytes bres @ pk_bytes market"

lemma length_obligation_magic: "length obligation_magic = 8"
  by (simp add: obligation_magic_def ascii_def)

lemma decode_planning_bytes:
  assumes "pubkey_wf dmint" "pubkey_wf dres" "pubkey_wf bmint" "pubkey_wf bres" "pubkey_wf market"
  shows "decode_obligation_planning addr
      (planning_bytes nd nb damt thr ddec dmint dres bamt bdec bmint bres market) =
    Inr \<lparr>ko_address = addr, ko_market = market,
      ko_deposits = (if 0 < nd
        then [\<lparr>kd_reserve = dres, kd_mint = dmint, kd_deposited_amount = damt, kd_decimals = ddec,
               kd_liq_threshold_bps = thr\<rparr>] else []),
      ko_borrows = (if 0 < nb
        then [\<lparr>kb_reserve = bres, kb_mint = bmint, kb_borrowed_amount = bamt, kb_decimals = bdec\<rparr>]
        else [])\<rparr>"
proof -
  let ?d = "planning_bytes nd nb damt thr ddec dmint dres bamt bdec bmint bres market"
  note l = assms [unfolded pubkey_wf_def] length_obligation_magic
  have len: "length ?d = 191" by (simp add: planning_bytes_def l)
  have sl: "slice ?d 0 8 = obligation_magic" "slice ?d 11 19 = u64_le damt" "slice ?d 19 21 = u16_le thr"
    "slice ?d 22 54 = pk_bytes dmint" "slice ?d 54 86 = pk_bytes dres" "slice ?d 86 94 = u64_le bamt"
    "slice ?d 95 127 = pk_bytes bmint" "slice ?d 127 159 = pk_bytes bres"
    "slice ?d 159 191 = pk_bytes market"
    by (simp_all add: planning_bytes_def slice_simps l)
  have nth: "?d ! 8 = 1" "?d ! 9 = nd" "?d ! 10 = nb" "?d ! 21 = ddec" "?d ! 94 = bdec"
    by (simp_all add: planning_bytes_def nth_append l)
  show ?thesis
    by (simp add: decode_obligation_planning_def read_simps len sl nth)
qed

lemma count_byte_pos: "0 < (word_of_nat (min n 255) :: u8) \<longleftrightarrow> 0 < n"
proof -
  have "unat (word_of_nat (min n 255) :: u8) = min n 255"
    by (simp add: unat_of_nat take_bit_nat_eq_self)
  then show ?thesis by (simp add: word_less_nat_alt)
qed

definition lead_deposit :: "kamino_obligation \<Rightarrow> kamino_deposit" where
  "lead_deposit obl = (case ko_deposits obl of x # _ \<Rightarrow> x
     | [] \<Rightarrow> \<lparr>kd_reserve = pubkey_default, kd_mint = pubkey_default, kd_deposited_amount = 0,
             kd_decimals = 0, kd_liq_threshold_bps = 0\<rparr>)"

definition lead_borrow :: "kamino_obligation \<Rightarrow> kamino_borrow" where
  "lead_borrow obl = (case ko_borrows obl of x # _ \<Rightarrow> x
     | [] \<Rightarrow> \<lparr>kb_reserve = pubkey_default, kb_mint = pubkey_default, kb_borrowed_amount = 0,
             kb_decimals = 0\<rparr>)"

lemma encode_planning_bytes:
  "encode_obligation_planning obl = planning_bytes
     (word_of_nat (min (length (ko_deposits obl)) 255)) (word_of_nat (min (length (ko_borrows obl)) 255))
     (kd_deposited_amount (lead_deposit obl)) (kd_liq_threshold_bps (lead_deposit obl))
     (kd_decimals (lead_deposit obl)) (kd_mint (lead_deposit obl)) (kd_reserve (lead_deposit obl))
     (kb_borrowed_amount (lead_borrow obl)) (kb_decimals (lead_borrow obl))
     (kb_mint (lead_borrow obl)) (kb_reserve (lead_borrow obl)) (ko_market obl)"
  by (simp add: encode_obligation_planning_def planning_bytes_def lead_deposit_def lead_borrow_def
      split: list.split)

lemma lead_legs_wf:
  assumes "obligation_keys_wf obl"
  shows "pubkey_wf (kd_mint (lead_deposit obl))" "pubkey_wf (kd_reserve (lead_deposit obl))"
    "pubkey_wf (kb_mint (lead_borrow obl))" "pubkey_wf (kb_reserve (lead_borrow obl))"
    "pubkey_wf (ko_market obl)"
  using assms
  by (simp_all add: obligation_keys_wf_def lead_deposit_def lead_borrow_def split: list.splits)

lemma take_lead:
  "take 1 (ko_deposits obl) = (if 0 < length (ko_deposits obl) then [lead_deposit obl] else [])"
  "take 1 (ko_borrows obl) = (if 0 < length (ko_borrows obl) then [lead_borrow obl] else [])"
  by (simp_all add: lead_deposit_def lead_borrow_def split: list.split)

text \<open>
  C33: Encoding an obligation in the planning format and decoding it gives back the obligation
  with its first deposit and its first borrow: the format is lossless exactly up to one leg per
  side, whatever the number of legs written in the header.
\<close>

theorem planning_roundtrip:
  assumes "obligation_keys_wf obl"
  shows "decode_obligation_planning (ko_address obl) (encode_obligation_planning obl) =
    Inr (obl\<lparr>ko_deposits := take 1 (ko_deposits obl), ko_borrows := take 1 (ko_borrows obl)\<rparr>)"
  unfolding encode_planning_bytes decode_planning_bytes [OF lead_legs_wf [OF assms]]
  by (simp add: count_byte_pos take_lead del: take_Suc One_nat_def length_greater_0_conv)

theorem planning_roundtrip_witness:
  "decode_obligation_planning (ko_address sample_obligation) (encode_obligation_planning sample_obligation) =
    Inr (sample_obligation\<lparr>ko_deposits := take 1 (ko_deposits sample_obligation),
      ko_borrows := take 1 (ko_borrows sample_obligation)\<rparr>)"
  by (rule planning_roundtrip) (simp add: obligation_keys_wf_def sample_obligation_def)

section \<open>The live decoders are total\<close>

text \<open>
  What the decoders read, as total functions of the bytes: the decoders equal them behind their
  length checks, so none of their reads can panic.
\<close>

definition key_at :: "u8 list \<Rightarrow> nat \<Rightarrow> pubkey" where
  "key_at data a = Pubkey (slice data a (a + 32))"

definition word_at :: "u8 list \<Rightarrow> nat \<Rightarrow> nat \<Rightarrow> 'a::len word" where
  "word_at data n a = word_of_le (slice data a (a + n))"

definition live_header_view :: "pubkey \<Rightarrow> u8 list \<Rightarrow> live_obligation_header" where
  "live_header_view address data =
     \<lparr>lh_address = address, lh_lending_market = key_at data 32, lh_owner = key_at data 64,
      lh_deposited_value_sf = word_at data 16 1192,
      lh_borrow_factor_adjusted_debt_value_sf = word_at data 16 2208,
      lh_borrowed_assets_market_value_sf = word_at data 16 2224,
      lh_allowed_borrow_value_sf = word_at data 16 2240,
      lh_unhealthy_borrow_value_sf = word_at data 16 2256,
      lh_has_debt = (data ! 2287 \<noteq> 0), lh_elevation_group = data ! 2285,
      lh_referrer = (if 2320 \<le> length data then key_at data 2288 else pubkey_default)\<rparr>"

lemma decode_live_header_total:
  "decode_obligation_live_header address data =
     (if length data < 2288 then Inl (Err TooShort) else Inr (live_header_view address data))"
  by (simp add: decode_obligation_live_header_def live_header_view_def read_simps key_at_def word_at_def
      del: One_nat_def)

definition deposit_at :: "u8 list \<Rightarrow> nat \<Rightarrow> live_deposit_position" where
  "deposit_at data i =
     \<lparr>ld_reserve = key_at data (96 + i * 136), ld_deposited_amount = word_at data 8 (96 + i * 136 + 32),
      ld_market_value_sf = word_at data 16 (96 + i * 136 + 40)\<rparr>"

definition borrow_at :: "u8 list \<Rightarrow> nat \<Rightarrow> live_borrow_position" where
  "borrow_at data i =
     \<lparr>lb_reserve = key_at data (1208 + i * 200), lb_borrowed_amount_sf = word_at data 16 (1208 + i * 200 + 88),
      lb_market_value_sf = word_at data 16 (1208 + i * 200 + 104)\<rparr>"

definition active_deposit :: "live_deposit_position \<Rightarrow> bool" where
  "active_deposit d \<longleftrightarrow> ld_deposited_amount d \<noteq> 0
     \<or> ld_market_value_sf d \<noteq> 0 \<and> ld_reserve d \<noteq> pubkey_default"

definition active_borrow :: "live_borrow_position \<Rightarrow> bool" where
  "active_borrow b \<longleftrightarrow> lb_borrowed_amount_sf b \<noteq> 0
     \<or> lb_market_value_sf b \<noteq> 0 \<and> lb_reserve b \<noteq> pubkey_default"

lemma deposit_slot_total:
  assumes "1184 \<le> length data" "i < 8"
  shows "deposit_slot data i =
    Inr (if active_deposit (deposit_at data i) then Some (deposit_at data i) else None)"
  using assms
  by (auto simp: deposit_slot_def Let_def read_simps active_deposit_def deposit_at_def key_at_def
      word_at_def pubkey_default_def word_neq_0_conv pubkey.expand add.assoc)

lemma borrow_slot_total:
  assumes "2208 \<le> length data" "i < 5"
  shows "borrow_slot data i =
    Inr (if active_borrow (borrow_at data i) then Some (borrow_at data i) else None)"
  using assms
  by (auto simp: borrow_slot_def Let_def read_simps active_borrow_def borrow_at_def key_at_def
      word_at_def pubkey_default_def word_neq_0_conv pubkey.expand add.assoc)

lemma collect_slots_total:
  assumes "\<And>i. i \<in> set is \<Longrightarrow> slot i = Inr (if P (f i) then Some (f i) else None)"
  shows "collect_slots slot is acc = Inr (acc @ filter P (map f is))"
  using assms by (induction "is" arbitrary: acc) auto

definition live_positions_view :: "pubkey \<Rightarrow> u8 list \<Rightarrow> live_obligation_positions" where
  "live_positions_view address data =
     \<lparr>lp_header = live_header_view address data,
      lp_deposits = filter active_deposit (map (deposit_at data) [0..<8]),
      lp_borrows = filter active_borrow (map (borrow_at data) [0..<5])\<rparr>"

lemma decode_live_positions_total:
  "decode_obligation_live_positions address data =
     (if length data < 2288 then Inl (Err TooShort) else Inr (live_positions_view address data))"
proof (cases "length data < 2288")
  case False
  have d: "collect_slots (deposit_slot data) [0..<8] [] =
      Inr (filter active_deposit (map (deposit_at data) [0..<8]))"
    by (subst collect_slots_total [where P = active_deposit and f = "deposit_at data"])
      (use False in \<open>simp_all add: deposit_slot_total\<close>)
  have b: "collect_slots (borrow_slot data) [0..<5] [] =
      Inr (filter active_borrow (map (borrow_at data) [0..<5]))"
    by (subst collect_slots_total [where P = active_borrow and f = "borrow_at data"])
      (use False in \<open>simp_all add: borrow_slot_total\<close>)
  show ?thesis
    using False
    by (simp only: decode_obligation_live_positions_def decode_live_header_total live_positions_view_def
        if_False and_then_simps d b) simp
qed (simp add: decode_obligation_live_positions_def decode_live_header_total)

definition live_vaults_view :: "pubkey \<Rightarrow> u8 list \<Rightarrow> live_reserve_vaults" where
  "live_vaults_view address data =
     \<lparr>rv_address = address, rv_lending_market = key_at data 32, rv_farm_collateral = key_at data 64,
      rv_farm_debt = key_at data 96, rv_liquidity_mint = key_at data 128,
      rv_liquidity_supply = key_at data 160, rv_fee_vault = key_at data 192,
      rv_mint_decimals = data ! 272, rv_token_program = key_at data 408,
      rv_collateral_mint = key_at data 2560, rv_collateral_supply = key_at data 2600,
      rv_pyth_oracle = key_at data 5224, rv_switchboard_price = key_at data 5160,
      rv_switchboard_twap = key_at data 5192, rv_scope_prices = key_at data 5112\<rparr>"

lemma decode_live_vaults_total:
  "decode_reserve_live_vaults address data =
     (if length data < 5256 then Inl (Err TooShort) else Inr (live_vaults_view address data))"
  by (simp add: decode_reserve_live_vaults_def live_vaults_view_def read_simps key_at_def Let_def
      del: One_nat_def)

definition live_risk_view :: "pubkey \<Rightarrow> u8 list \<Rightarrow> live_reserve_risk" where
  "live_risk_view address data =
     \<lparr>lr_address = address, lr_lending_market = key_at data 32, lr_liquidity_mint = key_at data 128,
      lr_mint_decimals = data ! 272, lr_loan_to_value_pct = data ! 4872,
      lr_liquidation_threshold_pct = data ! 4873,
      lr_borrow_factor_pct = (if word_at data 8 5008 = (0 :: u64) then 100 else word_at data 8 5008),
      lr_market_price_sf = word_at data 16 248, lr_total_available_amount = word_at data 8 224,
      lr_borrowed_amount_sf = word_at data 16 232,
      lr_accumulated_protocol_fees_sf = word_at data 16 344,
      lr_accumulated_referrer_fees_sf = word_at data 16 360,
      lr_pending_referrer_fees_sf = word_at data 16 376,
      lr_collateral_mint_total_supply = word_at data 8 2592,
      lr_pyth_oracle = key_at data 5224, lr_switchboard_price = key_at data 5160,
      lr_scope_prices = key_at data 5112\<rparr>"

lemma decode_live_risk_total:
  "decode_reserve_live_risk address data =
     (if length data < 5256 then Inl (Err TooShort) else Inr (live_risk_view address data))"
  by (simp add: decode_reserve_live_risk_def decode_live_vaults_total live_risk_view_def
      live_vaults_view_def read_simps key_at_def word_at_def del: One_nat_def)

definition group_at :: "u8 list \<Rightarrow> nat \<Rightarrow> elevation_group_params" where
  "group_at data i =
     \<lparr>eg_id = data ! (200 + i * 72 + 2), eg_ltv_pct = data ! (200 + i * 72 + 3),
      eg_liquidation_threshold_pct = data ! (200 + i * 72 + 4),
      eg_max_liquidation_bonus_bps = word_at data 2 (200 + i * 72)\<rparr>"

definition active_group :: "elevation_group_params \<Rightarrow> bool" where
  "active_group g \<longleftrightarrow> \<not> (eg_id g = 0 \<and> eg_ltv_pct g = 0 \<and> eg_liquidation_threshold_pct g = 0)"

lemma elevation_slot_total:
  assumes "2504 \<le> length data" "i < 32"
  shows "elevation_slot data i =
    Inr (if active_group (group_at data i) then Some (group_at data i) else None)"
  using assms
  by (simp add: elevation_slot_def Let_def read_simps active_group_def group_at_def word_at_def
      add.assoc del: add_2_eq_Suc' One_nat_def)

lemma insert_groups_total:
  assumes "\<And>i. i \<in> set is \<Longrightarrow> slot i = Inr (if P (f i) then Some (f i) else None)"
  shows "insert_groups slot is m = Inr (m ++ map_of (rev (map (\<lambda>g. (eg_id g, g)) (filter P (map f is)))))"
  using assms by (induction "is" arbitrary: m) auto

lemma decode_elevation_groups_total:
  "decode_lending_market_elevation_groups data =
     (if length data < 2504 then Inl (Err TooShort)
      else Inr (map_of (rev (map (\<lambda>g. (eg_id g, g)) (filter active_group (map (group_at data) [0..<32]))))))"
proof (cases "length data < 2504")
  case False
  have "insert_groups (elevation_slot data) [0..<32] Map.empty =
      Inr (map_of (rev (map (\<lambda>g. (eg_id g, g)) (filter active_group (map (group_at data) [0..<32])))))"
    by (subst insert_groups_total [where P = active_group and f = "group_at data"])
      (use False in \<open>simp_all add: elevation_slot_total\<close>)
  then show ?thesis
    using False by (simp only: decode_lending_market_elevation_groups_def Let_def if_False) simp
qed (simp add: decode_lending_market_elevation_groups_def)


section \<open>Choosing the reserves\<close>

text \<open>
  The reserves picked from a decoded obligation are those of active slots of the account: the
  repay reserve of a borrow slot with the largest market value, the withdraw reserve of a deposit
  slot with the largest one; nothing is picked only when the account has no active borrow or no
  active deposit.
\<close>

lemma picked_reserves_largest:
  assumes "decode_obligation_live_positions addr data = Inr pos"
  shows "case pick_liquidate_reserves pos of
      None \<Rightarrow> filter active_borrow (map (borrow_at data) [0..<5]) = []
        \<or> filter active_deposit (map (deposit_at data) [0..<8]) = []
    | Some (repay, withdraw) \<Rightarrow>
        (\<exists>i < 5. active_borrow (borrow_at data i) \<and> lb_reserve (borrow_at data i) = repay
          \<and> lb_market_value_sf (borrow_at data i) =
              Max {lb_market_value_sf (borrow_at data j) |j. j < 5 \<and> active_borrow (borrow_at data j)})
        \<and> (\<exists>i < 8. active_deposit (deposit_at data i) \<and> ld_reserve (deposit_at data i) = withdraw
          \<and> ld_market_value_sf (deposit_at data i) =
              Max {ld_market_value_sf (deposit_at data j) |j. j < 8 \<and> active_deposit (deposit_at data j)})"
proof -
  have pos: "pos = live_positions_view addr data"
    using assms by (simp add: decode_live_positions_total split: if_splits)
  have b: "lb_market_value_sf ` set (lp_borrows pos) =
      {lb_market_value_sf (borrow_at data j) |j. j < 5 \<and> active_borrow (borrow_at data j)}"
    unfolding pos by (auto simp: live_positions_view_def simp del: upt_Suc)
  have d: "ld_market_value_sf ` set (lp_deposits pos) =
      {ld_market_value_sf (deposit_at data j) |j. j < 8 \<and> active_deposit (deposit_at data j)}"
    unfolding pos by (auto simp: live_positions_view_def simp del: upt_Suc)
  have mem: "set (lp_borrows pos) = {borrow_at data j |j. j < 5 \<and> active_borrow (borrow_at data j)}"
    "set (lp_deposits pos) = {deposit_at data j |j. j < 8 \<and> active_deposit (deposit_at data j)}"
    unfolding pos by (auto simp: live_positions_view_def simp del: upt_Suc)
  have nil: "lp_borrows pos = filter active_borrow (map (borrow_at data) [0..<5])"
    "lp_deposits pos = filter active_deposit (map (deposit_at data) [0..<8])"
    unfolding pos by (simp_all add: live_positions_view_def)
  show ?thesis
    using max_by_key_correct [where f = lb_market_value_sf and xs = "lp_borrows pos", unfolded b]
      max_by_key_correct [where f = ld_market_value_sf and xs = "lp_deposits pos", unfolded d]
    unfolding pick_liquidate_reserves_def mem nil [symmetric]
    by (auto split: option.splits)
qed

text \<open>An account whose position slots are all active: every byte is 1.\<close>

lemma slice_replicate: "slice (replicate n x) a b = replicate (min (b - a) (n - a)) x"
  by (simp add: slice_def)

lemma word_of_ones: "word_of_le (replicate 8 1) \<noteq> (0 :: u64)" "word_of_le (replicate 16 1) \<noteq> (0 :: u128)"
proof -
  have "replicate 8 1 = [1, 1, 1, 1, 1, 1, 1, 1 :: u8]"
    "replicate 16 1 = [1, 1, 1, 1, 1, 1, 1, 1, 1, 1, 1, 1, 1, 1, 1, 1 :: u8]"
    by (simp_all add: numeral_eq_Suc)
  then show "word_of_le (replicate 8 1) \<noteq> (0 :: u64)" "word_of_le (replicate 16 1) \<noteq> (0 :: u128)"
    by (simp_all only: word_of_le_def le_nat.simps) simp_all
qed

lemma replicate_slots:
  "i < 8 \<Longrightarrow> active_deposit (deposit_at (replicate 2288 1) i)"
  "i < 5 \<Longrightarrow> active_borrow (borrow_at (replicate 2288 1) i)"
  by (simp_all add: active_deposit_def active_borrow_def deposit_at_def borrow_at_def word_at_def
      slice_replicate min_absorb1 word_of_ones)

end
