(* ===== verification/Vtx.thy ===== *)
theory Vtx
  imports Instructions
begin

text \<open>
  The encoder of version-0 transactions, \<^verbatim>\<open>crates/liq-execution/src/vtx.rs\<close>, and a reference
  decoder of the wire format it is proved against. The iteration order of the flags
  \<^verbatim>\<open>HashMap\<close> is the argument \<open>order\<close>, any list of the map's keys without
  duplicates; base64 is an external crate and an argument.
\<close>

section \<open>Compact lengths\<close>

function shortvec_encode :: "nat \<Rightarrow> u8 list" where
  "shortvec_encode v =
     (if 0x80 \<le> v then (word_of_nat (v mod 128) OR 0x80) # shortvec_encode (v div 128)
      else [word_of_nat v])"
  by pat_completeness auto
termination by (relation "measure id") auto

declare shortvec_encode.simps [simp del]

fun shortvec_decode :: "u8 list \<Rightarrow> (nat \<times> u8 list) option" where
  "shortvec_decode [] = None"
| "shortvec_decode (b # bs) =
     (if 0x80 \<le> b then
        (case shortvec_decode bs of
           None \<Rightarrow> None
         | Some (n, rest) \<Rightarrow> Some (unat (b AND 0x7f) + 128 * n, rest))
      else Some (unat b, bs))"

lemma cont_byte:
  "(0x80 :: u8) \<le> word_of_nat m OR 0x80" "unat ((word_of_nat m OR 0x80) AND (0x7f :: u8)) = m mod 128"
proof -
  have and7f: "(w :: u8) AND 0x7f = take_bit 7 w" for w
    by (simp add: take_bit_eq_mask mask_eq_exp_minus_1)
  show "(0x80 :: u8) \<le> word_of_nat m OR 0x80" by (rule le_word_or1)
  have "take_bit 7 (word_of_nat m OR 0x80 :: u8) = take_bit 7 (word_of_nat m) OR take_bit 7 0x80"
    by (rule take_bit_or)
  also have "take_bit 7 (0x80 :: u8) = 0" by simp
  finally have "(word_of_nat m OR 0x80) AND (0x7f :: u8) = take_bit 7 (word_of_nat m)"
    unfolding and7f by simp
  moreover have "unat (take_bit 7 (word_of_nat m :: u8)) = m mod 128"
    by (simp only: unsigned_take_bit_eq unat_of_nat take_bit_take_bit)
      (simp add: take_bit_eq_mod mod_mod_cancel)
  ultimately show "unat ((word_of_nat m OR 0x80) AND (0x7f :: u8)) = m mod 128" by simp
qed

lemma shortvec_roundtrip: "shortvec_decode (shortvec_encode n @ rest) = Some (n, rest)"
proof (induction n rule: shortvec_encode.induct)
  case (1 v)
  show ?case
  proof (cases "128 \<le> v")
    case True
    then have "shortvec_decode (shortvec_encode v @ rest) = Some (v mod 128 + 128 * (v div 128), rest)"
      using 1 by (subst shortvec_encode.simps) (simp add: cont_byte)
    then show ?thesis by simp
  next
    case False
    then have "unat (word_of_nat v :: u8) = v" by (simp add: unat_of_nat take_bit_nat_eq_self)
    moreover from this False have "\<not> (0x80 :: u8) \<le> word_of_nat v"
      by (simp add: word_le_nat_alt)
    ultimately show ?thesis using False by (subst shortvec_encode.simps) simp
  qed
qed

section \<open>Account keys\<close>

datatype vtx_error = EmptyInstructions | TooManyKeys nat | MissingKey

record key_flags =
  kf_is_signer :: bool
  kf_is_writable :: bool

type_synonym flag_map = "pubkey \<rightharpoonup> key_flags"

definition no_flags :: key_flags where
  "no_flags = \<lparr>kf_is_signer = False, kf_is_writable = False\<rparr>"

text \<open>\<^verbatim>\<open>flags.entry(k).or_insert(..)\<close>, and with the update of the meta flags.\<close>

definition flags_touch :: "flag_map \<Rightarrow> pubkey \<Rightarrow> flag_map" where
  "flags_touch m k = (case m k of None \<Rightarrow> m(k \<mapsto> no_flags) | Some _ \<Rightarrow> m)"

definition flags_merge :: "account_meta \<Rightarrow> flag_map \<Rightarrow> flag_map" where
  "flags_merge a m =
     (let m' = flags_touch m (am_pubkey a)
      in case m' (am_pubkey a) of
           None \<Rightarrow> m'
         | Some e \<Rightarrow> m'(am_pubkey a \<mapsto>
             \<lparr>kf_is_signer = kf_is_signer e \<or> am_is_signer a,
              kf_is_writable = kf_is_writable e \<or> am_is_writable a\<rparr>))"

definition flags_of_ix :: "instruction \<Rightarrow> flag_map \<Rightarrow> flag_map" where
  "flags_of_ix ix m =
     flags_touch (fold flags_merge (ix_accounts ix) (flags_touch m (ix_program_id ix))) (ix_program_id ix)"

definition collect_flags :: "pubkey \<Rightarrow> instruction list \<Rightarrow> flag_map" where
  "collect_flags fee_payer ixs =
     fold flags_of_ix ixs [fee_payer \<mapsto> \<lparr>kf_is_signer = True, kf_is_writable = True\<rparr>]"

definition keys_with :: "flag_map \<Rightarrow> pubkey \<Rightarrow> pubkey list \<Rightarrow> bool \<Rightarrow> bool \<Rightarrow> pubkey list" where
  "keys_with m fee_payer order s w =
     filter (\<lambda>k. k \<noteq> fee_payer \<and> m k = Some \<lparr>kf_is_signer = s, kf_is_writable = w\<rparr>) order"

definition build_account_keys ::
    "pubkey list \<Rightarrow> pubkey \<Rightarrow> instruction list \<Rightarrow> pubkey list \<times> u8 \<times> u8 \<times> u8" where
  "build_account_keys order fee_payer ixs =
     (let m = collect_flags fee_payer ixs;
          writable_signers = fee_payer # keys_with m fee_payer order True True;
          readonly_signers = keys_with m fee_payer order True False;
          writable_nonsigners = keys_with m fee_payer order False True;
          readonly_nonsigners = keys_with m fee_payer order False False
      in (writable_signers @ readonly_signers @ writable_nonsigners @ readonly_nonsigners,
          word_of_nat (length writable_signers + length readonly_signers),
          word_of_nat (length readonly_signers), word_of_nat (length readonly_nonsigners)))"

text \<open>\<^verbatim>\<open>order\<close> enumerates the keys of the flags map.\<close>

definition iterates :: "pubkey list \<Rightarrow> pubkey \<Rightarrow> instruction list \<Rightarrow> bool" where
  "iterates order fee_payer ixs \<longleftrightarrow> distinct order \<and> set order = dom (collect_flags fee_payer ixs)"

fun position :: "'a list \<Rightarrow> 'a \<Rightarrow> nat option" where
  "position [] k = None"
| "position (x # xs) k = (if x = k then Some 0 else map_option Suc (position xs k))"

definition index_of :: "pubkey list \<Rightarrow> pubkey \<Rightarrow> vtx_error + u8" where
  "index_of keys k = ok_or (map_option word_of_nat (position keys k)) MissingKey"

section \<open>Encoding\<close>

fun traverse :: "('a \<Rightarrow> 'e + 'b) \<Rightarrow> 'a list \<Rightarrow> 'e + 'b list" where
  "traverse f [] = Inr []"
| "traverse f (x # xs) = and_then (f x) (\<lambda>y. and_then (traverse f xs) (\<lambda>ys. Inr (y # ys)))"

definition compile_ix :: "pubkey list \<Rightarrow> instruction \<Rightarrow> vtx_error + u8 list" where
  "compile_ix keys ix =
     and_then (index_of keys (ix_program_id ix)) (\<lambda>prog_idx.
     and_then (traverse (\<lambda>m. index_of keys (am_pubkey m)) (ix_accounts ix)) (\<lambda>idxs.
       Inr ([prog_idx] @ shortvec_encode (length (ix_accounts ix)) @ idxs
            @ shortvec_encode (length (ix_data ix)) @ ix_data ix)))"

definition encode_versioned_tx_bytes ::
    "pubkey list \<Rightarrow> instruction list \<Rightarrow> pubkey \<Rightarrow> u8 list \<Rightarrow> vtx_error + u8 list" where
  "encode_versioned_tx_bytes order ixs fee_payer recent_blockhash =
     (if ixs = [] then Inl EmptyInstructions
      else let (keys, num_required_signatures, num_readonly_signed, num_readonly_unsigned) =
                 build_account_keys order fee_payer ixs
           in if 256 < length keys then Inl (TooManyKeys (length keys))
              else and_then (traverse (compile_ix keys) ixs) (\<lambda>compiled.
                let message = [0x80, num_required_signatures, num_readonly_signed, num_readonly_unsigned]
                      @ shortvec_encode (length keys) @ concat (map pk_bytes keys) @ recent_blockhash
                      @ shortvec_encode (length ixs) @ concat compiled @ shortvec_encode 0
                in Inr (shortvec_encode (unat num_required_signatures)
                     @ concat (replicate (unat num_required_signatures) (replicate 64 0)) @ message)))"

definition encode_versioned_tx_base64 ::
    "(u8 list \<Rightarrow> string) \<Rightarrow> pubkey list \<Rightarrow> instruction list \<Rightarrow> pubkey \<Rightarrow> u8 list \<Rightarrow> vtx_error + string" where
  "encode_versioned_tx_base64 base64 order ixs fee_payer recent_blockhash =
     and_then (encode_versioned_tx_bytes order ixs fee_payer recent_blockhash) (\<lambda>raw. Inr (base64 raw))"

definition blockhash_from_base58 :: "crypto \<Rightarrow> string \<Rightarrow> u8 list option" where
  "blockhash_from_base58 c s =
     (case b58_decode c s of
        None \<Rightarrow> None
      | Some bytes \<Rightarrow> if length bytes \<noteq> 32 then None else Some bytes)"

section \<open>Decoding\<close>

text \<open>
  The wire format read back the way the runtime reads it: signatures, header, keys, blockhash,
  instructions by index, and the privileges of a key from its position.
\<close>

type_synonym 'a parser = "u8 list \<Rightarrow> ('a \<times> u8 list) option"

definition take_bytes :: "nat \<Rightarrow> u8 list parser" where
  "take_bytes n bs = (if length bs < n then None else Some (take n bs, drop n bs))"

fun parse_many :: "'a parser \<Rightarrow> nat \<Rightarrow> 'a list parser" where
  "parse_many p 0 bs = Some ([], bs)"
| "parse_many p (Suc n) bs =
     Option.bind (p bs) (\<lambda>(x, r). map_option (\<lambda>(xs, r'). (x # xs, r')) (parse_many p n r))"

definition parse_vec :: "'a parser \<Rightarrow> 'a list parser" where
  "parse_vec p bs = Option.bind (shortvec_decode bs) (\<lambda>(n, r). parse_many p n r)"

definition parse_byte :: "u8 parser" where
  "parse_byte bs = (case bs of [] \<Rightarrow> None | b # r \<Rightarrow> Some (b, r))"

definition parse_key :: "pubkey parser" where
  "parse_key bs = map_option (\<lambda>(k, r). (Pubkey k, r)) (take_bytes 32 bs)"

type_synonym compiled_ix = "u8 \<times> u8 list \<times> u8 list"

definition parse_ix :: "compiled_ix parser" where
  "parse_ix bs =
     Option.bind (parse_byte bs) (\<lambda>(p, r1).
     Option.bind (parse_vec parse_byte r1) (\<lambda>(is, r2).
     map_option (\<lambda>(d, r3). ((p, is, d), r3)) (parse_vec parse_byte r2)))"

record vtx_message =
  vm_signatures :: "u8 list list"
  vm_num_required :: u8
  vm_readonly_signed :: u8
  vm_readonly_unsigned :: u8
  vm_keys :: "pubkey list"
  vm_blockhash :: "u8 list"
  vm_instructions :: "compiled_ix list"

definition decode_versioned_tx :: "u8 list \<Rightarrow> vtx_message option" where
  "decode_versioned_tx bs =
     Option.bind (parse_vec (take_bytes 64) bs) (\<lambda>(sigs, r1).
     Option.bind (take_bytes 4 r1) (\<lambda>(hd4, r2).
     if hd4 ! 0 \<noteq> 0x80 then None else
     Option.bind (parse_vec parse_key r2) (\<lambda>(keys, r3).
     Option.bind (take_bytes 32 r3) (\<lambda>(hash, r4).
     Option.bind (parse_vec parse_ix r4) (\<lambda>(ixs, r5).
     if r5 \<noteq> [0] then None
     else Some \<lparr>vm_signatures = sigs, vm_num_required = hd4 ! 1, vm_readonly_signed = hd4 ! 2,
       vm_readonly_unsigned = hd4 ! 3, vm_keys = keys, vm_blockhash = hash,
       vm_instructions = ixs\<rparr>)))))"

definition is_signer_at :: "vtx_message \<Rightarrow> nat \<Rightarrow> bool" where
  "is_signer_at m i \<longleftrightarrow> i < unat (vm_num_required m)"

definition is_writable_at :: "vtx_message \<Rightarrow> nat \<Rightarrow> bool" where
  "is_writable_at m i \<longleftrightarrow>
     (if i < unat (vm_num_required m) then i < unat (vm_num_required m) - unat (vm_readonly_signed m)
      else i < length (vm_keys m) - unat (vm_readonly_unsigned m))"

definition resolve_ix :: "vtx_message \<Rightarrow> compiled_ix \<Rightarrow> instruction" where
  "resolve_ix m c =
     (let (p, is, d) = c
      in instruction_new (vm_keys m ! unat p)
           (map (\<lambda>i. \<lparr>am_pubkey = vm_keys m ! unat i, am_is_signer = is_signer_at m (unat i),
                      am_is_writable = is_writable_at m (unat i)\<rparr>) is) d)"

section \<open>Parser lemmas\<close>

lemma parse_many_map:
  assumes "\<And>x r. x \<in> set xs \<Longrightarrow> p (e x @ r) = Some (g x, r)"
  shows "parse_many p (length xs) (concat (map e xs) @ r) = Some (map g xs, r)"
  using assms by (induction xs) (simp_all add: append_assoc)

lemma parse_vec_map:
  assumes "\<And>x r. x \<in> set xs \<Longrightarrow> p (e x @ r) = Some (g x, r)"
  shows "parse_vec p (shortvec_encode (length xs) @ concat (map e xs) @ r) = Some (map g xs, r)"
  by (simp add: parse_vec_def shortvec_roundtrip parse_many_map [OF assms])

lemma parse_vec_bytes: "parse_vec parse_byte (shortvec_encode (length bs) @ bs @ r) = Some (bs, r)"
  using parse_vec_map [of bs parse_byte "\<lambda>b. [b]" id r] by (simp add: parse_byte_def concat_map_singleton)

lemma parse_key_append: "pubkey_wf k \<Longrightarrow> parse_key (pk_bytes k @ r) = Some (k, r)"
  by (simp add: parse_key_def take_bytes_def pubkey_wf_def)

lemma take_bytes_append: "length xs = n \<Longrightarrow> take_bytes n (xs @ r) = Some (xs, r)"
  by (simp add: take_bytes_def)

lemma traverse_map: "(\<And>x. x \<in> set xs \<Longrightarrow> f x = Inr (g x)) \<Longrightarrow> traverse f xs = Inr (map g xs)"
  by (induction xs) auto

section \<open>The flags of a key\<close>

definition names_key :: "instruction \<Rightarrow> pubkey \<Rightarrow> bool" where
  "names_key ix k \<longleftrightarrow> ix_program_id ix = k \<or> (\<exists>a \<in> set (ix_accounts ix). am_pubkey a = k)"

definition signs :: "instruction \<Rightarrow> pubkey \<Rightarrow> bool" where
  "signs ix k \<longleftrightarrow> (\<exists>a \<in> set (ix_accounts ix). am_pubkey a = k \<and> am_is_signer a)"

definition writes :: "instruction \<Rightarrow> pubkey \<Rightarrow> bool" where
  "writes ix k \<longleftrightarrow> (\<exists>a \<in> set (ix_accounts ix). am_pubkey a = k \<and> am_is_writable a)"

definition flag_get :: "flag_map \<Rightarrow> pubkey \<Rightarrow> key_flags" where
  "flag_get m k = (case m k of None \<Rightarrow> no_flags | Some f \<Rightarrow> f)"

lemma flags_touch_facts:
  "dom (flags_touch m k) = insert k (dom m)" "flag_get (flags_touch m k) = flag_get m"
  by (auto simp: flags_touch_def flag_get_def fun_eq_iff split: option.splits)

lemma flags_merge_facts:
  "dom (flags_merge a m) = insert (am_pubkey a) (dom m)"
  "flag_get (flags_merge a m) k =
     (if k = am_pubkey a then \<lparr>kf_is_signer = kf_is_signer (flag_get m k) \<or> am_is_signer a,
        kf_is_writable = kf_is_writable (flag_get m k) \<or> am_is_writable a\<rparr> else flag_get m k)"
  by (auto simp: flags_merge_def flags_touch_def flag_get_def Let_def split: option.splits)

lemma fold_flags_merge_facts:
  "dom (fold flags_merge as m) = dom m \<union> am_pubkey ` set as
   \<and> flag_get (fold flags_merge as m) k =
     \<lparr>kf_is_signer = kf_is_signer (flag_get m k) \<or> (\<exists>a \<in> set as. am_pubkey a = k \<and> am_is_signer a),
      kf_is_writable = kf_is_writable (flag_get m k) \<or> (\<exists>a \<in> set as. am_pubkey a = k \<and> am_is_writable a)\<rparr>"
  by (induction as arbitrary: m) (auto simp: flags_merge_facts)

lemma flags_of_ix_facts:
  "dom (flags_of_ix ix m) = dom m \<union> {k. names_key ix k}"
  "flag_get (flags_of_ix ix m) k =
     \<lparr>kf_is_signer = kf_is_signer (flag_get m k) \<or> signs ix k,
      kf_is_writable = kf_is_writable (flag_get m k) \<or> writes ix k\<rparr>"
  using fold_flags_merge_facts [of "ix_accounts ix" "flags_touch m (ix_program_id ix)" k]
  by (auto simp: flags_of_ix_def flags_touch_facts names_key_def signs_def writes_def)

lemma collect_flags_facts:
  "dom (collect_flags fp ixs) = insert fp {k. \<exists>ix \<in> set ixs. names_key ix k}"
  "flag_get (collect_flags fp ixs) k =
     \<lparr>kf_is_signer = (k = fp \<or> (\<exists>ix \<in> set ixs. signs ix k)),
      kf_is_writable = (k = fp \<or> (\<exists>ix \<in> set ixs. writes ix k))\<rparr>"
proof -
  have "dom (fold flags_of_ix ixs m) = dom m \<union> {k. \<exists>ix \<in> set ixs. names_key ix k}
      \<and> flag_get (fold flags_of_ix ixs m) k =
        \<lparr>kf_is_signer = kf_is_signer (flag_get m k) \<or> (\<exists>ix \<in> set ixs. signs ix k),
         kf_is_writable = kf_is_writable (flag_get m k) \<or> (\<exists>ix \<in> set ixs. writes ix k)\<rparr>" for m
    by (induction ixs arbitrary: m) (auto simp: flags_of_ix_facts)
  from this [of "[fp \<mapsto> \<lparr>kf_is_signer = True, kf_is_writable = True\<rparr>]"]
  show "dom (collect_flags fp ixs) = insert fp {k. \<exists>ix \<in> set ixs. names_key ix k}"
    "flag_get (collect_flags fp ixs) k =
     \<lparr>kf_is_signer = (k = fp \<or> (\<exists>ix \<in> set ixs. signs ix k)),
      kf_is_writable = (k = fp \<or> (\<exists>ix \<in> set ixs. writes ix k))\<rparr>"
    by (auto simp: collect_flags_def flag_get_def no_flags_def)
qed

lemma flag_get_dom: "k \<in> dom m \<Longrightarrow> m k = Some (flag_get m k)"
  by (auto simp: flag_get_def)

section \<open>The key table\<close>

lemma position_correct: "k \<in> set keys \<Longrightarrow> \<exists>i < length keys. position keys k = Some i \<and> keys ! i = k"
  by (induction keys) (auto simp: nth_Cons)

definition key_idx :: "pubkey list \<Rightarrow> pubkey \<Rightarrow> u8" where
  "key_idx keys k = word_of_nat (the (position keys k))"

lemma key_idx_correct:
  assumes "k \<in> set keys" "length keys \<le> 256"
  shows "index_of keys k = Inr (key_idx keys k)" "unat (key_idx keys k) < length keys"
    "keys ! unat (key_idx keys k) = k"
proof -
  obtain i where i: "i < length keys" "position keys k = Some i" "keys ! i = k"
    using position_correct [OF assms(1)] by blast
  then have "unat (key_idx keys k) = i"
    using assms(2) by (simp add: key_idx_def unat_of_nat take_bit_nat_eq_self)
  with i show "index_of keys k = Inr (key_idx keys k)" "unat (key_idx keys k) < length keys"
    "keys ! unat (key_idx keys k) = k"
    by (simp_all add: index_of_def key_idx_def)
qed

lemma split_nth4:
  assumes "i < length (a @ b @ c @ d)"
  shows "i < length a \<and> (a @ b @ c @ d) ! i \<in> set a
    \<or> length a \<le> i \<and> i < length a + length b \<and> (a @ b @ c @ d) ! i \<in> set b
    \<or> length a + length b \<le> i \<and> i < length a + length b + length c \<and> (a @ b @ c @ d) ! i \<in> set c
    \<or> length a + length b + length c \<le> i \<and> (a @ b @ c @ d) ! i \<in> set d"
  using assms by (auto simp: nth_append)

abbreviation tab :: "pubkey \<Rightarrow> instruction list \<Rightarrow> pubkey list \<Rightarrow> bool \<Rightarrow> bool \<Rightarrow> pubkey list" where
  "tab fp ixs order s w \<equiv> keys_with (collect_flags fp ixs) fp order s w"

definition account_keys :: "pubkey list \<Rightarrow> pubkey \<Rightarrow> instruction list \<Rightarrow> pubkey list" where
  "account_keys order fp ixs = fst (build_account_keys order fp ixs)"

lemma keys_split: "account_keys order fp ixs = (fp # tab fp ixs order True True) @ tab fp ixs order True False @ tab fp ixs order False True @ tab fp ixs order False False"
  by (simp add: account_keys_def build_account_keys_def Let_def)

lemma in_tab:
  assumes iter: "iterates order fp ixs"
  shows "k \<in> set (tab fp ixs order s w) \<longleftrightarrow> k \<noteq> fp \<and> k \<in> dom (collect_flags fp ixs)
     \<and> flag_get (collect_flags fp ixs) k = \<lparr>kf_is_signer = s, kf_is_writable = w\<rparr>"
  using iter by (auto simp: keys_with_def iterates_def flag_get_def split: option.splits)

lemma set_keys:
  assumes iter: "iterates order fp ixs"
  shows "set (account_keys order fp ixs) = dom (collect_flags fp ixs)"
proof -
  have "fp \<in> dom (collect_flags fp ixs)" by (simp add: collect_flags_facts)
  moreover have "\<exists>s w. k \<in> set (tab fp ixs order s w)"
    if "k \<in> dom (collect_flags fp ixs)" "k \<noteq> fp" for k
    using that by (cases "flag_get (collect_flags fp ixs) k") (simp add: in_tab [OF iter])
  moreover have "set (tab fp ixs order s w) \<subseteq> set (account_keys order fp ixs)" for s w
    unfolding keys_split by (cases s; cases w) auto
  moreover have "set (account_keys order fp ixs) \<subseteq> dom (collect_flags fp ixs)"
    unfolding keys_split using calculation(1) by (auto simp: in_tab [OF iter])
  moreover have "fp \<in> set (account_keys order fp ixs)" by (simp add: keys_split)
  ultimately show ?thesis by blast
qed

lemma distinct_keys:
  assumes iter: "iterates order fp ixs"
  shows "distinct (account_keys order fp ixs)"
proof -
  have "distinct (tab fp ixs order s w)" for s w
    using iter by (simp add: keys_with_def iterates_def)
  then show ?thesis unfolding keys_split by (auto simp: in_tab [OF iter])
qed

lemma flags_at:
  assumes iter: "iterates order fp ixs" and i: "i < length (account_keys order fp ixs)"
  shows "kf_is_signer (flag_get (collect_flags fp ixs) (account_keys order fp ixs ! i))
      \<longleftrightarrow> i < 1 + length (tab fp ixs order True True) + length (tab fp ixs order True False)"
    "kf_is_writable (flag_get (collect_flags fp ixs) (account_keys order fp ixs ! i)) \<longleftrightarrow>
      (if i < 1 + length (tab fp ixs order True True) + length (tab fp ixs order True False) then i < 1 + length (tab fp ixs order True True)
       else i < length (account_keys order fp ixs) - length (tab fp ixs order False False))"
proof -
  let ?a = "fp # tab fp ixs order True True" and ?b = "tab fp ixs order True False" and ?c = "tab fp ixs order False True" and ?d = "tab fp ixs order False False"
  let ?f = "\<lambda>k. flag_get (collect_flags fp ixs) k"
  have a: "k \<in> set ?a \<Longrightarrow> kf_is_signer (?f k) \<and> kf_is_writable (?f k)" for k
    by (auto simp: in_tab [OF iter] collect_flags_facts(2) [of fp ixs fp])
  have b: "k \<in> set ?b \<Longrightarrow> kf_is_signer (?f k) \<and> \<not> kf_is_writable (?f k)" for k by (simp add: in_tab [OF iter])
  have c: "k \<in> set ?c \<Longrightarrow> \<not> kf_is_signer (?f k) \<and> kf_is_writable (?f k)" for k by (simp add: in_tab [OF iter])
  have d: "k \<in> set ?d \<Longrightarrow> \<not> kf_is_signer (?f k) \<and> \<not> kf_is_writable (?f k)" for k by (simp add: in_tab [OF iter])
  consider "i < length ?a" "account_keys order fp ixs ! i \<in> set ?a"
    | "length ?a \<le> i" "i < length ?a + length ?b" "account_keys order fp ixs ! i \<in> set ?b"
    | "length ?a + length ?b \<le> i" "i < length ?a + length ?b + length ?c" "account_keys order fp ixs ! i \<in> set ?c"
    | "length ?a + length ?b + length ?c \<le> i" "account_keys order fp ixs ! i \<in> set ?d"
    using split_nth4 [of i ?a ?b ?c ?d] assms unfolding keys_split by auto
  then have "(kf_is_signer (?f (account_keys order fp ixs ! i)) \<longleftrightarrow> i < length ?a + length ?b)
    \<and> (kf_is_writable (?f (account_keys order fp ixs ! i)) \<longleftrightarrow>
      (if i < length ?a + length ?b then i < length ?a else i < length ?a + length ?b + length ?c))"
  proof cases
    case 1
    with a [OF 1(2)] show ?thesis by simp
  next
    case 2
    with b [OF 2(3)] show ?thesis by simp
  next
    case 3
    with c [OF 3(3)] show ?thesis by simp
  next
    case 4
    with d [OF 4(2)] show ?thesis by simp
  qed
  moreover have "length (account_keys order fp ixs) - length ?d = length ?a + length ?b + length ?c"
    unfolding keys_split by simp
  ultimately show "kf_is_signer (?f (account_keys order fp ixs ! i)) \<longleftrightarrow> i < 1 + length (tab fp ixs order True True) + length (tab fp ixs order True False)"
    "kf_is_writable (?f (account_keys order fp ixs ! i)) \<longleftrightarrow>
      (if i < 1 + length (tab fp ixs order True True) + length (tab fp ixs order True False) then i < 1 + length (tab fp ixs order True True)
       else i < length (account_keys order fp ixs) - length (tab fp ixs order False False))"
    by simp_all
qed

section \<open>The round trip\<close>

definition ixs_wf :: "pubkey \<Rightarrow> instruction list \<Rightarrow> bool" where
  "ixs_wf fp ixs \<longleftrightarrow> pubkey_wf fp
     \<and> (\<forall>ix \<in> set ixs. pubkey_wf (ix_program_id ix) \<and> (\<forall>a \<in> set (ix_accounts ix). pubkey_wf (am_pubkey a)))"

lemma account_keys_wf:
  "iterates order fp ixs \<Longrightarrow> ixs_wf fp ixs \<Longrightarrow> k \<in> set (account_keys order fp ixs) \<Longrightarrow> pubkey_wf k"
  by (auto simp: set_keys collect_flags_facts names_key_def ixs_wf_def)

definition encoded_ix :: "pubkey list \<Rightarrow> instruction \<Rightarrow> u8 list" where
  "encoded_ix keys ix =
     [key_idx keys (ix_program_id ix)] @ shortvec_encode (length (ix_accounts ix))
       @ map (\<lambda>a. key_idx keys (am_pubkey a)) (ix_accounts ix)
       @ shortvec_encode (length (ix_data ix)) @ ix_data ix"

definition compiled_of :: "pubkey list \<Rightarrow> instruction \<Rightarrow> compiled_ix" where
  "compiled_of keys ix =
     (key_idx keys (ix_program_id ix), map (\<lambda>a. key_idx keys (am_pubkey a)) (ix_accounts ix), ix_data ix)"

lemma compile_ix_encoded:
  assumes "length keys \<le> 256" "ix_program_id ix \<in> set keys" "am_pubkey ` set (ix_accounts ix) \<subseteq> set keys"
  shows "compile_ix keys ix = Inr (encoded_ix keys ix)"
proof -
  have "traverse (\<lambda>m. index_of keys (am_pubkey m)) (ix_accounts ix)
      = Inr (map (\<lambda>a. key_idx keys (am_pubkey a)) (ix_accounts ix))"
    using assms by (intro traverse_map) (auto simp: key_idx_correct)
  with key_idx_correct [OF assms(2,1)] show ?thesis
    by (simp add: compile_ix_def encoded_ix_def)
qed

lemma parse_ix_encoded: "parse_ix (encoded_ix keys ix @ r) = Some (compiled_of keys ix, r)"
  using parse_vec_bytes [of "map (\<lambda>a. key_idx keys (am_pubkey a)) (ix_accounts ix)"]
    parse_vec_bytes [of "ix_data ix"]
  by (simp add: parse_ix_def encoded_ix_def compiled_of_def parse_byte_def)

lemma build_account_keys_split:
  "build_account_keys order fp ixs =
     (account_keys order fp ixs,
      word_of_nat (1 + length (tab fp ixs order True True) + length (tab fp ixs order True False)),
      word_of_nat (length (tab fp ixs order True False)),
      word_of_nat (length (tab fp ixs order False False)))"
  by (simp add: account_keys_def build_account_keys_def Let_def)

lemma keys_cover:
  assumes "iterates order fp ixs" "ix \<in> set ixs"
  shows "ix_program_id ix \<in> set (account_keys order fp ixs)"
    "am_pubkey ` set (ix_accounts ix) \<subseteq> set (account_keys order fp ixs)"
  using assms by (auto simp: set_keys collect_flags_facts names_key_def)

text \<open>The encoder, with its key table, when it succeeds.\<close>

lemma encode_eq:
  assumes "iterates order fp ixs" "ixs \<noteq> []" "length (account_keys order fp ixs) \<le> 256"
  shows "encode_versioned_tx_bytes order ixs fp hash =
    (let keys = account_keys order fp ixs;
         n = word_of_nat (1 + length (tab fp ixs order True True) + length (tab fp ixs order True False)) :: u8
     in Inr (shortvec_encode (unat n) @ concat (replicate (unat n) (replicate 64 0))
          @ [0x80, n, word_of_nat (length (tab fp ixs order True False)),
             word_of_nat (length (tab fp ixs order False False))]
          @ shortvec_encode (length keys) @ concat (map pk_bytes keys) @ hash
          @ shortvec_encode (length ixs) @ concat (map (encoded_ix keys) ixs) @ shortvec_encode 0))"
proof -
  have "traverse (compile_ix (account_keys order fp ixs)) ixs
      = Inr (map (encoded_ix (account_keys order fp ixs)) ixs)"
    using assms keys_cover [OF assms(1)] by (intro traverse_map compile_ix_encoded) auto
  with assms show ?thesis
    by (simp add: encode_versioned_tx_bytes_def build_account_keys_split Let_def)
qed

definition message_of :: "pubkey list \<Rightarrow> pubkey \<Rightarrow> instruction list \<Rightarrow> u8 list \<Rightarrow> vtx_message" where
  "message_of order fp ixs hash =
     (let keys = account_keys order fp ixs;
          n = word_of_nat (1 + length (tab fp ixs order True True) + length (tab fp ixs order True False))
      in \<lparr>vm_signatures = replicate (unat n) (replicate 64 0), vm_num_required = n,
          vm_readonly_signed = word_of_nat (length (tab fp ixs order True False)),
          vm_readonly_unsigned = word_of_nat (length (tab fp ixs order False False)),
          vm_keys = keys, vm_blockhash = hash, vm_instructions = map (compiled_of keys) ixs\<rparr>)"

lemma decode_encode:
  assumes "iterates order fp ixs" "ixs \<noteq> []" "length (account_keys order fp ixs) \<le> 256"
    and "ixs_wf fp ixs" "length hash = 32"
    and "encode_versioned_tx_bytes order ixs fp hash = Inr bytes"
  shows "decode_versioned_tx bytes = Some (message_of order fp ixs hash)"
proof -
  let ?keys = "account_keys order fp ixs"
  have sigs: "parse_vec (take_bytes 64) (shortvec_encode n @ concat (replicate n (replicate 64 0)) @ r)
      = Some (replicate n (replicate 64 0), r)" for n r
    using parse_vec_map [of "replicate n (replicate 64 0)" "take_bytes 64" id id r]
    by (simp add: take_bytes_append)
  have keys: "parse_vec parse_key (shortvec_encode (length ?keys) @ concat (map pk_bytes ?keys) @ r)
      = Some (?keys, r)" for r
    using parse_vec_map [of ?keys parse_key pk_bytes id r] account_keys_wf [OF assms(1,4)]
    by (simp add: parse_key_append)
  have ixs: "parse_vec parse_ix (shortvec_encode (length ixs) @ concat (map (encoded_ix ?keys) ixs) @ r)
      = Some (map (compiled_of ?keys) ixs, r)" for r
    by (rule parse_vec_map) (rule parse_ix_encoded)
  have zero: "shortvec_encode 0 = [0]" by (subst shortvec_encode.simps) simp
  have four: "take_bytes 4 (a # b # c # d # r) = Some ([a, b, c, d], r)" for a b c d r
    by (simp add: take_bytes_def)
  show ?thesis
    using assms(6) encode_eq [OF assms(1-3), of hash]
    by (auto simp: decode_versioned_tx_def Let_def sigs four keys ixs zero message_of_def
        take_bytes_append [OF assms(5)])
qed

section \<open>Reading the table\<close>

text \<open>What an instruction may do once all of them are in one transaction: an account is a signer (or
  writable) when some instruction makes it so, and the fee payer is both.\<close>

definition promoted :: "pubkey \<Rightarrow> instruction list \<Rightarrow> instruction \<Rightarrow> instruction" where
  "promoted fp ixs ix = instruction_new (ix_program_id ix)
     (map (\<lambda>a. \<lparr>am_pubkey = am_pubkey a,
        am_is_signer = (am_pubkey a = fp \<or> (\<exists>jx \<in> set ixs. signs jx (am_pubkey a))),
        am_is_writable = (am_pubkey a = fp \<or> (\<exists>jx \<in> set ixs. writes jx (am_pubkey a)))\<rparr>)
        (ix_accounts ix)) (ix_data ix)"

lemma key_count: "iterates order fp ixs \<Longrightarrow> length (account_keys order fp ixs) = card (dom (collect_flags fp ixs))"
  using distinct_card [OF distinct_keys] set_keys by simp

lemma table_small:
  assumes "length (account_keys order fp ixs) < 256"
  shows "1 + length (tab fp ixs order True True) + length (tab fp ixs order True False) < 256"
    "length (tab fp ixs order True False) < 256" "length (tab fp ixs order False False) < 256"
  using assms unfolding keys_split by simp_all

lemma unat_count: "n < 256 \<Longrightarrow> unat (word_of_nat n :: u8) = n"
  by (simp add: unat_of_nat take_bit_nat_eq_self)

lemma header_flags:
  assumes "iterates order fp ixs" "length (account_keys order fp ixs) < 256" "i < length (account_keys order fp ixs)"
  shows "is_signer_at (message_of order fp ixs hash) i
      \<longleftrightarrow> kf_is_signer (flag_get (collect_flags fp ixs) (account_keys order fp ixs ! i))"
    "is_writable_at (message_of order fp ixs hash) i
      \<longleftrightarrow> kf_is_writable (flag_get (collect_flags fp ixs) (account_keys order fp ixs ! i))"
  using flags_at [OF assms(1,3)] table_small [OF assms(2)]
  by (simp_all only: is_signer_at_def is_writable_at_def message_of_def Let_def vtx_message.simps unat_count) auto

lemma resolve_compiled:
  assumes "iterates order fp ixs" "length (account_keys order fp ixs) < 256" "ix \<in> set ixs"
  shows "resolve_ix (message_of order fp ixs hash) (compiled_of (account_keys order fp ixs) ix) = promoted fp ixs ix"
proof -
  let ?keys = "account_keys order fp ixs" and ?m = "message_of order fp ixs hash"
  note cover = keys_cover [OF assms(1,3)]
  note idx = key_idx_correct [OF _ less_imp_le [OF assms(2)]]
  have keys: "vm_keys ?m = ?keys" by (simp add: message_of_def Let_def)
  have "\<lparr>am_pubkey = ?keys ! unat (key_idx ?keys (am_pubkey a)),
        am_is_signer = is_signer_at ?m (unat (key_idx ?keys (am_pubkey a))),
        am_is_writable = is_writable_at ?m (unat (key_idx ?keys (am_pubkey a)))\<rparr>
      = \<lparr>am_pubkey = am_pubkey a,
        am_is_signer = (am_pubkey a = fp \<or> (\<exists>jx \<in> set ixs. signs jx (am_pubkey a))),
        am_is_writable = (am_pubkey a = fp \<or> (\<exists>jx \<in> set ixs. writes jx (am_pubkey a)))\<rparr>"
    if "a \<in> set (ix_accounts ix)" for a
  proof -
    have k: "am_pubkey a \<in> set ?keys" using cover(2) that by auto
    show ?thesis by (simp add: idx [OF k] header_flags [OF assms(1,2)] collect_flags_facts)
  qed
  then show ?thesis
    unfolding resolve_ix_def compiled_of_def promoted_def
    by (simp add: keys idx(3) [OF cover(1)] comp_def cong: map_cong)
qed

lemma signature_count:
  assumes "iterates order fp ixs" "length (account_keys order fp ixs) < 256"
  shows "length (vm_signatures (message_of order fp ixs hash))
    = card {k \<in> dom (collect_flags fp ixs). k = fp \<or> (\<exists>ix \<in> set ixs. signs ix k)}"
proof -
  let ?S = "fp # tab fp ixs order True True @ tab fp ixs order True False" and ?f = "flag_get (collect_flags fp ixs)"
  have "distinct ?S" using distinct_keys [OF assms(1)] unfolding keys_split by auto
  moreover have "set ?S = {k \<in> dom (collect_flags fp ixs). k = fp \<or> (\<exists>ix \<in> set ixs. signs ix k)}"
  proof -
    have "k \<in> set ?S \<longleftrightarrow> k \<in> dom (collect_flags fp ixs) \<and> (k = fp \<or> kf_is_signer (?f k))" for k
      by (cases "?f k", rename_tac s w, case_tac w)
        (auto simp: in_tab [OF assms(1)] collect_flags_facts(1))
    then show ?thesis by (auto simp: collect_flags_facts(2))
  qed
  ultimately have "length ?S = card {k \<in> dom (collect_flags fp ixs). k = fp \<or> (\<exists>ix \<in> set ixs. signs ix k)}"
    by (metis distinct_card)
  then show ?thesis
    using table_small [OF assms(2)] by (simp add: message_of_def Let_def unat_count del: of_nat_Suc of_nat_add)
qed

text \<open>The bytes of a transaction with room for its keys, read back.\<close>

lemma encoded_reads_back:
  assumes "encode_versioned_tx_bytes order ixs fp hash = Inr bytes" "iterates order fp ixs"
    and "ixs_wf fp ixs" "length hash = 32" "card (dom (collect_flags fp ixs)) < 256"
  shows "decode_versioned_tx bytes = Some (message_of order fp ixs hash)"
    "map (resolve_ix (message_of order fp ixs hash)) (vm_instructions (message_of order fp ixs hash))
      = map (promoted fp ixs) ixs"
proof -
  have ne: "ixs \<noteq> []" using assms(1) by (auto simp: encode_versioned_tx_bytes_def)
  have len: "length (account_keys order fp ixs) < 256" using assms(5) key_count [OF assms(2)] by simp
  show "decode_versioned_tx bytes = Some (message_of order fp ixs hash)"
    by (rule decode_encode [OF assms(2) ne less_imp_le [OF len] assms(3,4,1)])
  show "map (resolve_ix (message_of order fp ixs hash)) (vm_instructions (message_of order fp ixs hash))
      = map (promoted fp ixs) ixs"
    using resolve_compiled [OF assms(2) len, of _ hash] by (simp add: message_of_def Let_def)
qed

section \<open>Properties\<close>


definition sample_payer :: pubkey where "sample_payer = pubkey_test 1 1"

definition sample_ixs :: "instruction list" where
  "sample_ixs = [compute_unit_limit 400000,
     instruction_new prog_save [meta_new (pubkey_test 2 1) False, meta_new_readonly sample_payer True] [3]]"

definition sample_order :: "pubkey list" where
  "sample_order = [pubkey_test 2 1, prog_save, sample_payer, prog_compute_budget]"

lemma sample_ixs_facts:
  "iterates sample_order sample_payer sample_ixs" "ixs_wf sample_payer sample_ixs"
  "card (dom (collect_flags sample_payer sample_ixs)) = 4"
proof -
  have dom: "dom (collect_flags sample_payer sample_ixs) = set sample_order"
    by (auto simp: collect_flags_facts names_key_def sample_ixs_def sample_order_def compute_unit_limit_def)
  have dist: "distinct sample_order"
    by (rule distinct_by_hd)
      (simp add: sample_order_def sample_payer_def prog_save_def prog_compute_budget_def)
  with dom show "iterates sample_order sample_payer sample_ixs" by (simp add: iterates_def)
  show "ixs_wf sample_payer sample_ixs"
    by (simp add: ixs_wf_def sample_ixs_def sample_payer_def compute_unit_limit_def)
  show "card (dom (collect_flags sample_payer sample_ixs)) = 4"
    unfolding dom distinct_card [OF dist] by (simp add: sample_order_def)
qed

lemma sample_encodes: "\<exists>bytes. encode_versioned_tx_bytes sample_order sample_ixs sample_payer (replicate 32 7) = Inr bytes"
proof -
  have "length (account_keys sample_order sample_payer sample_ixs) = 4"
    using distinct_card [OF distinct_keys [OF sample_ixs_facts(1)]] set_keys [OF sample_ixs_facts(1)]
      sample_ixs_facts(3) by simp
  then show ?thesis
    by (subst encode_eq [OF sample_ixs_facts(1)]) (simp_all add: sample_ixs_def Let_def)
qed


text \<open>
  Encoding fails only for an empty instruction list or when the transaction names more than
  256 distinct keys; a key is never missing from the table.
\<close>

lemma vtx_errors:
  "iterates order fp ixs \<Longrightarrow>
     encode_versioned_tx_bytes order ixs fp hash = Inl e \<longleftrightarrow>
       (if ixs = [] then e = EmptyInstructions
        else 256 < card (dom (collect_flags fp ixs)) \<and> e = TooManyKeys (card (dom (collect_flags fp ixs))))"
proof -
  assume iter: "iterates order fp ixs"
  note card = key_count [OF iter]
  consider "ixs = []" | "ixs \<noteq> []" "length (account_keys order fp ixs) \<le> 256"
    | "ixs \<noteq> []" "256 < length (account_keys order fp ixs)" by linarith
  then show ?thesis
  proof cases
    case 1
    then show ?thesis by (auto simp: encode_versioned_tx_bytes_def)
  next
    case 2
    from encode_eq [OF iter this, of hash] 2 card show ?thesis by (simp add: Let_def)
  next
    case 3
    then show ?thesis
      by (auto simp: encode_versioned_tx_bytes_def build_account_keys_split Let_def card)
  qed
qed

end
