(* ===== verification/Marginfi.thy ===== *)
theory Marginfi
  imports Lending Instructions
begin

text \<open>
  The Project 0 (marginfi) adapter: \<^verbatim>\<open>crates/liq-project0/src\<close>. The
  \<^verbatim>\<open>i128\<close> sums of the health computation are 128-bit words read by
  \<open>sint\<close>; a cast keeps the bits. Names the other adapters use too carry
  \<^verbatim>\<open>p0\<close>.
\<close>

section \<open>Discriminators, errors\<close>

definition disc_start_liquidation :: "u8 list" where
  "disc_start_liquidation = [244, 93, 90, 214, 192, 166, 191, 21]"

definition disc_end_liquidation :: "u8 list" where
  "disc_end_liquidation = [110, 11, 244, 54, 229, 181, 22, 184]"

definition disc_lending_account_withdraw :: "u8 list" where
  "disc_lending_account_withdraw = [36, 72, 74, 19, 210, 210, 192, 192]"

definition disc_lending_account_repay :: "u8 list" where
  "disc_lending_account_repay = [79, 209, 172, 177, 222, 51, 173, 151]"

definition disc_lending_account_liquidate :: "u8 list" where
  "disc_lending_account_liquidate = [214, 169, 151, 213, 251, 167, 86, 219]"

definition account_disc_fee_state :: "u8 list" where
  "account_disc_fee_state = [63, 224, 16, 85, 193, 36, 235, 220]"

datatype p0_error = P0MissingPrice | P0Healthy | P0ProfitCap | P0FeeState string | P0Paused

section \<open>Health\<close>

record bank_meta =
  bm_bank :: pubkey
  bm_mint :: pubkey
  bm_maint_asset_weight_fx :: u64
  bm_maint_liab_weight_fx :: u64
  bm_decimals :: u8

datatype balance_kind = Asset | Liability | Empty

record balance =
  bal_bank :: pubkey
  bal_kind :: balance_kind
  bal_amount :: u64

record marginfi_account_view =
  ma_address :: pubkey
  ma_group :: pubkey
  ma_balances :: "balance list"

record bank_book =
  bb_banks :: "bank_meta list"
  bb_prices :: price_map
  bb_confidence :: "(pubkey \<times> u64) list"

definition book_bank :: "bank_book \<Rightarrow> pubkey \<Rightarrow> bank_meta option" where
  "book_bank book key = List.find (\<lambda>b. bm_bank b = key) (bb_banks book)"

definition book_price :: "bank_book \<Rightarrow> pubkey \<Rightarrow> price_fx option" where
  "book_price book mint = price_get (bb_prices book) mint"

definition book_conf :: "bank_book \<Rightarrow> pubkey \<Rightarrow> u64" where
  "book_conf book mint =
     (case List.find (\<lambda>(m, _). m = mint) (bb_confidence book) of
        Some (_, c) \<Rightarrow> min c 50000
      | None \<Rightarrow> 0)"

definition adjusted_price :: "balance_kind \<Rightarrow> price_fx \<Rightarrow> u64 \<Rightarrow> price_fx" where
  "adjusted_price kind p c =
     (case kind of
        Asset \<Rightarrow> PriceFx (sat_mul (px p) (1000000 - ucast c) div 1000000)
      | _ \<Rightarrow> PriceFx (sat_mul (px p) (1000000 + ucast c) div 1000000))"

definition weighted_balance :: "bank_meta \<Rightarrow> balance \<Rightarrow> price_fx \<Rightarrow> u64 \<Rightarrow> i128" where
  "weighted_balance meta bal p c =
     (let usd = amount_to_usd_micro (ucast (bal_amount bal)) (bm_decimals meta)
                  (adjusted_price (bal_kind bal) p c);
          weight = (if bal_kind bal = Asset then bm_maint_asset_weight_fx meta else bm_maint_liab_weight_fx meta)
      in signed_div (usd * ucast weight) 1000000)"

fun health_loop :: "bank_book \<Rightarrow> balance list \<Rightarrow> i128 \<Rightarrow> i128 \<Rightarrow> p0_error + (i128 \<times> i128)" where
  "health_loop book [] assets liabs = Inr (assets, liabs)"
| "health_loop book (bal # bals) assets liabs =
     (if bal_kind bal = Empty \<or> bal_amount bal = 0 then health_loop book bals assets liabs
      else and_then (ok_or (book_bank book (bal_bank bal)) P0MissingPrice) (\<lambda>meta.
           and_then (ok_or (book_price book (bm_mint meta)) P0MissingPrice) (\<lambda>p.
           let w = weighted_balance meta bal p (book_conf book (bm_mint meta))
           in case bal_kind bal of
                Asset \<Rightarrow> health_loop book bals (assets + w) liabs
              | _ \<Rightarrow> health_loop book bals assets (liabs + w))))"

definition maintenance_health :: "marginfi_account_view \<Rightarrow> bank_book \<Rightarrow> p0_error + i128" where
  "maintenance_health account book =
     and_then (health_loop book (ma_balances account) 0 0) (\<lambda>(assets, liabs). Inr (assets - liabs))"

definition is_liquidatable_p0 :: "marginfi_account_view \<Rightarrow> bank_book \<Rightarrow> p0_error + bool" where
  "is_liquidatable_p0 account book =
     and_then (maintenance_health account book) (\<lambda>h. Inr (sint h < 0))"

section \<open>Instruction data and plans\<close>

datatype liquidation_mode = Classic | Receivership

definition encode_start_liquidation :: "u8 list" where
  "encode_start_liquidation = disc_start_liquidation"

definition encode_end_liquidation :: "u8 list" where
  "encode_end_liquidation = disc_end_liquidation"

definition encode_classic_liquidate :: "u64 \<Rightarrow> u8 list" where
  "encode_classic_liquidate asset_amount = disc_lending_account_liquidate @ u64_le asset_amount"

definition encode_withdraw :: "u64 \<Rightarrow> bool \<Rightarrow> u8 list" where
  "encode_withdraw amount withdraw_all =
     disc_lending_account_withdraw @ u64_le amount @ [of_bool withdraw_all]"

definition encode_repay :: "u64 \<Rightarrow> bool \<Rightarrow> u8 list" where
  "encode_repay amount repay_all =
     disc_lending_account_repay @ u64_le amount @ [of_bool repay_all]"

definition receivership_ix_order :: "string list" where
  "receivership_ix_order = [''ComputeBudget'', ''kamino_refresh_optional'', ''start_liquidation'',
     ''withdraw'', ''swap_optional'', ''repay'', ''end_liquidation'']"

definition classic_ix_order :: "string list" where
  "classic_ix_order = [''switchboard_crank_optional'', ''lending_account_liquidate'', ''rebalance_optional'']"

record liquidation_plan =
  lp_mode :: liquidation_mode
  lp_ixs :: "string list"
  lp_datas :: "u8 list list"

definition plan_classic :: "u64 \<Rightarrow> liquidation_plan" where
  "plan_classic asset_amount = \<lparr>lp_mode = Classic, lp_ixs = classic_ix_order,
     lp_datas = [encode_classic_liquidate asset_amount]\<rparr>"

definition plan_receivership :: "u64 \<Rightarrow> u64 \<Rightarrow> liquidation_plan" where
  "plan_receivership withdraw_amount repay_amount =
     \<lparr>lp_mode = Receivership, lp_ixs = receivership_ix_order,
      lp_datas = [encode_start_liquidation, encode_withdraw withdraw_amount False,
        encode_repay repay_amount False, encode_end_liquidation]\<rparr>"

section \<open>Classic and receivership sizing\<close>

definition classic_assumed_liability :: "u128 \<Rightarrow> u128" where
  "classic_assumed_liability seized = seized * (10000 - ucast (250 :: u16)) div 10000"

definition classic_borrower_debt_relief :: "u128 \<Rightarrow> u128" where
  "classic_borrower_debt_relief seized =
     (let haircut = ucast (250 :: u16) + ucast (250 :: u16) in seized * (10000 - haircut) div 10000)"

definition classic_insurance_take :: "u128 \<Rightarrow> u128" where
  "classic_insurance_take seized =
     sat_sub (classic_assumed_liability seized) (classic_borrower_debt_relief seized)"

definition size_classic_seize :: "u128 \<Rightarrow> u16 \<Rightarrow> u128" where
  "size_classic_seize max_seize fill_bps = max_seize * min (ucast fill_bps) 10000 div 10000"

definition receivership_profit_ok :: "u128 \<Rightarrow> u128 \<Rightarrow> u16 \<Rightarrow> bool" where
  "receivership_profit_ok seized repaid max_fee_bps \<longleftrightarrow>
     seized \<le> repaid * (10000 + ucast max_fee_bps) div 10000"

definition max_seize_for_repay :: "u128 \<Rightarrow> u16 \<Rightarrow> u128" where
  "max_seize_for_repay repaid max_fee_bps = repaid * (10000 + ucast max_fee_bps) div 10000"

definition default_max_fee_bps :: u16 where
  "default_max_fee_bps = 1000"

definition health_improved :: "i128 \<Rightarrow> i128 \<Rightarrow> bool" where
  "health_improved pre_maint post_maint \<longleftrightarrow> sint pre_maint < sint post_maint"

section \<open>Fee state\<close>

record fee_state_view =
  fs_liquidation_max_fee_bps :: u16
  fs_liquidation_flat_sol_fee_lamports :: u64
  fs_global_fee_wallet :: pubkey
  fs_paused :: bool

definition i80f48_le_to_bps :: "u8 list \<Rightarrow> p0_error + u16" where
  "i80f48_le_to_bps bytes =
     (let raw = (word_of_le bytes :: i128)
      in if sint raw < 0 then Inl (P0FeeState ''negative fee'')
         else let bps = signed_drop_bit 48 (signed_sat_mul raw 10000 + push_bit 47 1)
              in if 65535 < sint bps then Inl (P0FeeState ''fee bps overflow'') else Inr (ucast bps))"

definition i80f48_from_ratio :: "i128 \<Rightarrow> i128 \<Rightarrow> u8 list" where
  "i80f48_from_ratio numer denom = u128_le (signed_div (push_bit 48 numer) denom)"

text \<open>\<^verbatim>\<open>body.get(a..b)\<close>.\<close>

definition get_range :: "u8 list \<Rightarrow> nat \<Rightarrow> nat \<Rightarrow> u8 list option" where
  "get_range xs a b = (if b \<le> length xs then Some (slice xs a b) else None)"

definition read_pubkey :: "u8 list \<Rightarrow> nat \<Rightarrow> p0_error + pubkey" where
  "read_pubkey data at =
     and_then (ok_or (get_range data at (at + 32)) (P0FeeState ''truncated pubkey'')) (\<lambda>b. Inr (Pubkey b))"

definition fee_state_body :: "u8 list \<Rightarrow> p0_error + u8 list" where
  "fee_state_body data =
     (if 8 + 256 \<le> length data \<and> slice data 0 8 = account_disc_fee_state then Inr (drop 8 data)
      else if 256 \<le> length data then Inr data
      else if 8 \<le> length data \<and> slice data 0 8 = account_disc_fee_state
        then Inl (P0FeeState ''body too short after disc'')
      else Inl (P0FeeState ''too short''))"

definition parse_fee_state :: "u8 list \<Rightarrow> p0_error + fee_state_view" where
  "parse_fee_state data =
     and_then (fee_state_body data) (\<lambda>body.
     and_then (ok_or (get_range body 112 (112 + 16)) (P0FeeState ''missing liquidation_max_fee'')) (\<lambda>fee_bytes.
     and_then (i80f48_le_to_bps fee_bytes) (\<lambda>max_fee_bps.
     and_then (ok_or (get_range body 200 (200 + 4)) (P0FeeState ''missing flat fee'')) (\<lambda>flat.
     and_then (read_pubkey body 64) (\<lambda>wallet.
     and_then (ok_or (if 160 < length body then Some (body ! 160) else None)
                 (P0FeeState ''missing panic_state'')) (\<lambda>pause_flags.
       Inr \<lparr>fs_liquidation_max_fee_bps = max_fee_bps,
            fs_liquidation_flat_sol_fee_lamports = ucast (word_of_le flat :: u32),
            fs_global_fee_wallet = wallet, fs_paused = (pause_flags AND 1 \<noteq> 0)\<rparr>))))))"

definition fixture_fee_state_bytes :: "u16 \<Rightarrow> u32 \<Rightarrow> pubkey \<Rightarrow> bool \<Rightarrow> u8 list" where
  "fixture_fee_state_bytes max_fee_bps flat_sol_fee wallet paused =
     (let body0 = replicate 256 0;
          body1 = splice body0 64 (pk_bytes wallet);
          body2 = splice body1 112 (i80f48_from_ratio (ucast max_fee_bps) 10000);
          body3 = splice body2 200 (u32_le flat_sol_fee);
          body4 = (if paused then body3[160 := 1] else body3)
      in account_disc_fee_state @ body4)"

section \<open>Accounts\<close>

datatype meta_role_p0 = P0Writable | P0Readonly | P0Signer | P0WritableSigner

datatype named_meta = NamedMeta (nm_name: string) (nm_key: pubkey) (nm_role: meta_role_p0)

record classic_liquidate_accounts =
  cl_group :: pubkey
  cl_asset_bank :: pubkey
  cl_liab_bank :: pubkey
  cl_liquidator_marginfi_account :: pubkey
  cl_authority :: pubkey
  cl_liquidatee_marginfi_account :: pubkey
  cl_bank_liquidity_vault_authority :: pubkey
  cl_bank_liquidity_vault :: pubkey
  cl_bank_insurance_vault :: pubkey
  cl_token_program :: pubkey
  cl_remaining :: "pubkey list"

definition classic_liquidate_metas :: "classic_liquidate_accounts \<Rightarrow> named_meta list" where
  "classic_liquidate_metas a =
     [NamedMeta ''group'' (cl_group a) P0Readonly,
      NamedMeta ''asset_bank'' (cl_asset_bank a) P0Writable,
      NamedMeta ''liab_bank'' (cl_liab_bank a) P0Writable,
      NamedMeta ''liquidator_marginfi_account'' (cl_liquidator_marginfi_account a) P0Writable,
      NamedMeta ''authority'' (cl_authority a) P0Signer,
      NamedMeta ''liquidatee_marginfi_account'' (cl_liquidatee_marginfi_account a) P0Writable,
      NamedMeta ''bank_liquidity_vault_authority'' (cl_bank_liquidity_vault_authority a) P0Readonly,
      NamedMeta ''bank_liquidity_vault'' (cl_bank_liquidity_vault a) P0Writable,
      NamedMeta ''bank_insurance_vault'' (cl_bank_insurance_vault a) P0Writable,
      NamedMeta ''token_program'' (cl_token_program a) P0Readonly] @
     map (\<lambda>k. NamedMeta ''remaining'' k P0Readonly) (cl_remaining a)"

record start_liquidation_accounts =
  st_marginfi_account :: pubkey
  st_liquidation_record :: pubkey
  st_group :: pubkey
  st_liquidation_receiver :: pubkey
  st_instruction_sysvar :: pubkey
  st_remaining_writable :: "pubkey list"

definition start_liquidation_metas :: "start_liquidation_accounts \<Rightarrow> named_meta list" where
  "start_liquidation_metas a =
     [NamedMeta ''marginfi_account'' (st_marginfi_account a) P0Writable,
      NamedMeta ''liquidation_record'' (st_liquidation_record a) P0Writable,
      NamedMeta ''group'' (st_group a) P0Readonly,
      NamedMeta ''liquidation_receiver'' (st_liquidation_receiver a) P0Readonly,
      NamedMeta ''instruction_sysvar'' (st_instruction_sysvar a) P0Readonly] @
     map (\<lambda>k. NamedMeta ''bank_or_oracle'' k P0Writable) (st_remaining_writable a)"

record end_liquidation_accounts =
  en_marginfi_account :: pubkey
  en_liquidation_record :: pubkey
  en_group :: pubkey
  en_liquidation_receiver :: pubkey
  en_fee_state :: pubkey
  en_global_fee_wallet :: pubkey
  en_system_program :: pubkey
  en_fee_payer :: "pubkey option"

definition end_liquidation_metas :: "end_liquidation_accounts \<Rightarrow> named_meta list" where
  "end_liquidation_metas a =
     [NamedMeta ''marginfi_account'' (en_marginfi_account a) P0Writable,
      NamedMeta ''liquidation_record'' (en_liquidation_record a) P0Writable,
      NamedMeta ''group'' (en_group a) P0Readonly,
      NamedMeta ''liquidation_receiver'' (en_liquidation_receiver a) P0WritableSigner,
      NamedMeta ''fee_state'' (en_fee_state a) P0Readonly,
      NamedMeta ''global_fee_wallet'' (en_global_fee_wallet a) P0Writable,
      NamedMeta ''system_program'' (en_system_program a) P0Readonly] @
     (case en_fee_payer a of None \<Rightarrow> [] | Some fp \<Rightarrow> [NamedMeta ''fee_payer'' fp P0WritableSigner])"

fun named_to_meta :: "named_meta \<Rightarrow> account_meta" where
  "named_to_meta (NamedMeta n k P0Writable) = meta_new k False"
| "named_to_meta (NamedMeta n k P0Readonly) = meta_new_readonly k False"
| "named_to_meta (NamedMeta n k P0Signer) = meta_new_readonly k True"
| "named_to_meta (NamedMeta n k P0WritableSigner) = meta_new k True"

record withdraw_accounts =
  wa_group :: pubkey
  wa_marginfi_account :: pubkey
  wa_authority :: pubkey
  wa_bank :: pubkey
  wa_vault :: pubkey
  wa_destination :: pubkey
  wa_bank_liquidity_vault_authority :: pubkey
  wa_token_program :: pubkey

definition withdraw_metas :: "withdraw_accounts \<Rightarrow> account_meta list" where
  "withdraw_metas a =
     [meta_new_readonly (wa_group a) False, meta_new (wa_marginfi_account a) False,
      meta_new_readonly (wa_authority a) True, meta_new (wa_bank a) False,
      meta_new (wa_destination a) False, meta_new_readonly (wa_bank_liquidity_vault_authority a) False,
      meta_new (wa_vault a) False, meta_new_readonly (wa_token_program a) False]"

record repay_accounts =
  ra_group :: pubkey
  ra_marginfi_account :: pubkey
  ra_authority :: pubkey
  ra_bank :: pubkey
  ra_signer_token_account :: pubkey
  ra_vault :: pubkey
  ra_token_program :: pubkey

definition repay_metas :: "repay_accounts \<Rightarrow> account_meta list" where
  "repay_metas a =
     [meta_new_readonly (ra_group a) False, meta_new (ra_marginfi_account a) False,
      meta_new_readonly (ra_authority a) True, meta_new (ra_bank a) False,
      meta_new (ra_signer_token_account a) False, meta_new (ra_vault a) False,
      meta_new_readonly (ra_token_program a) False]"

record receivership_build_params =
  rb_start :: start_liquidation_accounts
  rb_withdraw :: withdraw_accounts
  rb_repay :: repay_accounts
  rb_end :: end_liquidation_accounts
  rb_withdraw_amount :: u64
  rb_repay_amount :: u64
  rb_cu_limit :: u32
  rb_cu_price :: u64

definition build_receivership_tx :: "receivership_build_params \<Rightarrow> labeled_ix list \<Rightarrow> labeled_ix list" where
  "build_receivership_tx p swaps =
     [cu_limit_ix (rb_cu_limit p), cu_price_ix (rb_cu_price p),
      labeled ''start_liquidation'' (instruction_new prog_marginfi
        (map named_to_meta (start_liquidation_metas (rb_start p))) encode_start_liquidation),
      labeled ''lending_account_withdraw'' (instruction_new prog_marginfi
        (withdraw_metas (rb_withdraw p)) (encode_withdraw (rb_withdraw_amount p) False))]
     @ swaps
     @ [labeled ''lending_account_repay'' (instruction_new prog_marginfi
          (repay_metas (rb_repay p)) (encode_repay (rb_repay_amount p) False))]
     @ [labeled ''end_liquidation'' (instruction_new prog_marginfi
          (map named_to_meta (end_liquidation_metas (rb_end p))) encode_end_liquidation)]"

record classic_build_params =
  cb_accounts :: classic_liquidate_accounts
  cb_asset_amount :: u64
  cb_cu_limit :: u32
  cb_cu_price :: u64

definition build_classic_tx :: "classic_build_params \<Rightarrow> labeled_ix list" where
  "build_classic_tx p =
     [cu_limit_ix (cb_cu_limit p), cu_price_ix (cb_cu_price p),
      labeled ''lending_account_liquidate'' (instruction_new prog_marginfi
        (map named_to_meta (classic_liquidate_metas (cb_accounts p)))
        (encode_classic_liquidate (cb_asset_amount p)))]"

section \<open>Exactness of the health sums\<close>

definition bank_ok :: "bank_meta \<Rightarrow> bool" where
  "bank_ok b \<longleftrightarrow> unat (bm_decimals b) \<le> 38
     \<and> unat (bm_maint_asset_weight_fx b) \<le> 10000000 \<and> unat (bm_maint_liab_weight_fx b) \<le> 10000000"

text \<open>
  The weighted value of a balance in micro-dollars, over the natural numbers: an asset is valued
  at the price lowered by the confidence, a liability at the price raised by it.
\<close>

definition balance_value :: "bank_meta \<Rightarrow> balance \<Rightarrow> nat \<Rightarrow> nat \<Rightarrow> nat" where
  "balance_value meta bal q c =
     (if bal_kind bal = Asset
      then usd_value (unat (bal_amount bal)) (unat (bm_decimals meta)) (cap128 (q * (1000000 - c)) div 1000000)
             * unat (bm_maint_asset_weight_fx meta) div 1000000
      else usd_value (unat (bal_amount bal)) (unat (bm_decimals meta)) (cap128 (q * (1000000 + c)) div 1000000)
             * unat (bm_maint_liab_weight_fx meta) div 1000000)"

definition side_value :: "bank_book \<Rightarrow> balance_kind \<Rightarrow> balance \<Rightarrow> nat" where
  "side_value book kind bal =
     (if bal_kind bal \<noteq> kind \<or> bal_amount bal = 0 then 0
      else case book_bank book (bal_bank bal) of None \<Rightarrow> 0
         | Some meta \<Rightarrow> (case book_price book (bm_mint meta) of None \<Rightarrow> 0
             | Some p \<Rightarrow> balance_value meta bal (unat (px p)) (unat (book_conf book (bm_mint meta)))))"

lemma adjusted_price_value:
  assumes "unat c \<le> 50000"
  shows "unat (px (adjusted_price kind p c)) =
    (if kind = Asset then cap128 (unat (px p) * (1000000 - unat c)) div 1000000
     else cap128 (unat (px p) * (1000000 + unat c)) div 1000000)"
proof -
  have "unat (1000000 - ucast c :: u128) = 1000000 - unat c"
    using assms by (subst unat_sub) (simp_all add: word_le_nat_alt unat_ucast64_128)
  moreover have "unat (1000000 + ucast c :: u128) = 1000000 + unat c"
    using assms by (subst unat_plus_exact) (simp_all add: unat_ucast64_128)
  ultimately show ?thesis
    by (cases kind) (simp_all add: adjusted_price_def unat_div unat_sat_mul_cap128)
qed

lemma book_conf_le: "unat (book_conf book mint) \<le> 50000"
  by (simp add: book_conf_def min_def word_le_nat_alt split: option.splits)

lemma weighted_balance_exact:
  assumes "bank_ok meta" "unat c \<le> 50000"
  shows "unat (weighted_balance meta bal p c) = balance_value meta bal (unat (px p)) (unat c)"
    and "balance_value meta bal (unat (px p)) (unat c) < 2 ^ 103"
proof -
  let ?usd = "amount_to_usd_micro (ucast (bal_amount bal)) (bm_decimals meta) (adjusted_price (bal_kind bal) p c)"
  let ?w = "if bal_kind bal = Asset then bm_maint_asset_weight_fx meta else bm_maint_liab_weight_fx meta"
  have u: "unat ?usd < 2 ^ 99"
    using assms by (intro amount_to_usd_micro_bound) (simp add: bank_ok_def)
  have w: "unat ?w \<le> 10000000" using assms by (simp add: bank_ok_def)
  have uw: "unat ?usd * unat ?w \<le> 2 ^ 99 * 10000000"
    using u w by (intro mult_le_mono) simp_all
  then have m: "unat (?usd * ucast ?w) = unat ?usd * unat ?w"
    by (subst unat_mult_exact) (simp_all add: unat_ucast64_128)
  have "unat (signed_div (?usd * ucast ?w) 1000000) = unat ?usd * unat ?w div 1000000"
    using uw by (subst signed_div_exact) (simp_all add: m)
  then have w: "unat (weighted_balance meta bal p c) = unat ?usd * unat ?w div 1000000"
    by (simp add: weighted_balance_def Let_def)
  have usd: "unat ?usd = usd_value (unat (bal_amount bal)) (unat (bm_decimals meta))
      (unat (px (adjusted_price (bal_kind bal) p c)))"
    using assms(1) by (subst amount_to_usd_micro_value) (simp_all add: bank_ok_def unat_ucast64_128)
  then show v: "unat (weighted_balance meta bal p c) = balance_value meta bal (unat (px p)) (unat c)"
    unfolding w using adjusted_price_value [OF assms(2), of "bal_kind bal" p]
    by (simp add: balance_value_def)
  show "balance_value meta bal (unat (px p)) (unat c) < 2 ^ 103"
    unfolding v [symmetric] w using div_le_mono [OF uw, of 1000000] by simp
qed

definition book_ok :: "bank_book \<Rightarrow> bool" where
  "book_ok book \<longleftrightarrow> (\<forall>b \<in> set (bb_banks book). bank_ok b)"

lemma book_bank_ok: "book_ok book \<Longrightarrow> book_bank book k = Some meta \<Longrightarrow> bank_ok meta"
  using find_Some_set by (fastforce simp: book_ok_def book_bank_def)

lemma side_value_bound: "book_ok book \<Longrightarrow> side_value book kind bal < 2 ^ 103"
  using weighted_balance_exact(2) [OF _ book_conf_le] book_bank_ok
  by (fastforce simp: side_value_def split: option.splits)

lemma side_sum_bound:
  assumes "book_ok book" "length bals \<le> 64"
  shows "sum_list (map (side_value book kind) bals) < 2 ^ 110"
proof -
  have "sum_list (map (side_value book kind) bals) \<le> length bals * 2 ^ 103"
  proof (induction bals)
    case (Cons b bals)
    with side_value_bound [OF assms(1), of kind b] show ?case by simp
  qed simp
  also have "\<dots> \<le> 64 * 2 ^ 103" using assms(2) by (rule mult_le_mono1)
  also have "\<dots> < 2 ^ 110" by simp
  finally show ?thesis .
qed

lemma health_loop_exact:
  assumes "book_ok book" "health_loop book bals a l = Inr (A, L)"
    and "unat a + sum_list (map (side_value book Asset) bals) < 2 ^ 127"
    and "unat l + sum_list (map (side_value book Liability) bals) < 2 ^ 127"
  shows "unat A = unat a + sum_list (map (side_value book Asset) bals)
    \<and> unat L = unat l + sum_list (map (side_value book Liability) bals)"
  using assms(2-)
proof (induction bals arbitrary: a l)
  case (Cons b bals)
  show ?case
  proof (cases "bal_kind b = Empty \<or> bal_amount b = 0")
    case True
    then have "side_value book Asset b = 0" "side_value book Liability b = 0"
      by (auto simp: side_value_def)
    with Cons True show ?thesis by simp
  next
    case False
    with Cons.prems(1) obtain meta p where mp: "book_bank book (bal_bank b) = Some meta"
      "book_price book (bm_mint meta) = Some p"
      by (auto simp: and_then_Inr_iff ok_or_def split: option.splits)
    let ?w = "weighted_balance meta b p (book_conf book (bm_mint meta))"
    note w = weighted_balance_exact(1) [OF book_bank_ok [OF assms(1) mp(1)] book_conf_le, of b p]
    show ?thesis
    proof (cases "bal_kind b")
      case Asset
      then have v: "side_value book Asset b = unat ?w" "side_value book Liability b = 0"
        using False mp w by (simp_all add: side_value_def)
      then have plus: "unat (a + ?w) = unat a + unat ?w"
        using Cons.prems(2) by (intro unat_plus_exact) simp
      show ?thesis
        using Cons.IH [of "a + ?w" l] Cons.prems Asset False mp v plus by (simp add: Let_def)
    next
      case Liability
      then have v: "side_value book Liability b = unat ?w" "side_value book Asset b = 0"
        using False mp w by (simp_all add: side_value_def)
      then have plus: "unat (l + ?w) = unat l + unat ?w"
        using Cons.prems(3) by (intro unat_plus_exact) simp
      show ?thesis
        using Cons.IH [of a "l + ?w"] Cons.prems Liability False mp v plus by (simp add: Let_def)
    qed (use False in simp)
  qed
qed simp

section \<open>Properties\<close>

text \<open>
  C26: For accounts of at most 64 balances in banks with up to 38 decimals and weights up to 1000
  percent, the maintenance health is exactly the weighted assets (at the price lowered by the
  confidence) minus the weighted liabilities (at the price raised by it), and the account is
  liquidatable exactly when its liabilities weigh more than its assets.
\<close>

theorem marginfi_health_exact:
  assumes "maintenance_health account book = Inr h" "book_ok book" "length (ma_balances account) \<le> 64"
  shows "sint h = int (sum_list (map (side_value book Asset) (ma_balances account)))
      - int (sum_list (map (side_value book Liability) (ma_balances account)))
    \<and> is_liquidatable_p0 account book = Inr
        (sum_list (map (side_value book Asset) (ma_balances account))
          < sum_list (map (side_value book Liability) (ma_balances account)))"
proof -
  from assms(1) obtain A L where AL: "health_loop book (ma_balances account) 0 0 = Inr (A, L)" and h: "h = A - L"
    by (auto simp: maintenance_health_def and_then_Inr_iff)
  note bound = side_sum_bound [OF assms(2,3)]
  have "sum_list (map (side_value book k) (ma_balances account)) < 2 ^ 127" for k
    by (rule less_trans [OF bound]) simp
  with health_loop_exact [OF assms(2) AL]
  have sums: "unat A = sum_list (map (side_value book Asset) (ma_balances account))"
    "unat L = sum_list (map (side_value book Liability) (ma_balances account))" by simp_all
  have "unat A < 2 ^ 127" "unat L < 2 ^ 127"
    unfolding sums by (rule less_trans [OF bound], simp)+
  then have "sint h = int (unat A) - int (unat L)"
    unfolding h by (intro sint_diff_small) simp_all
  then show ?thesis
    using assms(1) by (simp add: is_liquidatable_p0_def sums)
qed

definition sample_book :: bank_book where
  "sample_book = \<lparr>bb_banks = [\<lparr>bm_bank = pubkey_test 10 1, bm_mint = pubkey_test 11 1,
       bm_maint_asset_weight_fx = 800000, bm_maint_liab_weight_fx = 1200000, bm_decimals = 9\<rparr>],
     bb_prices = [(pubkey_test 11 1, PriceFx 100000000000)], bb_confidence = []\<rparr>"

definition sample_account :: marginfi_account_view where
  "sample_account = \<lparr>ma_address = pubkey_test 12 1, ma_group = pubkey_test 12 2,
     ma_balances = [\<lparr>bal_bank = pubkey_test 10 1, bal_kind = Liability, bal_amount = 1000000000\<rparr>]\<rparr>"

theorem marginfi_health_exact_witness:
  "\<exists>h. maintenance_health sample_account sample_book = Inr h \<and> sint h = - 120000000
     \<and> is_liquidatable_p0 sample_account sample_book = Inr True"
proof -
  let ?w = "weighted_balance \<lparr>bm_bank = pubkey_test 10 1, bm_mint = pubkey_test 11 1,
       bm_maint_asset_weight_fx = 800000, bm_maint_liab_weight_fx = 1200000, bm_decimals = 9\<rparr>
     \<lparr>bal_bank = pubkey_test 10 1, bal_kind = Liability, bal_amount = 1000000000\<rparr> (PriceFx 100000000000) 0"
  have h: "maintenance_health sample_account sample_book = Inr (- ?w)"
    by (simp add: maintenance_health_def sample_account_def sample_book_def book_bank_def book_price_def
        price_get_def book_conf_def Let_def)
  have ok: "book_ok sample_book" "length (ma_balances sample_account) \<le> 64"
    by (simp_all add: book_ok_def bank_ok_def sample_book_def sample_account_def)
  have "sum_list (map (side_value sample_book Asset) (ma_balances sample_account)) = 0"
    "sum_list (map (side_value sample_book Liability) (ma_balances sample_account)) = 120000000"
    by (simp_all add: side_value_def sample_account_def sample_book_def book_bank_def book_price_def
        price_get_def book_conf_def balance_value_def usd_value_def cap128_def)
  with marginfi_health_exact [OF h ok] h show ?thesis by simp
qed

section \<open>The fee state\<close>

text \<open>The conversion over the natural numbers: round to the nearest basis point.\<close>

lemma fee_bps_exact:
  fixes raw :: i128
  assumes "unat raw * 10000 + 2 ^ 47 < 2 ^ 127"
  shows "i80f48_le_to_bps (u128_le raw) =
    (let bps = (unat raw * 10000 + 2 ^ 47) div 2 ^ 48
     in if 65535 < bps then Inl (P0FeeState ''fee bps overflow'') else Inr (word_of_nat bps))"
proof -
  let ?s = "unat raw * 10000 + 2 ^ 47"
  let ?b = "signed_drop_bit 48 (signed_sat_mul raw 10000 + push_bit 47 1)"
  have raw: "sint raw = int (unat raw)" using assms by (intro sint_small) simp
  have "int (unat raw * 10000) < int (2 ^ 127)" using assms by (simp only: of_nat_less_iff)
  then have p: "int (unat raw) * 10000 \<le> 2 ^ 127 - 1" by simp
  have "signed_sat_mul raw 10000 = word_of_int (int (unat raw) * 10000)"
    using p by (simp add: signed_sat_mul_def raw Let_def min_absorb2 max_absorb2)
  also have "\<dots> = word_of_nat (unat raw * 10000)" by simp
  finally have "signed_sat_mul raw 10000 + push_bit 47 1 = word_of_nat ?s" by simp
  then have "unat (signed_sat_mul raw 10000 + push_bit 47 1) = ?s"
    using assms by (simp only: unat_of_nat) (simp add: take_bit_nat_eq_self)
  then have "sint (signed_sat_mul raw 10000 + push_bit 47 1) = int ?s"
    using assms by (subst sint_small) simp_all
  then have b: "sint ?b = int (?s div 2 ^ 48)"
    by (simp add: sint_signed_drop_bit_eq drop_bit_eq_div zdiv_int)
  then have "int (unat ?b) = int (?s div 2 ^ 48)"
    by (subst unat_sint_nonneg) simp_all
  then have "unat ?b = ?s div 2 ^ 48" by (simp only: of_nat_eq_iff)
  then have "(ucast ?b :: u16) = word_of_nat (?s div 2 ^ 48)"
    by (metis of_nat_unat)
  then show ?thesis
    using b by (simp add: i80f48_le_to_bps_def Let_def raw)
qed

lemma i80f48_from_bps:
  fixes bps :: u16
  shows "\<exists>v. i80f48_from_ratio (ucast bps) 10000 = u128_le v \<and> unat v = unat bps * 2 ^ 48 div 10000"
proof -
  have "unat bps * 2 ^ 48 < 65536 * 2 ^ 48"
    using unat_bound16 [of bps] by (intro mult_strict_right_mono) simp_all
  then have "unat (push_bit 48 (ucast bps :: i128)) = unat bps * 2 ^ 48"
    by (simp add: push_bit_eq_mult unat_ucast16_128 unat_mult_exact)
  moreover from this have "unat (signed_div (push_bit 48 (ucast bps :: i128)) 10000)
      = unat (push_bit 48 (ucast bps :: i128)) div 10000"
    using \<open>unat bps * 2 ^ 48 < 65536 * 2 ^ 48\<close> by (subst signed_div_exact) simp_all
  ultimately show ?thesis by (auto simp: i80f48_from_ratio_def)
qed

lemma fee_bps_of_ratio: "i80f48_le_to_bps (i80f48_from_ratio (ucast bps) 10000) = Inr (bps :: u16)"
proof -
  obtain v where v: "i80f48_from_ratio (ucast bps) 10000 = u128_le v" "unat v = unat bps * 2 ^ 48 div 10000"
    using i80f48_from_bps by blast
  let ?b = "unat bps"
  have b: "?b < 65536" by (rule unat_bound16)
  let ?q = "?b * 2 ^ 48 div 10000"
  have lo: "?b * 2 ^ 48 < ?q * 10000 + 10000" and hi: "?q * 10000 \<le> ?b * 2 ^ 48"
    using div_mult_mod_eq [of "?b * 2 ^ 48" 10000] mod_less_divisor [of 10000 "?b * 2 ^ 48"] by linarith+
  have "?q * 10000 + 2 ^ 47 < 2 ^ 127" using hi b by simp
  moreover have "(?q * 10000 + 2 ^ 47) div 2 ^ 48 = ?b"
    by (rule div_nat_eqI) (use lo hi in simp_all)
  ultimately show ?thesis
    using fee_bps_exact [of v] b by (simp add: v)
qed

text \<open>
  A fee state written with a maximum fee, a flat fee, a wallet and the pause flag is read
  back with exactly these values, the fixed-point fee included, for every fee in basis points.
\<close>

lemma fee_state_roundtrip:
  assumes "pubkey_wf wallet"
  shows "parse_fee_state (fixture_fee_state_bytes bps flat wallet paused) =
    Inr \<lparr>fs_liquidation_max_fee_bps = bps, fs_liquidation_flat_sol_fee_lamports = ucast flat,
      fs_global_fee_wallet = wallet, fs_paused = paused\<rparr>"
proof -
  let ?fee = "i80f48_from_ratio (ucast bps) 10000"
  let ?b3 = "splice (splice (splice (replicate 256 0) 64 (pk_bytes wallet)) 112 ?fee) 200 (u32_le flat)"
  let ?b4 = "if paused then ?b3[160 := 1] else ?b3"
  have w: "length (pk_bytes wallet) = 32" using assms by (simp add: pubkey_wf_def)
  have f: "length ?fee = 16" by (simp add: i80f48_from_ratio_def)
  have l3: "length ?b3 = 256" by (simp add: w f)
  then have l4: "length ?b4 = 256" by simp
  have fee: "slice ?b4 112 128 = ?fee" and flat: "slice ?b4 200 204 = u32_le flat"
    and wal: "slice ?b4 64 96 = pk_bytes wallet"
    by (simp_all add: slice_simps w f)
  have "?b3 ! 160 = 0" by (simp add: nth_splice_other w f)
  then have pause: "?b4 ! 160 = of_bool paused" using l3 by simp
  have "fixture_fee_state_bytes bps flat wallet paused = account_disc_fee_state @ ?b4"
    by (simp add: fixture_fee_state_bytes_def Let_def)
  then have "fee_state_body (fixture_fee_state_bytes bps flat wallet paused) = Inr ?b4"
    using l4 by (simp add: fee_state_body_def account_disc_fee_state_def slice_def)
  then show ?thesis
    using l4 fee flat wal pause
    by (simp add: parse_fee_state_def get_range_def read_pubkey_def fee_bps_of_ratio pubkey.expand)
qed

text \<open>
  The largest fixed-point fee is not rejected as an overflow: the saturated product wraps
  around when the rounding term is added, and the fee is read as zero.
\<close>

lemma fee_saturation_reads_zero:
  "i80f48_le_to_bps (u128_le (2 ^ 127 - 1)) = Inr 0"
proof -
  have s: "signed_sat_mul (2 ^ 127 - 1 :: i128) 10000 = 2 ^ 127 - 1"
    by (simp add: signed_sat_mul_def Let_def)
  have "sint (signed_drop_bit 48 ((2 ^ 127 - 1 :: i128) + push_bit 47 1)) = - (2 ^ 79)"
    by (simp add: sint_signed_drop_bit_eq push_bit_eq_mult drop_bit_eq_div)
  then have d: "signed_drop_bit 48 ((2 ^ 127 - 1 :: i128) + push_bit 47 1) = word_of_int (- (2 ^ 79))"
    by (intro signed_word_eqI [where ?'a = int]) simp
  show ?thesis
    unfolding i80f48_le_to_bps_def word_of_le_bytes Let_def s d by simp
qed

text \<open>
  The receivership cap and the classic split are exact fractions: a seize is allowed exactly up
  to the repaid value plus the fee, rounded down, and in the classic mode what the liquidator pays
  is what the borrower is relieved of plus the insurance share, and at most what is seized.
\<close>

lemma sizing_exact:
  assumes "unat repaid < 2 ^ 111" "unat seized < 2 ^ 114"
  shows "(receivership_profit_ok s repaid fee \<longleftrightarrow> unat s * 10000 \<le> unat repaid * (10000 + unat fee))
    \<and> (receivership_profit_ok s repaid fee \<longleftrightarrow> s \<le> max_seize_for_repay repaid fee)
    \<and> unat (classic_assumed_liability seized)
        = unat (classic_borrower_debt_relief seized) + unat (classic_insurance_take seized)
    \<and> unat (classic_assumed_liability seized) = unat seized * 9750 div 10000
    \<and> unat (classic_borrower_debt_relief seized) = unat seized * 9500 div 10000"
proof -
  have f: "unat (10000 + ucast fee :: u128) = 10000 + unat fee"
    using unat_bound16 [of fee] by (subst unat_plus_exact) (simp_all add: unat_ucast16_128)
  have "unat repaid * (10000 + unat fee) < 2 ^ 111 * 2 ^ 17"
    using assms(1) unat_bound16 [of fee] by (intro mult_strict_mono) simp_all
  then have r: "unat (repaid * (10000 + ucast fee)) = unat repaid * (10000 + unat fee)"
    by (subst unat_mult_exact) (simp_all add: f)
  then have "receivership_profit_ok s repaid fee \<longleftrightarrow> unat s \<le> unat repaid * (10000 + unat fee) div 10000"
    by (simp add: receivership_profit_ok_def word_le_nat_alt unat_div)
  also have "\<dots> \<longleftrightarrow> unat s * 10000 \<le> unat repaid * (10000 + unat fee)"
    by (rule less_eq_div_iff_mult_less_eq) simp
  finally have ok: "receivership_profit_ok s repaid fee \<longleftrightarrow> unat s * 10000 \<le> unat repaid * (10000 + unat fee)" .
  have m: "unat (seized * k) = unat seized * unat k" if "unat k \<le> 10000" for k :: u128
  proof -
    have "unat seized * unat k < 2 ^ 114 * 2 ^ 14"
      using assms(2) that by (intro mult_strict_mono) simp_all
    then show ?thesis by (intro unat_mult_exact) simp
  qed
  have l: "unat (classic_assumed_liability seized) = unat seized * 9750 div 10000"
    using m [of 9750] by (simp add: classic_assumed_liability_def unat_div)
  have d: "unat (classic_borrower_debt_relief seized) = unat seized * 9500 div 10000"
    using m [of 9500] by (simp add: classic_borrower_debt_relief_def unat_div)
  have "unat seized * 9500 div 10000 \<le> unat seized * 9750 div 10000"
    by (intro div_le_mono mult_le_mono2) simp
  then have "unat (classic_assumed_liability seized)
      = unat (classic_borrower_debt_relief seized) + unat (classic_insurance_take seized)"
    by (simp add: classic_insurance_take_def unat_sat_sub l d)
  with ok l d show ?thesis
    by (simp add: receivership_profit_ok_def max_seize_for_repay_def)
qed

end
