(* ===== verification/Routing.thy ===== *)
theory Routing
  imports Health Instructions KeyedCache
begin

text \<open>
  Swap routing: \<^verbatim>\<open>crates/liq-routing/src/lib.rs\<close>. The mid-price quote and the
  three routers that use it, the swap instructions read from a JSON quote, and the route cache.
  The crates \<^verbatim>\<open>serde_json\<close> and \<^verbatim>\<open>base64\<close> are the
  fields of \<open>json_api\<close>: the accessors of a JSON value and the base64 decoder.
\<close>

record quote_request =
  qr_input_mint :: pubkey
  qr_output_mint :: pubkey
  qr_amount_in :: u64
  qr_input_decimals :: u8
  qr_output_decimals :: u8
  qr_input_price :: price_fx
  qr_output_price :: price_fx
  qr_slippage_bps :: u16

record quote =
  q_amount_out :: u64
  q_cost_usd_micro :: u64
  q_route_label :: string

datatype route_error = NoRoute

definition mid_quote :: "quote_request \<Rightarrow> string \<Rightarrow> route_error + quote" where
  "mid_quote req label =
     (let in_usd = amount_to_usd_micro (ucast (qr_amount_in req)) (qr_input_decimals req) (qr_input_price req);
          after_slip = in_usd * (10000 - ucast (qr_slippage_bps req)) div 10000;
          cost = in_usd - after_slip;
          out = sat_mul (sat_mul after_slip (pow10 (qr_output_decimals req))) price_scale
            div max (sat_mul (px (qr_output_price req)) 1000000) 1
      in Inr \<lparr>q_amount_out = ucast out, q_cost_usd_micro = ucast cost, q_route_label = label\<rparr>)"

section \<open>Routers\<close>

text \<open>
  The trait \<^verbatim>\<open>SwapRouter\<close>: what a plan relies on is that the instructions a
  router builds can be put on the wire, so that a swap slot is never empty.
\<close>

locale swap_router =
  fixes quote_of :: "quote_request \<Rightarrow> route_error + quote"
    and build_swap :: "quote_request \<Rightarrow> quote \<Rightarrow> labeled_ix list"
    and route_label :: string
  assumes quote_mid: "quote_of req = mid_quote req route_label"
    and build_nonempty: "build_swap req q \<noteq> []"
    and build_wire: "l \<in> set (build_swap req q) \<Longrightarrow> ix_data (li_ix l) \<noteq> [] \<and> ix_accounts (li_ix l) \<noteq> []"
begin

definition route :: "quote_request \<Rightarrow> route_error + (quote \<times> labeled_ix list)" where
  "route req = and_then (quote_of req) (\<lambda>q. Inr (q, build_swap req q))"

lemma route_total: "\<exists>q ls. route req = Inr (q, ls) \<and> q_route_label q = route_label \<and> ls \<noteq> []
    \<and> list_all (\<lambda>l. is_wire_ready (li_ix l)) ls"
  using build_wire
  by (auto simp: route_def quote_mid mid_quote_def Let_def build_nonempty list_all_iff is_wire_ready_def)

end

definition stub_quote :: "quote_request \<Rightarrow> route_error + quote" where
  "stub_quote req = mid_quote req ''stub-mid''"

definition stub_build_swap_ixs :: "quote_request \<Rightarrow> quote \<Rightarrow> labeled_ix list" where
  "stub_build_swap_ixs req q =
     [labeled (''swap:'' @ q_route_label q)
        (instruction_new (pubkey_test 99 1) [meta_new (pubkey_test 99 2) False] (ascii ''STUB_SWAP''))]"

definition jupiter_placeholder_default :: pubkey where
  "jupiter_placeholder_default = pubkey_test 74 1"

definition jupiter_quote :: "quote_request \<Rightarrow> route_error + quote" where
  "jupiter_quote req = mid_quote req ''jupiter-placeholder''"

definition jupiter_build_swap_ixs :: "pubkey \<Rightarrow> quote_request \<Rightarrow> quote \<Rightarrow> labeled_ix list" where
  "jupiter_build_swap_ixs program req q =
     [labeled ''jupiter_swap_placeholder''
        (instruction_new program
           [meta_new (qr_input_mint req) False, meta_new (qr_output_mint req) False,
            meta_new_readonly prog_token False]
           (ascii ''JUP6PLACE'' @ u64_le (qr_amount_in req) @ u64_le (q_amount_out q)))]"

definition direct_dex_default :: string where
  "direct_dex_default = ''direct-dex''"

definition direct_dex_quote :: "string \<Rightarrow> quote_request \<Rightarrow> route_error + quote" where
  "direct_dex_quote label req = mid_quote req label"

definition direct_dex_build_swap_ixs :: "string \<Rightarrow> quote_request \<Rightarrow> quote \<Rightarrow> labeled_ix list" where
  "direct_dex_build_swap_ixs label req q =
     [labeled (''direct_dex:'' @ label)
        (instruction_new (pubkey_test 88 1)
           [meta_new (qr_input_mint req) False, meta_new (qr_output_mint req) False]
           (ascii ''DEX1'' @ u64_le (qr_amount_in req)))]"

interpretation stub_router: swap_router stub_quote stub_build_swap_ixs "''stub-mid''"
  by unfold_locales (auto simp: stub_quote_def stub_build_swap_ixs_def ascii_def)

interpretation jupiter_router: swap_router jupiter_quote "jupiter_build_swap_ixs program"
    "''jupiter-placeholder''" for program
  by unfold_locales (auto simp: jupiter_quote_def jupiter_build_swap_ixs_def ascii_def)

interpretation dex_router: swap_router "direct_dex_quote label" "direct_dex_build_swap_ixs label" label
    for label
  by unfold_locales (auto simp: direct_dex_quote_def direct_dex_build_swap_ixs_def ascii_def)

section \<open>Quote blobs\<close>

record 'v json_api =
  j_get :: "'v \<Rightarrow> string \<Rightarrow> 'v option"
  j_as_str :: "'v \<Rightarrow> string option"
  j_as_array :: "'v \<Rightarrow> 'v list option"
  j_as_bool :: "'v \<Rightarrow> bool option"
  j_parse :: "string \<Rightarrow> 'v option"
  b64_decode :: "string \<Rightarrow> u8 list option"

record jupiter_quote_blob =
  jq_instructions :: "labeled_ix list"
  jq_incomplete :: bool

definition blob_default :: jupiter_quote_blob where
  "blob_default = \<lparr>jq_instructions = [], jq_incomplete = True\<rparr>"

definition or_false :: "bool option \<Rightarrow> bool" where
  "or_false b = (case b of Some x \<Rightarrow> x | None \<Rightarrow> False)"

definition parse_meta :: "crypto \<Rightarrow> 'v json_api \<Rightarrow> 'v \<Rightarrow> account_meta option" where
  "parse_meta c j m =
     Option.bind (j_get j m ''pubkey'') (\<lambda>pv.
     Option.bind (j_as_str j pv) (\<lambda>ps.
     Option.bind (pubkey_from_base58 c ps) (\<lambda>k.
       let is_signer = or_false (Option.bind (j_get j m ''isSigner'') (j_as_bool j));
           is_writable = or_false (Option.bind (j_get j m ''isWritable'') (j_as_bool j))
       in Some (if is_writable then meta_new k is_signer else meta_new_readonly k is_signer))))"

definition parse_one_ix :: "crypto \<Rightarrow> 'v json_api \<Rightarrow> 'v \<Rightarrow> labeled_ix option" where
  "parse_one_ix c j obj =
     Option.bind (j_get j obj ''programId'') (\<lambda>pv.
     Option.bind (j_as_str j pv) (\<lambda>program_id_s.
     Option.bind (pubkey_from_base58 c program_id_s) (\<lambda>program_id.
     Option.bind (j_get j obj ''data'') (\<lambda>dv.
     Option.bind (j_as_str j dv) (\<lambda>data_s.
     Option.bind (b64_decode j data_s) (\<lambda>data.
       if data = [] then None
       else let accounts = (case Option.bind (j_get j obj ''accounts'') (j_as_array j) of
                Some arr \<Rightarrow> List.map_filter (parse_meta c j) arr
              | None \<Rightarrow> [])
            in Some (labeled ''jupiter_swap'' (instruction_new program_id accounts data))))))))"

definition push_parsed :: "crypto \<Rightarrow> 'v json_api \<Rightarrow> 'v \<Rightarrow> labeled_ix list \<Rightarrow> labeled_ix list" where
  "push_parsed c j v ixs = (case parse_one_ix c j v of Some ix \<Rightarrow> ixs @ [ix] | None \<Rightarrow> ixs)"

definition from_json_value :: "crypto \<Rightarrow> 'v json_api \<Rightarrow> 'v \<Rightarrow> jupiter_quote_blob" where
  "from_json_value c j v =
     (let ixs1 = (case j_get j v ''swapInstruction'' of
                    Some si \<Rightarrow> push_parsed c j si [] | None \<Rightarrow> []);
          ixs2 = (case Option.bind (j_get j v ''instructions'') (j_as_array j) of
                    Some arr \<Rightarrow> fold (push_parsed c j) arr ixs1 | None \<Rightarrow> ixs1);
          ixs3 = (if ixs2 = [] then push_parsed c j v ixs2 else ixs2)
      in \<lparr>jq_instructions = ixs3, jq_incomplete = (ixs3 = [])\<rparr>)"

definition from_json_str :: "crypto \<Rightarrow> 'v json_api \<Rightarrow> string \<Rightarrow> jupiter_quote_blob option" where
  "from_json_str c j s = map_option (from_json_value c j) (j_parse j s)"

definition from_file :: "crypto \<Rightarrow> 'v json_api \<Rightarrow> (string \<Rightarrow> string option) \<Rightarrow> string
    \<Rightarrow> jupiter_quote_blob option" where
  "from_file c j read_to_string path = Option.bind (read_to_string path) (from_json_str c j)"

definition attach_or_omit :: "jupiter_quote_blob \<Rightarrow> labeled_ix list \<times> bool" where
  "attach_or_omit b = (jq_instructions b, jq_incomplete b)"

definition blob_from_env ::
    "crypto \<Rightarrow> 'v json_api \<Rightarrow> (string \<Rightarrow> string option) \<Rightarrow> (string \<Rightarrow> string option) \<Rightarrow> jupiter_quote_blob" where
  "blob_from_env c j read_to_string env =
     (case env ''JUPITER_SWAP_IX_JSON'' of
        Some path \<Rightarrow> (case from_file c j read_to_string path of Some b \<Rightarrow> b | None \<Rightarrow> blob_default)
      | None \<Rightarrow> \<lparr>jq_instructions = [], jq_incomplete = True\<rparr>)"

section \<open>Route cache\<close>

datatype route_key = RouteKey (rk_input: pubkey) (rk_output: pubkey)

type_synonym route_cache = "route_key \<rightharpoonup> quote"

definition route_cache_new :: route_cache where "route_cache_new = Map.empty"

definition route_insert :: "route_cache \<Rightarrow> route_key \<Rightarrow> quote \<Rightarrow> route_cache" where
  "route_insert m k q = m(k \<mapsto> q)"

definition route_get :: "route_cache \<Rightarrow> route_key \<Rightarrow> quote option" where
  "route_get m k = m k"

fun prefetch_hot :: "route_cache \<Rightarrow> (pubkey \<times> pubkey) list \<Rightarrow> quote list \<Rightarrow> route_cache" where
  "prefetch_hot m ((a, b) # ps) (q # qs) = prefetch_hot (route_insert m (RouteKey a b) q) ps qs"
| "prefetch_hot m ps qs = m"

definition route_len :: "route_cache \<Rightarrow> nat" where
  "route_len m = card (dom m)"

interpretation routes: keyed_cache "\<lambda>m k. map_option (Pair k) (route_get m k)" "\<lambda>m (k, q). route_insert m k q"
    route_cache_new fst
  by unfold_locales (auto simp: route_get_def route_insert_def route_cache_new_def)

text \<open>Zipping stops at the shorter list; a later pair overrides an earlier one.\<close>

lemma prefetch_hot_eq:
  "prefetch_hot m ps qs = m ++ map_of (rev (zip (map (\<lambda>(a, b). RouteKey a b) ps) qs))"
  by (induction m ps qs rule: prefetch_hot.induct) (simp_all add: route_insert_def del: fun_upd_apply)

lemma prefetched_route:
  "map_option (Pair k) (route_get (prefetch_hot route_cache_new ps qs) k) =
     List.find (\<lambda>e. fst e = k) (rev (zip (map (\<lambda>(a, b). RouteKey a b) ps) qs))"
proof -
  have "prefetch_hot m ps qs = foldl (\<lambda>m (k, q). route_insert m k q) m (zip (map (\<lambda>(a, b). RouteKey a b) ps) qs)" for m
    by (induction m ps qs rule: prefetch_hot.induct) simp_all
  then show ?thesis by (simp only: routes.get_latest)
qed

section \<open>Properties\<close>

lemma parse_one_ix_data:
  "parse_one_ix c j v = Some l \<Longrightarrow> ix_data (li_ix l) \<noteq> [] \<and> li_label l = ''jupiter_swap''"
  by (auto simp: parse_one_ix_def Let_def split: bind_splits if_splits)

definition swap_ok :: "labeled_ix \<Rightarrow> bool" where
  "swap_ok l \<longleftrightarrow> ix_data (li_ix l) \<noteq> [] \<and> li_label l = ''jupiter_swap''"

lemma push_parsed_ok: "list_all swap_ok ixs \<Longrightarrow> list_all swap_ok (push_parsed c j v ixs)"
  by (auto simp: push_parsed_def swap_ok_def dest: parse_one_ix_data split: option.split)

lemma fold_push_parsed_ok: "list_all swap_ok ixs \<Longrightarrow> list_all swap_ok (fold (push_parsed c j) vs ixs)"
  by (induction vs arbitrary: ixs) (simp_all add: push_parsed_ok)

lemma from_json_value_ok:
  "list_all swap_ok (jq_instructions (from_json_value c j v))
   \<and> (jq_incomplete (from_json_value c j v) \<longleftrightarrow> jq_instructions (from_json_value c j v) = [])"
  by (auto simp: from_json_value_def Let_def push_parsed_ok fold_push_parsed_ok split: option.split)

text \<open>
  Whatever the environment, the file and the JSON value hold, the swap instructions attached
  to a plan are never placeholders: they all come from the parsed quote with non-empty data, and
  the plan is flagged incomplete exactly when there are none.
\<close>

lemma quote_blob_never_fakes:
  "let (swaps, incomplete) = attach_or_omit (blob_from_env c j read_to_string env)
   in list_all swap_ok swaps \<and> (incomplete \<longleftrightarrow> swaps = [])"
  by (auto simp: attach_or_omit_def blob_from_env_def blob_default_def from_file_def from_json_str_def
      from_json_value_ok split: option.split bind_splits)

definition input_value :: "quote_request \<Rightarrow> nat" where
  "input_value req = unat (qr_amount_in req) * unat (px (qr_input_price req)) * 1000000
     div (10 ^ unat (qr_input_decimals req) * 10 ^ 9)"

definition value_left :: "quote_request \<Rightarrow> nat" where
  "value_left req = input_value req * (10000 - unat (qr_slippage_bps req)) div 10000"

definition amount_left :: "quote_request \<Rightarrow> nat" where
  "amount_left req = value_left req * 10 ^ unat (qr_output_decimals req) * 1000000000
     div (unat (px (qr_output_price req)) * 1000000)"

definition quote_in_range :: "quote_request \<Rightarrow> bool" where
  "quote_in_range req \<longleftrightarrow> unat (qr_input_decimals req) \<le> 29 \<and> unat (qr_output_decimals req) \<le> 38
     \<and> unat (qr_slippage_bps req) \<le> 10000 \<and> px (qr_output_price req) \<noteq> 0
     \<and> unat (qr_amount_in req) * unat (px (qr_input_price req)) * 1000000 < 2 ^ 128
     \<and> unat (px (qr_output_price req)) * 1000000 < 2 ^ 128
     \<and> input_value req < 2 ^ 64
     \<and> value_left req * 10 ^ unat (qr_output_decimals req) * 1000000000 < 2 ^ 128
     \<and> amount_left req < 2 ^ 64"

lemma value_left_le: "value_left req \<le> input_value req"
  using div_le_mono [of "input_value req * (10000 - unat (qr_slippage_bps req))"
      "input_value req * 10000" 10000]
  by (simp add: value_left_def)

text \<open>The value of the input and what the slippage leaves of it, as the code computes them.\<close>

definition quote_usd :: "quote_request \<Rightarrow> u128" where
  "quote_usd req = amount_to_usd_micro (ucast (qr_amount_in req)) (qr_input_decimals req) (qr_input_price req)"

definition quote_rest :: "quote_request \<Rightarrow> u128" where
  "quote_rest req = quote_usd req * (10000 - ucast (qr_slippage_bps req)) div 10000"

lemma quote_value_exact:
  assumes "quote_in_range req"
  shows "unat (quote_usd req) = input_value req" "unat (quote_rest req) = value_left req"
    "unat (quote_usd req - quote_rest req) = input_value req - value_left req"
proof -
  show usd: "unat (quote_usd req) = input_value req"
    using assms unfolding input_value_def quote_usd_def
    by (subst amount_to_usd_micro_exact) (simp_all add: quote_in_range_def ucast_exact)
  have slip: "unat (10000 - ucast (qr_slippage_bps req) :: u128) = 10000 - unat (qr_slippage_bps req)"
    using assms by (subst unat_sub) (simp_all add: quote_in_range_def word_le_nat_alt ucast_exact)
  have "input_value req * (10000 - unat (qr_slippage_bps req)) < 2 ^ 64 * 10001"
    using assms by (intro mult_strict_mono) (simp_all add: quote_in_range_def)
  then have "unat (quote_usd req * (10000 - ucast (qr_slippage_bps req))) =
      input_value req * (10000 - unat (qr_slippage_bps req))"
    by (subst unat_mult_exact) (simp_all add: usd slip)
  then show rest: "unat (quote_rest req) = value_left req" by (simp add: quote_rest_def unat_div value_left_def)
  show "unat (quote_usd req - quote_rest req) = input_value req - value_left req"
    by (subst unat_sub) (simp_all add: word_le_nat_alt usd rest value_left_le)
qed

lemma quote_out_exact:
  assumes "quote_in_range req"
  shows "unat (sat_mul (sat_mul (quote_rest req) (pow10 (qr_output_decimals req))) price_scale
      div max (sat_mul (px (qr_output_price req)) 1000000) 1) = amount_left req"
proof -
  let ?num = "sat_mul (sat_mul (quote_rest req) (pow10 (qr_output_decimals req))) price_scale"
  let ?den = "max (sat_mul (px (qr_output_price req)) 1000000) 1"
  have r: "unat (qr_output_decimals req) \<le> 38" "px (qr_output_price req) \<noteq> 0"
    "unat (px (qr_output_price req)) * 1000000 < 2 ^ 128"
    "value_left req * 10 ^ unat (qr_output_decimals req) * 1000000000 < 2 ^ 128"
    using assms by (simp_all add: quote_in_range_def)
  have "value_left req * 10 ^ unat (qr_output_decimals req) < 2 ^ 128"
    by (rule le_less_trans [OF _ r(4)]) simp
  then have "unat (sat_mul (quote_rest req) (pow10 (qr_output_decimals req)))
      = value_left req * 10 ^ unat (qr_output_decimals req)"
    by (subst sat_mul_exact) (simp_all add: quote_value_exact [OF assms] unat_pow10 r(1))
  then have num: "unat ?num = value_left req * 10 ^ unat (qr_output_decimals req) * 1000000000"
    using r(4) by (subst sat_mul_exact) simp_all
  have "0 < unat (px (qr_output_price req))" using r(2) by (simp add: unat_gt_0)
  moreover have "unat (sat_mul (px (qr_output_price req)) 1000000) = unat (px (qr_output_price req)) * 1000000"
    using r(3) by (subst sat_mul_exact) simp_all
  ultimately have "unat ?den = unat (px (qr_output_price req)) * 1000000"
    by (simp add: unat_max_1 max_absorb1)
  then show ?thesis by (simp only: unat_div num amount_left_def)
qed

text \<open>
  Where nothing overflows, the mid quote takes exactly the slippage off the value of the input:
  the cost is the slippage part of it, rounded up, and the amount out is what the rest buys at the
  output price, rounded down; the amount out is never worth more than the input less the cost.
\<close>

lemma mid_quote_exact:
  assumes "quote_in_range req" "mid_quote req label = Inr q"
  shows "unat (q_cost_usd_micro q) = input_value req - value_left req
    \<and> unat (q_amount_out q) = amount_left req
    \<and> unat (q_amount_out q) * (unat (px (qr_output_price req)) * 1000000)
        \<le> (input_value req - unat (q_cost_usd_micro q)) * 10 ^ unat (qr_output_decimals req) * 1000000000"
proof -
  have r: "input_value req < 2 ^ 64" "amount_left req < 2 ^ 64" "px (qr_output_price req) \<noteq> 0"
    using assms(1) by (simp_all add: quote_in_range_def)
  have q: "q = \<lparr>q_amount_out = ucast (sat_mul (sat_mul (quote_rest req) (pow10 (qr_output_decimals req))) price_scale
        div max (sat_mul (px (qr_output_price req)) 1000000) 1),
      q_cost_usd_micro = ucast (quote_usd req - quote_rest req), q_route_label = label\<rparr>"
    using assms(2) r(3) by (simp add: mid_quote_def Let_def quote_rest_def quote_usd_def split: if_splits)
  have "input_value req - value_left req < 2 ^ 64" using r(1) by simp
  then have c: "unat (q_cost_usd_micro q) = input_value req - value_left req"
    unfolding q quote.simps unat_ucast128_64 quote_value_exact(3) [OF assms(1)] by simp
  have o: "unat (q_amount_out q) = amount_left req"
    unfolding q quote.simps unat_ucast128_64 quote_out_exact [OF assms(1)] using r(2) by simp
  have "input_value req - (input_value req - value_left req) = value_left req"
    using value_left_le [of req] by simp
  then show ?thesis
    unfolding c o by (simp add: amount_left_def)
qed

end
