(* ===== verification/Plan.thy ===== *)
theory Plan
  imports KaminoTx KaminoDecode Save Marginfi Funding Routing
begin

text \<open>
  From a funding strategy to instructions: \<^verbatim>\<open>crates/liq-execution/src/plan.rs\<close>.
  The account set of a plan, its two constructors, the account lists each protocol builder takes,
  and the dispatch on protocol and strategy.
\<close>

section \<open>Account sets\<close>

record plan_account_set =
  pa_liquidator :: pubkey
  pa_obligation :: pubkey
  pa_lending_market :: pubkey
  pa_lending_market_authority :: pubkey
  pa_repay_reserve :: pubkey
  pa_withdraw_reserve :: pubkey
  pa_user_liquidity :: pubkey
  pa_user_collateral :: pubkey
  pa_repay_liquidity_mint :: "pubkey option"
  pa_repay_liquidity_supply :: "pubkey option"
  pa_repay_fee_receiver :: "pubkey option"
  pa_withdraw_liquidity_mint :: "pubkey option"
  pa_withdraw_collateral_mint :: "pubkey option"
  pa_withdraw_collateral_supply :: "pubkey option"
  pa_withdraw_liquidity_supply :: "pubkey option"
  pa_withdraw_fee_receiver :: "pubkey option"
  pa_repay_token_program :: "pubkey option"
  pa_withdraw_token_program :: "pubkey option"
  pa_deposit_reserves_extra :: "pubkey list"
  pa_borrow_reserves_extra :: "pubkey list"
  pa_from_live_decode :: bool
  pa_refresh_reserve_metas :: "refresh_reserve_accounts list"
  pa_user_destination_liquidity :: "pubkey option"
  pa_collateral_obligation_farm_user_state :: "pubkey option"
  pa_collateral_reserve_farm_state :: "pubkey option"
  pa_debt_obligation_farm_user_state :: "pubkey option"
  pa_debt_reserve_farm_state :: "pubkey option"
  pa_referrer :: "pubkey option"
  pa_referrer_token_states :: "pubkey list"
  pa_missing_ata_filter :: "pubkey list option"

text \<open>\<^verbatim>\<open>k.0[0]\<close> and \<^verbatim>\<open>unwrap_or\<close>.\<close>

definition tag_of :: "pubkey \<Rightarrow> u8" where
  "tag_of k = pk_bytes k ! 0"

definition unwrap_or :: "'a option \<Rightarrow> 'a \<Rightarrow> 'a" where
  "unwrap_or v d = (case v of Some x \<Rightarrow> x | None \<Rightarrow> d)"

lemma unwrap_or_simps [simp]: "unwrap_or (Some x) d = x" "unwrap_or None d = d"
  by (simp_all add: unwrap_or_def)

definition from_seed :: "pubkey \<Rightarrow> plan_account_set" where
  "from_seed seed =
     (let tag = tag_of seed; base = word_of_le (slice (pk_bytes seed) 24 32);
          pk = (\<lambda>i. pubkey_test (tag + 20) (base + i))
      in \<lparr>pa_liquidator = pk 1, pa_obligation = seed, pa_lending_market = pk 3,
          pa_lending_market_authority = pk 4, pa_repay_reserve = pk 5, pa_withdraw_reserve = pk 6,
          pa_user_liquidity = pk 7, pa_user_collateral = pk 8,
          pa_repay_liquidity_mint = None, pa_repay_liquidity_supply = None,
          pa_repay_fee_receiver = None, pa_withdraw_liquidity_mint = None,
          pa_withdraw_collateral_mint = None, pa_withdraw_collateral_supply = None,
          pa_withdraw_liquidity_supply = None, pa_withdraw_fee_receiver = None,
          pa_repay_token_program = None, pa_withdraw_token_program = None,
          pa_deposit_reserves_extra = [], pa_borrow_reserves_extra = [],
          pa_from_live_decode = False, pa_refresh_reserve_metas = [],
          pa_user_destination_liquidity = None,
          pa_collateral_obligation_farm_user_state = None,
          pa_collateral_reserve_farm_state = None,
          pa_debt_obligation_farm_user_state = None, pa_debt_reserve_farm_state = None,
          pa_referrer = None, pa_referrer_token_states = [], pa_missing_ata_filter = None\<rparr>)"

definition refresh_accounts_of :: "live_reserve_vaults \<Rightarrow> refresh_reserve_accounts" where
  "refresh_accounts_of r =
     \<lparr>rr_reserve = rv_address r, rr_lending_market = rv_lending_market r,
      rr_pyth_oracle = rv_pyth_oracle r, rr_switchboard_price = rv_switchboard_price r,
      rr_switchboard_twap = rv_switchboard_twap r, rr_scope_prices = rv_scope_prices r\<rparr>"

fun unseen_vaults :: "pubkey list \<Rightarrow> live_reserve_vaults list \<Rightarrow> refresh_reserve_accounts list" where
  "unseen_vaults seen [] = []"
| "unseen_vaults seen (r # rs) =
     (if rv_address r \<in> set seen then unseen_vaults seen rs
      else refresh_accounts_of r # unseen_vaults (seen @ [rv_address r]) rs)"

definition nonzero_key :: "pubkey \<Rightarrow> pubkey option" where
  "nonzero_key k = (if pk_bytes k \<noteq> replicate 32 0 then Some k else None)"

definition token_program_or_default :: "pubkey \<Rightarrow> pubkey" where
  "token_program_or_default k = (if pk_bytes k = replicate 32 0 then prog_token else k)"

definition from_kamino_live ::
    "crypto \<Rightarrow> pubkey \<Rightarrow> pubkey \<Rightarrow> live_obligation_positions \<Rightarrow> live_reserve_vaults
      \<Rightarrow> live_reserve_vaults \<Rightarrow> pubkey \<Rightarrow> plan_account_set" where
  "from_kamino_live c obligation liquidator positions repay withdraw market_authority =
     (let deposit_reserves_extra = map ld_reserve (lp_deposits positions);
          borrow_reserves_extra = map lb_reserve (lp_borrows positions);
          repay_tp = token_program_or_default (rv_token_program repay);
          withdraw_tp = token_program_or_default (rv_token_program withdraw);
          referrer = nonzero_key (lh_referrer (lp_header positions))
      in \<lparr>pa_liquidator = liquidator, pa_obligation = obligation,
          pa_lending_market = lh_lending_market (lp_header positions),
          pa_lending_market_authority = market_authority,
          pa_repay_reserve = rv_address repay, pa_withdraw_reserve = rv_address withdraw,
          pa_user_liquidity = get_associated_token_address c liquidator (rv_liquidity_mint repay) repay_tp,
          pa_user_collateral =
            get_associated_token_address c liquidator (rv_collateral_mint withdraw) withdraw_tp,
          pa_repay_liquidity_mint = Some (rv_liquidity_mint repay),
          pa_repay_liquidity_supply = Some (rv_liquidity_supply repay),
          pa_repay_fee_receiver = Some (rv_fee_vault repay),
          pa_withdraw_liquidity_mint = Some (rv_liquidity_mint withdraw),
          pa_withdraw_collateral_mint = Some (rv_collateral_mint withdraw),
          pa_withdraw_collateral_supply = Some (rv_collateral_supply withdraw),
          pa_withdraw_liquidity_supply = Some (rv_liquidity_supply withdraw),
          pa_withdraw_fee_receiver = Some (rv_fee_vault withdraw),
          pa_repay_token_program = Some repay_tp, pa_withdraw_token_program = Some withdraw_tp,
          pa_deposit_reserves_extra = deposit_reserves_extra,
          pa_borrow_reserves_extra = borrow_reserves_extra,
          pa_from_live_decode = True,
          pa_refresh_reserve_metas = unseen_vaults [] [withdraw, repay],
          pa_user_destination_liquidity =
            Some (get_associated_token_address c liquidator (rv_liquidity_mint withdraw) withdraw_tp),
          pa_collateral_obligation_farm_user_state = None,
          pa_collateral_reserve_farm_state = None,
          pa_debt_obligation_farm_user_state = None, pa_debt_reserve_farm_state = None,
          pa_referrer = referrer,
          pa_referrer_token_states = (case referrer of
              Some ref_pk \<Rightarrow> map (\<lambda>r. klend_referrer_token_state c ref_pk r) borrow_reserves_extra
            | None \<Rightarrow> []),
          pa_missing_ata_filter = None\<rparr>)"

section \<open>Token accounts of the liquidator\<close>

fun ensure_specs :: "crypto \<Rightarrow> pubkey list option \<Rightarrow> pubkey list \<Rightarrow> ensure_ata list \<Rightarrow> ensure_ata list" where
  "ensure_specs c missing seen [] = []"
| "ensure_specs c missing seen (spec # specs) =
     (let ata = ata_address c spec
      in if ata \<in> set seen then ensure_specs c missing seen specs
         else if (case missing of Some ks \<Rightarrow> ata \<notin> set ks | None \<Rightarrow> False)
           then ensure_specs c missing seen specs
         else spec # ensure_specs c missing (seen @ [ata]) specs)"

definition liquidator_ensure_atas :: "crypto \<Rightarrow> plan_account_set \<Rightarrow> ensure_ata list" where
  "liquidator_ensure_atas c a =
     (let repay_tp = unwrap_or (pa_repay_token_program a) prog_token;
          withdraw_tp = unwrap_or (pa_withdraw_token_program a) prog_token;
          repay_mint = unwrap_or (pa_repay_liquidity_mint a) (pubkey_test (tag_of (pa_repay_reserve a)) 100);
          coll_mint = unwrap_or (pa_withdraw_collateral_mint a)
            (pubkey_test (tag_of (pa_withdraw_reserve a)) 103);
          withdraw_liq_mint = unwrap_or (pa_withdraw_liquidity_mint a)
            (pubkey_test (tag_of (pa_withdraw_reserve a)) 102);
          spec = (\<lambda>mint tp. \<lparr>ea_payer = pa_liquidator a, ea_owner = pa_liquidator a,
            ea_mint = mint, ea_token_program = tp\<rparr>)
      in ensure_specs c (pa_missing_ata_filter a) []
           [spec repay_mint repay_tp, spec coll_mint withdraw_tp, spec withdraw_liq_mint withdraw_tp])"

section \<open>Accounts of the protocol builders\<close>

definition kamino_liquidate_accounts :: "crypto \<Rightarrow> plan_account_set \<Rightarrow> liquidate_v2_accounts" where
  "kamino_liquidate_accounts c a =
     (let synth = (\<lambda>tag. pubkey_test (tag_of (pa_repay_reserve a)) tag);
          synth_w = (\<lambda>tag. pubkey_test (tag_of (pa_withdraw_reserve a)) tag)
      in \<lparr>lv_liquidator = pa_liquidator a, lv_obligation = pa_obligation a,
          lv_lending_market = pa_lending_market a,
          lv_lending_market_authority = pa_lending_market_authority a,
          lv_repay_reserve = pa_repay_reserve a,
          lv_repay_reserve_liquidity_mint = unwrap_or (pa_repay_liquidity_mint a) (synth 100),
          lv_repay_reserve_liquidity_supply = unwrap_or (pa_repay_liquidity_supply a) (synth 101),
          lv_withdraw_reserve = pa_withdraw_reserve a,
          lv_withdraw_reserve_liquidity_mint = unwrap_or (pa_withdraw_liquidity_mint a) (synth_w 102),
          lv_withdraw_reserve_collateral_mint = unwrap_or (pa_withdraw_collateral_mint a) (synth_w 103),
          lv_withdraw_reserve_collateral_supply = unwrap_or (pa_withdraw_collateral_supply a) (synth_w 104),
          lv_withdraw_reserve_liquidity_supply = unwrap_or (pa_withdraw_liquidity_supply a) (synth_w 105),
          lv_withdraw_reserve_liquidity_fee_receiver = unwrap_or (pa_withdraw_fee_receiver a) (synth_w 106),
          lv_user_source_liquidity = pa_user_liquidity a,
          lv_user_destination_collateral = pa_user_collateral a,
          lv_user_destination_liquidity =
            unwrap_or (pa_user_destination_liquidity a) (pa_user_liquidity a),
          lv_collateral_token_program = unwrap_or (pa_withdraw_token_program a) prog_token,
          lv_repay_liquidity_token_program = unwrap_or (pa_repay_token_program a) prog_token,
          lv_withdraw_liquidity_token_program = unwrap_or (pa_withdraw_token_program a) prog_token,
          lv_instruction_sysvar_account = prog_sysvar_instructions,
          lv_collateral_obligation_farm_user_state = pa_collateral_obligation_farm_user_state a,
          lv_collateral_reserve_farm_state = pa_collateral_reserve_farm_state a,
          lv_debt_obligation_farm_user_state = pa_debt_obligation_farm_user_state a,
          lv_debt_reserve_farm_state = pa_debt_reserve_farm_state a,
          lv_farms_program = prog_kfarms c,
          lv_deposit_reserves = pa_deposit_reserves_extra a\<rparr>)"

definition kamino_flash_pair :: "plan_account_set \<Rightarrow> flash_borrow_accounts \<times> flash_repay_accounts" where
  "kamino_flash_pair a =
     (let mint = unwrap_or (pa_repay_liquidity_mint a) (pubkey_test (tag_of (pa_repay_reserve a)) 100);
          supply = unwrap_or (pa_repay_liquidity_supply a) (pubkey_test (tag_of (pa_repay_reserve a)) 101);
          fee = unwrap_or (case pa_repay_fee_receiver a of
                   Some k \<Rightarrow> Some k | None \<Rightarrow> pa_withdraw_fee_receiver a)
                 (pubkey_test (tag_of (pa_withdraw_reserve a)) 106)
      in (\<lparr>kfb_user_transfer_authority = pa_liquidator a,
           kfb_lending_market_authority = pa_lending_market_authority a,
           kfb_lending_market = pa_lending_market a, kfb_reserve = pa_repay_reserve a,
           kfb_reserve_liquidity_mint = mint, kfb_reserve_source_liquidity = supply,
           kfb_user_destination_liquidity = pa_user_liquidity a,
           kfb_reserve_liquidity_fee_receiver = fee, kfb_referrer_token_state = None,
           kfb_referrer_account = None\<rparr>,
          \<lparr>kfr_user_transfer_authority = pa_liquidator a,
           kfr_lending_market_authority = pa_lending_market_authority a,
           kfr_lending_market = pa_lending_market a, kfr_reserve = pa_repay_reserve a,
           kfr_reserve_liquidity_mint = mint, kfr_reserve_destination_liquidity = supply,
           kfr_user_source_liquidity = pa_user_liquidity a,
           kfr_reserve_liquidity_fee_receiver = fee, kfr_referrer_token_state = None,
           kfr_referrer_account = None\<rparr>))"

definition save_flash_accounts :: "plan_account_set \<Rightarrow> save_flash_plan_accounts" where
  "save_flash_accounts a =
     (let synth = (\<lambda>tag. pubkey_test (tag_of (pa_repay_reserve a)) tag);
          synth_w = (\<lambda>tag. pubkey_test (tag_of (pa_withdraw_reserve a)) tag)
      in \<lparr>sfp_flash_borrow = \<lparr>sfb_source_liquidity = synth 101,
            sfb_destination_liquidity = pa_user_liquidity a, sfb_reserve = pa_repay_reserve a,
            sfb_lending_market = pa_lending_market a,
            sfb_lending_market_authority = pa_lending_market_authority a\<rparr>,
          sfp_liquidate = \<lparr>sl_source_liquidity = pa_user_liquidity a,
            sl_destination_collateral = pa_user_collateral a,
            sl_destination_liquidity = pa_user_liquidity a, sl_repay_reserve = pa_repay_reserve a,
            sl_repay_reserve_liquidity_supply = synth 101, sl_withdraw_reserve = pa_withdraw_reserve a,
            sl_withdraw_reserve_collateral_mint = synth_w 103,
            sl_withdraw_reserve_collateral_supply = synth_w 104,
            sl_withdraw_reserve_liquidity_supply = synth_w 105,
            sl_withdraw_reserve_fee_receiver = synth_w 106, sl_obligation = pa_obligation a,
            sl_lending_market = pa_lending_market a,
            sl_lending_market_authority = pa_lending_market_authority a,
            sl_user_transfer_authority = pa_liquidator a\<rparr>,
          sfp_flash_repay = \<lparr>sfr_source_liquidity = pa_user_liquidity a,
            sfr_destination_liquidity = synth 101, sfr_fee_receiver = synth_w 106,
            sfr_host_fee_receiver = synth_w 107, sfr_reserve = pa_repay_reserve a,
            sfr_lending_market = pa_lending_market a,
            sfr_user_transfer_authority = pa_liquidator a\<rparr>,
          sfp_refresh_reserves = [pa_repay_reserve a, pa_withdraw_reserve a],
          sfp_obligation = pa_obligation a\<rparr>)"

definition receivership_params :: "plan_account_set \<Rightarrow> u64 \<Rightarrow> receivership_build_params" where
  "receivership_params a amount =
     \<lparr>rb_start = \<lparr>st_marginfi_account = pa_obligation a,
        st_liquidation_record = pubkey_test (tag_of (pa_obligation a)) 200,
        st_group = pa_lending_market a, st_liquidation_receiver = pa_liquidator a,
        st_instruction_sysvar = prog_sysvar_instructions,
        st_remaining_writable = [pa_repay_reserve a]\<rparr>,
      rb_withdraw = \<lparr>wa_group = pa_lending_market a, wa_marginfi_account = pa_liquidator a,
        wa_authority = pa_liquidator a, wa_bank = pa_withdraw_reserve a,
        wa_vault = pubkey_test (tag_of (pa_withdraw_reserve a)) 201,
        wa_destination = pa_user_liquidity a,
        wa_bank_liquidity_vault_authority = pa_lending_market_authority a,
        wa_token_program = prog_token\<rparr>,
      rb_repay = \<lparr>ra_group = pa_lending_market a, ra_marginfi_account = pa_liquidator a,
        ra_authority = pa_liquidator a, ra_bank = pa_repay_reserve a,
        ra_signer_token_account = pa_user_liquidity a,
        ra_vault = pubkey_test (tag_of (pa_repay_reserve a)) 202,
        ra_token_program = prog_token\<rparr>,
      rb_end = \<lparr>en_marginfi_account = pa_obligation a,
        en_liquidation_record = pubkey_test (tag_of (pa_obligation a)) 200,
        en_group = pa_lending_market a, en_liquidation_receiver = pa_liquidator a,
        en_fee_state = pubkey_test 80 1, en_global_fee_wallet = pubkey_test 80 2,
        en_system_program = prog_system, en_fee_payer = None\<rparr>,
      rb_withdraw_amount = amount, rb_repay_amount = sat_mul amount 9 div 10,
      rb_cu_limit = 500000, rb_cu_price = 1000\<rparr>"

section \<open>Dispatch\<close>

record planned_ixs =
  pn_labeled :: "labeled_ix list"
  pn_swap_incomplete :: bool
  pn_used_flash_builder :: bool

text \<open>The reserves of the obligation refresh: the decoded positions as they are, or the fixture's
  lists padded with the withdraw and the repay reserve.\<close>

definition padded :: "pubkey list \<Rightarrow> pubkey \<Rightarrow> pubkey list" where
  "padded rs r = (let base = (if rs = [] then [r] else rs) in if r \<in> set base then base else base @ [r])"

definition flash_reserves :: "plan_account_set \<Rightarrow> pubkey list \<times> pubkey list" where
  "flash_reserves a =
     (if pa_from_live_decode a then (pa_deposit_reserves_extra a, pa_borrow_reserves_extra a)
      else (padded (pa_deposit_reserves_extra a) (pa_withdraw_reserve a),
            padded (pa_borrow_reserves_extra a) (pa_repay_reserve a)))"

definition inventory_reserves :: "plan_account_set \<Rightarrow> pubkey list \<times> pubkey list" where
  "inventory_reserves a =
     (if pa_from_live_decode a then pa_deposit_reserves_extra a
      else if pa_deposit_reserves_extra a = [] then [pa_withdraw_reserve a] else pa_deposit_reserves_extra a,
      if pa_from_live_decode a then pa_borrow_reserves_extra a
      else if pa_borrow_reserves_extra a = [] then [pa_repay_reserve a] else pa_borrow_reserves_extra a)"

definition kamino_params ::
    "crypto \<Rightarrow> plan_account_set \<Rightarrow> u64 \<Rightarrow> pubkey list \<times> pubkey list
      \<Rightarrow> (flash_borrow_accounts \<times> flash_repay_accounts) option \<Rightarrow> kamino_tx_build_params" where
  "kamino_params c a amount reserves flash =
     \<lparr>kp_obligation = pa_obligation a, kp_deposit_reserves = fst reserves,
      kp_borrow_reserves = snd reserves, kp_liquidate = kamino_liquidate_accounts c a,
      kp_liquidity_amount = amount, kp_min_acceptable_received = 0,
      kp_max_allowed_ltv_override_percent = 0, kp_cu_limit = 400000, kp_cu_price = 1000,
      kp_flash = flash, kp_refresh_reserves = pa_refresh_reserve_metas a,
      kp_referrer_token_states = pa_referrer_token_states a,
      kp_ensure_atas = liquidator_ensure_atas c a\<rparr>"

fun build_strategy_ixs ::
    "crypto \<Rightarrow> protocol \<Rightarrow> funding_strategy \<Rightarrow> plan_account_set \<Rightarrow> u64 \<Rightarrow> jupiter_quote_blob \<Rightarrow> planned_ixs" where
  "build_strategy_ixs c Kamino KaminoFlashBorrow a amount blob =
     (let (swaps, swap_incomplete) = attach_or_omit blob;
          params = kamino_params c a amount (flash_reserves a) (Some (kamino_flash_pair a))
      in \<lparr>pn_labeled = unwrap_or (build_flash_tx c params swaps) [],
          pn_swap_incomplete = swap_incomplete, pn_used_flash_builder = True\<rparr>)"
| "build_strategy_ixs c Kamino Inventory a amount blob =
     (let (swaps, swap_incomplete) = attach_or_omit blob;
          params = kamino_params c a amount (inventory_reserves a) None
      in \<lparr>pn_labeled = build_inventory_tx c params swaps,
          pn_swap_incomplete = swap_incomplete, pn_used_flash_builder = False\<rparr>)"
| "build_strategy_ixs c Save SaveFlashLoan a amount blob =
     (let (swaps, swap_incomplete) = attach_or_omit blob
      in \<lparr>pn_labeled = sap_labeled (build_flash_atomic_plan (save_flash_accounts a) amount swaps 400000 1000),
          pn_swap_incomplete = swap_incomplete, pn_used_flash_builder = True\<rparr>)"
| "build_strategy_ixs c Project0 Project0Receivership a amount blob =
     (let (swaps, swap_incomplete) = attach_or_omit blob
      in \<lparr>pn_labeled = build_receivership_tx (receivership_params a amount) swaps,
          pn_swap_incomplete = swap_incomplete, pn_used_flash_builder = False\<rparr>)"
| "build_strategy_ixs c protocol strategy a amount blob =
     (let (swaps, swap_incomplete) = attach_or_omit blob
      in \<lparr>pn_labeled = [cu_limit_ix 200000],
          pn_swap_incomplete = swap_incomplete, pn_used_flash_builder = False\<rparr>)"

section \<open>Lemmas\<close>

lemma ensure_specs_addresses:
  "distinct (map (ata_address c) (ensure_specs c missing seen specs))
   \<and> ata_address c ` set (ensure_specs c missing seen specs) =
       (ata_address c ` set specs - set seen) \<inter> (case missing of Some ks \<Rightarrow> set ks | None \<Rightarrow> UNIV)"
  by (induction c missing seen specs rule: ensure_specs.induct) (auto simp: Let_def split: option.splits)

lemma length_ensure_specs: "length (ensure_specs c missing seen specs) \<le> length specs"
proof (induction c missing seen specs rule: ensure_specs.induct)
  case (2 c missing seen spec specs)
  then show ?case by (cases "ata_address c spec \<in> set seen") (auto simp: Let_def le_SucI)
qed simp

lemma ata_address_make:
  "ata_address c \<lparr>ea_payer = p, ea_owner = own, ea_mint = m, ea_token_program = t\<rparr> =
     get_associated_token_address c own m t"
  by (simp add: ata_address_def)

lemma length_liquidator_ensure_atas: "length (liquidator_ensure_atas c a) \<le> 3"
  using length_ensure_specs [of c "pa_missing_ata_filter a" "[]"]
  by (auto simp: liquidator_ensure_atas_def Let_def intro: order_trans)

lemma length_ensure_ata_loop: "length (ensure_ata_loop c seen specs) \<le> length specs"
  by (induction c seen specs rule: ensure_ata_loop.induct) (auto simp: Let_def)

lemma flash_prefix_short:
  assumes "p = kamino_params c a amount reserves flash"
  shows "2 + length (refresh_ixs p) + length (ensure_ata_ixs c p)
    \<le> 6 + length (unique_refresh_reserve_keys p)"
  using length_ensure_ata_loop [of c "[]" "kp_ensure_atas p"] length_liquidator_ensure_atas [of c a]
  by (simp add: refresh_ixs_def Let_def ensure_ata_ixs_def assms kamino_params_def)

text \<open>
  The Kamino flash plan of any account set: borrow and repay agree on the reserve, its supply,
  the liquidator's token account and the amount, and the transaction is sound (theory KaminoTx).
\<close>

definition flash_params :: "crypto \<Rightarrow> plan_account_set \<Rightarrow> u64 \<Rightarrow> kamino_tx_build_params" where
  "flash_params c a amount = kamino_params c a amount (flash_reserves a) (Some (kamino_flash_pair a))"

lemma flash_pair_agree:
  "kamino_flash_pair a = (b, r) \<Longrightarrow> kfb_reserve b = pa_repay_reserve a \<and> kfr_reserve r = pa_repay_reserve a
    \<and> kfr_reserve_destination_liquidity r = kfb_reserve_source_liquidity b
    \<and> kfr_user_source_liquidity r = kfb_user_destination_liquidity b
    \<and> kfb_user_destination_liquidity b = pa_user_liquidity a
    \<and> kfb_user_transfer_authority b = pa_liquidator a \<and> kfr_user_transfer_authority r = pa_liquidator a
    \<and> kfr_reserve_liquidity_fee_receiver r = kfb_reserve_liquidity_fee_receiver b"
  by (auto simp: kamino_flash_pair_def Let_def)

lemma kamino_flash_plan_tx:
  "\<exists>ixs. build_flash_tx c (flash_params c a amount) (jq_instructions blob) = Some ixs
    \<and> pn_labeled (build_strategy_ixs c Kamino KaminoFlashBorrow a amount blob) = ixs"
  by (cases "kamino_flash_pair a")
    (simp add: build_flash_tx_def flash_params_def kamino_params_def attach_or_omit_def Let_def)

section \<open>Properties\<close>

text \<open>
  The token accounts a live Kamino plan creates are distinct and are exactly those the
  liquidation instruction names for the liquidator, restricted to the ones reported missing when
  the caller has looked them up.
\<close>

lemma live_plan_creates_atas:
  "let a = (from_kamino_live c obl liq pos rep wd auth)\<lparr>pa_missing_ata_filter := missing\<rparr>;
       l = kamino_liquidate_accounts c a
   in distinct (map (ata_address c) (liquidator_ensure_atas c a))
      \<and> ata_address c ` set (liquidator_ensure_atas c a) =
          {lv_user_source_liquidity l, lv_user_destination_collateral l, lv_user_destination_liquidity l}
          \<inter> (case missing of Some ks \<Rightarrow> set ks | None \<Rightarrow> UNIV)"
  by (simp add: Let_def liquidator_ensure_atas_def ensure_specs_addresses kamino_liquidate_accounts_def
      from_kamino_live_def ata_address_make del: ensure_specs.simps unseen_vaults.simps)

text \<open>
  The planner builds a liquidation for exactly four pairs of protocol and strategy; every other
  pair yields a single compute-budget instruction. Two of the pairs it drops, the inventory of
  Save and of marginfi, are ones the strategy choice considers applicable.
\<close>

lemma plan_dispatch:
  "(pn_labeled (build_strategy_ixs c p s a amount blob) = [cu_limit_ix 200000] \<longleftrightarrow>
     (p, s) \<notin> {(Kamino, KaminoFlashBorrow), (Kamino, Inventory), (Save, SaveFlashLoan),
                 (Project0, Project0Receivership)})
   \<and> Inventory \<in> set (applicable_for Save) \<and> Inventory \<in> set (applicable_for Project0)"
proof -
  have "pn_labeled (build_strategy_ixs c Kamino KaminoFlashBorrow a amount blob) \<noteq> [cu_limit_ix 200000]"
    by (cases "kamino_flash_pair a") (simp add: build_flash_tx_def kamino_params_def attach_or_omit_def Let_def)
  moreover have "pn_labeled (build_strategy_ixs c Kamino Inventory a amount blob) \<noteq> [cu_limit_ix 200000]"
    by (simp add: build_inventory_tx_def attach_or_omit_def Let_def)
  moreover have "pn_labeled (build_strategy_ixs c Save SaveFlashLoan a amount blob) \<noteq> [cu_limit_ix 200000]"
    by (simp add: build_flash_atomic_plan_def attach_or_omit_def Let_def)
  moreover have "pn_labeled (build_strategy_ixs c Project0 Project0Receivership a amount blob) \<noteq> [cu_limit_ix 200000]"
    by (simp add: build_receivership_tx_def attach_or_omit_def Let_def)
  ultimately show ?thesis
    by (cases p; cases s) (simp_all add: attach_or_omit_def Let_def del: build_strategy_ixs.simps(1-4))
qed

text \<open>
  A marginfi receivership plan is bracketed by the start and the end of the liquidation of the
  same account under the same record; in between it withdraws the amount, runs the swaps and then
  repays nine tenths of the amount. The two transfers name the liquidator itself as marginfi
  account.
\<close>

lemma receivership_plan_bracket:
  "let ls = map li_ix (pn_labeled (build_strategy_ixs c Project0 Project0Receivership a amount blob));
       n = length ls; key = (\<lambda>i k. am_pubkey (ix_accounts (ls ! i) ! k))
   in n = 6 + length (jq_instructions blob)
      \<and> ix_data (ls ! 2) = disc_start_liquidation \<and> ix_data (ls ! (n - 1)) = disc_end_liquidation
      \<and> key 2 0 = pa_obligation a \<and> key (n - 1) 0 = pa_obligation a \<and> key 2 1 = key (n - 1) 1
      \<and> slice ls 4 (n - 2) = map li_ix (jq_instructions blob)
      \<and> ix_data (ls ! 3) = encode_withdraw amount False
      \<and> (\<exists>r. ix_data (ls ! (n - 2)) = encode_repay r False
            \<and> unat r = min (9 * unat amount) (2 ^ 64 - 1) div 10)
      \<and> key 3 1 = pa_liquidator a \<and> key (n - 2) 1 = pa_liquidator a"
proof -
  have "unat (sat_mul amount 9 div 10) = min (9 * unat amount) (2 ^ 64 - 1) div 10"
    by (simp add: unat_div unat_sat_mul mult.commute)
  then show ?thesis
    by (auto simp: attach_or_omit_def Let_def build_receivership_tx_def receivership_params_def
        nth_append slice_def encode_start_liquidation_def encode_end_liquidation_def
        start_liquidation_metas_def end_liquidation_metas_def withdraw_metas_def repay_metas_def)
qed

end
