(* ===== verification/Bootstrap.thy ===== *)
theory Bootstrap
  imports StateStore Instructions
begin

text \<open>
  Account snapshots over RPC: \<^verbatim>\<open>crates/liq-streaming/src/bootstrap.rs\<close>,
  the types, the default methods of the trait \<^verbatim>\<open>RpcBootstrap\<close>, the in-memory
  implementation and the writes to the account store. The JSON-RPC client of the same file is in theory
  \<open>JsonRpc\<close>.
\<close>

datatype bootstrap_error =
  RpcError string | DecodeFailure string | HttpError string | ConfigError string

record raw_account =
  ra_pubkey :: pubkey
  ra_lamports :: u64
  ra_owner :: pubkey
  ra_data :: "u8 list"
  ra_slot :: u64

section \<open>The interface\<close>

text \<open>The default \<^verbatim>\<open>get_account_info\<close>: \<^verbatim>\<open>v.pop().flatten()\<close>.\<close>

definition get_account_info ::
    "(pubkey list \<Rightarrow> 'e + raw_account option list) \<Rightarrow> pubkey \<Rightarrow> 'e + raw_account option" where
  "get_account_info get_multiple k =
     and_then (get_multiple [k]) (\<lambda>v. Inr (if v = [] then None else last v))"

text \<open>What the callers of \<^verbatim>\<open>get_multiple_accounts\<close> rely on: one answer per key, in the
  order of the keys, each account under its own key.\<close>

locale rpc_bootstrap =
  fixes get_multiple :: "pubkey list \<Rightarrow> 'e + raw_account option list"
  assumes positional: "get_multiple ks = Inr vs \<Longrightarrow> length vs = length ks"
    and keyed: "get_multiple ks = Inr vs \<Longrightarrow> i < length ks \<Longrightarrow> vs ! i = Some a \<Longrightarrow> ra_pubkey a = ks ! i"
begin

lemma account_info_keyed: "get_account_info get_multiple k = Inr (Some a) \<Longrightarrow> ra_pubkey a = k"
proof -
  assume "get_account_info get_multiple k = Inr (Some a)"
  then obtain v where v: "get_multiple [k] = Inr v" "v \<noteq> []" "last v = Some a"
    by (auto simp: get_account_info_def and_then_Inr_iff split: if_splits)
  with positional [OF v(1)] have "v ! 0 = Some a" by (simp add: last_conv_nth)
  with keyed [OF v(1), of 0 a] show ?thesis by simp
qed

end

section \<open>The in-memory implementation\<close>

definition fixture_get_multiple ::
    "raw_account list \<Rightarrow> pubkey list \<Rightarrow> bootstrap_error + raw_account option list" where
  "fixture_get_multiple accounts ks = Inr (map (\<lambda>k. List.find (\<lambda>a. ra_pubkey a = k) accounts) ks)"

definition fixture_get_program_accounts ::
    "raw_account list \<Rightarrow> pubkey \<Rightarrow> bootstrap_error + raw_account list" where
  "fixture_get_program_accounts accounts program_id =
     Inr (filter (\<lambda>a. ra_owner a = program_id) accounts)"

definition demo_for_protocols :: "raw_account list" where
  "demo_for_protocols =
     concat (map (\<lambda>(i, owner). map (\<lambda>j.
         \<lparr>ra_pubkey = pubkey_test (50 + word_of_nat i) (word_of_nat j), ra_lamports = 1000000,
          ra_owner = owner, ra_data = [word_of_nat i, word_of_nat j, 0xDE, 0xAD], ra_slot = 1\<rparr>)
       [0..<3]) (enumerate 0 [prog_klend, prog_save, prog_marginfi]))"

interpretation fixture: rpc_bootstrap "fixture_get_multiple accounts" for accounts
  by unfold_locales (auto simp: fixture_get_multiple_def dest: find_Some_set)

section \<open>Writing the store\<close>

text \<open>\<^verbatim>\<open>now_us\<close> is the clock reading at the write.\<close>

definition apply_raw_to_store ::
    "u64 \<Rightarrow> u8 list state_store \<Rightarrow> raw_account list \<Rightarrow> update_source \<Rightarrow> u8 list state_store" where
  "apply_raw_to_store now_us s accounts source =
     foldl (\<lambda>st a. snd (store_upsert st
        (stored_account_new now_us (ra_slot a) 0 (ra_pubkey a) (ra_data a) source))) s accounts"

record account_update =
  au_pubkey :: pubkey
  au_slot :: u64
  au_write_version :: u64
  au_data :: "u8 list"
  au_owner :: pubkey
  au_source :: update_source

definition apply_account_update ::
    "u64 \<Rightarrow> u8 list state_store \<Rightarrow> account_update \<Rightarrow> bool \<times> u8 list state_store" where
  "apply_account_update now_us s u =
     store_upsert s (stored_account_new now_us (au_slot u) (au_write_version u) (au_pubkey u)
       (au_data u) (au_source u))"

end
