(* ===== verification/LivePlan.thy ===== *)
theory LivePlan
  imports Plan Bootstrap
begin

text \<open>
  The live account set of a candidate: \<^verbatim>\<open>build_plan_accounts_for_candidate\<close> of
  \<^verbatim>\<open>bins/shadow/src/main.rs\<close>. The RPC endpoint is an argument: the results of
  \<^verbatim>\<open>get_account_info\<close> and of \<^verbatim>\<open>get_multiple_accounts\<close> (the
  two requests of the latter may be answered differently, so it takes the request number). A note
  the code pushes as formatted text is a constructor with the values it prints.
\<close>

datatype 'e plan_note =
  NonKamino | MissingPubkey | BadObligationKey | ObligationMissing | AccountInfoFailed 'e
| PositionsFailed decode_error | LivePositions nat nat | NoReserves | ReservesFailed 'e
| ReserveDecodeFailed pubkey decode_error | ReserveMissing pubkey | VaultsIncomplete
| LiveVaults pubkey pubkey nat | ReferrerStates pubkey nat | UserAtas pubkey pubkey | FromLive
| Prefetched nat nat | AtasMissing nat nat | PrefetchFailed 'e

record 'e rpc_view =
  rpc_account_info :: "pubkey \<Rightarrow> 'e + raw_account option"
  rpc_multiple :: "nat \<Rightarrow> pubkey list \<Rightarrow> 'e + raw_account option list"

definition seed_plan :: "pubkey \<Rightarrow> pubkey \<Rightarrow> plan_account_set" where
  "seed_plan seed fee_payer = (from_seed seed)\<lparr>pa_liquidator := fee_payer\<rparr>"

text \<open>The three loops that collect the reserve keys.\<close>

definition push_new :: "'a \<Rightarrow> 'a list \<Rightarrow> 'a list" where
  "push_new k ks = (if k \<in> set ks then ks else ks @ [k])"

definition collect_reserve_keys :: "live_obligation_positions \<Rightarrow> pubkey \<Rightarrow> pubkey \<Rightarrow> pubkey list" where
  "collect_reserve_keys positions repay withdraw =
     fold push_new [repay, withdraw]
       (fold (\<lambda>b. push_new (lb_reserve b)) (lp_borrows positions)
         (fold (\<lambda>d. push_new (ld_reserve d)) (lp_deposits positions) []))"

text \<open>\<^verbatim>\<open>fetched.get(i)\<close> flattened.\<close>

definition fetched_at :: "'a option list \<Rightarrow> nat \<Rightarrow> 'a option" where
  "fetched_at fetched i = (if i < length fetched then fetched ! i else None)"

fun decode_vaults ::
    "raw_account option list \<Rightarrow> (nat \<times> pubkey) list \<Rightarrow> (pubkey \<rightharpoonup> live_reserve_vaults) \<Rightarrow> 'e plan_note list
      \<Rightarrow> decode_fault + ((pubkey \<rightharpoonup> live_reserve_vaults) \<times> 'e plan_note list)" where
  "decode_vaults fetched [] vaults notes = Inr (vaults, notes)"
| "decode_vaults fetched ((i, key) # ks) vaults notes =
     (case fetched_at fetched i of
        Some raw \<Rightarrow> (case decode_reserve_live_vaults key (ra_data raw) of
            Inr v \<Rightarrow> decode_vaults fetched ks (vaults(key \<mapsto> v)) notes
          | Inl (Err e) \<Rightarrow> decode_vaults fetched ks vaults (notes @ [ReserveDecodeFailed key e])
          | Inl Panic \<Rightarrow> Inl Panic)
      | None \<Rightarrow> decode_vaults fetched ks vaults (notes @ [ReserveMissing key]))"

text \<open>The refresh metas that replace those of \<open>from_kamino_live\<close>.\<close>

fun refresh_overlay ::
    "(pubkey \<rightharpoonup> live_reserve_vaults) \<Rightarrow> pubkey list \<Rightarrow> pubkey list \<Rightarrow> refresh_reserve_accounts list" where
  "refresh_overlay vaults seen [] = []"
| "refresh_overlay vaults seen (key # keys) =
     (if key \<in> set seen then refresh_overlay vaults seen keys
      else case vaults key of
        None \<Rightarrow> refresh_overlay vaults seen keys
      | Some r \<Rightarrow> refresh_accounts_of r # refresh_overlay vaults (seen @ [key]) keys)"

definition position_reserves :: "live_obligation_positions \<Rightarrow> pubkey list" where
  "position_reserves positions = map ld_reserve (lp_deposits positions) @ map lb_reserve (lp_borrows positions)"

definition user_ata_keys :: "plan_account_set \<Rightarrow> pubkey list" where
  "user_ata_keys a =
     (let ks = [pa_user_liquidity a, pa_user_collateral a]
      in case pa_user_destination_liquidity a of Some d \<Rightarrow> push_new d ks | None \<Rightarrow> ks)"

definition missing_atas :: "pubkey list \<Rightarrow> raw_account option list \<Rightarrow> pubkey list" where
  "missing_atas ata_keys fetched =
     map snd (filter (\<lambda>(i, key). fetched_at fetched i = None) (enumerate 0 ata_keys))"

definition prefetch_atas ::
    "'e rpc_view \<Rightarrow> plan_account_set \<Rightarrow> 'e plan_note list \<Rightarrow> plan_account_set \<times> 'e plan_note list" where
  "prefetch_atas rpc a notes =
     (let ata_keys = user_ata_keys a; prefetch = ata_keys @ pa_referrer_token_states a
      in case rpc_multiple rpc 1 prefetch of
           Inr fetched \<Rightarrow>
             let missing = missing_atas ata_keys fetched
             in (a\<lparr>pa_missing_ata_filter := Some missing\<rparr>,
                 notes @ [Prefetched (length (List.map_filter id fetched)) (length prefetch),
                          AtasMissing (length missing) (length ata_keys)])
         | Inl e \<Rightarrow> (a\<lparr>pa_missing_ata_filter := None\<rparr>, notes @ [PrefetchFailed e]))"

text \<open>From the fetched reserves on.\<close>

definition plan_with_vaults ::
    "crypto \<Rightarrow> 'e rpc_view \<Rightarrow> pubkey \<Rightarrow> pubkey \<Rightarrow> live_obligation_positions \<Rightarrow> pubkey \<Rightarrow> pubkey
      \<Rightarrow> (pubkey \<rightharpoonup> live_reserve_vaults) \<Rightarrow> 'e plan_note list \<Rightarrow> plan_account_set \<times> 'e plan_note list" where
  "plan_with_vaults c rpc obl fee_payer positions repay_pk withdraw_pk vaults notes =
     (case (vaults repay_pk, vaults withdraw_pk) of
        (Some repay_v, Some withdraw_v) \<Rightarrow>
          let market_auth = lending_market_authority c (lh_lending_market (lp_header positions));
              a = (from_kamino_live c obl fee_payer positions repay_v withdraw_v market_auth)
                    \<lparr>pa_refresh_reserve_metas := refresh_overlay vaults [] (position_reserves positions)\<rparr>;
              notes1 = notes @ [LiveVaults (rv_liquidity_mint repay_v) (rv_collateral_mint withdraw_v)
                                  (card (dom vaults))];
              notes2 = (case pa_referrer a of
                  Some ref_pk \<Rightarrow> notes1 @ [ReferrerStates ref_pk (length (pa_referrer_token_states a))]
                | None \<Rightarrow> notes1)
          in prefetch_atas rpc a (notes2 @ [UserAtas (pa_user_liquidity a) (pa_user_collateral a), FromLive])
      | _ \<Rightarrow> ((seed_plan obl fee_payer)
                 \<lparr>pa_obligation := obl, pa_repay_reserve := repay_pk, pa_withdraw_reserve := withdraw_pk\<rparr>,
               notes @ [VaultsIncomplete]))"

text \<open>From the decoded positions on.\<close>

definition plan_with_positions ::
    "crypto \<Rightarrow> 'e rpc_view \<Rightarrow> pubkey \<Rightarrow> pubkey \<Rightarrow> live_obligation_positions \<Rightarrow> 'e plan_note list
      \<Rightarrow> decode_fault + (plan_account_set \<times> 'e plan_note list)" where
  "plan_with_positions c rpc obl fee_payer positions notes0 =
     (let notes = notes0 @ [LivePositions (length (lp_deposits positions)) (length (lp_borrows positions))];
          market = lh_lending_market (lp_header positions)
      in case pick_liquidate_reserves positions of
           None \<Rightarrow> Inr ((seed_plan obl fee_payer)\<lparr>pa_lending_market := market, pa_obligation := obl\<rparr>,
                        notes @ [NoReserves])
         | Some (repay_pk, withdraw_pk) \<Rightarrow>
             let reserve_keys = collect_reserve_keys positions repay_pk withdraw_pk
             in case rpc_multiple rpc 0 reserve_keys of
                  Inl e \<Rightarrow> Inr ((seed_plan obl fee_payer)\<lparr>pa_obligation := obl, pa_lending_market := market,
                                  pa_repay_reserve := repay_pk, pa_withdraw_reserve := withdraw_pk\<rparr>,
                                notes @ [ReservesFailed e])
                | Inr fetched \<Rightarrow>
                    and_then (decode_vaults fetched (enumerate 0 reserve_keys) Map.empty notes) (\<lambda>(vaults, notes1).
                      Inr (plan_with_vaults c rpc obl fee_payer positions repay_pk withdraw_pk vaults notes1)))"

definition build_plan_accounts_for_candidate ::
    "crypto \<Rightarrow> 'e rpc_view \<Rightarrow> string option \<Rightarrow> protocol \<Rightarrow> pubkey
      \<Rightarrow> decode_fault + (plan_account_set \<times> 'e plan_note list)" where
  "build_plan_accounts_for_candidate c rpc cand protocol fee_payer =
     (if protocol \<noteq> Kamino then
        Inr (seed_plan (unwrap_or (Option.bind cand (pubkey_from_base58 c)) (pubkey_test 0xA5 1)) fee_payer,
             [NonKamino])
      else case cand of
        None \<Rightarrow> Inr (seed_plan (pubkey_test 0xA5 2) fee_payer, [MissingPubkey])
      | Some pk_s \<Rightarrow> (case pubkey_from_base58 c pk_s of
          None \<Rightarrow> Inr (seed_plan (pubkey_test 0xA5 3) fee_payer, [BadObligationKey])
        | Some obl \<Rightarrow> (case rpc_account_info rpc obl of
            Inl e \<Rightarrow> Inr (seed_plan obl fee_payer, [AccountInfoFailed e])
          | Inr None \<Rightarrow> Inr (seed_plan obl fee_payer, [ObligationMissing])
          | Inr (Some acct) \<Rightarrow> (case decode_obligation_live_positions obl (ra_data acct) of
              Inl Panic \<Rightarrow> Inl Panic
            | Inl (Err e) \<Rightarrow>
                Inr (let a = seed_plan obl fee_payer
                     in a\<lparr>pa_lending_market := unwrap_or
                          (pubkey_from_base58 c ''7u3HeHxYDLhnCoErrtycNokbQYbWGzLs6JSDqGAv5PfF'')
                          (pa_lending_market a)\<rparr>, [PositionsFailed e])
            | Inr positions \<Rightarrow> plan_with_positions c rpc obl fee_payer positions []))))"

section \<open>Lemmas\<close>

lemma fold_push_new: "fold push_new ks acc = acc @ dedup_from acc ks"
  by (induction ks arbitrary: acc) (simp_all add: push_new_def)

lemma fold_push_new_map: "fold (\<lambda>x. push_new (f x)) xs acc = fold push_new (map f xs) acc"
  by (simp add: fold_map comp_def)

lemma collect_reserve_keys_eq:
  "collect_reserve_keys positions repay withdraw = dedup (position_reserves positions @ [repay, withdraw])"
proof -
  have "collect_reserve_keys positions repay withdraw =
      fold push_new (position_reserves positions @ [repay, withdraw]) []"
    unfolding collect_reserve_keys_def position_reserves_def fold_push_new_map [of lb_reserve]
      fold_push_new_map [of ld_reserve] by simp
  then show ?thesis by (simp only: fold_push_new append_Nil)
qed

definition all_reserves_seen :: "'e plan_note list \<Rightarrow> bool" where
  "all_reserves_seen notes \<longleftrightarrow> \<not> (\<exists>k. ReserveMissing k \<in> set notes) \<and> \<not> (\<exists>k e. ReserveDecodeFailed k e \<in> set notes)"

text \<open>What one pass of the decoding loop adds.\<close>

definition vault_entry :: "raw_account option list \<Rightarrow> nat \<times> pubkey \<Rightarrow> (pubkey \<times> live_reserve_vaults) option" where
  "vault_entry fetched ik =
     (case fetched_at fetched (fst ik) of
        Some raw \<Rightarrow> if length (ra_data raw) < 5256 then None
                    else Some (snd ik, live_vaults_view (snd ik) (ra_data raw))
      | None \<Rightarrow> None)"

definition vault_note :: "raw_account option list \<Rightarrow> nat \<times> pubkey \<Rightarrow> 'e plan_note option" where
  "vault_note fetched ik =
     (case fetched_at fetched (fst ik) of
        Some raw \<Rightarrow> if length (ra_data raw) < 5256 then Some (ReserveDecodeFailed (snd ik) TooShort) else None
      | None \<Rightarrow> Some (ReserveMissing (snd ik)))"

lemma map_filter_Cons:
  "List.map_filter f (x # xs) = (case f x of None \<Rightarrow> List.map_filter f xs | Some y \<Rightarrow> y # List.map_filter f xs)"
  by (simp add: List.map_filter_def split: option.split)

lemma decode_vaults_eq:
  "decode_vaults fetched ks vaults ns =
     Inr (vaults ++ map_of (rev (List.map_filter (vault_entry fetched) ks)),
          ns @ List.map_filter (vault_note fetched) ks)"
proof (induction ks arbitrary: vaults ns)
  case (Cons ik ks)
  then show ?case
    by (cases ik) (simp add: map_filter_Cons vault_entry_def vault_note_def decode_live_vaults_total
        split: option.split del: fun_upd_apply)
qed (simp add: List.map_filter_def)

lemma vault_entry_note:
  "(vault_note fetched ik = None) = (vault_entry fetched ik \<noteq> None)"
  "vault_entry fetched ik = Some (k, v) \<Longrightarrow> k = snd ik \<and> rv_address v = k"
  "vault_note fetched ik = Some n \<Longrightarrow> n = ReserveMissing (snd ik) \<or> n = ReserveDecodeFailed (snd ik) TooShort"
  by (auto simp: vault_note_def vault_entry_def live_vaults_view_def split: option.splits if_splits)

lemma set_map_filter: "set (List.map_filter f xs) = {y. \<exists>x \<in> set xs. f x = Some y}"
  by (force simp: List.map_filter_def)

definition decoded :: "raw_account option list \<Rightarrow> (nat \<times> pubkey) list \<Rightarrow> pubkey \<rightharpoonup> live_reserve_vaults" where
  "decoded fetched ks = map_of (rev (List.map_filter (vault_entry fetched) ks))"

lemma decoded_Some: "decoded fetched ks k = Some v \<Longrightarrow> k \<in> snd ` set ks \<and> rv_address v = k"
  by (auto simp: decoded_def set_map_filter dest!: map_of_SomeD vault_entry_note(2))

lemma dom_decoded: "dom (decoded fetched ks) = {k. \<exists>i v. (i, k) \<in> set ks \<and> vault_entry fetched (i, k) = Some (k, v)}"
proof -
  have "k \<in> dom (decoded fetched ks) \<longleftrightarrow> (\<exists>ik v. ik \<in> set ks \<and> vault_entry fetched ik = Some (k, v))" for k
    unfolding decoded_def domIff map_of_eq_None_iff set_rev set_map set_map_filter by (simp add: image_iff Bex_def) blast
  moreover have "ik = (fst ik, k)" if "vault_entry fetched ik = Some (k, v)" for ik k v
    using vault_entry_note(2) [OF that] by (cases ik) simp
  ultimately have "k \<in> dom (decoded fetched ks) \<longleftrightarrow> (\<exists>i v. (i, k) \<in> set ks \<and> vault_entry fetched (i, k) = Some (k, v))" for k
    by metis
  then show ?thesis by blast
qed

lemma decoded_all:
  fixes ns :: "'e plan_note list"
  assumes "all_reserves_seen (ns @ List.map_filter (vault_note fetched) ks)"
  shows "snd ` set ks \<subseteq> dom (decoded fetched ks)"
proof
  fix k assume "k \<in> snd ` set ks"
  then obtain i where i: "(i, k) \<in> set ks" by auto
  have "(vault_note fetched (i, k) :: 'e plan_note option) = None"
  proof (rule ccontr)
    assume "(vault_note fetched (i, k) :: 'e plan_note option) \<noteq> None"
    then obtain n :: "'e plan_note" where n: "vault_note fetched (i, k) = Some n" by auto
    with i have "n \<in> set (List.map_filter (vault_note fetched) ks)" by (auto simp: set_map_filter)
    then show False using vault_entry_note(3) [OF n] assms by (auto simp: all_reserves_seen_def)
  qed
  then obtain e where "vault_entry fetched (i, k) = Some e" using vault_entry_note(1) by blast
  moreover from this have "fst e = k" by (cases e) (auto dest: vault_entry_note(2))
  ultimately have "vault_entry fetched (i, k) = Some (k, snd e)" by (cases e) simp
  with i show "k \<in> dom (decoded fetched ks)" by (auto simp: dom_decoded)
qed

lemma refresh_overlay_keys:
  assumes "\<And>k v. vaults k = Some v \<Longrightarrow> rv_address v = k"
  shows "map rr_reserve (refresh_overlay vaults seen keys) = dedup_from seen (filter (\<lambda>k. k \<in> dom vaults) keys)"
  using assms
  by (induction vaults seen keys rule: refresh_overlay.induct)
    (auto simp: refresh_accounts_of_def split: option.split)

text \<open>What a live plan is made of.\<close>

lemma from_seed_not_live [simp]: "\<not> pa_from_live_decode (seed_plan s f)"
  by (simp add: seed_plan_def from_seed_def Let_def)

definition live_parts ::
    "crypto \<Rightarrow> 'e rpc_view \<Rightarrow> pubkey \<Rightarrow> pubkey \<Rightarrow> live_obligation_positions \<Rightarrow> (pubkey \<rightharpoonup> live_reserve_vaults)
      \<Rightarrow> live_reserve_vaults \<Rightarrow> live_reserve_vaults \<Rightarrow> pubkey list option \<Rightarrow> plan_account_set" where
  "live_parts c rpc obl fee_payer pos vaults rep wd missing =
     (from_kamino_live c obl fee_payer pos rep wd
        (lending_market_authority c (lh_lending_market (lp_header pos))))
       \<lparr>pa_refresh_reserve_metas := refresh_overlay vaults [] (position_reserves pos),
        pa_missing_ata_filter := missing\<rparr>"

lemma map_snd_enumerate [simp]: "map snd (enumerate n xs) = xs"
  by (induction xs arbitrary: n) simp_all

definition prefetch_missing :: "'e rpc_view \<Rightarrow> plan_account_set \<Rightarrow> pubkey list option" where
  "prefetch_missing rpc a =
     (case rpc_multiple rpc 1 (user_ata_keys a @ pa_referrer_token_states a) of
        Inr fetched \<Rightarrow> Some (missing_atas (user_ata_keys a) fetched) | Inl e \<Rightarrow> None)"

lemma user_ata_keys_filter [simp]: "user_ata_keys (a\<lparr>pa_missing_ata_filter := m\<rparr>) = user_ata_keys a"
  by (simp add: user_ata_keys_def)

lemma prefetch_missing_filter [simp]:
  "prefetch_missing rpc (a\<lparr>pa_missing_ata_filter := m\<rparr>) = prefetch_missing rpc a"
  unfolding prefetch_missing_def user_ata_keys_filter by simp

lemma prefetch_atas_shape:
  "\<exists>ns'. prefetch_atas rpc a ns = (a\<lparr>pa_missing_ata_filter := prefetch_missing rpc a\<rparr>, ns @ ns')"
  by (auto simp: prefetch_atas_def prefetch_missing_def Let_def split: sum.split)

lemma plan_with_vaults_live:
  assumes "plan_with_vaults c rpc obl fee_payer pos repay withdraw vaults ns0 = (a, ns)"
    and "pa_from_live_decode a"
  shows "\<exists>rep wd missing ns1. vaults repay = Some rep \<and> vaults withdraw = Some wd
    \<and> a = live_parts c rpc obl fee_payer pos vaults rep wd missing \<and> ns = ns0 @ ns1
    \<and> missing = prefetch_missing rpc a"
proof -
  have "vaults repay \<noteq> None \<and> vaults withdraw \<noteq> None"
    using assms by (auto simp: plan_with_vaults_def split: option.splits prod.splits)
  then obtain rep wd where v: "vaults repay = Some rep" "vaults withdraw = Some wd" by auto
  let ?a = "(from_kamino_live c obl fee_payer pos rep wd (lending_market_authority c (lh_lending_market (lp_header pos))))
    \<lparr>pa_refresh_reserve_metas := refresh_overlay vaults [] (position_reserves pos)\<rparr>"
  have "\<exists>ns'. prefetch_atas rpc ?a (ns0 @ ns') = (a, ns)"
    using assms(1) v by (auto intro: exI simp: plan_with_vaults_def Let_def split: option.splits)
  then obtain ns' where "prefetch_atas rpc ?a (ns0 @ ns') = (a, ns)" ..
  moreover obtain ns1 where
    "prefetch_atas rpc ?a (ns0 @ ns') = (?a\<lparr>pa_missing_ata_filter := prefetch_missing rpc ?a\<rparr>, (ns0 @ ns') @ ns1)"
    using prefetch_atas_shape by blast
  ultimately have "a = live_parts c rpc obl fee_payer pos vaults rep wd (prefetch_missing rpc ?a)"
      "ns = ns0 @ ns' @ ns1" "prefetch_missing rpc ?a = prefetch_missing rpc a"
    by (auto simp: live_parts_def)
  with v show ?thesis by blast
qed

lemma live_plan_parts:
  assumes "build_plan_accounts_for_candidate c rpc cand Kamino fee_payer = Inr (a, ns)"
    and "pa_from_live_decode a"
  shows "\<exists>obl acct pos repay withdraw fetched rep wd missing ks ns0 ns1.
    rpc_account_info rpc obl = Inr (Some acct)
    \<and> decode_obligation_live_positions obl (ra_data acct) = Inr pos
    \<and> pick_liquidate_reserves pos = Some (repay, withdraw)
    \<and> ks = enumerate 0 (dedup (position_reserves pos @ [repay, withdraw]))
    \<and> rpc_multiple rpc 0 (map snd ks) = Inr fetched
    \<and> decoded fetched ks repay = Some rep \<and> decoded fetched ks withdraw = Some wd
    \<and> a = live_parts c rpc obl fee_payer pos (decoded fetched ks) rep wd missing
    \<and> ns = ns0 @ List.map_filter (vault_note fetched) ks @ ns1
    \<and> missing = prefetch_missing rpc a"
proof -
  obtain obl acct pos where acct: "rpc_account_info rpc obl = Inr (Some acct)"
      "decode_obligation_live_positions obl (ra_data acct) = Inr pos"
    and plan: "plan_with_positions c rpc obl fee_payer pos [] = Inr (a, ns)"
    using assms
    by (auto simp: build_plan_accounts_for_candidate_def Let_def
        split: option.splits sum.splits decode_fault.splits)
  obtain repay withdraw where pick: "pick_liquidate_reserves pos = Some (repay, withdraw)"
    using plan assms(2) by (cases "pick_liquidate_reserves pos") (auto simp: plan_with_positions_def Let_def)
  let ?keys = "dedup (position_reserves pos @ [repay, withdraw])"
  obtain fetched where fetched: "rpc_multiple rpc 0 ?keys = Inr fetched"
    using plan assms(2) pick
    by (cases "rpc_multiple rpc 0 ?keys") (auto simp: plan_with_positions_def Let_def collect_reserve_keys_eq)
  let ?ks = "enumerate 0 ?keys" and ?ns0 = "[LivePositions (length (lp_deposits pos)) (length (lp_borrows pos))]"
  have "plan_with_vaults c rpc obl fee_payer pos repay withdraw (decoded fetched ?ks)
      (?ns0 @ List.map_filter (vault_note fetched) ?ks) = (a, ns)"
    using plan
    by (simp add: plan_with_positions_def Let_def pick collect_reserve_keys_eq fetched decode_vaults_eq decoded_def)
  from plan_with_vaults_live [OF this assms(2)] obtain rep wd missing ns1 where
    "decoded fetched ?ks repay = Some rep" "decoded fetched ?ks withdraw = Some wd"
    "a = live_parts c rpc obl fee_payer pos (decoded fetched ?ks) rep wd missing"
    "ns = (?ns0 @ List.map_filter (vault_note fetched) ?ks) @ ns1" "missing = prefetch_missing rpc a"
    by blast
  with acct pick fetched show ?thesis by (metis append_assoc map_snd_enumerate)
qed

lemma live_parts_simps [simp]:
  "pa_from_live_decode (live_parts c rpc obl fee_payer pos vaults rep wd missing)"
  "pa_obligation (live_parts c rpc obl fee_payer pos vaults rep wd missing) = obl"
  "pa_lending_market (live_parts c rpc obl fee_payer pos vaults rep wd missing) = lh_lending_market (lp_header pos)"
  "pa_repay_reserve (live_parts c rpc obl fee_payer pos vaults rep wd missing) = rv_address rep"
  "pa_withdraw_reserve (live_parts c rpc obl fee_payer pos vaults rep wd missing) = rv_address wd"
  "pa_deposit_reserves_extra (live_parts c rpc obl fee_payer pos vaults rep wd missing) = map ld_reserve (lp_deposits pos)"
  "pa_borrow_reserves_extra (live_parts c rpc obl fee_payer pos vaults rep wd missing) = map lb_reserve (lp_borrows pos)"
  "pa_refresh_reserve_metas (live_parts c rpc obl fee_payer pos vaults rep wd missing) =
     refresh_overlay vaults [] (position_reserves pos)"
  by (simp_all add: live_parts_def from_kamino_live_def Let_def)

lemma picked_in_positions:
  assumes "pick_liquidate_reserves pos = Some (repay, withdraw)"
  shows "repay \<in> set (position_reserves pos)" "withdraw \<in> set (position_reserves pos)"
proof -
  obtain b d where b: "max_by_key lb_market_value_sf (lp_borrows pos) = Some b" "repay = lb_reserve b"
    and d: "max_by_key ld_market_value_sf (lp_deposits pos) = Some d" "withdraw = ld_reserve d"
    using assms by (auto simp: pick_liquidate_reserves_def bind_eq_Some_conv)
  have "b \<in> set (lp_borrows pos)" "d \<in> set (lp_deposits pos)"
    using max_by_key_correct [where f = lb_market_value_sf and xs = "lp_borrows pos"] b
      max_by_key_correct [where f = ld_market_value_sf and xs = "lp_deposits pos"] d
    by simp_all
  with b d show "repay \<in> set (position_reserves pos)" "withdraw \<in> set (position_reserves pos)"
    by (auto simp: position_reserves_def)
qed

lemma length_position_reserves:
  assumes "decode_obligation_live_positions obl data = Inr pos"
  shows "length (position_reserves pos) \<le> 13"
proof -
  have "pos = live_positions_view obl data"
    using assms by (simp add: decode_live_positions_total split: if_splits)
  moreover have "length (filter active_deposit (map (deposit_at data) [0..<8])) \<le> 8"
    "length (filter active_borrow (map (borrow_at data) [0..<5])) \<le> 5"
    by (rule order_trans [OF length_filter_le], simp)+
  ultimately show ?thesis
    by (simp add: position_reserves_def live_positions_view_def del: upt_Suc)
qed

text \<open>The reserves a live plan refreshes: those of the positions that were fetched and decoded.\<close>

lemma live_refresh_keys:
  assumes "a = live_parts c rpc obl fee_payer pos (decoded fetched ks) rep wd missing"
    and "k \<in> set (position_reserves pos)" "k \<in> dom (decoded fetched ks)"
  shows "unique_refresh_reserve_keys (flash_params c a amount) =
    dedup (filter (\<lambda>k. k \<in> dom (decoded fetched ks)) (position_reserves pos))"
proof -
  have metas: "kp_refresh_reserves (flash_params c a amount) =
      refresh_overlay (decoded fetched ks) [] (position_reserves pos)"
    by (simp add: flash_params_def kamino_params_def assms(1))
  have keys: "map rr_reserve (refresh_overlay (decoded fetched ks) [] (position_reserves pos)) =
      dedup (filter (\<lambda>k. k \<in> dom (decoded fetched ks)) (position_reserves pos))"
    by (rule refresh_overlay_keys) (auto dest: decoded_Some)
  have "k \<in> set (dedup (filter (\<lambda>k. k \<in> dom (decoded fetched ks)) (position_reserves pos)))"
    using assms(2,3) by simp
  then have "refresh_overlay (decoded fetched ks) [] (position_reserves pos) \<noteq> []"
    unfolding keys [symmetric] by auto
  then show ?thesis
    unfolding unique_refresh_reserve_keys_def metas by (simp add: keys dedup_from_distinct)
qed

lemma live_obligation_metas:
  assumes "a = live_parts c rpc obl fee_payer pos vaults rep wd missing" "position_reserves pos \<noteq> []"
  shows "map am_pubkey (ix_accounts (li_ix (refresh_obligation_ix (flash_params c a amount) seen))) =
    [lh_lending_market (lp_header pos), obl] @ position_reserves pos @ pa_referrer_token_states a"
proof -
  have "map lb_reserve (lp_borrows pos) \<noteq> [] \<or> map ld_reserve (lp_deposits pos) \<noteq> []"
    using assms(2) by (auto simp: position_reserves_def)
  then show ?thesis
    by (auto simp: refresh_obligation_ix_def flash_params_def kamino_params_def flash_reserves_def
        kamino_liquidate_accounts_def position_reserves_def assms(1) Let_def comp_def)
qed

text \<open>When no reserve was reported missing or undecodable, those refreshed are those of the positions.\<close>

lemma live_reserves_all:
  fixes ns0 ns1 :: "'e plan_note list"
  assumes "all_reserves_seen (ns0 @ List.map_filter (vault_note fetched)
    (enumerate 0 (dedup (position_reserves pos @ extra))) @ ns1)"
  shows "dedup (filter (\<lambda>k. k \<in> dom (decoded fetched (enumerate 0 (dedup (position_reserves pos @ extra)))))
      (position_reserves pos)) = dedup (position_reserves pos)"
proof -
  let ?ks = "enumerate 0 (dedup (position_reserves pos @ extra))"
  have "all_reserves_seen ([] @ List.map_filter (vault_note fetched :: _ \<Rightarrow> 'e plan_note option) ?ks)"
    using assms by (auto simp: all_reserves_seen_def)
  from decoded_all [OF this] have "set (position_reserves pos) \<subseteq> dom (decoded fetched ?ks)"
    by (simp flip: set_map)
  then show ?thesis by (simp add: filter_id_conv subset_eq)
qed

text \<open>
  C1: The flash transaction of an obligation decoded from the chain is sound, whatever the number of
  its positions: borrow and repay are paired; before the borrow it refreshes each reserve at most
  once, only reserves of the positions, among them the repay and the withdraw reserve, and all of
  them, in the order of the positions, when none was reported missing or undecodable; then it
  refreshes the obligation with one account per position in that order.
\<close>

theorem live_flash_plan_sound:
  fixes ns :: "'e plan_note list"
  assumes "build_plan_accounts_for_candidate c rpc cand Kamino fee_payer = Inr (a, ns)"
    and "pa_from_live_decode a"
    and "ixs = pn_labeled (build_strategy_ixs c Kamino KaminoFlashBorrow a amount blob)"
  shows "flash_klend.paired ixs
    \<and> (\<exists>acct pos. rpc_account_info rpc (pa_obligation a) = Inr (Some acct)
        \<and> decode_obligation_live_positions (pa_obligation a) (ra_data acct) = Inr pos
        \<and> (let k = unat (last (ix_data (li_ix (last ixs)))); rs = List.map_filter refreshed (take k ixs)
           in distinct rs \<and> {pa_repay_reserve a, pa_withdraw_reserve a} \<subseteq> set rs
              \<and> set rs \<subseteq> set (position_reserves pos)
              \<and> (all_reserves_seen ns \<longrightarrow> rs = dedup (position_reserves pos))
              \<and> map am_pubkey (ix_accounts (li_ix (ixs ! (2 + length rs)))) =
                  [lh_lending_market (lp_header pos), pa_obligation a] @ position_reserves pos
                    @ pa_referrer_token_states a))"
proof -
  from live_plan_parts [OF assms(1,2)]
  obtain obl acct pos repay withdraw fetched rep wd missing ks ns0 ns1 where
    acct: "rpc_account_info rpc obl = Inr (Some acct)"
      "decode_obligation_live_positions obl (ra_data acct) = Inr pos"
    and pick: "pick_liquidate_reserves pos = Some (repay, withdraw)"
    and ks: "ks = enumerate 0 (dedup (position_reserves pos @ [repay, withdraw]))"
    and v: "decoded fetched ks repay = Some rep" "decoded fetched ks withdraw = Some wd"
    and a: "a = live_parts c rpc obl fee_payer pos (decoded fetched ks) rep wd missing"
    and ns: "ns = ns0 @ List.map_filter (vault_note fetched) ks @ ns1"
    by blast
  let ?p = "flash_params c a amount"
  let ?rs = "dedup (filter (\<lambda>k. k \<in> dom (decoded fetched ks)) (position_reserves pos))"
  note inpos = picked_in_positions [OF pick]
  have keys: "unique_refresh_reserve_keys ?p = ?rs"
    by (rule live_refresh_keys [OF a inpos(1)]) (use v in auto)
  obtain b r where br: "kp_flash ?p = Some (b, r)"
    by (cases "kamino_flash_pair a") (simp add: flash_params_def kamino_params_def)
  have tx: "build_flash_tx c ?p (jq_instructions blob) = Some ixs"
    using kamino_flash_plan_tx [of c a amount blob] assms(3) by simp
  have "length ?rs \<le> 13"
    by (rule order_trans [OF length_dedup_from order_trans [OF length_filter_le length_position_reserves [OF acct(2)]]])
  then have short: "length (flash_prefix c ?p) < 256"
    using flash_prefix_short [of ?p c a amount "flash_reserves a" "Some (kamino_flash_pair a)"] keys
    by (simp add: length_flash_prefix flash_params_def)
  note reads = flash_tx_reads [OF tx br short]
  have rs: "List.map_filter refreshed (take (length (flash_prefix c ?p)) ixs) = ?rs"
    unfolding reads(3) flash_prefix_refreshed keys ..
  have obl_ix: "map am_pubkey (ix_accounts (li_ix (ixs ! (2 + length ?rs)))) =
      [lh_lending_market (lp_header pos), obl] @ position_reserves pos @ pa_referrer_token_states a"
    unfolding reads(4) [unfolded keys] using inpos(1) by (intro live_obligation_metas [OF a]) auto
  have all: "?rs = dedup (position_reserves pos)" if "all_reserves_seen ns"
    using live_reserves_all [where pos = pos and fetched = fetched and 'e = 'e] that by (simp add: ns ks)
  have "rv_address rep = repay" "rv_address wd = withdraw"
    using decoded_Some v by blast+
  then have "{pa_repay_reserve a, pa_withdraw_reserve a} \<subseteq> set ?rs"
    using v inpos by (auto simp: a)
  then show ?thesis
    using reads(1) acct all obl_ix
    by (simp only: Let_def reads(2) rs) (auto simp: a)
qed

lemma set_user_ata_keys:
  "pa_user_destination_liquidity a = Some d \<Longrightarrow>
     set (user_ata_keys a) = {pa_user_liquidity a, pa_user_collateral a, d}"
  by (auto simp: user_ata_keys_def push_new_def Let_def)

lemma set_missing_atas:
  "set (missing_atas ks fetched) = {ks ! i |i. i < length ks \<and> fetched_at fetched i = None}"
  by (auto simp: missing_atas_def image_iff in_set_enumerate_eq)

text \<open>
  When the lookup of the liquidator's token accounts is answered, a live plan creates, each
  once, exactly the accounts the answer lacks; when the lookup fails it creates all of them.
\<close>

lemma live_plan_creates_missing_atas:
  fixes ns :: "'e plan_note list"
  assumes "build_plan_accounts_for_candidate c rpc cand Kamino fee_payer = Inr (a, ns)"
    and "pa_from_live_decode a"
  shows "distinct (map (ata_address c) (liquidator_ensure_atas c a))
    \<and> ata_address c ` set (liquidator_ensure_atas c a) =
      (case rpc_multiple rpc 1 (user_ata_keys a @ pa_referrer_token_states a) of
         Inr fetched \<Rightarrow> {user_ata_keys a ! i |i. i < length (user_ata_keys a) \<and> fetched_at fetched i = None}
       | Inl _ \<Rightarrow> set (user_ata_keys a))"
proof -
  from live_plan_parts [OF assms]
  obtain obl pos vaults rep wd missing where
    a: "a = live_parts c rpc obl fee_payer pos vaults rep wd missing" "missing = prefetch_missing rpc a"
    by blast
  let ?auth = "lending_market_authority c (lh_lending_market (lp_header pos))"
  let ?base = "from_kamino_live c obl fee_payer pos rep wd ?auth"
  have agree: "liquidator_ensure_atas c a = liquidator_ensure_atas c (?base\<lparr>pa_missing_ata_filter := missing\<rparr>)"
    "kamino_liquidate_accounts c (?base\<lparr>pa_missing_ata_filter := missing\<rparr>) = kamino_liquidate_accounts c a"
    unfolding a(1) live_parts_def by (simp_all add: liquidator_ensure_atas_def kamino_liquidate_accounts_def)
  obtain d where d: "pa_user_destination_liquidity a = Some d"
    unfolding a(1) live_parts_def by (simp add: from_kamino_live_def Let_def)
  have "distinct (map (ata_address c) (liquidator_ensure_atas c a))
    \<and> ata_address c ` set (liquidator_ensure_atas c a) =
        set (user_ata_keys a) \<inter> (case missing of Some ks \<Rightarrow> set ks | None \<Rightarrow> UNIV)"
    using live_plan_creates_atas [where c = c and obl = obl and liq = fee_payer and pos = pos and rep = rep
        and wd = wd and auth = ?auth and missing = missing]
    unfolding Let_def agree(1) [symmetric] agree(2) set_user_ata_keys [OF d]
    by (simp add: kamino_liquidate_accounts_def d Let_def)
  moreover have "set (user_ata_keys a) \<inter> set (missing_atas (user_ata_keys a) fetched) =
      {user_ata_keys a ! i |i. i < length (user_ata_keys a) \<and> fetched_at fetched i = None}" for fetched
    by (auto simp: set_missing_atas)
  ultimately show ?thesis
    using a(2) by (auto simp: prefetch_missing_def split: sum.splits)
qed

lemma pick_None_iff:
  "pick_liquidate_reserves pos = None \<longleftrightarrow> lp_borrows pos = [] \<or> lp_deposits pos = []"
proof -
  have "pick_liquidate_reserves pos = None \<longleftrightarrow>
      max_by_key lb_market_value_sf (lp_borrows pos) = None \<or> max_by_key ld_market_value_sf (lp_deposits pos) = None"
    by (cases "max_by_key lb_market_value_sf (lp_borrows pos)"; cases "max_by_key ld_market_value_sf (lp_deposits pos)")
      (simp_all add: pick_liquidate_reserves_def)
  then show ?thesis by simp
qed

text \<open>An endpoint that answers every key with an account of full length.\<close>

lemma full_answer_note:
  assumes "length raws = length keys" "\<forall>r \<in> set raws. 5256 \<le> length (ra_data r)"
    and "ik \<in> set (enumerate 0 keys)"
  shows "vault_note (map Some raws) ik = None"
proof -
  have "fst ik < length keys" using assms(3) by (simp add: in_set_enumerate_eq)
  then show ?thesis using assms(1,2) by (simp add: vault_note_def fetched_at_def not_less)
qed

lemma full_answer_notes:
  assumes "length raws = length keys" "\<forall>r \<in> set raws. 5256 \<le> length (ra_data r)"
  shows "List.map_filter (vault_note (map Some raws)) (enumerate 0 keys) = []"
  by (simp add: List.map_filter_def filter_empty_conv full_answer_note [OF assms])

lemma full_answer_vaults:
  assumes "length raws = length keys" "\<forall>r \<in> set raws. 5256 \<le> length (ra_data r)"
  shows "set keys \<subseteq> dom (decoded (map Some raws) (enumerate 0 keys))"
proof -
  have "all_reserves_seen ([] @ List.map_filter (vault_note (map Some raws)) (enumerate 0 keys) :: unit plan_note list)"
    unfolding full_answer_notes [OF assms] by (simp add: all_reserves_seen_def)
  from decoded_all [OF this] show ?thesis by (simp flip: set_map)
qed

lemma prefetch_atas_notes: "all_reserves_seen (snd (prefetch_atas rpc a ns)) = all_reserves_seen ns"
  by (auto simp: prefetch_atas_def all_reserves_seen_def Let_def split: sum.split)

text \<open>
  An obligation with an active deposit and an active borrow whose account and reserves the
  endpoint returns in full always gets a live account set, with no reserve left out: nothing else
  can send the planner to the seeded accounts.
\<close>

lemma live_when_fetched:
  assumes "pubkey_from_base58 c s = Some obl" "rpc_account_info rpc obl = Inr (Some acct)"
    and "2288 \<le> length (ra_data acct)"
    and "i < 5" "active_borrow (borrow_at (ra_data acct) i)"
    and "j < 8" "active_deposit (deposit_at (ra_data acct) j)"
    and "\<And>ks. \<exists>raws. rpc_multiple rpc 0 ks = Inr (map Some raws) \<and> length raws = length ks
      \<and> (\<forall>r \<in> set raws. 5256 \<le> length (ra_data r))"
  shows "\<exists>a ns. build_plan_accounts_for_candidate c rpc (Some s) Kamino fee_payer = Inr (a, ns)
    \<and> pa_from_live_decode a \<and> all_reserves_seen ns"
proof -
  let ?pos = "live_positions_view obl (ra_data acct)"
  let ?notes0 = "[LivePositions (length (lp_deposits ?pos)) (length (lp_borrows ?pos))]"
  have pos: "decode_obligation_live_positions obl (ra_data acct) = Inr ?pos"
    using assms(3) by (simp add: decode_live_positions_total)
  have "borrow_at (ra_data acct) i \<in> set (lp_borrows ?pos)"
    "deposit_at (ra_data acct) j \<in> set (lp_deposits ?pos)"
    using assms(4-7) by (simp_all add: live_positions_view_def del: upt_Suc)
  then have "pick_liquidate_reserves ?pos \<noteq> None"
    unfolding pick_None_iff by auto
  then obtain repay withdraw where pick: "pick_liquidate_reserves ?pos = Some (repay, withdraw)" by auto
  let ?keys = "dedup (position_reserves ?pos @ [repay, withdraw])"
  obtain raws where raws: "rpc_multiple rpc 0 ?keys = Inr (map Some raws)" "length raws = length ?keys"
      "\<forall>r \<in> set raws. 5256 \<le> length (ra_data r)"
    using assms(8) by blast
  let ?v = "decoded (map Some raws) (enumerate 0 ?keys)"
  note full = full_answer_notes [OF raws(2,3)] full_answer_vaults [OF raws(2,3)]
  have "{repay, withdraw} \<subseteq> set ?keys" by simp
  with full(2) have "{repay, withdraw} \<subseteq> dom ?v" by (rule order_trans [rotated])
  then obtain rep wd where v: "?v repay = Some rep" "?v withdraw = Some wd" by auto
  let ?r = "plan_with_vaults c rpc obl fee_payer ?pos repay withdraw ?v ?notes0"
  have "build_plan_accounts_for_candidate c rpc (Some s) Kamino fee_payer = Inr ?r"
    by (simp add: build_plan_accounts_for_candidate_def assms(1,2) pos plan_with_positions_def pick
        collect_reserve_keys_eq raws(1) decode_vaults_eq full(1) Let_def flip: decoded_def)
  moreover have "pa_from_live_decode (fst ?r)" "all_reserves_seen (snd ?r)"
    by (simp_all add: plan_with_vaults_def v Let_def prefetch_atas_notes split: option.split)
      (auto simp: all_reserves_seen_def prefetch_atas_def from_kamino_live_def Let_def split: sum.split)
  ultimately show ?thesis by (metis prod.collapse)
qed

section \<open>A concrete candidate\<close>

definition sample_crypto :: crypto where
  "sample_crypto = \<lparr>b58_decode = (\<lambda>_. Some (replicate 32 7)), sha256 = (\<lambda>_. replicate 32 0),
     on_curve = (\<lambda>_. False)\<rparr>"

definition sample_account_of :: "nat \<Rightarrow> pubkey \<Rightarrow> raw_account" where
  "sample_account_of n k = \<lparr>ra_pubkey = k, ra_lamports = 1, ra_owner = prog_klend,
     ra_data = replicate n 1, ra_slot = 1\<rparr>"

definition sample_rpc :: "unit rpc_view" where
  "sample_rpc = \<lparr>rpc_account_info = (\<lambda>k. Inr (Some (sample_account_of 2288 k))),
     rpc_multiple = (\<lambda>_ ks. Inr (map (\<lambda>k. Some (sample_account_of 5256 k)) ks))\<rparr>"

lemma sample_fetched:
  "pubkey_from_base58 sample_crypto s = Some (Pubkey (replicate 32 7))"
  "rpc_account_info sample_rpc k = Inr (Some (sample_account_of 2288 k))"
  "2288 \<le> length (ra_data (sample_account_of 2288 k))"
  "active_borrow (borrow_at (ra_data (sample_account_of 2288 k)) 0)"
  "active_deposit (deposit_at (ra_data (sample_account_of 2288 k)) 0)"
  "\<exists>raws. rpc_multiple sample_rpc 0 ks = Inr (map Some raws) \<and> length raws = length ks
     \<and> (\<forall>r \<in> set raws. 5256 \<le> length (ra_data r))"
proof -
  show "\<exists>raws. rpc_multiple sample_rpc 0 ks = Inr (map Some raws) \<and> length raws = length ks
     \<and> (\<forall>r \<in> set raws. 5256 \<le> length (ra_data r))"
    by (rule exI [of _ "map (sample_account_of 5256) ks"])
      (simp add: sample_rpc_def sample_account_of_def comp_def)
qed (simp_all add: sample_crypto_def pubkey_from_base58_def pubkey_from_bytes_def sample_rpc_def
    sample_account_of_def replicate_slots)

lemma sample_live:
  "\<exists>a ns. build_plan_accounts_for_candidate sample_crypto sample_rpc (Some s) Kamino f = Inr (a, ns)
     \<and> pa_from_live_decode a \<and> all_reserves_seen ns"
  by (rule live_when_fetched [OF sample_fetched(1,2,3) _ sample_fetched(4) _ sample_fetched(5,6)]) simp_all

theorem live_flash_plan_sound_witness:
  "\<exists>a ns. build_plan_accounts_for_candidate sample_crypto sample_rpc (Some ''7u3H'') Kamino (pubkey_test 1 1)
       = Inr (a, ns)
     \<and> flash_klend.paired (pn_labeled (build_strategy_ixs sample_crypto Kamino KaminoFlashBorrow a 1000 blob_default))"
proof -
  obtain a and ns :: "unit plan_note list" where
    "build_plan_accounts_for_candidate sample_crypto sample_rpc (Some ''7u3H'') Kamino (pubkey_test 1 1)
       = Inr (a, ns)" "pa_from_live_decode a"
    using sample_live by blast
  from this live_flash_plan_sound [OF this refl, of 1000 blob_default] show ?thesis by blast
qed

end
