(* ===== verification/Execution.thy ===== *)
theory Execution
  imports Risk Funding Instructions KeyedCache
begin

text \<open>
  Execution: \<^verbatim>\<open>crates/liq-execution/src\<close> files \<^verbatim>\<open>lib.rs\<close> (the engine),
  \<^verbatim>\<open>bid.rs\<close>, \<^verbatim>\<open>blockhash.rs\<close>, \<^verbatim>\<open>alt.rs\<close>,
  \<^verbatim>\<open>template.rs\<close>, \<^verbatim>\<open>rpc.rs\<close>, \<^verbatim>\<open>jito.rs\<close> and
  \<^verbatim>\<open>funding.rs\<close>. Clock readings are arguments, as in theory Risk. The engine and its
  breaker each hold a reference to a metrics registry and count different counters in it, so
  two registries here stand for the shared one as well. Log output is not modelled.
\<close>

section \<open>Transactions and results\<close>

record prepared_tx =
  pt_label :: string
  pt_protocol :: string
  pt_account :: string
  pt_notional_usd_micro :: u64
  pt_expected_profit_usd_micro :: i64
  pt_wire :: "u8 list"
  pt_ixs :: "string list"
  pt_instructions :: "instruction list"
  pt_funding_strategy :: "string option"

record submit_result =
  sr_signature :: "string option"
  sr_dry_run :: bool
  sr_accepted :: bool
  sr_detail :: string

datatype exec_error = RiskError risk_reject | SubmitError string | StaleBlockhash

section \<open>Bids\<close>

datatype bid_profile = Conservative | Balanced | Aggressive | MaxCapture

record bid_quote =
  bq_priority_fee_micro_lamports :: u64
  bq_jito_tip_lamports :: u64
  bq_profit_share_bps :: u16

fun profit_share_bps :: "bid_profile \<Rightarrow> u16" where
  "profit_share_bps Conservative = 500"
| "profit_share_bps Balanced = 1500"
| "profit_share_bps Aggressive = 3500"
| "profit_share_bps MaxCapture = 6000"

fun base_priority_micro_lamports :: "bid_profile \<Rightarrow> u64" where
  "base_priority_micro_lamports Conservative = 1000"
| "base_priority_micro_lamports Balanced = 10000"
| "base_priority_micro_lamports Aggressive = 100000"
| "base_priority_micro_lamports MaxCapture = 1000000"

fun base_tip_lamports :: "bid_profile \<Rightarrow> u64" where
  "base_tip_lamports Conservative = 1000"
| "base_tip_lamports Balanced = 10000"
| "base_tip_lamports Aggressive = 100000"
| "base_tip_lamports MaxCapture = 1000000"

definition compute_bid :: "bid_profile \<Rightarrow> u64 \<Rightarrow> bid_quote" where
  "compute_bid profile profit =
     (let share = profit_share_bps profile;
          profit_tip = sat_mul (sat_mul (ucast profit :: u128) (ucast share)) 5 div 10000;
          jito_tip = max (ucast profit_tip) (base_tip_lamports profile);
          bump = min (profit div 1000000) 10;
          priority = sat_mul (base_priority_micro_lamports profile) (1 + bump)
      in \<lparr>bq_priority_fee_micro_lamports = priority, bq_jito_tip_lamports = jito_tip,
          bq_profit_share_bps = share\<rparr>)"

section \<open>Blockhash cache\<close>

record cached_blockhash =
  cbh_hash :: "u8 list"
  cbh_slot :: u64
  cbh_fetched_at :: nat

record blockhash_cache =
  bc_inner :: "cached_blockhash option"
  bc_max_age :: nat

definition blockhash_cache_new :: "u64 \<Rightarrow> blockhash_cache" where
  "blockhash_cache_new max_age_secs = \<lparr>bc_inner = None, bc_max_age = unat max_age_secs * 10 ^ 9\<rparr>"

definition blockhash_put :: "nat \<Rightarrow> blockhash_cache \<Rightarrow> u8 list \<Rightarrow> u64 \<Rightarrow> blockhash_cache" where
  "blockhash_put now c hash slot =
     c\<lparr>bc_inner := Some \<lparr>cbh_hash = hash, cbh_slot = slot, cbh_fetched_at = now\<rparr>\<rparr>"

definition get_fresh :: "nat \<Rightarrow> blockhash_cache \<Rightarrow> cached_blockhash option" where
  "get_fresh now c =
     Option.bind (bc_inner c) (\<lambda>b. if bc_max_age c < now - cbh_fetched_at b then None else Some b)"

definition blockhash_is_fresh :: "nat \<Rightarrow> blockhash_cache \<Rightarrow> bool" where
  "blockhash_is_fresh now c \<longleftrightarrow> get_fresh now c \<noteq> None"

section \<open>Lookup tables and templates\<close>

record alt_entry =
  ae_table :: pubkey
  ae_addresses :: "pubkey list"

type_synonym alt_manager = "pubkey \<rightharpoonup> alt_entry"

definition alt_new :: alt_manager where "alt_new = Map.empty"

definition alt_upsert :: "alt_manager \<Rightarrow> alt_entry \<Rightarrow> alt_manager" where
  "alt_upsert m e = m(ae_table e \<mapsto> e)"

definition alt_get :: "alt_manager \<Rightarrow> pubkey \<Rightarrow> alt_entry option" where
  "alt_get m t = m t"

definition resolve_index :: "alt_manager \<Rightarrow> pubkey \<Rightarrow> u8 \<Rightarrow> pubkey option" where
  "resolve_index m table index =
     Option.bind (alt_get m table) (\<lambda>e.
       if unat index < length (ae_addresses e) then Some (ae_addresses e ! unat index) else None)"

definition alt_len :: "alt_manager \<Rightarrow> nat" where "alt_len m = card (dom m)"

record tx_template =
  tt_account :: pubkey
  tt_protocol :: string
  tt_ix_labels :: "string list"
  tt_ix_datas :: "u8 list list"
  tt_account_metas :: "pubkey list"
  tt_updated_slot :: u64

type_synonym tx_template_cache = "pubkey \<rightharpoonup> tx_template"

definition template_cache_new :: tx_template_cache where "template_cache_new = Map.empty"

definition template_put :: "tx_template_cache \<Rightarrow> tx_template \<Rightarrow> tx_template_cache" where
  "template_put m t = m(tt_account t \<mapsto> t)"

definition template_get :: "tx_template_cache \<Rightarrow> pubkey \<Rightarrow> tx_template option" where
  "template_get m k = m k"

definition template_invalidate :: "tx_template_cache \<Rightarrow> pubkey \<Rightarrow> tx_template_cache" where
  "template_invalidate m k = m(k := None)"

definition template_len :: "tx_template_cache \<Rightarrow> nat" where "template_len m = card (dom m)"

interpretation alts: keyed_cache alt_get alt_upsert alt_new ae_table
  by unfold_locales (simp_all add: alt_get_def alt_upsert_def alt_new_def)

interpretation templates: keyed_cache template_get template_put template_cache_new tt_account
  by unfold_locales (simp_all add: template_get_def template_put_def template_cache_new_def)

text \<open>A lookup table or a template that is read is the one stored last under its key.\<close>

lemma caches_latest:
  "alt_get (foldl alt_upsert alt_new es) k = List.find (\<lambda>e. ae_table e = k) (rev es)"
  "template_get (foldl template_put template_cache_new ts) a = List.find (\<lambda>t. tt_account t = a) (rev ts)"
  by (rule alts.get_latest templates.get_latest)+

section \<open>Senders\<close>

record rpc_endpoint =
  re_name :: string
  re_url :: string

record mock_multi_rpc =
  mr_endpoints :: "rpc_endpoint list"
  mr_failing :: "nat list"
  mr_attempts :: "string list"

definition mock_rpc_new :: "rpc_endpoint list \<Rightarrow> mock_multi_rpc" where
  "mock_rpc_new eps = \<lparr>mr_endpoints = eps, mr_failing = [], mr_attempts = []\<rparr>"

fun send_loop :: "nat list \<Rightarrow> (nat \<times> rpc_endpoint) list \<Rightarrow> prepared_tx \<Rightarrow> string list
    \<Rightarrow> (exec_error + submit_result) \<times> string list" where
  "send_loop failing [] tx attempts = (Inl (SubmitError ''all rpc endpoints failed''), attempts)"
| "send_loop failing ((i, ep) # eps) tx attempts =
     (let attempts' = attempts @ [re_name ep]
      in if i \<in> set failing then send_loop failing eps tx attempts'
         else (Inr \<lparr>sr_signature = Some (''mock-rpc-'' @ re_name ep @ ''-'' @ pt_label tx),
                    sr_dry_run = False, sr_accepted = True, sr_detail = ''via '' @ re_name ep\<rparr>, attempts'))"

definition send_tx :: "mock_multi_rpc \<Rightarrow> prepared_tx \<Rightarrow> (exec_error + submit_result) \<times> mock_multi_rpc" where
  "send_tx m tx =
     (let (r, attempts) = send_loop (mr_failing m) (enumerate 0 (mr_endpoints m)) tx (mr_attempts m)
      in (r, m\<lparr>mr_attempts := attempts\<rparr>))"

record jito_bundle =
  jb_txs :: "prepared_tx list"
  jb_tip_lamports :: u64

record mock_jito_sender =
  mj_sent :: "jito_bundle list"
  mj_fail :: bool

definition mock_jito_new :: mock_jito_sender where
  "mock_jito_new = \<lparr>mj_sent = [], mj_fail = False\<rparr>"

definition set_fail :: "mock_jito_sender \<Rightarrow> bool \<Rightarrow> mock_jito_sender" where
  "set_fail m f = m\<lparr>mj_fail := f\<rparr>"

definition send_bundle ::
    "mock_jito_sender \<Rightarrow> jito_bundle \<Rightarrow> (exec_error + submit_result) \<times> mock_jito_sender" where
  "send_bundle m b =
     (if mj_fail m then (Inl (SubmitError ''mock jito fail''), m)
      else let m' = m\<lparr>mj_sent := mj_sent m @ [b]\<rparr>
           in (Inr \<lparr>sr_signature = Some (''mock-jito-'' @ show_nat (length (mj_sent m'))),
                 sr_dry_run = False, sr_accepted = True,
                 sr_detail = ''mock bundle len='' @ show_nat (length (jb_txs b)) @ '' tip=''
                   @ show_nat (unat (jb_tip_lamports b))\<rparr>, m'))"

section \<open>Opportunities\<close>

record opportunity_json =
  oj_dry_run :: bool
  oj_protocol :: string
  oj_account :: string
  oj_funding_strategy :: string
  oj_net_profit_usd_micro :: i64
  oj_expected_value_score :: i64
  oj_flash_fee_usd_micro :: u64
  oj_tip_usd_micro :: u64
  oj_capital_used_usd_micro :: u64
  oj_ix_labels :: "string list"
  oj_accepted :: bool
  oj_slot :: u64

definition opportunity_from_best ::
    "bool \<Rightarrow> string \<Rightarrow> opportunity_plan \<Rightarrow> scored_funding_path \<Rightarrow> string list \<Rightarrow> u64 \<Rightarrow> opportunity_json" where
  "opportunity_from_best dry account plan best labels slot =
     \<lparr>oj_dry_run = dry, oj_protocol = protocol_debug (sp_protocol best), oj_account = account,
      oj_funding_strategy = strategy_as_str (sp_strategy best),
      oj_net_profit_usd_micro = sp_net_profit_usd_micro best,
      oj_expected_value_score = sp_expected_value_score best,
      oj_flash_fee_usd_micro = sp_flash_fee_usd_micro best, oj_tip_usd_micro = sp_tip_usd_micro best,
      oj_capital_used_usd_micro = sp_capital_used_usd_micro best, oj_ix_labels = labels,
      oj_accepted = is_accept (sp_decision best), oj_slot = slot\<rparr>"

definition evaluate_funding ::
    "profit_config \<Rightarrow> protocol \<Rightarrow> i64 \<Rightarrow> u64 \<Rightarrow> u64 \<Rightarrow> u64 \<Rightarrow> u64 \<Rightarrow> u64 \<Rightarrow> u64 \<Rightarrow> opportunity_plan" where
  "evaluate_funding cfg protocol gross swap chain tip notional inventory flash_fee_bps =
     pick_best cfg (default_paths_for protocol gross swap chain tip notional inventory flash_fee_bps)"

fun strategy_ix_labels :: "funding_strategy \<Rightarrow> protocol \<Rightarrow> string list" where
  "strategy_ix_labels SaveFlashLoan p =
     [''ComputeBudget'', ''RefreshReserve*'', ''RefreshObligation'', ''FlashBorrowReserveLiquidity'',
      ''LiquidateObligationAndRedeemReserveCollateral'', ''SwapOptional'', ''FlashRepayReserveLiquidity'']"
| "strategy_ix_labels KaminoFlashBorrow p =
     [''ComputeBudget'', ''refresh_reserve*'', ''refresh_obligation'',
      ''CreateIdempotentAssociatedTokenAccount*'', ''flash_borrow_reserve_liquidity'',
      ''liquidate_v2'', ''swap_optional'', ''flash_repay_reserve_liquidity'']"
| "strategy_ix_labels Project0Receivership p =
     [''ComputeBudget'', ''start_liquidation'', ''withdraw'', ''swap_optional'', ''repay'', ''end_liquidation'']"
| "strategy_ix_labels Inventory Kamino =
     [''ComputeBudget'', ''refresh_reserve*'', ''refresh_obligation'',
      ''CreateIdempotentAssociatedTokenAccount*'', ''liquidate_v2'', ''swap_optional'']"
| "strategy_ix_labels Inventory Save =
     [''ComputeBudget'', ''RefreshReserve*'', ''RefreshObligation'', ''Liquidate'', ''SwapOptional'']"
| "strategy_ix_labels Inventory Project0 = [''ComputeBudget'', ''lending_account_liquidate'']"

section \<open>The engine\<close>

record exec_config =
  ec_dry_run :: bool
  ec_rpc_url :: string
  ec_jito_block_engine_url :: "string option"
  ec_bid_profile :: bid_profile

definition exec_config_default :: exec_config where
  "exec_config_default = \<lparr>ec_dry_run = True, ec_rpc_url = ''https://api.mainnet-beta.solana.com'',
     ec_jito_block_engine_url = None, ec_bid_profile = Balanced\<rparr>"

record execution_engine =
  ee_config :: exec_config
  ee_risk :: circuit_breaker
  ee_metrics :: metrics
  ee_blockhashes :: blockhash_cache
  ee_templates :: tx_template_cache

definition engine_new :: "exec_config \<Rightarrow> circuit_breaker \<Rightarrow> metrics \<Rightarrow> execution_engine" where
  "engine_new config risk m =
     \<lparr>ee_config = config, ee_risk = risk, ee_metrics = m, ee_blockhashes = blockhash_cache_new 60,
      ee_templates = template_cache_new\<rparr>"

text \<open>\<^verbatim>\<open>execute\<close>: the check reads the clock at \<open>now\<close>, the begin at \<open>later\<close>.\<close>

definition execute ::
    "nat \<Rightarrow> nat \<Rightarrow> execution_engine \<Rightarrow> prepared_tx \<Rightarrow> u64
      \<Rightarrow> (exec_error + submit_result) \<times> execution_engine" where
  "execute now later e tx staleness =
     (case check_allow now (ee_risk e) (pt_notional_usd_micro tx) staleness of
        (Inl r, risk1) \<Rightarrow> (Inl (RiskError r), e\<lparr>ee_risk := risk1\<rparr>)
      | (Inr _, risk1) \<Rightarrow>
          let m1 = (ee_metrics e)\<lparr>m_liquidations_attempted :=
                     counter_inc (m_liquidations_attempted (ee_metrics e))\<rparr>;
              risk2 = cb_begin later risk1 (pt_notional_usd_micro tx);
              profit = (if sint (pt_expected_profit_usd_micro tx) < 0 then 0
                        else pt_expected_profit_usd_micro tx);
              bid = compute_bid (ec_bid_profile (ee_config e)) profit
          in if ec_dry_run (ee_config e) then
               (Inr \<lparr>sr_signature = None, sr_dry_run = True, sr_accepted = True,
                     sr_detail = ''dry_run tip='' @ show_nat (unat (bq_jito_tip_lamports bid))
                       @ '' prio='' @ show_nat (unat (bq_priority_fee_micro_lamports bid))\<rparr>,
                e\<lparr>ee_risk := end_success risk2,
                  ee_metrics := m1\<lparr>m_dry_run_skips := counter_inc (m_dry_run_skips m1)\<rparr>\<rparr>)
             else
               (Inl (SubmitError ''live submit requires RPC/Jito credentials - see config''),
                e\<lparr>ee_risk := end_failure risk2,
                  ee_metrics := m1\<lparr>m_liquidations_failed := counter_inc (m_liquidations_failed m1)\<rparr>\<rparr>))"

section \<open>Lemmas\<close>

text \<open>The endpoints are tried in order until one is not failing.\<close>

lemma send_loop_spec:
  "send_loop failing (enumerate n eps) tx attempts =
     (case List.find (\<lambda>(i, ep). i \<notin> set failing) (enumerate n eps) of
        None \<Rightarrow> (Inl (SubmitError ''all rpc endpoints failed''), attempts @ map re_name eps)
      | Some (i, ep) \<Rightarrow>
          (Inr \<lparr>sr_signature = Some (''mock-rpc-'' @ re_name ep @ ''-'' @ pt_label tx),
                sr_dry_run = False, sr_accepted = True, sr_detail = ''via '' @ re_name ep\<rparr>,
           attempts @ map re_name (take (i - n + 1) eps)))"
proof (induction eps arbitrary: n attempts)
  case (Cons ep eps)
  have "n < i" if "List.find (\<lambda>(i, ep). i \<notin> set failing) (enumerate (Suc n) eps) = Some (i, e)" for i e
    using find_Some_set [OF that] by (auto simp: in_set_enumerate_eq)
  then show ?case
    by (auto simp: Cons.IH Suc_diff_Suc Let_def split: option.splits)
qed simp

text \<open>\<open>execute\<close> in terms of the breaker's steps.\<close>

lemma execute_cases:
  obtains (refused) r cb' where "check_allow now (ee_risk e) (pt_notional_usd_micro tx) st = (Inl r, cb')"
      "execute now later e tx st = (Inl (RiskError r), e\<lparr>ee_risk := cb'\<rparr>)"
  | (dry) cb' where "check_allow now (ee_risk e) (pt_notional_usd_micro tx) st = (Inr (), cb')"
      "ec_dry_run (ee_config e)"
      "ee_risk (snd (execute now later e tx st)) = end_success (cb_begin later cb' (pt_notional_usd_micro tx))"
      "ee_config (snd (execute now later e tx st)) = ee_config e"
      "ee_metrics (snd (execute now later e tx st)) = (ee_metrics e)
         \<lparr>m_liquidations_attempted := m_liquidations_attempted (ee_metrics e) + 1,
          m_dry_run_skips := m_dry_run_skips (ee_metrics e) + 1\<rparr>"
  | (live) cb' where "check_allow now (ee_risk e) (pt_notional_usd_micro tx) st = (Inr (), cb')"
      "\<not> ec_dry_run (ee_config e)"
      "ee_risk (snd (execute now later e tx st)) = end_failure (cb_begin later cb' (pt_notional_usd_micro tx))"
      "ee_config (snd (execute now later e tx st)) = ee_config e"
      "ee_metrics (snd (execute now later e tx st)) = (ee_metrics e)
         \<lparr>m_liquidations_attempted := m_liquidations_attempted (ee_metrics e) + 1,
          m_liquidations_failed := m_liquidations_failed (ee_metrics e) + 1\<rparr>"
proof -
  obtain res cb' where c: "check_allow now (ee_risk e) (pt_notional_usd_micro tx) st = (res, cb')" by fastforce
  show thesis
  proof (cases res)
    case (Inl r)
    with c show ?thesis by (intro refused) (simp_all add: execute_def)
  next
    case (Inr u)
    show ?thesis
    proof (cases "ec_dry_run (ee_config e)")
      case True
      with c Inr show ?thesis by (intro dry) (simp_all add: execute_def counter_inc_def counter_add_def Let_def)
    next
      case False
      with c Inr show ?thesis by (intro live) (simp_all add: execute_def counter_inc_def counter_add_def Let_def)
    qed
  qed
qed

text \<open>A run: each call is the time since the last one, the time between its two clock readings, the
  transaction and the staleness.\<close>

fun engine_run ::
    "(nat \<times> nat \<times> prepared_tx \<times> u64) list \<Rightarrow> execution_engine \<times> nat \<Rightarrow> execution_engine \<times> nat" where
  "engine_run [] s = s"
| "engine_run ((d1, d2, tx, st) # calls) (e, t) =
     engine_run calls (snd (execute (t + d1) (t + d1 + d2) e tx st), t + d1 + d2)"

lemma engine_run_induct:
  assumes "engine_run calls (e0, t0) = (e, t)" "P e0 t0"
    and "\<And>e t now later tx st. P e t \<Longrightarrow> t \<le> now \<Longrightarrow> now \<le> later \<Longrightarrow> P (snd (execute now later e tx st)) later"
  shows "P e t"
  using assms(1,2)
proof (induction calls arbitrary: e0 t0)
  case (Cons call calls)
  obtain d1 d2 tx st where call: "call = (d1, d2, tx, st)" by (cases call) auto
  have "P (snd (execute (t0 + d1) (t0 + d1 + d2) e0 tx st)) (t0 + d1 + d2)"
    by (rule assms(3) [OF Cons.prems(2)]) simp_all
  with Cons.prems(1) show ?case by (intro Cons.IH) (simp_all add: call)
qed simp

text \<open>The engine simulates the breaker's step relation, with nothing in flight between calls.\<close>

definition engine_inv :: "risk_limits \<Rightarrow> execution_engine \<Rightarrow> nat \<Rightarrow> bool" where
  "engine_inv lim e t \<longleftrightarrow> cb_in_flight (ee_risk e) = 0 \<and> (\<exists>t' \<le> t. risk_reach lim (ee_risk e, t'))
     \<and> m_liquidations_attempted (ee_metrics e) = m_dry_run_skips (ee_metrics e) + m_liquidations_failed (ee_metrics e)"

lemma begin_end_in_flight:
  assumes "check_allow now cb n st = (Inr (), cb')" "cb_in_flight cb = 0"
  shows "cb_in_flight (end_success (cb_begin later cb' n)) = 0"
    "cb_in_flight (end_failure (cb_begin later cb' n)) = 0"
  using assms by (simp_all add: check_allow_Inr end_success_def end_failure_def cb_begin_def trip_def
      sat_sub_def Let_def)

lemma engine_inv_step:
  assumes "engine_inv lim e t" "t \<le> now" "now \<le> later"
  shows "engine_inv lim (snd (execute now later e tx st)) later"
proof -
  obtain t' where r: "t' \<le> t" "risk_reach lim (ee_risk e, t')" and z: "cb_in_flight (ee_risk e) = 0"
    and m: "m_liquidations_attempted (ee_metrics e) = m_dry_run_skips (ee_metrics e) + m_liquidations_failed (ee_metrics e)"
    using assms(1) by (auto simp: engine_inv_def)
  have time: "t' \<le> now" using r assms(2) by simp
  show ?thesis
  proof (cases rule: execute_cases [where now = now and e = e and tx = tx and st = st and later = later])
    case (refused res cb')
    have "risk_reach lim (cb', now)"
      by (rule risk_reach.step [OF r(2) reject [OF time refused(1)]])
    moreover have "cb_in_flight cb' = 0"
      using check_allow_state [of now "ee_risk e" "pt_notional_usd_micro tx" st] refused(1) z by auto
    ultimately show ?thesis using refused(2) m assms(3) by (auto simp: engine_inv_def)
  next
    case (dry cb')
    have "risk_reach lim (end_success (cb_begin later cb' (pt_notional_usd_micro tx)), later)"
      by (rule risk_reach.step [OF risk_reach.step [OF r(2) admit [OF time assms(3) dry(1)]] success])
    then show ?thesis
      using dry(3,5) m begin_end_in_flight(1) [OF dry(1) z] by (auto simp: engine_inv_def)
  next
    case (live cb')
    have "risk_reach lim (end_failure (cb_begin later cb' (pt_notional_usd_micro tx)), later)"
      by (rule risk_reach.step [OF risk_reach.step [OF r(2) admit [OF time assms(3) live(1)]] failure])
    then show ?thesis
      using live(3,5) m begin_end_in_flight(2) [OF live(1) z] by (auto simp: engine_inv_def)
  qed
qed

section \<open>Properties\<close>

lemma engine_inv_start: "engine_inv lim (engine_new cfg (cb_new lim m) metrics_new) t"
  using risk_reach.init [of lim m t]
  by (auto simp: engine_inv_def engine_new_def metrics_new_def) (simp add: cb_new_def)

lemma engine_inv_budget:
  assumes "engine_inv lim e t" "rl_max_notional_per_minute_usd_micro lim \<noteq> - 1"
  shows "sum_list (map (\<lambda>(u, n). unat n)
        (filter (\<lambda>(u, n). t - u \<le> 60 * 10 ^ 9) (rw_events (cb_rolling (ee_risk e)))))
        \<le> unat (rl_max_notional_per_minute_usd_micro lim)"
proof -
  obtain t' where t: "t' \<le> t" "risk_reach lim (ee_risk e, t')" using assms(1) by (auto simp: engine_inv_def)
  have "risk_inv lim (ee_risk e, t)"
    using risk_reach_inv [OF t(2) assms(2)] t(1) by (rule risk_inv_prune(2))
  then show ?thesis by (auto simp: risk_inv_def window_notional_def)
qed

text \<open>
  Whatever transactions an engine executes, in either mode and at whatever times, nothing is in
  flight between calls, the notional begun in the last sixty seconds stays within the budget per
  minute, and every attempt is counted as a dry-run skip or as a failure.
\<close>

lemma engine_within_budget:
  assumes "engine_run calls (engine_new cfg (cb_new lim m) metrics_new, t0) = (e, t)"
    and "rl_max_notional_per_minute_usd_micro lim \<noteq> - 1"
  shows "cb_in_flight (ee_risk e) = 0
    \<and> sum_list (map (\<lambda>(u, n). unat n)
        (filter (\<lambda>(u, n). t - u \<le> 60 * 10 ^ 9) (rw_events (cb_rolling (ee_risk e)))))
        \<le> unat (rl_max_notional_per_minute_usd_micro lim)
    \<and> m_liquidations_attempted (ee_metrics e) = m_dry_run_skips (ee_metrics e) + m_liquidations_failed (ee_metrics e)"
proof -
  have "engine_inv lim e t"
    by (rule engine_run_induct [where P = "engine_inv lim", OF assms(1) engine_inv_start]) (rule engine_inv_step)
  then show ?thesis using engine_inv_budget [OF _ assms(2)] by (simp add: engine_inv_def)
qed

text \<open>The live engine: every attempt is a failure of the breaker's count.\<close>

definition live_inv :: "risk_limits \<Rightarrow> execution_engine \<Rightarrow> nat \<Rightarrow> bool" where
  "live_inv lim e t \<longleftrightarrow> \<not> ec_dry_run (ee_config e) \<and> cb_limits (ee_risk e) = lim
     \<and> (\<exists>k \<le> unat (rl_max_consecutive_failures lim). cb_consecutive_failures (ee_risk e) = word_of_nat k
          \<and> m_liquidations_attempted (ee_metrics e) = word_of_nat k
          \<and> m_liquidations_failed (ee_metrics e) = word_of_nat k
          \<and> (k = unat (rl_max_consecutive_failures lim) \<longrightarrow> cb_open (ee_risk e)))"

lemma live_inv_step:
  assumes lim: "rl_pause_on_breaker lim"
    and "live_inv lim e t"
  shows "live_inv lim (snd (execute now later e tx st)) later"
proof -
  let ?max = "unat (rl_max_consecutive_failures lim)"
  obtain k where k: "k \<le> ?max" "cb_consecutive_failures (ee_risk e) = word_of_nat k"
      "m_liquidations_attempted (ee_metrics e) = word_of_nat k"
      "m_liquidations_failed (ee_metrics e) = word_of_nat k" "k = ?max \<longrightarrow> cb_open (ee_risk e)"
    and e: "\<not> ec_dry_run (ee_config e)" "cb_limits (ee_risk e) = lim"
    using assms(2) by (auto simp: live_inv_def)
  show ?thesis
  proof (cases rule: execute_cases [where now = now and e = e and tx = tx and st = st and later = later])
    case (refused r cb')
    then show ?thesis
      using assms(2) check_allow_state [of now "ee_risk e" "pt_notional_usd_micro tx" st]
      by (auto simp: live_inv_def)
  next
    case (dry cb')
    with e show ?thesis by simp
  next
    case (live cb')
    let ?c = "cb_begin later cb' (pt_notional_usd_micro tx)"
    have c: "cb_limits ?c = lim" "cb_consecutive_failures ?c = word_of_nat k" "\<not> cb_open (ee_risk e)"
      using live(1) k(2) e(2) by (auto simp: check_allow_Inr cb_begin_def)
    then have less: "Suc k \<le> ?max" using k(1,5) by simp
    have "unat (word_of_nat (Suc k) :: u32) = Suc k"
      using less unat_bound32 [of "rl_max_consecutive_failures lim"]
      by (simp only: unat_of_nat take_bit_eq_mod) simp
    then have le: "rl_max_consecutive_failures lim \<le> word_of_nat (Suc k)" if "Suc k = ?max"
      using that by (simp only: word_le_nat_alt)
    have "cb_open (end_failure ?c)" if "Suc k = ?max"
      using c(1,2) lim le [OF that] by (simp add: end_failure_fields add.commute)
    then show ?thesis
      using less e(1) c k(3,4) live(3-5) unfolding live_inv_def
      by (intro conjI exI [of _ "Suc k"]) (simp_all add: end_failure_fields add.commute)
  qed
qed

lemma live_inv_start:
  "\<not> ec_dry_run cfg \<Longrightarrow> rl_max_consecutive_failures lim \<noteq> 0
    \<Longrightarrow> live_inv lim (engine_new cfg (cb_new lim m) metrics_new) t"
  by (auto simp: live_inv_def engine_new_def cb_new_def metrics_new_def unat_eq_zero)

lemma live_inv_bound:
  assumes "live_inv lim e t"
  shows "unat (m_liquidations_attempted (ee_metrics e)) \<le> unat (rl_max_consecutive_failures lim)
    \<and> m_liquidations_failed (ee_metrics e) = m_liquidations_attempted (ee_metrics e)
    \<and> (unat (m_liquidations_attempted (ee_metrics e)) = unat (rl_max_consecutive_failures lim)
        \<longrightarrow> is_open (ee_risk e))"
proof -
  from assms obtain k where k: "k \<le> unat (rl_max_consecutive_failures lim)"
      "m_liquidations_attempted (ee_metrics e) = word_of_nat k"
      "m_liquidations_failed (ee_metrics e) = word_of_nat k"
      "k = unat (rl_max_consecutive_failures lim) \<longrightarrow> cb_open (ee_risk e)"
    by (auto simp: live_inv_def)
  have "unat (word_of_nat k :: u64) = k"
    using k(1) unat_bound32 [of "rl_max_consecutive_failures lim"]
    by (simp only: unat_of_nat take_bit_eq_mod) simp
  with k show ?thesis by (auto simp: is_open_def)
qed

text \<open>
  A live engine disables itself: since no live submission is wired, every attempt fails, and a
  breaker that pauses on failures lets through no more attempts than the configured number of
  consecutive failures, however many calls are made; once it has, it is open.
\<close>

lemma live_attempts_bounded:
  assumes "engine_run calls (engine_new cfg (cb_new lim m) metrics_new, t0) = (e, t)"
    and "\<not> ec_dry_run cfg" "rl_pause_on_breaker lim" "rl_max_consecutive_failures lim \<noteq> 0"
  shows "unat (m_liquidations_attempted (ee_metrics e)) \<le> unat (rl_max_consecutive_failures lim)
    \<and> m_liquidations_failed (ee_metrics e) = m_liquidations_attempted (ee_metrics e)
    \<and> (unat (m_liquidations_attempted (ee_metrics e)) = unat (rl_max_consecutive_failures lim)
        \<longrightarrow> is_open (ee_risk e))"
proof -
  have "live_inv lim e t"
    by (rule engine_run_induct [where P = "live_inv lim", OF assms(1) live_inv_start [OF assms(2,4)]])
      (rule live_inv_step [OF assms(3)])
  then show ?thesis by (rule live_inv_bound)
qed

lemma profile_fees:
  "unat (profit_share_bps prof) \<le> 6000" "unat (base_tip_lamports prof) \<le> 1000000"
  "unat (base_priority_micro_lamports prof) \<le> 1000000"
  by (cases prof; simp)+

text \<open>
  Below a profit of 2^62 micro-dollars the bid is exact: the tip is the profile's share of the
  profit scaled by five, but at least the profile's base tip, and the priority fee is the base fee
  times one plus the profit in dollars, capped at eleven times.
\<close>

lemma compute_bid_exact:
  assumes "unat p < 2 ^ 62"
  shows "unat (bq_jito_tip_lamports (compute_bid prof p)) =
      max (unat p * unat (profit_share_bps prof) * 5 div 10000) (unat (base_tip_lamports prof))
    \<and> unat (bq_priority_fee_micro_lamports (compute_bid prof p)) =
      unat (base_priority_micro_lamports prof) * (1 + min (unat p div 1000000) 10)"
proof -
  let ?s = "profit_share_bps prof"
  let ?t = "sat_mul (sat_mul (ucast p :: u128) (ucast ?s)) 5 div 10000"
  have "unat p * unat ?s \<le> unat p * 6000" using profile_fees(1) by (rule mult_le_mono2)
  moreover have "unat p * 6000 < 2 ^ 64 * 2000" using assms by simp
  ultimately have b: "unat p * unat ?s < 2 ^ 64 * 2000" by (rule le_less_trans)
  then have "unat p * unat ?s * 5 < 2 ^ 128" "unat p * unat ?s < 2 ^ 128" by simp_all
  then have "unat ?t = unat p * unat ?s * 5 div 10000"
    by (simp add: unat_div unat_sat_mul ucast_exact)
  moreover have "unat p * unat ?s * 5 div 10000 < 2 ^ 64"
    using b by (simp add: div_less_iff_less_mult)
  ultimately have tip: "unat (ucast ?t :: u64) = unat p * unat ?s * 5 div 10000"
    by (simp add: unat_ucast128_64)
  have max: "unat (max v w) = max (unat v) (unat w)" for v w :: u64
    by (simp add: max_def word_le_nat_alt)
  have min: "unat (min v w) = min (unat v) (unat w)" for v w :: u64
    by (simp add: min_def word_le_nat_alt)
  have bump: "unat (1 + min (p div 1000000) 10 :: u64) = 1 + min (unat p div 1000000) 10"
    by (subst unat_plus_exact) (simp_all add: min unat_div)
  have "unat (base_priority_micro_lamports prof) * (1 + min (unat p div 1000000) 10) \<le> 1000000 * 11"
    using profile_fees(3) by (intro mult_le_mono) simp_all
  then have "unat (sat_mul (base_priority_micro_lamports prof) (1 + min (p div 1000000) 10)) =
      unat (base_priority_micro_lamports prof) * (1 + min (unat p div 1000000) 10)"
    unfolding bump [symmetric] by (intro sat_mul_exact) simp
  then show ?thesis
    by (simp add: compute_bid_def Let_def max tip)
qed

definition sample_tx :: prepared_tx where
  "sample_tx = \<lparr>pt_label = ''liq'', pt_protocol = ''Kamino'', pt_account = ''acct'',
     pt_notional_usd_micro = 1000000, pt_expected_profit_usd_micro = 50000, pt_wire = [], pt_ixs = [],
     pt_instructions = [], pt_funding_strategy = None\<rparr>"

end
