(* ===== verification/EnvFile.thy ===== *)
theory EnvFile
  imports Strings
begin

text \<open>
  \<^verbatim>\<open>crates/liq-streaming/src/local_env.rs\<close> and \<^verbatim>\<open>redact.rs\<close>: the parser of the
  environment file, its effect on the process environment (a map), the endpoint list, and the
  redaction of URLs. The file system is an argument; texts are ASCII. A slice out of range and
  a NUL character handed to \<^verbatim>\<open>set_var\<close> panic: the value \<open>None\<close>.
\<close>

type_synonym process_env = "string \<rightharpoonup> string"

section \<open>Redaction\<close>

definition redacted :: string where
  "redacted = ''<redacted>''"

definition host_port :: "string \<Rightarrow> string" where
  "host_port rest = last (split_on (\<lambda>c. c = CHR ''@'') (hd (split_on (\<lambda>c. c \<in> {CHR ''/'', CHR ''?'', CHR ''#''}) rest)))"

definition rpc_url_host_only :: "string \<Rightarrow> string" where
  "rpc_url_host_only url =
     (let t = trim url; show = (\<lambda>scheme rest.
            if host_port rest = '''' then redacted else scheme @ ''://'' @ host_port rest)
      in if t = '''' then ''''
         else case strip_prefix ''https://'' t of Some rest \<Rightarrow> show ''https'' rest
         | None \<Rightarrow> (case strip_prefix ''http://'' t of Some rest \<Rightarrow> show ''http'' rest
         | None \<Rightarrow> redacted))"

text \<open>The ellipsis is the three bytes of its UTF-8 encoding.\<close>

definition short_b58 :: "string \<Rightarrow> string" where
  "short_b58 s =
     (let t = trim s
      in if length t \<le> 10 then t
         else take 4 t @ [CHR 0xE2, CHR 0x80, CHR 0xA6] @ drop (length t - 4) t)"

section \<open>The environment file\<close>

definition unquote :: "string \<Rightarrow> string option" where
  "unquote v =
     (if (starts_with v ''\"'' \<and> ends_with v ''\"'') \<or> (starts_with v [CHR 0x27] \<and> ends_with v [CHR 0x27])
      then if length v < 2 then None else Some (butlast (tl v))
      else Some v)"

text \<open>A line: nothing to insert, a key with its value, or a panic.\<close>

definition parse_env_line :: "string \<Rightarrow> (string \<times> string) list option" where
  "parse_env_line line0 =
     (let line = trim line0
      in if line = '''' \<or> starts_with line ''#'' then Some []
         else case split_once (CHR ''='') line of
           None \<Rightarrow> Some []
         | Some (k0, v0) \<Rightarrow>
             let k = trim k0
             in if k = '''' then Some [] else map_option (\<lambda>v. [(k, v)]) (unquote (trim v0)))"

fun parse_env_lines :: "string list \<Rightarrow> (string \<times> string) list option" where
  "parse_env_lines [] = Some []"
| "parse_env_lines (l # ls) =
     (case parse_env_line l of None \<Rightarrow> None
      | Some kv \<Rightarrow> map_option ((@) kv) (parse_env_lines ls))"

text \<open>The map the lines are inserted into, a later line winning.\<close>

definition parse_env_file :: "string \<Rightarrow> (string \<rightharpoonup> string) option" where
  "parse_env_file contents = map_option (\<lambda>kvs. map_of (rev kvs)) (parse_env_lines (str_lines contents))"

definition set_var :: "string \<Rightarrow> string \<Rightarrow> process_env \<Rightarrow> process_env option" where
  "set_var k v env = (if CHR 0x00 \<in> set k \<union> set v then None else Some (env(k \<mapsto> v)))"

text \<open>One file: the keys it has, sorted, and the variables that were not set before.\<close>

fun set_missing :: "(string \<times> string) list \<Rightarrow> process_env \<Rightarrow> process_env option" where
  "set_missing [] env = Some env"
| "set_missing ((k, v) # kvs) env =
     (if env k = None then Option.bind (set_var k v env) (set_missing kvs) else set_missing kvs env)"

definition file_entries :: "(string \<times> string) list \<Rightarrow> (string \<times> string) list" where
  "file_entries kvs = map (\<lambda>k. (k, the (map_of (rev kvs) k))) (sort (remdups (map fst kvs)))"

fun load_files ::
    "(string \<Rightarrow> string option) \<Rightarrow> string list \<Rightarrow> process_env
      \<Rightarrow> ((string \<times> string list) list \<times> process_env) option" where
  "load_files fs [] env = Some ([], env)"
| "load_files fs (path # paths) env =
     (case fs path of
        None \<Rightarrow> load_files fs paths env
      | Some contents \<Rightarrow> Option.bind (parse_env_lines (str_lines contents)) (\<lambda>kvs.
          Option.bind (set_missing (file_entries kvs) env) (\<lambda>env'.
            map_option (\<lambda>(loaded, env''). ((path, map fst (file_entries kvs)) # loaded, env''))
              (load_files fs paths env'))))"

definition load_local_env_files ::
    "(string \<Rightarrow> string option) \<Rightarrow> string option \<Rightarrow> process_env
      \<Rightarrow> ((string \<times> string list) list \<times> process_env) option" where
  "load_local_env_files fs extra env =
     load_files fs ((case extra of Some p \<Rightarrow> [p] | None \<Rightarrow> []) @ [''config/local.env'', ''.env'']) env"

definition nonempty_trimmed :: "string list \<Rightarrow> string list" where
  "nonempty_trimmed parts = filter (\<lambda>t. t \<noteq> '''') (map trim parts)"

definition rpc_urls_from_env :: "process_env \<Rightarrow> string list" where
  "rpc_urls_from_env env =
     (let urls = (case env ''RPC_URLS'' of
            Some s \<Rightarrow> nonempty_trimmed (split_on (\<lambda>c. c = CHR '','') s) | None \<Rightarrow> []);
          out = (if urls = [] then (case env ''RPC_URL'' of Some u \<Rightarrow> nonempty_trimmed [u] | None \<Rightarrow> [])
                 else urls)
      in dedup out)"

definition rpc_hosts_redacted :: "string list \<Rightarrow> string list" where
  "rpc_hosts_redacted = map rpc_url_host_only"

section \<open>Properties\<close>

text \<open>
  A redacted URL is the scheme and the host, whatever the user information before the host and
  whatever path, query or fragment follows it.
\<close>

lemma redaction_hides:
  assumes "scheme \<in> {''https'', ''http''}" "host \<noteq> ''''"
    and "set user \<inter> {CHR ''/'', CHR ''?'', CHR ''#''} = {}"
    and "set host \<inter> {CHR ''/'', CHR ''?'', CHR ''#'', CHR ''@''} = {}"
    and "sep \<in> {CHR ''/'', CHR ''?'', CHR ''#''}"
  shows "rpc_url_host_only (scheme @ ''://'' @ user @ ''@'' @ host @ sep # secret) = scheme @ ''://'' @ host"
proof -
  let ?stop = "\<lambda>c. c \<in> {CHR ''/'', CHR ''?'', CHR ''#''}"
  have sep: "\<not> is_whitespace sep" using assms(5) by (auto simp: is_whitespace_def)
  define tail where "tail = rev (dropWhile is_whitespace (rev secret))"
  have "trim (p # q @ sep # secret) = p # q @ sep # tail" if "\<not> is_whitespace p" for p q
    using that sep by (simp add: trim_def tail_def dropWhile_append)
  from this [of "hd scheme" "tl scheme @ ''://'' @ user @ ''@'' @ host"] assms(1)
  have t: "trim (scheme @ ''://'' @ user @ ''@'' @ host @ sep # secret)
      = scheme @ ''://'' @ user @ ''@'' @ host @ sep # tail"
    by (auto simp: is_whitespace_def)
  have "\<forall>c \<in> set (user @ ''@'' @ host). \<not> ?stop c" using assms(3,4) by auto
  then have hd: "hd (split_on ?stop ((user @ ''@'' @ host) @ sep # tail)) = user @ ''@'' @ host"
    using assms(5) by (subst split_on_append) simp_all
  have "last (split_on (\<lambda>c. c = CHR ''@'') (user @ CHR ''@'' # host)) = host"
    using assms(4) by (intro last_split_on_append) auto
  with hd have "host_port (user @ ''@'' @ host @ sep # tail) = host"
    unfolding host_port_def by simp
  then show ?thesis
    using assms(1,2) unfolding rpc_url_host_only_def t Let_def by (auto simp: strip_prefix_def)
qed

definition env_key_ok :: "string \<Rightarrow> bool" where
  "env_key_ok k \<longleftrightarrow> k \<noteq> '''' \<and> \<not> is_whitespace (hd k) \<and> \<not> is_whitespace (last k) \<and> hd k \<noteq> CHR ''#''
     \<and> CHR ''='' \<notin> set k \<and> CHR 0x0A \<notin> set k"

text \<open>A line as it would be written, with the value in quotes.\<close>

definition env_line :: "string \<times> string \<Rightarrow> string" where
  "env_line kv = fst kv @ ''=\"'' @ snd kv @ ''\"''"

definition env_text :: "(string \<times> string) list \<Rightarrow> string" where
  "env_text kvs = concat (map (\<lambda>kv. env_line kv @ [CHR 0x0A]) kvs)"

lemma parse_env_line_ok:
  assumes "env_key_ok (fst kv)"
  shows "parse_env_line (env_line kv) = Some [kv]"
proof -
  obtain k v where kv: "kv = (k, v)" by fastforce
  have k: "k \<noteq> ''''" "\<not> is_whitespace (hd k)" "\<not> is_whitespace (last k)" "hd k \<noteq> CHR ''#''" "CHR ''='' \<notin> set k"
    using assms by (auto simp: env_key_ok_def kv)
  have q: "\<not> is_whitespace (CHR 0x22)" by (simp add: is_whitespace_def)
  have "trim (env_line kv) = env_line kv"
    by (rule trim_unless) (use k q in \<open>auto simp: env_line_def kv\<close>)
  moreover have "\<not> starts_with (env_line kv) ''#''"
    using k(1,4) by (cases k) (auto simp: env_line_def starts_with_def kv)
  moreover have "split_once (CHR ''='') (env_line kv) = Some (k, ''\"'' @ v @ ''\"'')"
    using split_once_found [OF k(5), of "''\"'' @ v @ ''\"''"] by (simp add: env_line_def kv)
  moreover have "trim k = k" using k by (intro trim_unless) auto
  moreover have "trim (''\"'' @ v @ ''\"'') = ''\"'' @ v @ ''\"''"
    by (rule trim_unless) (use q in auto)
  moreover have "unquote (''\"'' @ v @ ''\"'') = Some v"
    by (simp add: unquote_def starts_with_def ends_with_def suffix_def)
  ultimately show ?thesis
    using k(1) by (simp add: parse_env_line_def Let_def kv env_line_def)
qed

text \<open>
  Every list of variables written to the environment file, one quoted value per line, is read
  back exactly, whatever the values hold except line feeds; of several lines for a key the last
  one counts.
\<close>

lemma env_file_roundtrip:
  assumes "\<forall>(k, v) \<in> set kvs. env_key_ok k \<and> CHR 0x0A \<notin> set v"
  shows "parse_env_file (env_text kvs) = Some (map_of (rev kvs))"
proof -
  have "parse_env_lines (str_lines (env_text kvs)) = Some kvs"
    using assms
  proof (induction kvs)
    case (Cons kv kvs)
    then have ok: "env_key_ok (fst kv)" "CHR 0x0A \<notin> set (env_line kv)"
      by (auto simp: env_line_def env_key_ok_def)
    have "strip_cr (env_line kv) = env_line kv" by (simp add: strip_cr_def env_line_def)
    with ok Cons show ?case
      by (simp add: env_text_def str_lines_Cons parse_env_line_ok)
  qed (simp add: env_text_def)
  then show ?thesis by (simp add: parse_env_file_def)
qed

section \<open>Loading\<close>

lemma file_entries_facts:
  "map_of (file_entries kvs) = map_of (rev kvs)"
  "distinct (map fst (file_entries kvs))"
  "sorted (map fst (file_entries kvs))"
proof -
  have "map_of (map (\<lambda>k. (k, the (map_of (rev kvs) k))) (sort (remdups (map fst kvs)))) k = map_of (rev kvs) k" for k
  proof (cases "k \<in> fst ` set kvs")
    case True
    then have "map_of (rev kvs) k \<noteq> None" by (simp add: map_of_eq_None_iff)
    with True show ?thesis by (simp add: map_of_map_restrict restrict_map_def)
  next
    case False
    then have "map_of (rev kvs) k = None" by (simp add: map_of_eq_None_iff)
    with False show ?thesis by (simp add: map_of_map_restrict restrict_map_def)
  qed
  then show "map_of (file_entries kvs) = map_of (rev kvs)" by (auto simp: file_entries_def)
qed (simp_all add: file_entries_def comp_def)

lemma set_missing_Some:
  "set_missing kvs env = Some env' \<Longrightarrow> distinct (map fst kvs) \<Longrightarrow> env' = map_of kvs ++ env"
proof (induction kvs arbitrary: env)
  case (Cons kv kvs)
  obtain k v where kv: "kv = (k, v)" by fastforce
  have "map_of kvs k = None" using Cons.prems(2) by (simp add: kv map_of_eq_None_iff)
  with Cons show ?case
    by (fastforce simp: kv set_var_def map_add_def fun_eq_iff split: if_splits option.splits)
qed simp

text \<open>A variable keeps its value from the process, or else gets it from the first file that has it.\<close>

lemma load_files_precedence:
  assumes "load_files fs paths env = Some (loaded, env')"
  shows "env' = foldl (\<lambda>m p. case fs p of None \<Rightarrow> m | Some s \<Rightarrow> the (parse_env_file s) ++ m) env paths
    \<and> map fst loaded = filter (\<lambda>p. fs p \<noteq> None) paths
    \<and> (\<forall>(p, ks) \<in> set loaded. sorted ks \<and> set ks = dom (the (parse_env_file (the (fs p)))))"
  using assms
proof (induction paths arbitrary: env loaded)
  case (Cons p paths)
  show ?case
  proof (cases "fs p")
    case (Some s)
    with Cons.prems obtain kvs m l where parts: "parse_env_lines (str_lines s) = Some kvs"
      "set_missing (file_entries kvs) env = Some m" "load_files fs paths m = Some (l, env')"
      "loaded = (p, map fst (file_entries kvs)) # l"
      by (auto simp: bind_eq_Some_conv)
    have fil: "the (parse_env_file s) = map_of (file_entries kvs)"
      by (simp add: parse_env_file_def parts(1) file_entries_facts)
    have keys: "set (map fst (file_entries kvs)) = dom (map_of (file_entries kvs))"
      by (simp add: dom_map_of_conv_image_fst)
    from Cons.IH [OF parts(3)] set_missing_Some [OF parts(2) file_entries_facts(2)] Some fil
      keys file_entries_facts(3) [of kvs]
    show ?thesis by (auto simp: parts(4))
  qed (use Cons in simp)
qed simp

lemma nonempty_trimmed_facts: "u \<in> set (nonempty_trimmed parts) \<Longrightarrow> u \<noteq> ''''"
  by (auto simp: nonempty_trimmed_def)

lemma rpc_urls_distinct: "distinct (rpc_urls_from_env env)" "'''' \<notin> set (rpc_urls_from_env env)"
  by (auto simp: rpc_urls_from_env_def Let_def dest: nonempty_trimmed_facts split: option.splits if_splits)

end
