(* ===== verification/RpcPool.thy ===== *)
theory RpcPool
  imports Bootstrap EnvFile
begin

text \<open>
  The rotating JSON-RPC pool of \<^verbatim>\<open>crates/liq-streaming/src/rpc_pool.rs\<close>. The endpoints
  are a handler with a state of its own: it answers a request to the endpoint with a given
  index, or times out, and says how many microseconds that took. The waiting after a rate limit
  changes nothing but the time. A remainder by zero and an index out of range are the value
  \<open>None\<close>.
\<close>

record endpoint_stats =
  es_host :: string
  es_requests :: u64
  es_successes :: u64
  es_errors :: u64
  es_rotations_away :: u64
  es_latency_us_sum :: u64
  es_last_error_kind :: "string option"

definition endpoint_stats_new :: "string \<Rightarrow> endpoint_stats" where
  "endpoint_stats_new host = \<lparr>es_host = host, es_requests = 0, es_successes = 0, es_errors = 0,
     es_rotations_away = 0, es_latency_us_sum = 0, es_last_error_kind = None\<rparr>"

definition avg_latency_us :: "endpoint_stats \<Rightarrow> u64 option" where
  "avg_latency_us s =
     (if es_successes s = 0 then None else Some (es_latency_us_sum s div es_successes s))"

datatype rpc_fail_kind = RateLimited | ServerError | Timeout | Transport | RpcApp | Other

fun fail_kind_as_str :: "rpc_fail_kind \<Rightarrow> string" where
  "fail_kind_as_str RateLimited = ''429''"
| "fail_kind_as_str ServerError = ''5xx''"
| "fail_kind_as_str Timeout = ''timeout''"
| "fail_kind_as_str Transport = ''transport''"
| "fail_kind_as_str RpcApp = ''rpc''"
| "fail_kind_as_str Other = ''other''"

definition should_rotate :: "rpc_fail_kind \<Rightarrow> bool" where
  "should_rotate kind \<longleftrightarrow> kind \<in> {RateLimited, ServerError, Timeout, Transport}"

definition classify_text :: "bool \<Rightarrow> string \<Rightarrow> rpc_fail_kind" where
  "classify_text http s =
     (let has = str_contains (to_lowercase s)
      in if has ''429'' \<or> has ''too many request'' then RateLimited
         else if has ''500'' \<or> has ''502'' \<or> has ''503'' \<or> has ''504'' \<or> has ''http 5'' then ServerError
         else if has ''timeout'' \<or> has ''timed out'' \<or> has ''deadline'' then Timeout
         else if http then Transport else RpcApp)"

fun classify_error :: "bootstrap_error \<Rightarrow> rpc_fail_kind" where
  "classify_error (HttpError s) = classify_text True s"
| "classify_error (RpcError s) = classify_text False s"
| "classify_error (ConfigError s) = Other"
| "classify_error (DecodeFailure s) = Other"

record rpc_pool =
  rp_urls :: "string list"
  rp_index :: nat
  rp_stats :: "endpoint_stats list"
  rp_max_attempts :: nat

definition pool_of :: "string list \<Rightarrow> nat \<Rightarrow> rpc_pool" where
  "pool_of urls attempts = \<lparr>rp_urls = urls, rp_index = 0,
     rp_stats = map (\<lambda>u. endpoint_stats_new (rpc_url_host_only u)) urls, rp_max_attempts = attempts\<rparr>"

definition from_urls :: "string list \<Rightarrow> bootstrap_error + rpc_pool" where
  "from_urls urls0 =
     (let urls = filter (\<lambda>u. u \<noteq> '''') (map trim urls0)
      in if urls = [] then
           Inl (ConfigError ''no RPC URLs configured (set RPC_URLS or RPC_URL in config/local.env)'')
         else case List.find (\<lambda>u. str_contains u ''YOUR_'') urls of
           Some u \<Rightarrow> Inl (ConfigError (''placeholder RPC URL ('' @ rpc_url_host_only u @ '')''))
         | None \<Rightarrow> Inr (pool_of urls (length urls)))"

definition mock_for_tests :: "nat \<Rightarrow> rpc_pool" where
  "mock_for_tests n =
     pool_of (map (\<lambda>i. ''https://mock-'' @ show_nat i @ ''.example/key'') [0..<n]) (max n 1)"

definition pool_len :: "rpc_pool \<Rightarrow> nat" where
  "pool_len p = length (rp_urls p)"

definition current_index :: "rpc_pool \<Rightarrow> nat" where
  "current_index p = rp_index p mod max (length (rp_urls p)) 1"

definition current_host :: "rpc_pool \<Rightarrow> string option" where
  "current_host p =
     (if current_index p < length (rp_urls p) then Some (rpc_url_host_only (rp_urls p ! current_index p)) else None)"

definition update_stats :: "nat \<Rightarrow> (endpoint_stats \<Rightarrow> endpoint_stats) \<Rightarrow> rpc_pool \<Rightarrow> rpc_pool" where
  "update_stats idx f p =
     (if idx < length (rp_stats p) then p\<lparr>rp_stats := (rp_stats p)[idx := f (rp_stats p ! idx)]\<rparr> else p)"

definition advance :: "rpc_pool \<Rightarrow> nat \<Rightarrow> rpc_fail_kind \<Rightarrow> rpc_pool" where
  "advance p src kind =
     (let n = length (rp_urls p)
      in if n = 0 then p
         else update_stats src (\<lambda>s. s\<lparr>es_rotations_away := es_rotations_away s + 1,
                                     es_last_error_kind := Some (fail_kind_as_str kind)\<rparr>)
                (p\<lparr>rp_index := (src + 1) mod n\<rparr>))"

type_synonym ('s, 'v) rpc_handler = "'s \<Rightarrow> nat \<Rightarrow> 'v \<Rightarrow> (bootstrap_error + 'v) option \<times> u64 \<times> 's"

fun record_result :: "u64 \<Rightarrow> bootstrap_error + 'v \<Rightarrow> endpoint_stats \<Rightarrow> endpoint_stats" where
  "record_result elapsed (Inr v) s =
     s\<lparr>es_successes := es_successes s + 1, es_latency_us_sum := sat_add (es_latency_us_sum s) elapsed\<rparr>"
| "record_result elapsed (Inl e) s =
     s\<lparr>es_errors := es_errors s + 1, es_last_error_kind := Some (fail_kind_as_str (classify_error e))\<rparr>"

definition post_once ::
    "('s, 'v) rpc_handler \<Rightarrow> rpc_pool \<Rightarrow> 's \<Rightarrow> nat \<Rightarrow> 'v \<Rightarrow> (bootstrap_error + 'v) \<times> rpc_pool \<times> 's" where
  "post_once h p s idx body =
     (let p1 = update_stats idx (\<lambda>st. st\<lparr>es_requests := es_requests st + 1\<rparr>) p;
          (answer, elapsed, s') = h s idx body;
          result = (case answer of Some r \<Rightarrow> r | None \<Rightarrow> Inl (HttpError ''timeout waiting for RPC''))
      in (result, update_stats idx (record_result elapsed result) p1, s'))"

fun post_loop ::
    "('s, 'v) rpc_handler \<Rightarrow> nat \<Rightarrow> nat \<Rightarrow> nat \<Rightarrow> 'v \<Rightarrow> nat list \<Rightarrow> bootstrap_error \<Rightarrow> rpc_pool \<Rightarrow> 's
      \<Rightarrow> (bootstrap_error + 'v) \<times> rpc_pool \<times> 's" where
  "post_loop h n start attempts body [] last_err p s = (Inl last_err, p, s)"
| "post_loop h n start attempts body (attempt # rest) last_err p s =
     (let idx = (start + attempt) mod n
      in case post_once h p s idx body of
           (Inr v, p1, s1) \<Rightarrow> (Inr v, p1\<lparr>rp_index := idx\<rparr>, s1)
         | (Inl e, p1, s1) \<Rightarrow>
             let kind = classify_error e
             in if should_rotate kind \<and> attempt + 1 < attempts then
                  post_loop h n start attempts body rest e (advance p1 idx kind) s1
                else if \<not> should_rotate kind then (Inl e, p1, s1)
                else post_loop h n start attempts body rest e p1 s1)"

definition post_json ::
    "('s, 'v) rpc_handler \<Rightarrow> rpc_pool \<Rightarrow> 's \<Rightarrow> 'v \<Rightarrow> ((bootstrap_error + 'v) \<times> rpc_pool \<times> 's) option" where
  "post_json h p s body =
     (let n = length (rp_urls p); attempts = min (max (rp_max_attempts p) 1) (max n 1)
      in if n = 0 then None
         else Some (post_loop h n (current_index p) attempts body [0..<attempts] (RpcError ''no attempts'') p s))"

section \<open>The shape of a pool\<close>

definition pool_wf :: "rpc_pool \<Rightarrow> bool" where
  "pool_wf p \<longleftrightarrow> rp_urls p \<noteq> [] \<and> rp_max_attempts p = length (rp_urls p) \<and> rp_index p < length (rp_urls p)
     \<and> map es_host (rp_stats p) = map rpc_url_host_only (rp_urls p)
     \<and> (\<forall>s \<in> set (rp_stats p). es_requests s = es_successes s + es_errors s)"

lemma pool_of_wf: "urls \<noteq> [] \<Longrightarrow> pool_wf (pool_of urls (length urls))"
  by (auto simp: pool_of_def pool_wf_def endpoint_stats_new_def)

lemma from_urls_wf: "from_urls urls = Inr p \<Longrightarrow> pool_wf p"
  using pool_of_wf [of "filter (\<lambda>u. u \<noteq> '''') (map trim urls)"]
  by (auto simp: from_urls_def Let_def split: if_splits option.splits)

lemma mock_wf: "0 < n \<Longrightarrow> pool_wf (mock_for_tests n)"
  using pool_of_wf [of "map (\<lambda>i. ''https://mock-'' @ show_nat i @ ''.example/key'') [0..<n]"]
  by (simp add: mock_for_tests_def max_absorb1 Suc_le_eq)

lemma update_stats_frame [simp]:
  "rp_urls (update_stats i f p) = rp_urls p" "rp_index (update_stats i f p) = rp_index p"
  "rp_max_attempts (update_stats i f p) = rp_max_attempts p"
  "length (rp_stats (update_stats i f p)) = length (rp_stats p)"
  by (simp_all add: update_stats_def)

lemma nth_update_stats:
  "j < length (rp_stats p) \<Longrightarrow> rp_stats (update_stats i f p) ! j = (if i = j then f (rp_stats p ! j) else rp_stats p ! j)"
  by (simp add: update_stats_def)

lemma advance_frame [simp]:
  "rp_urls (advance p i k) = rp_urls p" "rp_max_attempts (advance p i k) = rp_max_attempts p"
  "length (rp_stats (advance p i k)) = length (rp_stats p)"
  by (simp_all add: advance_def Let_def)

lemma nth_advance:
  "j < length (rp_stats p) \<Longrightarrow> rp_urls p \<noteq> [] \<Longrightarrow> rp_stats (advance p i k) ! j =
    (if i = j then (rp_stats p ! j)\<lparr>es_rotations_away := es_rotations_away (rp_stats p ! j) + 1,
        es_last_error_kind := Some (fail_kind_as_str k)\<rparr> else rp_stats p ! j)"
  by (simp add: advance_def Let_def nth_update_stats)

section \<open>What a call does\<close>

text \<open>Endpoints whose answers are fixed for the duration of a call.\<close>

definition fixed_answers :: "(nat \<Rightarrow> bootstrap_error + 'v) \<Rightarrow> (nat \<Rightarrow> u64) \<Rightarrow> (unit, 'v) rpc_handler" where
  "fixed_answers ans us s i body = (Some (ans i), us i, s)"

fun retriable :: "bootstrap_error + 'v \<Rightarrow> bool" where
  "retriable (Inl e) = should_rotate (classify_error e)"
| "retriable (Inr v) = False"

text \<open>The order in which a call tries the endpoints, and those it gets to.\<close>

definition try_order :: "nat \<Rightarrow> nat \<Rightarrow> nat \<Rightarrow> nat list" where
  "try_order n start a = map (\<lambda>k. (start + k) mod n) [a..<n]"

fun tried :: "(nat \<Rightarrow> bool) \<Rightarrow> nat list \<Rightarrow> nat list" where
  "tried P [] = []"
| "tried P (i # is) = (if P i then i # tried P is else [i])"

lemma try_order_Cons: "a < n \<Longrightarrow> try_order n start a = ((start + a) mod n) # try_order n start (Suc a)"
  by (simp add: try_order_def upt_conv_Cons)

lemma distinct_try_order: "start < n \<Longrightarrow> distinct (try_order n start a)"
  unfolding try_order_def distinct_map
proof
  assume "start < n"
  show "inj_on (\<lambda>k. (start + k) mod n) (set [a..<n])"
  proof (rule inj_onI)
    fix x y assume "x \<in> set [a..<n]" "y \<in> set [a..<n]" "(start + x) mod n = (start + y) mod n"
    moreover have "(start + z) mod n = (if start + z < n then start + z else start + z - n)" if "z < n" for z
      using that \<open>start < n\<close> by (simp add: mod_if)
    ultimately show "x = y" using \<open>start < n\<close> by (auto split: if_splits)
  qed
qed simp

lemma set_tried: "set (tried P is) \<subseteq> set is"
  by (induction "is") auto

lemma tried_ne: "is \<noteq> [] \<Longrightarrow> tried P is \<noteq> []"
  by (cases "is") auto

lemma last_tried: "is \<noteq> [] \<Longrightarrow> last (tried P is) = (case List.find (\<lambda>i. \<not> P i) is of Some i \<Rightarrow> i | None \<Rightarrow> last is)"
proof (induction "is")
  case (Cons i "is")
  then show ?case by (cases "is") (auto split: option.splits)
qed simp

lemma post_once_fixed:
  assumes "post_once (fixed_answers ans us) p () i body = (r, p', s')"
  shows "r = ans i" "rp_urls p' = rp_urls p" "rp_index p' = rp_index p" "rp_max_attempts p' = rp_max_attempts p"
    "length (rp_stats p') = length (rp_stats p)"
    "j < length (rp_stats p) \<Longrightarrow> es_host (rp_stats p' ! j) = es_host (rp_stats p ! j)
      \<and> es_requests (rp_stats p' ! j) = es_requests (rp_stats p ! j) + (if j = i then 1 else 0)
      \<and> es_successes (rp_stats p' ! j) + es_errors (rp_stats p' ! j)
          = es_successes (rp_stats p ! j) + es_errors (rp_stats p ! j) + (if j = i then 1 else 0)"
proof -
  have p': "r = ans i" "p' = update_stats i (record_result (us i) (ans i))
      (update_stats i (\<lambda>st. st\<lparr>es_requests := es_requests st + 1\<rparr>) p)"
    using assms by (auto simp: post_once_def fixed_answers_def Let_def)
  then show "r = ans i" "rp_urls p' = rp_urls p" "rp_index p' = rp_index p" "rp_max_attempts p' = rp_max_attempts p"
    "length (rp_stats p') = length (rp_stats p)" by simp_all
  assume j: "j < length (rp_stats p)"
  show "es_host (rp_stats p' ! j) = es_host (rp_stats p ! j)
      \<and> es_requests (rp_stats p' ! j) = es_requests (rp_stats p ! j) + (if j = i then 1 else 0)
      \<and> es_successes (rp_stats p' ! j) + es_errors (rp_stats p' ! j)
          = es_successes (rp_stats p ! j) + es_errors (rp_stats p ! j) + (if j = i then 1 else 0)"
    using j by (cases "ans i") (simp_all add: p'(2) nth_update_stats)
qed

text \<open>What a call changes in a pool when it gets to the endpoints \<open>ts\<close>.\<close>

definition called :: "nat list \<Rightarrow> rpc_pool \<Rightarrow> rpc_pool \<Rightarrow> bool" where
  "called ts p p' \<longleftrightarrow> rp_urls p' = rp_urls p \<and> rp_max_attempts p' = rp_max_attempts p
     \<and> length (rp_stats p') = length (rp_stats p)
     \<and> (\<forall>j < length (rp_stats p). es_host (rp_stats p' ! j) = es_host (rp_stats p ! j)
          \<and> es_requests (rp_stats p' ! j) = es_requests (rp_stats p ! j) + of_bool (j \<in> set ts)
          \<and> es_successes (rp_stats p' ! j) + es_errors (rp_stats p' ! j)
              = es_successes (rp_stats p ! j) + es_errors (rp_stats p ! j) + of_bool (j \<in> set ts))"

lemma called_step:
  assumes "post_once (fixed_answers ans us) p () i body = (r, p1, s1)"
  shows "called [i] p p1" "called [i] p (p1\<lparr>rp_index := k\<rparr>)"
    "called ts (advance p1 i kind) p' \<Longrightarrow> i \<notin> set ts \<Longrightarrow> rp_urls p \<noteq> [] \<Longrightarrow> called (i # ts) p p'"
  using post_once_fixed [OF assms]
  by (auto simp: called_def nth_advance)

lemma advance_next:
  "rp_urls p \<noteq> [] \<Longrightarrow> n = length (rp_urls p) \<Longrightarrow> rp_index (advance p ((start + a) mod n) kind) = (start + Suc a) mod n"
  by (simp add: advance_def Let_def mod_Suc_eq)

lemma current_not_tried:
  assumes "start < n" "a < n" shows "(start + a) mod n \<notin> set (tried P (try_order n start (Suc a)))"
  using distinct_try_order [OF assms(1), of a] set_tried unfolding try_order_Cons [OF assms(2)] by fastforce

lemma post_loop_settles:
  assumes "a < n" "start < n" "n = length (rp_urls p)" "rp_index p = (start + a) mod n"
    and "post_loop (fixed_answers ans us) n start n body [a..<n] e p () = (r, p', s')"
  shows "r = ans (last (tried (\<lambda>i. retriable (ans i)) (try_order n start a)))
    \<and> rp_index p' = last (tried (\<lambda>i. retriable (ans i)) (try_order n start a))
    \<and> called (tried (\<lambda>i. retriable (ans i)) (try_order n start a)) p p'"
  using assms
proof (induction "n - a" arbitrary: a e p)
  case (Suc m)
  let ?i = "(start + a) mod n" and ?P = "\<lambda>i. retriable (ans i)"
  obtain p1 s1 where once: "post_once (fixed_answers ans us) p () ?i body = (ans ?i, p1, s1)"
    using post_once_fixed(1) by (metis prod_cases3)
  note one = post_once_fixed [OF once] called_step [OF once]
  have loop: "post_loop (fixed_answers ans us) n start n body (a # [Suc a..<n]) e p () = (r, p', s')"
    using Suc.prems(1,5) by (simp add: upt_conv_Cons)
  have ord: "try_order n start a = ?i # try_order n start (Suc a)"
    by (rule try_order_Cons [OF Suc.prems(1)])
  show ?case
  proof (cases "ans ?i")
    case (Inr v)
    with loop once have "r = Inr v" "p' = p1\<lparr>rp_index := ?i\<rparr>" by auto
    with Inr ord one show ?thesis by simp
  next
    case (Inl err)
    show ?thesis
    proof (cases "should_rotate (classify_error err) \<and> Suc a < n")
      case True
      let ?p2 = "advance p1 ?i (classify_error err)"
      have step: "rp_index ?p2 = (start + Suc a) mod n"
        using Suc.prems(1,3) one(2) by (intro advance_next) auto
      from loop once Inl True
      have "post_loop (fixed_answers ans us) n start n body [Suc a..<n] err ?p2 s1 = (r, p', s')"
        by simp
      with Suc.hyps Suc.prems(2,3) one(2) True step
      have rest: "r = ans (last (tried ?P (try_order n start (Suc a))))
        \<and> rp_index p' = last (tried ?P (try_order n start (Suc a)))
        \<and> called (tried ?P (try_order n start (Suc a))) ?p2 p'"
        by (intro Suc.hyps(1)) auto
      note nin = current_not_tried [OF Suc.prems(2,1), of ?P]
      have "tried ?P (try_order n start (Suc a)) \<noteq> []"
        using True by (simp add: try_order_Cons)
      moreover have ne: "rp_urls p \<noteq> []" using Suc.prems(1,3) by auto
      moreover from nin ne rest have "called (?i # tried ?P (try_order n start (Suc a))) p p'"
        by (intro called_step(3) [OF once]) auto
      ultimately show ?thesis using rest Inl True ord by simp
    next
      case False
      with loop once Inl have "r = Inl err" "p' = p1"
        by (auto split: if_splits)
      moreover have "tried ?P (try_order n start a) = [?i]"
        using False Inl Suc.prems(1) unfolding ord by (auto simp: try_order_def)
      ultimately show ?thesis using one Inl Suc.prems(4) by simp
    qed
  qed
qed simp

section \<open>Properties\<close>

text \<open>
  C38: A call to the pool tries each endpoint at most once, in circular order from the current one,
  and its result is the first answer that is a success or an error not worth a retry, or the
  answer of the last endpoint when all of them ask for a retry; the endpoint that gave the result
  becomes the current one, exactly the endpoints tried have one more request, and of every
  endpoint the requests stay the successes plus the errors.
\<close>

theorem pool_call_settles:
  assumes "pool_wf p" "post_json (fixed_answers ans us) p () body = Some (r, p', s')"
  shows "let order = map (\<lambda>k. (current_index p + k) mod pool_len p) [0..<pool_len p];
             settled = (case List.find (\<lambda>i. \<not> retriable (ans i)) order of Some i \<Rightarrow> i | None \<Rightarrow> last order)
         in r = ans settled \<and> current_index p' = settled \<and> pool_wf p'
          \<and> (\<forall>i < pool_len p. es_requests (rp_stats p' ! i) = es_requests (rp_stats p ! i)
               + of_bool (i \<in> set (tried (\<lambda>i. retriable (ans i)) order)))"
proof -
  let ?n = "length (rp_urls p)"
  from assms(1) have wf: "0 < ?n" "rp_max_attempts p = ?n" "rp_index p < ?n" "length (rp_stats p) = ?n"
    by (auto simp: pool_wf_def dest: map_eq_imp_length_eq)
  then have cur: "current_index p = rp_index p" by (simp add: current_index_def max_absorb1 Suc_le_eq)
  have loop: "post_loop (fixed_answers ans us) ?n (rp_index p) ?n body [0..<?n] (RpcError ''no attempts'') p ()
      = (r, p', s')"
    using assms(2) wf by (simp add: post_json_def cur Let_def max_absorb1 Suc_le_eq split: if_splits)
  let ?ts = "tried (\<lambda>i. retriable (ans i)) (try_order ?n (rp_index p) 0)"
  from post_loop_settles [OF wf(1,3) refl _ loop] wf(3)
  have out: "r = ans (last ?ts)" "rp_index p' = last ?ts" "called ?ts p p'" by simp_all
  have ord: "try_order ?n (rp_index p) 0 \<noteq> []" using wf(1) by (simp add: try_order_def)
  have "last ?ts \<in> set (try_order ?n (rp_index p) 0)"
    using set_tried last_in_set [OF tried_ne [OF ord]] by fast
  then have idx: "last ?ts < ?n" using wf(1) by (auto simp: try_order_def)
  have hosts: "map es_host (rp_stats p') = map es_host (rp_stats p)"
    using out(3) by (auto simp: called_def intro: nth_equalityI)
  have "es_requests (rp_stats p' ! j) = es_successes (rp_stats p' ! j) + es_errors (rp_stats p' ! j)"
    if "j < ?n" for j
  proof -
    have "rp_stats p ! j \<in> set (rp_stats p)" using that wf(4) by simp
    then have "es_requests (rp_stats p ! j) = es_successes (rp_stats p ! j) + es_errors (rp_stats p ! j)"
      using assms(1) by (simp only: pool_wf_def)
    then show ?thesis using out(3) that wf(4) by (simp add: called_def)
  qed
  then have "\<forall>s \<in> set (rp_stats p'). es_requests s = es_successes s + es_errors s"
    using out(3) wf(4) by (auto simp: called_def in_set_conv_nth)
  then have "pool_wf p'"
    using out(2,3) assms(1) idx hosts by (simp add: pool_wf_def called_def)
  moreover have "current_index p' = last ?ts"
    using out(2,3) idx wf(1) by (simp add: called_def current_index_def max_absorb1 Suc_le_eq)
  ultimately show ?thesis
    using out(1,3) wf(4) unfolding Let_def pool_len_def cur try_order_def
    by (simp add: called_def last_tried [OF ord, unfolded try_order_def])
qed

definition sample_answers :: "nat \<Rightarrow> bootstrap_error + nat" where
  "sample_answers i = (if i = 0 then Inl (HttpError ''HTTP 429: rate limited'')
     else if i = 1 then Inl (HttpError ''HTTP 503: overload'') else Inr 42)"

lemma sample_retriable: "retriable (sample_answers 0)" "retriable (sample_answers 1)" "\<not> retriable (sample_answers 2)"
  by (simp_all add: sample_answers_def classify_text_def to_lowercase_def should_rotate_def Let_def)

theorem pool_call_settles_witness:
  "\<exists>p' s'. post_json (fixed_answers sample_answers (\<lambda>_. 5)) (mock_for_tests 3) () 0 = Some (Inr 42, p', s')
     \<and> current_index p' = 2"
proof -
  let ?p = "mock_for_tests 3"
  have urls: "length (rp_urls ?p) = 3" "rp_index ?p = 0" by (simp_all add: mock_for_tests_def pool_of_def)
  then obtain r p' s' where post: "post_json (fixed_answers sample_answers (\<lambda>_. 5)) ?p () 0 = Some (r, p', s')"
    by (cases "post_json (fixed_answers sample_answers (\<lambda>_. 5)) ?p () 0") (auto simp: post_json_def Let_def)
  have order: "map (\<lambda>k. (current_index ?p + k) mod pool_len ?p) [0..<pool_len ?p] = [0, 1, 2]"
    by (simp add: urls pool_len_def current_index_def upt_rec)
  have "List.find (\<lambda>i. \<not> retriable (sample_answers i)) [0, 1, 2] = Some 2"
    using sample_retriable by simp
  with pool_call_settles [OF mock_wf post] order
  have "r = sample_answers 2" "current_index p' = 2" by (simp_all add: Let_def)
  with post show ?thesis by (simp add: sample_answers_def)
qed

end
