(* ===== verification/Failover.thy ===== *)
theory Failover
  imports Bootstrap "HOL-Library.Sublist"
begin

text \<open>
  Streams and their fail-over: the events and the in-memory stream of
  \<^verbatim>\<open>crates/liq-streaming/src/lib.rs\<close>, and \<^verbatim>\<open>failover.rs\<close> with the freshness
  tracker and the multiplexer. The clock, in milliseconds, is an argument of every operation. A
  channel is the list of its events; the task that forwards them is given the times at which they
  arrive and whether the receiver still takes them.
\<close>

section \<open>Streams\<close>

record slot_update =
  su_slot :: u64
  su_parent :: "u64 option"
  su_root :: bool

datatype stream_event =
  AccountEvent account_update
| SlotEvent slot_update
| PriceEvent pubkey u128 u64 u64

datatype stream_error =
  Disconnected string | SubscribeFailed string | ChannelClosed | Stale string | FixtureError string

record subscribe_filter =
  sf_owners :: "pubkey list"
  sf_accounts :: "pubkey list"

definition subscribe_filter_default :: subscribe_filter where
  "subscribe_filter_default = \<lparr>sf_owners = [], sf_accounts = []\<rparr>"

type_synonym subscriber = "subscribe_filter \<Rightarrow> stream_error + stream_event list"

record mock_geyser =
  mg_name :: string
  mg_events :: "stream_event list"

definition mock_geyser_new :: "stream_event list \<Rightarrow> mock_geyser" where
  "mock_geyser_new events = \<lparr>mg_name = ''mock'', mg_events = events\<rparr>"

definition mock_geyser_named :: "string \<Rightarrow> stream_event list \<Rightarrow> mock_geyser" where
  "mock_geyser_named name events = \<lparr>mg_name = name, mg_events = events\<rparr>"

definition mock_subscribe :: "mock_geyser \<Rightarrow> subscriber" where
  "mock_subscribe m flt = Inr (mg_events m)"

definition drain_all :: "subscriber \<Rightarrow> stream_error + stream_event list" where
  "drain_all sub = and_then (sub subscribe_filter_default) Inr"

fun event_slot :: "stream_event \<Rightarrow> u64" where
  "event_slot (SlotEvent s) = su_slot s"
| "event_slot (AccountEvent a) = au_slot a"
| "event_slot (PriceEvent asset price slot wv) = slot"

section \<open>The tracker\<close>

record provider_freshness =
  pf_name :: string
  pf_last_slot :: u64
  pf_last_event_ms :: u64
  pf_healthy :: bool

record freshness_policy =
  pol_max_slot_lag :: u64
  pol_max_silence_ms :: u64

definition freshness_policy_default :: freshness_policy where
  "freshness_policy_default = \<lparr>pol_max_slot_lag = 32, pol_max_silence_ms = 2000\<rparr>"

record freshness_tracker =
  ft_policy :: freshness_policy
  ft_providers :: "provider_freshness list"
  ft_tip_slot :: u64

definition tracker_new :: "string list \<Rightarrow> freshness_policy \<Rightarrow> freshness_tracker" where
  "tracker_new names policy = \<lparr>ft_policy = policy,
     ft_providers = map (\<lambda>n. \<lparr>pf_name = n, pf_last_slot = 0, pf_last_event_ms = 0, pf_healthy = True\<rparr>) names,
     ft_tip_slot = 0\<rparr>"

text \<open>\<^verbatim>\<open>iter_mut().find(..)\<close>: the first match is updated.\<close>

fun update_first :: "('a \<Rightarrow> bool) \<Rightarrow> ('a \<Rightarrow> 'a) \<Rightarrow> 'a list \<Rightarrow> 'a list" where
  "update_first P f [] = []"
| "update_first P f (x # xs) = (if P x then f x # xs else x # update_first P f xs)"

definition tracker_record :: "u64 \<Rightarrow> string \<Rightarrow> u64 \<Rightarrow> freshness_tracker \<Rightarrow> freshness_tracker" where
  "tracker_record ts name slot t =
     (let tip = (if ft_tip_slot t < slot then slot else ft_tip_slot t)
      in t\<lparr>ft_tip_slot := tip,
           ft_providers := update_first (\<lambda>p. pf_name p = name)
             (\<lambda>p. p\<lparr>pf_last_slot := slot, pf_last_event_ms := ts,
                    pf_healthy := sat_sub tip slot \<le> pol_max_slot_lag (ft_policy t)\<rparr>) (ft_providers t)\<rparr>)"

definition mark_disconnected :: "string \<Rightarrow> freshness_tracker \<Rightarrow> freshness_tracker" where
  "mark_disconnected name t =
     t\<lparr>ft_providers := update_first (\<lambda>p. pf_name p = name) (\<lambda>p. p\<lparr>pf_healthy := False\<rparr>) (ft_providers t)\<rparr>"

definition refresh_silence :: "u64 \<Rightarrow> freshness_tracker \<Rightarrow> freshness_tracker" where
  "refresh_silence now t =
     t\<lparr>ft_providers := map (\<lambda>p.
         if pf_last_event_ms p = 0 then p
         else if pol_max_silence_ms (ft_policy t) < sat_sub now (pf_last_event_ms p) then p\<lparr>pf_healthy := False\<rparr>
         else p) (ft_providers t)\<rparr>"

definition select_primary :: "u64 \<Rightarrow> freshness_tracker \<Rightarrow> string option \<times> freshness_tracker" where
  "select_primary now t =
     (let t' = refresh_silence now t
      in (case List.find pf_healthy (ft_providers t') of
            Some p \<Rightarrow> Some (pf_name p)
          | None \<Rightarrow> map_option pf_name (max_by_key pf_last_slot (ft_providers t')), t'))"

definition is_stale :: "u64 \<Rightarrow> string \<Rightarrow> freshness_tracker \<Rightarrow> bool \<times> freshness_tracker" where
  "is_stale now name t =
     (let t' = refresh_silence now t
      in (case List.find (\<lambda>p. pf_name p = name) (ft_providers t') of
            Some p \<Rightarrow> \<not> pf_healthy p | None \<Rightarrow> True, t'))"

section \<open>The multiplexer\<close>

record failover_mux =
  fm_providers :: "(string \<times> subscriber) list"
  fm_tracker :: freshness_tracker

definition failover_mux_new :: "(string \<times> subscriber) list \<Rightarrow> freshness_policy \<Rightarrow> failover_mux" where
  "failover_mux_new providers policy =
     \<lparr>fm_providers = providers, fm_tracker = tracker_new (map fst providers) policy\<rparr>"

definition active_provider :: "u64 \<Rightarrow> failover_mux \<Rightarrow> string option \<times> failover_mux" where
  "active_provider now m =
     (let (sel, t) = select_primary now (fm_tracker m) in (sel, m\<lparr>fm_tracker := t\<rparr>))"

definition first_of :: "'a list \<Rightarrow> 'a option" where
  "first_of xs = (case xs of [] \<Rightarrow> None | x # _ \<Rightarrow> Some x)"

text \<open>Subscribing, up to the stream of the chosen provider.\<close>

definition mux_subscribe ::
    "u64 \<Rightarrow> u64 \<Rightarrow> subscribe_filter \<Rightarrow> failover_mux \<Rightarrow> (stream_error + (string \<times> stream_event list)) \<times> failover_mux" where
  "mux_subscribe now later flt m =
     (case select_primary now (fm_tracker m) of
        (None, t) \<Rightarrow> (Inl (SubscribeFailed ''no providers registered''), m\<lparr>fm_tracker := t\<rparr>)
      | (Some primary, t) \<Rightarrow>
          (case (case List.find (\<lambda>p. fst p = primary) (fm_providers m) of
                   Some p \<Rightarrow> Some p | None \<Rightarrow> first_of (fm_providers m)) of
             None \<Rightarrow> (Inl (SubscribeFailed ''empty provider list''), m\<lparr>fm_tracker := t\<rparr>)
           | Some (name, inner) \<Rightarrow>
               let t1 = snd (is_stale later name t)
               in case inner flt of
                    Inl e \<Rightarrow> (Inl e, m\<lparr>fm_tracker := mark_disconnected name t1\<rparr>)
                  | Inr events \<Rightarrow> (Inr (name, events), m\<lparr>fm_tracker := t1\<rparr>)))"

text \<open>The forwarding task: each event with its time and whether the receiver takes it.\<close>

fun forward_events ::
    "string \<Rightarrow> (stream_event \<times> u64 \<times> bool) list \<Rightarrow> freshness_tracker \<Rightarrow> stream_event list \<times> freshness_tracker" where
  "forward_events name [] t = ([], mark_disconnected name t)"
| "forward_events name ((ev, ts, taken) # evs) t =
     (let t1 = tracker_record ts name (event_slot ev) t
      in if taken then (let (out, t2) = forward_events name evs t1 in (ev # out, t2))
         else ([], mark_disconnected name t1))"

section \<open>Who is selected\<close>

definition live :: "freshness_policy \<Rightarrow> u64 \<Rightarrow> provider_freshness \<Rightarrow> bool" where
  "live policy now p \<longleftrightarrow> pf_healthy p
     \<and> (pf_last_event_ms p = 0 \<or> sat_sub now (pf_last_event_ms p) \<le> pol_max_silence_ms policy)"

lemma refresh_silence_providers:
  "ft_providers (refresh_silence now t) =
     map (\<lambda>p. p\<lparr>pf_healthy := live (ft_policy t) now p\<rparr>) (ft_providers t)"
proof -
  have "(if pf_last_event_ms p = 0 then p
      else if pol_max_silence_ms (ft_policy t) < sat_sub now (pf_last_event_ms p) then p\<lparr>pf_healthy := False\<rparr>
      else p) = p\<lparr>pf_healthy := live (ft_policy t) now p\<rparr>" for p
    by (cases "sat_sub now (pf_last_event_ms p) \<le> pol_max_silence_ms (ft_policy t)")
      (simp_all add: live_def not_le)
  then show ?thesis by (simp add: refresh_silence_def)
qed

lemma refresh_silence_frame [simp]:
  "ft_policy (refresh_silence now t) = ft_policy t" "ft_tip_slot (refresh_silence now t) = ft_tip_slot t"
  by (simp_all add: refresh_silence_def)

lemma find_map_option: "List.find P (map f xs) = map_option f (List.find (P \<circ> f) xs)"
  by (induction xs) auto

lemma max_by_key_map: "max_by_key f (map g xs) = map_option g (max_by_key (f \<circ> g) xs)"
  by (induction xs rule: rev_induct) (auto simp: max_by_key_snoc split: option.splits)

lemma select_primary_eq:
  "fst (select_primary now t) = (case List.find (live (ft_policy t) now) (ft_providers t) of
      Some p \<Rightarrow> Some (pf_name p)
    | None \<Rightarrow> map_option pf_name (max_by_key pf_last_slot (ft_providers t)))"
  by (simp add: select_primary_def Let_def refresh_silence_providers find_map_option max_by_key_map comp_def
      option.map_comp split: option.splits)

lemma map_update_first: "(\<And>x. g (f x) = g x) \<Longrightarrow> map g (update_first P f xs) = map g xs"
  by (induction xs) auto

lemma in_update_first:
  "x \<in> set (update_first P f xs) \<Longrightarrow> x \<in> set xs \<or> (\<exists>y \<in> set xs. P y \<and> x = f y)"
  by (induction xs) (auto split: if_splits)

section \<open>Histories of a tracker\<close>

datatype tracker_event = Recorded u64 string u64 | Disconnect string | SilenceCheck u64

fun tracker_step :: "tracker_event \<Rightarrow> freshness_tracker \<Rightarrow> freshness_tracker" where
  "tracker_step (Recorded ts name slot) t = tracker_record ts name slot t"
| "tracker_step (Disconnect name) t = mark_disconnected name t"
| "tracker_step (SilenceCheck now) t = refresh_silence now t"

abbreviation tracker_run :: "tracker_event list \<Rightarrow> freshness_tracker \<Rightarrow> freshness_tracker" where
  "tracker_run \<equiv> fold tracker_step"

lemma tracker_step_frame [simp]:
  "ft_policy (tracker_step e t) = ft_policy t"
  "map pf_name (ft_providers (tracker_step e t)) = map pf_name (ft_providers t)"
  by (cases e; simp add: tracker_record_def mark_disconnected_def refresh_silence_providers
      map_update_first Let_def)+

lemma tracker_run_frame [simp]:
  "ft_policy (tracker_run es t) = ft_policy t"
  "map pf_name (ft_providers (tracker_run es t)) = map pf_name (ft_providers t)"
  by (induction es arbitrary: t) simp_all

text \<open>An unhealthy provider stays so until it delivers an event.\<close>

definition down :: "string \<Rightarrow> freshness_tracker \<Rightarrow> bool" where
  "down name t \<longleftrightarrow> (\<forall>p \<in> set (ft_providers t). pf_name p = name \<longrightarrow> \<not> pf_healthy p)"

fun speaks :: "string \<Rightarrow> tracker_event \<Rightarrow> bool" where
  "speaks name (Recorded ts n slot) \<longleftrightarrow> n = name"
| "speaks name _ \<longleftrightarrow> False"

lemma down_step: "down name t \<Longrightarrow> \<not> speaks name e \<Longrightarrow> down name (tracker_step e t)"
  by (cases e) (auto simp: down_def tracker_record_def mark_disconnected_def refresh_silence_providers
      live_def Let_def dest!: in_update_first)

lemma down_run: "down name t \<Longrightarrow> \<forall>e \<in> set es. \<not> speaks name e \<Longrightarrow> down name (tracker_run es t)"
  by (induction es arbitrary: t) (simp_all add: down_step)

lemma update_first_unique:
  "distinct (map g xs) \<Longrightarrow> (\<And>y. g (f y) = g y) \<Longrightarrow> x \<in> set (update_first (\<lambda>y. g y = k) f xs) \<Longrightarrow> g x = k
    \<Longrightarrow> \<exists>y \<in> set xs. x = f y"
  by (induction xs) (auto split: if_splits)

lemma mark_disconnected_down:
  "distinct (map pf_name (ft_providers t)) \<Longrightarrow> down name (mark_disconnected name t)"
  by (auto simp: down_def mark_disconnected_def dest: update_first_unique [rotated 2])

lemma lagging_down:
  assumes "distinct (map pf_name (ft_providers t))"
    and "pol_max_slot_lag (ft_policy t) < sat_sub (ft_tip_slot t) slot"
  shows "down name (tracker_record ts name slot t)"
proof -
  have "slot < ft_tip_slot t"
  proof (rule ccontr)
    assume "\<not> slot < ft_tip_slot t"
    then have "unat (sat_sub (ft_tip_slot t) slot) = 0" by (simp add: unat_sat_sub word_less_nat_alt)
    with assms(2) show False by (simp add: word_less_nat_alt)
  qed
  with assms show ?thesis
    by (auto simp: down_def tracker_record_def Let_def not_le dest: update_first_unique [rotated 2])
qed

section \<open>Properties\<close>

text \<open>
  C39: A provider that disconnected, or whose last event was too far behind the newest slot, is not
  selected again before it delivers another event, whatever the others do meanwhile, unless no
  provider is live; then the selected one has the newest slot of all.
\<close>

theorem failover_avoids_stale:
  assumes "distinct names" "t = tracker_run es (tracker_new names policy)"
    and "t' = mark_disconnected name t
      \<or> (\<exists>ts slot. pol_max_slot_lag policy < sat_sub (ft_tip_slot t) slot \<and> t' = tracker_record ts name slot t)"
    and "\<forall>e \<in> set later. \<not> speaks name e" "select_primary now (tracker_run later t') = (Some name, t'')"
  shows "\<forall>p \<in> set (ft_providers t''). \<not> pf_healthy p
      \<and> (\<exists>q \<in> set (ft_providers t''). pf_name q = name \<and> pf_last_slot p \<le> pf_last_slot q)"
proof -
  let ?t = "tracker_run later t'"
  have t: "distinct (map pf_name (ft_providers t))" "ft_policy t = policy"
    using assms(1) by (simp_all add: assms(2) tracker_new_def comp_def)
  with assms(3) have "down name t'" by (auto intro: mark_disconnected_down lagging_down)
  then have down: "down name ?t" by (rule down_run [OF _ assms(4)])
  have t'': "ft_providers t'' = map (\<lambda>p. p\<lparr>pf_healthy := live (ft_policy ?t) now p\<rparr>) (ft_providers ?t)"
    using assms(5) by (auto simp: select_primary_def Let_def refresh_silence_providers)
  have none: "List.find (live (ft_policy ?t) now) (ft_providers ?t) = None"
  proof (rule ccontr)
    assume "List.find (live (ft_policy ?t) now) (ft_providers ?t) \<noteq> None"
    then obtain p where p: "List.find (live (ft_policy ?t) now) (ft_providers ?t) = Some p" by blast
    with select_primary_eq [of now ?t] assms(5) have "pf_name p = name" by simp
    with find_Some_set [OF p] down show False by (auto simp: down_def live_def)
  qed
  with select_primary_eq [of now ?t] assms(5) obtain q
    where q: "max_by_key pf_last_slot (ft_providers ?t) = Some q" "pf_name q = name"
    by (cases "max_by_key pf_last_slot (ft_providers ?t)") auto
  with max_by_key_correct [where f = pf_last_slot and xs = "ft_providers ?t"]
  have "q \<in> set (ft_providers ?t)" "pf_last_slot q = Max (pf_last_slot ` set (ft_providers ?t))" by simp_all
  with none q(2) show ?thesis
    by (force simp: t'' find_None_iff)
qed

theorem failover_avoids_stale_witness:
  "\<exists>t''. select_primary 1000 (tracker_run [Disconnect ''primary'']
        (mark_disconnected ''backup'' (tracker_new [''primary'', ''backup''] freshness_policy_default)))
      = (Some ''backup'', t'')
    \<and> (\<forall>p \<in> set (ft_providers t''). \<not> pf_healthy p)"
proof -
  let ?t = "tracker_new [''primary'', ''backup''] freshness_policy_default"
  obtain t'' where sel: "select_primary 1000 (tracker_run [Disconnect ''primary''] (mark_disconnected ''backup'' ?t))
      = (Some ''backup'', t'')"
    by (simp add: select_primary_def mark_disconnected_def tracker_new_def refresh_silence_def max_by_key_def Let_def)
  from failover_avoids_stale [of "[''primary'', ''backup'']" ?t "[]" freshness_policy_default
      "mark_disconnected ''backup'' ?t" "''backup''" "[Disconnect ''primary'']" 1000 t''] sel
  show ?thesis by auto
qed

section \<open>The multiplexer over time\<close>

text \<open>A stream that ends, for whatever reason, leaves its provider down.\<close>

lemma forward_events_down:
  assumes "distinct (map pf_name (ft_providers t))" "forward_events name evs t = (out, t')"
  shows "down name t' \<and> map pf_name (ft_providers t') = map pf_name (ft_providers t) \<and> prefix out (map fst evs)"
  using assms
proof (induction evs arbitrary: t out)
  case (Cons ev evs)
  obtain e ts taken where ev: "ev = (e, ts, taken)" by (cases ev) auto
  let ?t = "tracker_step (Recorded ts name (event_slot e)) t"
  have names: "map pf_name (ft_providers ?t) = map pf_name (ft_providers t)" by (rule tracker_step_frame)
  show ?case
  proof (cases taken)
    case True
    obtain out1 where "forward_events name evs ?t = (out1, t')" "out = e # out1"
      using Cons.prems(2) True by (auto simp: ev Let_def split: prod.splits)
    with Cons.IH [of ?t out1] Cons.prems(1) names show ?thesis by (simp add: ev)
  next
    case False
    with Cons.prems mark_disconnected_down [of ?t name] names tracker_step_frame(2) [of "Disconnect name" ?t]
    show ?thesis by (auto simp: ev Let_def)
  qed
qed (use mark_disconnected_down tracker_step_frame(2) [of "Disconnect name"] in force)

end
