(* ===== verification/JsonRpc.thy ===== *)
theory JsonRpc
  imports Bootstrap Routing Vtx Strings
begin

text \<open>
  The JSON-RPC layer of \<^verbatim>\<open>crates/liq-streaming/src/bootstrap.rs\<close>: the request bodies,
  the parser of accounts and the client. The JSON values of \<^verbatim>\<open>serde_json\<close>, base58 and base64
  are parameters (\<open>json_rpc_api\<close>), with what the client relies on as the predicate \<open>json_laws\<close>; the
  transport is the function from a request to its answer. Texts are ASCII.
\<close>

record 'v json_rpc_api = "'v json_api" +
  j_as_u64 :: "'v \<Rightarrow> u64 option"
  j_is_null :: "'v \<Rightarrow> bool"
  j_to_string :: "'v \<Rightarrow> string"
  j_null :: 'v
  j_bool :: "bool \<Rightarrow> 'v"
  j_num :: "u64 \<Rightarrow> 'v"
  j_str :: "string \<Rightarrow> 'v"
  j_arr :: "'v list \<Rightarrow> 'v"
  j_obj :: "(string \<times> 'v) list \<Rightarrow> 'v"
  b64_error :: "string \<Rightarrow> string"
  b64_encode :: "u8 list \<Rightarrow> string"
  b58_encode :: "u8 list \<Rightarrow> string"
  b58_error :: "string \<Rightarrow> string"

definition to_base58 :: "'v json_rpc_api \<Rightarrow> pubkey \<Rightarrow> string" where
  "to_base58 j k = b58_encode j (pk_bytes k)"

text \<open>\<^verbatim>\<open>Value::pointer\<close> with keys that are not numbers.\<close>

fun pointer :: "('v, 'x) json_api_scheme \<Rightarrow> 'v \<Rightarrow> string list \<Rightarrow> 'v option" where
  "pointer j v [] = Some v"
| "pointer j v (k # ks) = Option.bind (j_get j v k) (\<lambda>w. pointer j w ks)"

section \<open>Requests\<close>

definition jsonrpc_request :: "'v json_rpc_api \<Rightarrow> string \<Rightarrow> 'v list \<Rightarrow> 'v" where
  "jsonrpc_request j method params =
     j_obj j [(''jsonrpc'', j_str j ''2.0''), (''id'', j_num j 1), (''method'', j_str j method),
              (''params'', j_arr j params)]"

definition base64_config :: "'v json_rpc_api \<Rightarrow> string \<Rightarrow> (string \<times> 'v) list" where
  "base64_config j commitment = [(''encoding'', j_str j ''base64''), (''commitment'', j_str j commitment)]"

definition jsonrpc_get_account_info :: "'v json_rpc_api \<Rightarrow> string \<Rightarrow> string \<Rightarrow> 'v" where
  "jsonrpc_get_account_info j key commitment =
     jsonrpc_request j ''getAccountInfo'' [j_str j key, j_obj j (base64_config j commitment)]"

definition jsonrpc_get_multiple_accounts :: "'v json_rpc_api \<Rightarrow> string list \<Rightarrow> string \<Rightarrow> 'v" where
  "jsonrpc_get_multiple_accounts j keys commitment =
     jsonrpc_request j ''getMultipleAccounts''
       [j_arr j (map (j_str j) keys), j_obj j (base64_config j commitment)]"

definition jsonrpc_get_program_accounts_filtered ::
    "'v json_rpc_api \<Rightarrow> string \<Rightarrow> string \<Rightarrow> 'v list \<Rightarrow> 'v" where
  "jsonrpc_get_program_accounts_filtered j program_id commitment filters =
     jsonrpc_request j ''getProgramAccounts''
       [j_str j program_id,
        j_obj j (base64_config j commitment @ (if filters = [] then [] else [(''filters'', j_arr j filters)]))]"

definition jsonrpc_get_program_accounts :: "'v json_rpc_api \<Rightarrow> string \<Rightarrow> string \<Rightarrow> 'v" where
  "jsonrpc_get_program_accounts j program_id commitment =
     jsonrpc_get_program_accounts_filtered j program_id commitment []"

definition jsonrpc_get_slot :: "'v json_rpc_api \<Rightarrow> string \<Rightarrow> 'v" where
  "jsonrpc_get_slot j commitment =
     jsonrpc_request j ''getSlot'' [j_obj j [(''commitment'', j_str j commitment)]]"

definition jsonrpc_get_health :: "'v json_rpc_api \<Rightarrow> 'v" where
  "jsonrpc_get_health j = jsonrpc_request j ''getHealth'' []"

definition jsonrpc_get_latest_blockhash :: "'v json_rpc_api \<Rightarrow> string \<Rightarrow> 'v" where
  "jsonrpc_get_latest_blockhash j commitment =
     jsonrpc_request j ''getLatestBlockhash'' [j_obj j [(''commitment'', j_str j commitment)]]"

definition jsonrpc_simulate_transaction :: "'v json_rpc_api \<Rightarrow> string \<Rightarrow> bool \<Rightarrow> 'v" where
  "jsonrpc_simulate_transaction j tx_base64 sig_verify =
     jsonrpc_request j ''simulateTransaction''
       [j_str j tx_base64,
        j_obj j [(''encoding'', j_str j ''base64''), (''sigVerify'', j_bool j sig_verify),
                 (''replaceRecentBlockhash'', j_bool j (\<not> sig_verify))]]"

section \<open>Answers\<close>

definition hex_digit :: "char \<Rightarrow> nat option" where
  "hex_digit c =
     (let n = of_char c :: nat
      in if 48 \<le> n \<and> n \<le> 57 then Some (n - 48)
         else if 97 \<le> n \<and> n \<le> 102 then Some (n - 87)
         else if 65 \<le> n \<and> n \<le> 70 then Some (n - 55) else None)"

text \<open>\<^verbatim>\<open>u8::from_str_radix(_, 16)\<close> on two characters: a plus sign is accepted.\<close>

definition hex_byte :: "char \<Rightarrow> char \<Rightarrow> u8 option" where
  "hex_byte a b =
     (if a = CHR ''+'' then map_option word_of_nat (hex_digit b)
      else Option.bind (hex_digit a) (\<lambda>x. map_option (\<lambda>y. word_of_nat (16 * x + y)) (hex_digit b)))"

fun hex_bytes :: "string \<Rightarrow> u8 list option" where
  "hex_bytes [] = Some []"
| "hex_bytes [a] = None"
| "hex_bytes (a # b # s) = Option.bind (hex_byte a b) (\<lambda>x. map_option ((#) x) (hex_bytes s))"

definition hex_32 :: "string \<Rightarrow> u8 list option" where
  "hex_32 s = (if length s \<noteq> 64 then None else hex_bytes s)"

definition b64_decode_or :: "'v json_rpc_api \<Rightarrow> string \<Rightarrow> bootstrap_error + u8 list" where
  "b64_decode_or j s = ok_or (b64_decode j s) (DecodeFailure (''base64: '' @ b64_error j s))"

definition key_or_default :: "pubkey option \<Rightarrow> pubkey" where
  "key_or_default k = (case k of Some x \<Rightarrow> x | None \<Rightarrow> pubkey_default)"

definition owner_of :: "crypto \<Rightarrow> string \<Rightarrow> pubkey" where
  "owner_of c owner_s =
     (let owner1 = key_or_default (pubkey_from_base58 c owner_s);
          owner2 = (if owner1 = pubkey_default then
                      (case hex_32 owner_s of Some bytes \<Rightarrow> Pubkey bytes
                       | None \<Rightarrow> key_or_default (pubkey_from_base58 c owner_s))
                    else owner1)
      in case pubkey_from_base58 c owner_s of Some k \<Rightarrow> k | None \<Rightarrow> owner2)"

definition account_data :: "'v json_rpc_api \<Rightarrow> 'v \<Rightarrow> bootstrap_error + u8 list" where
  "account_data j v =
     (case j_as_array j v of
        Some arr \<Rightarrow> and_then (ok_or (case arr of [] \<Rightarrow> None | x # _ \<Rightarrow> j_as_str j x) (DecodeFailure ''data[0]''))
          (b64_decode_or j)
      | None \<Rightarrow> (case j_as_str j v of Some s \<Rightarrow> b64_decode_or j s
                 | None \<Rightarrow> Inl (DecodeFailure ''data encoding'')))"

definition parse_account_value ::
    "crypto \<Rightarrow> 'v json_rpc_api \<Rightarrow> pubkey \<Rightarrow> u64 \<Rightarrow> 'v \<Rightarrow> bootstrap_error + raw_account option" where
  "parse_account_value c j pubkey slot val =
     (if j_is_null j val then Inr None
      else and_then (ok_or (Option.bind (j_get j val ''lamports'') (j_as_u64 j)) (DecodeFailure ''missing lamports'')) (\<lambda>lamports.
           and_then (ok_or (Option.bind (j_get j val ''owner'') (j_as_str j)) (DecodeFailure ''missing owner'')) (\<lambda>owner_s.
           and_then (ok_or (j_get j val ''data'') (DecodeFailure ''missing data'')) (\<lambda>data_v.
           and_then (account_data j data_v) (\<lambda>data.
             Inr (Some \<lparr>ra_pubkey = pubkey, ra_lamports = lamports, ra_owner = owner_of c owner_s,
                         ra_data = data, ra_slot = slot\<rparr>))))))"

definition result_slot :: "'v json_rpc_api \<Rightarrow> 'v \<Rightarrow> u64" where
  "result_slot j resp =
     (case Option.bind (pointer j resp [''result'', ''context'', ''slot'']) (j_as_u64 j) of
        Some n \<Rightarrow> n | None \<Rightarrow> 0)"

section \<open>The client\<close>

type_synonym 'v transport = "'v \<Rightarrow> bootstrap_error + 'v"

record 'v json_rpc_bootstrap =
  jb_transport :: "'v transport"
  jb_commitment :: string

definition json_rpc_bootstrap_new :: "'v transport \<Rightarrow> 'v json_rpc_bootstrap" where
  "json_rpc_bootstrap_new t = \<lparr>jb_transport = t, jb_commitment = ''processed''\<rparr>"

definition with_commitment :: "'v json_rpc_bootstrap \<Rightarrow> string \<Rightarrow> 'v json_rpc_bootstrap" where
  "with_commitment b commitment = b\<lparr>jb_commitment := commitment\<rparr>"

definition get_slot :: "'v json_rpc_api \<Rightarrow> 'v json_rpc_bootstrap \<Rightarrow> bootstrap_error + u64" where
  "get_slot j b =
     and_then (jb_transport b (jsonrpc_get_slot j (jb_commitment b))) (\<lambda>resp.
       ok_or (Option.bind (j_get j resp ''result'') (j_as_u64 j)) (DecodeFailure ''getSlot result''))"

definition get_health :: "'v json_rpc_api \<Rightarrow> 'v json_rpc_bootstrap \<Rightarrow> bootstrap_error + string" where
  "get_health j b =
     and_then (jb_transport b (jsonrpc_get_health j)) (\<lambda>resp.
       case j_get j resp ''result'' of
         Some v \<Rightarrow> (case j_as_str j v of Some s \<Rightarrow> Inr s | None \<Rightarrow> Inr (j_to_string j v))
       | None \<Rightarrow> Inl (DecodeFailure ''getHealth result''))"

definition get_latest_blockhash ::
    "crypto \<Rightarrow> 'v json_rpc_api \<Rightarrow> 'v json_rpc_bootstrap \<Rightarrow> bootstrap_error + (u8 list \<times> u64)" where
  "get_latest_blockhash c j b =
     and_then (jb_transport b (jsonrpc_get_latest_blockhash j (jb_commitment b))) (\<lambda>resp.
     and_then (ok_or (Option.bind (pointer j resp [''result'', ''value'', ''blockhash'']) (j_as_str j))
                (DecodeFailure ''getLatestBlockhash blockhash'')) (\<lambda>hash_s.
     and_then (ok_or (b58_decode c hash_s) (DecodeFailure (''blockhash b58: '' @ b58_error j hash_s))) (\<lambda>bytes.
       if length bytes \<noteq> 32 then Inl (DecodeFailure (''blockhash len '' @ show_nat (length bytes)))
       else Inr (bytes, result_slot j resp))))"

definition json_get_account_info ::
    "crypto \<Rightarrow> 'v json_rpc_api \<Rightarrow> 'v json_rpc_bootstrap \<Rightarrow> pubkey \<Rightarrow> bootstrap_error + raw_account option" where
  "json_get_account_info c j b key =
     and_then (jb_transport b (jsonrpc_get_account_info j (to_base58 j key) (jb_commitment b))) (\<lambda>resp.
       parse_account_value c j key (result_slot j resp)
         (case pointer j resp [''result'', ''value''] of Some v \<Rightarrow> v | None \<Rightarrow> j_null j))"

fun parse_each ::
    "crypto \<Rightarrow> 'v json_rpc_api \<Rightarrow> u64 \<Rightarrow> 'v list \<Rightarrow> pubkey list \<Rightarrow> bootstrap_error + raw_account option list" where
  "parse_each c j slot arr [] = Inr []"
| "parse_each c j slot arr (key # keys) =
     and_then (parse_account_value c j key slot (case arr of [] \<Rightarrow> j_null j | v # _ \<Rightarrow> v)) (\<lambda>a.
     and_then (parse_each c j slot (tl arr) keys) (\<lambda>as. Inr (a # as)))"

definition json_get_multiple_accounts ::
    "crypto \<Rightarrow> 'v json_rpc_api \<Rightarrow> 'v json_rpc_bootstrap \<Rightarrow> pubkey list \<Rightarrow> bootstrap_error + raw_account option list" where
  "json_get_multiple_accounts c j b keys =
     and_then (jb_transport b (jsonrpc_get_multiple_accounts j (map (to_base58 j) keys) (jb_commitment b))) (\<lambda>resp.
     and_then (ok_or (Option.bind (pointer j resp [''result'', ''value'']) (j_as_array j))
                (DecodeFailure ''result.value array'')) (\<lambda>arr.
       parse_each c j (result_slot j resp) arr keys))"

definition parse_item :: "crypto \<Rightarrow> 'v json_rpc_api \<Rightarrow> u64 \<Rightarrow> 'v \<Rightarrow> bootstrap_error + raw_account option" where
  "parse_item c j slot item =
     and_then (ok_or (Option.bind (j_get j item ''pubkey'') (j_as_str j)) (DecodeFailure ''pubkey'')) (\<lambda>pk_s.
     and_then (ok_or (pubkey_from_base58 c pk_s) (DecodeFailure (''bad pubkey '' @ pk_s))) (\<lambda>pubkey.
     and_then (ok_or (j_get j item ''account'') (DecodeFailure ''account'')) (\<lambda>account.
       parse_account_value c j pubkey slot account)))"

fun parse_items :: "crypto \<Rightarrow> 'v json_rpc_api \<Rightarrow> u64 \<Rightarrow> 'v list \<Rightarrow> bootstrap_error + raw_account list" where
  "parse_items c j slot [] = Inr []"
| "parse_items c j slot (item # items) =
     and_then (parse_item c j slot item) (\<lambda>r.
     and_then (parse_items c j slot items) (\<lambda>rs. Inr (case r of Some a \<Rightarrow> a # rs | None \<Rightarrow> rs)))"

definition json_get_program_accounts_filtered ::
    "crypto \<Rightarrow> 'v json_rpc_api \<Rightarrow> 'v json_rpc_bootstrap \<Rightarrow> pubkey \<Rightarrow> 'v list \<Rightarrow> bootstrap_error + raw_account list" where
  "json_get_program_accounts_filtered c j b program_id filters =
     and_then (jb_transport b (jsonrpc_get_program_accounts_filtered j (to_base58 j program_id) (jb_commitment b) filters)) (\<lambda>resp.
     and_then (ok_or (case Option.bind (pointer j resp [''result'']) (j_as_array j) of
                        Some a \<Rightarrow> Some a
                      | None \<Rightarrow> Option.bind (pointer j resp [''result'', ''value'']) (j_as_array j))
                (DecodeFailure ''result array'')) (\<lambda>arr.
       parse_items c j (result_slot j resp) arr))"

definition json_get_program_accounts ::
    "crypto \<Rightarrow> 'v json_rpc_api \<Rightarrow> 'v json_rpc_bootstrap \<Rightarrow> pubkey \<Rightarrow> bootstrap_error + raw_account list" where
  "json_get_program_accounts c j b program_id =
     and_then (jb_transport b (jsonrpc_get_program_accounts j (to_base58 j program_id) (jb_commitment b))) (\<lambda>resp.
     and_then (ok_or (Option.bind (pointer j resp [''result'']) (j_as_array j)) (DecodeFailure ''result array'')) (\<lambda>arr.
       parse_items c j (result_slot j resp) arr))"

record 'v simulate_result =
  sim_err :: "'v option"
  sim_logs :: "string list"
  sim_units_consumed :: "u64 option"
  sim_raw :: 'v

definition json_simulate_transaction ::
    "'v json_rpc_api \<Rightarrow> 'v json_rpc_bootstrap \<Rightarrow> string \<Rightarrow> bool \<Rightarrow> bootstrap_error + 'v simulate_result" where
  "json_simulate_transaction j b tx_base64 sig_verify =
     and_then (jb_transport b (jsonrpc_simulate_transaction j tx_base64 sig_verify)) (\<lambda>resp.
       let value = (case pointer j resp [''result'', ''value''] of Some v \<Rightarrow> v | None \<Rightarrow> j_null j)
       in Inr \<lparr>sim_err = (case j_get j value ''err'' of Some e \<Rightarrow> if j_is_null j e then None else Some e | None \<Rightarrow> None),
               sim_logs = (case Option.bind (j_get j value ''logs'') (j_as_array j) of
                             Some a \<Rightarrow> List.map_filter (j_as_str j) a | None \<Rightarrow> []),
               sim_units_consumed = Option.bind (j_get j value ''unitsConsumed'') (j_as_u64 j),
               sim_raw = resp\<rparr>)"

definition fixture_simulate_transaction ::
    "'v json_rpc_api \<Rightarrow> raw_account list \<Rightarrow> string \<Rightarrow> bool \<Rightarrow> bootstrap_error + 'v simulate_result" where
  "fixture_simulate_transaction j accounts tx_base64 sig_verify =
     Inr \<lparr>sim_err = None, sim_logs = [''fixture-simulate: ok (no broadcast)''], sim_units_consumed = Some 0,
          sim_raw = j_obj j [(''context'', j_obj j [(''slot'', j_num j 0)]),
                             (''value'', j_obj j [(''err'', j_null j)])]\<rparr>"

definition rpc_url_configured :: "string \<Rightarrow> bool" where
  "rpc_url_configured url =
     (let t = trim url
      in t \<noteq> '''' \<and> \<not> str_contains t ''YOUR_'' \<and> (starts_with t ''http://'' \<or> starts_with t ''https://''))"

section \<open>Transports\<close>

text \<open>What sending a request gave: no answer (with whether that was a timeout), or a status, as a
  number and as printed, with the body when it was JSON.\<close>

datatype 'v http_outcome =
  SendFailed bool string
| Responded u16 string "string + 'v"

definition http_transport_new :: "string \<Rightarrow> bootstrap_error + string" where
  "http_transport_new rpc_url =
     (if rpc_url = '''' \<or> str_contains rpc_url ''YOUR_''
      then Inl (ConfigError (''rpc_url missing or placeholder ('' @ rpc_url @ ''); set config rpc_url / RPC_URL''))
      else Inr rpc_url)"

definition http_post_json :: "'v json_rpc_api \<Rightarrow> string \<Rightarrow> ('v \<Rightarrow> 'v http_outcome) \<Rightarrow> 'v transport" where
  "http_post_json j rpc_url send body =
     (if rpc_url = '''' \<or> str_contains rpc_url ''YOUR_''
      then Inl (ConfigError (''rpc_url missing or placeholder ('' @ rpc_url @ '')''))
      else case send body of
        SendFailed is_timeout msg \<Rightarrow>
          Inl (HttpError (if is_timeout \<or> str_contains (to_lowercase msg) ''timed out'' then ''timeout: '' @ msg else msg))
      | Responded code shown (Inl e) \<Rightarrow> Inl (HttpError (''json body ('' @ shown @ ''): '' @ e))
      | Responded code shown (Inr val) \<Rightarrow>
          if code = 429 then Inl (HttpError (''HTTP 429: '' @ j_to_string j val))
          else if \<not> (200 \<le> code \<and> code \<le> 299) then Inl (HttpError (''HTTP '' @ shown @ '': '' @ j_to_string j val))
          else (case j_get j val ''error'' of
              Some err \<Rightarrow> Inl (RpcError (j_to_string j err)) | None \<Rightarrow> Inr val))"

section \<open>Transactions for simulation\<close>

definition minimal_cu_limit_tx_bytes :: "u32 \<Rightarrow> u8 list \<Rightarrow> u8 list" where
  "minimal_cu_limit_tx_bytes units fee_payer =
     (let data = [2] @ u32_le units;
          ix = [1] @ shortvec_encode 0 @ shortvec_encode (length data) @ data;
          msg = [1, 0, 1] @ shortvec_encode 2 @ fee_payer @ pk_bytes prog_compute_budget
                  @ replicate 32 0 @ shortvec_encode 1 @ ix
      in shortvec_encode 1 @ replicate 64 0 @ msg)"

definition minimal_cu_limit_tx_base64_with_payer :: "'v json_rpc_api \<Rightarrow> u32 \<Rightarrow> u8 list \<Rightarrow> string" where
  "minimal_cu_limit_tx_base64_with_payer j units fee_payer = b64_encode j (minimal_cu_limit_tx_bytes units fee_payer)"

definition minimal_cu_limit_tx_base64 :: "'v json_rpc_api \<Rightarrow> u32 \<Rightarrow> string" where
  "minimal_cu_limit_tx_base64 j units = minimal_cu_limit_tx_base64_with_payer j units (replicate 32 1)"

definition shadow_tx_envelope :: "'v json_rpc_api \<Rightarrow> instruction list \<Rightarrow> string \<Rightarrow> 'v" where
  "shadow_tx_envelope j ixs recent_blockhash =
     j_obj j [(''mode'', j_str j ''shadow''), (''broadcast'', j_bool j False),
       (''recentBlockhash'', j_str j recent_blockhash),
       (''instructions'', j_arr j (map (\<lambda>ix. j_obj j
          [(''programId'', j_str j (to_base58 j (ix_program_id ix))),
           (''accounts'', j_arr j (map (\<lambda>m. j_obj j
              [(''pubkey'', j_str j (to_base58 j (am_pubkey m))), (''isSigner'', j_bool j (am_is_signer m)),
               (''isWritable'', j_bool j (am_is_writable m))]) (ix_accounts ix))),
           (''data'', j_str j (b64_encode j (ix_data ix)))]) ixs))]"

definition shadow_tx_base64 :: "'v json_rpc_api \<Rightarrow> instruction list \<Rightarrow> string \<Rightarrow> string" where
  "shadow_tx_base64 j ixs recent_blockhash =
     b64_encode j (ascii (j_to_string j (shadow_tx_envelope j ixs recent_blockhash)))"

section \<open>The client as a source of accounts\<close>

lemma parse_account_value_key:
  "parse_account_value c j k slot v = Inr (Some a) \<Longrightarrow> ra_pubkey a = k \<and> ra_slot a = slot"
  by (auto simp: parse_account_value_def and_then_Inr_iff split: if_splits)

lemma parse_each_facts:
  "parse_each c j slot arr ks = Inr vs \<Longrightarrow> length vs = length ks
     \<and> (\<forall>i < length ks. \<forall>a. vs ! i = Some a \<longrightarrow> ra_pubkey a = ks ! i)"
proof (induction ks arbitrary: arr vs)
  case (Cons k ks)
  then obtain a as where parts: "parse_account_value c j k slot (case arr of [] \<Rightarrow> j_null j | v # _ \<Rightarrow> v) = Inr a"
    "parse_each c j slot (tl arr) ks = Inr as" "vs = a # as"
    by (auto simp: and_then_Inr_iff)
  from Cons.IH [OF parts(2)] parse_account_value_key [of c j k slot] parts(1,3)
  show ?case by (auto simp: nth_Cons split: nat.splits)
qed simp

interpretation json: rpc_bootstrap "json_get_multiple_accounts c j b" for c j b
  by unfold_locales (auto simp: json_get_multiple_accounts_def and_then_Inr_iff dest: parse_each_facts)

section \<open>Reading back what an endpoint serves\<close>

text \<open>What the client relies on of the JSON, base58 and base64 libraries.\<close>

definition json_laws :: "crypto \<Rightarrow> 'v json_rpc_api \<Rightarrow> bool" where
  "json_laws c j \<longleftrightarrow> (\<forall>kvs k. distinct (map fst kvs) \<longrightarrow> j_get j (j_obj j kvs) k = map_of kvs k)
     \<and> (\<forall>s. j_as_str j (j_str j s) = Some s) \<and> (\<forall>n. j_as_u64 j (j_num j n) = Some n)
     \<and> (\<forall>b. j_as_bool j (j_bool j b) = Some b)
     \<and> (\<forall>vs. j_as_array j (j_arr j vs) = Some vs) \<and> j_is_null j (j_null j)
     \<and> (\<forall>kvs. \<not> j_is_null j (j_obj j kvs))
     \<and> (\<forall>bs. b64_decode j (b64_encode j bs) = Some bs) \<and> (\<forall>bs. b58_decode c (b58_encode j bs) = Some bs)"

definition account_json :: "'v json_rpc_api \<Rightarrow> raw_account \<Rightarrow> 'v" where
  "account_json j a = j_obj j [(''lamports'', j_num j (ra_lamports a)), (''owner'', j_str j (to_base58 j (ra_owner a))),
     (''data'', j_arr j [j_str j (b64_encode j (ra_data a)), j_str j ''base64''])]"

definition accounts_answer :: "'v json_rpc_api \<Rightarrow> u64 \<Rightarrow> raw_account option list \<Rightarrow> 'v" where
  "accounts_answer j slot accounts =
     j_obj j [(''result'', j_obj j [(''context'', j_obj j [(''slot'', j_num j slot)]),
        (''value'', j_arr j (map (\<lambda>a. case a of None \<Rightarrow> j_null j | Some a \<Rightarrow> account_json j a) accounts))])]"

lemma owner_of_base58:
  assumes "json_laws c j" "pubkey_wf k"
  shows "owner_of c (to_base58 j k) = k"
  using assms by (simp add: owner_of_def to_base58_def pubkey_from_base58_def json_laws_def)

lemma parse_account_json:
  assumes "json_laws c j" "pubkey_wf (ra_owner a)" "ra_slot a = slot"
  shows "parse_account_value c j (ra_pubkey a) slot (account_json j a) = Inr (Some a)"
  using assms owner_of_base58 [OF assms(1,2)]
  by (simp add: parse_account_value_def account_json_def account_data_def b64_decode_or_def json_laws_def)

text \<open>
  C40: Accounts an endpoint serves, in the order of the request and with nulls for the missing
  ones, are read back exactly, each under its key, with its owner, its data and the slot of the
  answer, given that the JSON, base58 and base64 libraries read what they write.
\<close>

theorem json_accounts_roundtrip:
  assumes "json_laws c j"
    and "\<forall>k \<in> set ks. case accounts k of None \<Rightarrow> True
           | Some a \<Rightarrow> ra_pubkey a = k \<and> ra_slot a = slot \<and> pubkey_wf (ra_owner a)"
    and "jb_transport b (jsonrpc_get_multiple_accounts j (map (to_base58 j) ks) (jb_commitment b))
           = Inr (accounts_answer j slot (map accounts ks))"
  shows "json_get_multiple_accounts c j b ks = Inr (map accounts ks)"
proof -
  let ?v = "\<lambda>a. case a of None \<Rightarrow> j_null j | Some a \<Rightarrow> account_json j a"
  have "parse_each c j slot (map (?v \<circ> accounts) ks) ks = Inr (map accounts ks)"
    using assms(2)
  proof (induction ks)
    case (Cons k ks)
    have null: "parse_account_value c j k slot (j_null j) = Inr None"
      using assms(1) by (simp add: parse_account_value_def json_laws_def)
    from Cons.prems have "parse_account_value c j k slot (?v (accounts k)) = Inr (accounts k)"
      by (cases "accounts k") (auto simp: null dest: parse_account_json [OF assms(1)])
    with Cons show ?case by simp
  qed simp
  with assms(1,3) show ?thesis
    by (simp add: json_get_multiple_accounts_def accounts_answer_def result_slot_def json_laws_def)
qed

text \<open>A concrete library: JSON trees, with the bytes of base58 and base64 as characters.\<close>

datatype json =
  JNull | JBool bool | JNum u64 | JStr string | JArr "json list" | JObj "(string \<times> json) list"

definition chars_of :: "u8 list \<Rightarrow> string" where
  "chars_of = map (\<lambda>b. char_of (unat b))"

definition bytes_of :: "string \<Rightarrow> u8 list" where
  "bytes_of = map (\<lambda>c. word_of_nat (of_char c))"

lemma bytes_of_chars_of [simp]: "bytes_of (chars_of bs) = bs"
proof -
  have "unat b mod 256 = unat b" for b :: u8
    using unat_bound8 [of b] by simp
  then show ?thesis by (simp add: bytes_of_def chars_of_def comp_def)
qed

definition json_tree :: "json json_rpc_api" where
  "json_tree = \<lparr>j_get = (\<lambda>v k. case v of JObj kvs \<Rightarrow> map_of kvs k | _ \<Rightarrow> None),
     j_as_str = (\<lambda>v. case v of JStr s \<Rightarrow> Some s | _ \<Rightarrow> None),
     j_as_array = (\<lambda>v. case v of JArr vs \<Rightarrow> Some vs | _ \<Rightarrow> None),
     j_as_bool = (\<lambda>v. case v of JBool b \<Rightarrow> Some b | _ \<Rightarrow> None),
     j_parse = (\<lambda>_. None), b64_decode = (\<lambda>s. Some (bytes_of s)),
     j_as_u64 = (\<lambda>v. case v of JNum n \<Rightarrow> Some n | _ \<Rightarrow> None), j_is_null = (\<lambda>v. v = JNull),
     j_to_string = (\<lambda>_. ''''), j_null = JNull, j_bool = JBool, j_num = JNum, j_str = JStr,
     j_arr = JArr, j_obj = JObj, b64_error = (\<lambda>_. ''''), b64_encode = chars_of,
     b58_encode = chars_of, b58_error = (\<lambda>_. '''')\<rparr>"

definition json_crypto :: crypto where
  "json_crypto = \<lparr>b58_decode = (\<lambda>s. Some (bytes_of s)), sha256 = (\<lambda>_. replicate 32 0), on_curve = (\<lambda>_. False)\<rparr>"

lemma json_tree_laws: "json_laws json_crypto json_tree"
  by (simp add: json_laws_def json_tree_def json_crypto_def)

definition sample_raw :: raw_account where
  "sample_raw = \<lparr>ra_pubkey = pubkey_test 50 1, ra_lamports = 1000000, ra_owner = prog_klend,
     ra_data = [0, 1, 0xDE, 0xAD], ra_slot = 7\<rparr>"

definition sample_lookup :: "pubkey \<Rightarrow> raw_account option" where
  "sample_lookup k = (if k = pubkey_test 50 1 then Some sample_raw else None)"

theorem json_accounts_roundtrip_witness:
  "json_get_multiple_accounts json_crypto json_tree
     (json_rpc_bootstrap_new (\<lambda>_. Inr (accounts_answer json_tree 7 [Some sample_raw, None])))
     [pubkey_test 50 1, pubkey_test 50 2] = Inr [Some sample_raw, None]"
proof -
  have l: "map sample_lookup [pubkey_test 50 1, pubkey_test 50 2] = [Some sample_raw, None]"
    by (simp add: sample_lookup_def)
  show ?thesis
    using json_accounts_roundtrip [OF json_tree_laws, where ks = "[pubkey_test 50 1, pubkey_test 50 2]"
        and accounts = sample_lookup and slot = 7
        and b = "json_rpc_bootstrap_new (\<lambda>_. Inr (accounts_answer json_tree 7 [Some sample_raw, None]))"]
    unfolding l
    by (simp add: sample_lookup_def sample_raw_def json_rpc_bootstrap_new_def)
qed

end
