(* ===== verification/F64.thy ===== *)
theory F64
  imports Prelude Complex_Main
begin

text \<open>
  The arithmetic of \<^verbatim>\<open>f64\<close> on finite values in the normal range: a value is the rational
  it stands for, an operation is the exact result rounded to 53 binary digits, ties to even;
  casts from integers round the same way, casts to integers truncate and saturate, and
  \<^verbatim>\<open>f64::round\<close> rounds half away from zero. Overflow to infinity and the gradual underflow
  below 2^-1022 are outside the model. The last section bounds the error of a computation:
  \<open>approx n x y\<close> says that \<open>x\<close> is \<open>y\<close> up to \<open>n\<close> factors of 1 + 2^-52.
\<close>

type_synonym f64 = rat

section \<open>Rounding\<close>

text \<open>The binary exponent: 2^e is the largest power of two not above the magnitude.\<close>

function ilog2 :: "int \<Rightarrow> nat" where
  "ilog2 n = (if n < 2 then 0 else Suc (ilog2 (n div 2)))"
  by auto
termination by (relation "measure nat") auto

declare ilog2.simps [simp del]

definition f64_exp :: "rat \<Rightarrow> int" where
  "f64_exp x =
     (let (n, d) = quotient_of \<bar>x\<bar>; k = int (ilog2 n) - int (ilog2 d)
      in if 2 powi k \<le> \<bar>x\<bar> then k else k - 1)"

definition f64_ulp :: "rat \<Rightarrow> rat" where
  "f64_ulp x = 2 powi (f64_exp x - 52)"

definition round_half_even :: "rat \<Rightarrow> int" where
  "round_half_even y =
     (let d = frac y
      in if d < 1 / 2 then \<lfloor>y\<rfloor>
         else if 1 / 2 < d then \<lfloor>y\<rfloor> + 1
         else if even \<lfloor>y\<rfloor> then \<lfloor>y\<rfloor> else \<lfloor>y\<rfloor> + 1)"

definition rnd :: "rat \<Rightarrow> f64" where
  "rnd x = (if x = 0 then 0 else of_int (round_half_even (x / f64_ulp x)) * f64_ulp x)"

section \<open>Operations\<close>

definition fadd :: "f64 \<Rightarrow> f64 \<Rightarrow> f64" where "fadd x y = rnd (x + y)"
definition fsub :: "f64 \<Rightarrow> f64 \<Rightarrow> f64" where "fsub x y = rnd (x - y)"
definition fmul :: "f64 \<Rightarrow> f64 \<Rightarrow> f64" where "fmul x y = rnd (x * y)"
definition fdiv :: "f64 \<Rightarrow> f64 \<Rightarrow> f64" where "fdiv x y = rnd (x / y)"

text \<open>\<^verbatim>\<open>as f64\<close> of an unsigned word, \<^verbatim>\<open>round\<close>, and \<^verbatim>\<open>as u128\<close>, \<^verbatim>\<open>as i128\<close>.\<close>

definition f64_of :: "'a::len word \<Rightarrow> f64" where
  "f64_of w = rnd (of_nat (unat w))"

definition round_away :: "f64 \<Rightarrow> int" where
  "round_away x = (if 0 \<le> x then \<lfloor>x + 1 / 2\<rfloor> else \<lceil>x - 1 / 2\<rceil>)"

definition as_u128 :: "int \<Rightarrow> u128" where
  "as_u128 n = word_of_int (max 0 (min n (2 ^ 128 - 1)))"

definition as_i128 :: "int \<Rightarrow> i128" where
  "as_i128 n = word_of_int (max (- (2 ^ 127)) (min n (2 ^ 127 - 1)))"

text \<open>The casts to integers truncate and saturate.\<close>

definition f64_trunc :: "f64 \<Rightarrow> int" where
  "f64_trunc x = (if 0 \<le> x then \<lfloor>x\<rfloor> else \<lceil>x\<rceil>)"

definition as_u64 :: "int \<Rightarrow> u64" where
  "as_u64 n = word_of_int (max 0 (min n (2 ^ 64 - 1)))"

definition as_i64 :: "int \<Rightarrow> i64" where
  "as_i64 n = word_of_int (max (- (2 ^ 63)) (min n (2 ^ 63 - 1)))"

text \<open>\<^verbatim>\<open>powi\<close> with a non-negative exponent, by repeated squaring as the runtime library computes it.\<close>

fun powi_loop :: "f64 \<Rightarrow> nat \<Rightarrow> f64 \<Rightarrow> f64" where
  "powi_loop a b r =
     (let r' = (if odd b then fmul r a else r)
      in if b < 2 then r' else powi_loop (fmul a a) (b div 2) r')"

declare powi_loop.simps [simp del]

definition f64_powi :: "f64 \<Rightarrow> nat \<Rightarrow> f64" where
  "f64_powi a b = powi_loop a b 1"

section \<open>Properties of rounding\<close>

lemma ilog2_bounds: "0 < n \<Longrightarrow> 2 ^ ilog2 n \<le> n \<and> n < 2 * 2 ^ ilog2 n"
proof (induction n rule: ilog2.induct)
  case (1 n)
  show ?case
  proof (cases "n < 2")
    case False
    then have "2 ^ ilog2 (n div 2) \<le> n div 2 \<and> n div 2 < 2 * 2 ^ ilog2 (n div 2)"
      using 1 by simp
    moreover have "ilog2 n = Suc (ilog2 (n div 2))" using False by (simp add: ilog2.simps)
    ultimately show ?thesis by simp linarith
  qed (use 1 in \<open>simp add: ilog2.simps\<close>)
qed

lemma ilog2_rat_bounds:
  assumes "0 < n"
  shows "2 powi int (ilog2 n) \<le> (of_int n :: rat)" "of_int n < (2 * 2 powi int (ilog2 n) :: rat)"
proof -
  have "of_int (2 ^ ilog2 n) \<le> (of_int n :: rat)" "of_int n < (of_int (2 * 2 ^ ilog2 n) :: rat)"
    using ilog2_bounds [OF assms] by (simp_all only: of_int_le_iff of_int_less_iff)
  then show "2 powi int (ilog2 n) \<le> (of_int n :: rat)" "of_int n < (2 * 2 powi int (ilog2 n) :: rat)"
    by simp_all
qed

lemma f64_exp_bounds:
  assumes "0 < x"
  shows "2 powi f64_exp x \<le> x" "x < 2 powi (f64_exp x + 1)"
proof -
  obtain n d where q: "quotient_of x = (n, d)" by (cases "quotient_of x")
  have d: "0 < d" using q by (rule quotient_of_denom_pos)
  have x: "x = of_int n / of_int d" using q by (rule quotient_of_div)
  have n: "0 < n" using assms d by (simp add: x zero_less_divide_iff)
  let ?n = "2 powi int (ilog2 n) :: rat" and ?d = "2 powi int (ilog2 d) :: rat"
  let ?k = "int (ilog2 n) - int (ilog2 d)"
  note b = ilog2_rat_bounds [OF n] ilog2_rat_bounds [OF d]
  have k: "2 powi ?k = ?n / ?d" "2 powi (?k - 1) = ?n / (2 * ?d)" "2 powi (?k + 1) = 2 * ?n / ?d"
    by (simp_all add: power_int_diff power_int_add)
  have "?n * of_int d \<le> of_int n * (2 * ?d)"
    using b d n by (intro mult_mono) (simp_all add: less_imp_le)
  then have lo: "2 powi (?k - 1) \<le> x"
    using d unfolding k x by (simp add: divide_le_eq le_divide_eq mult_ac)
  have "of_int n * ?d < 2 * ?n * of_int d"
    using b d n by (intro mult_less_le_imp_less) simp_all
  then have hi: "x < 2 powi (?k + 1)"
    using d unfolding k x by (simp add: divide_less_eq less_divide_eq mult_ac)
  show "2 powi f64_exp x \<le> x" "x < 2 powi (f64_exp x + 1)"
    using assms lo hi by (auto simp: f64_exp_def q abs_of_pos Let_def)
qed

lemma powi_less_cancel: "2 powi i < (2 powi j :: rat) \<longleftrightarrow> i < j"
  using power_int_strict_increasing [of i j "2::rat"] power_int_increasing [of j i "2::rat"] by force

lemma f64_exp_mono: "0 < x \<Longrightarrow> x \<le> y \<Longrightarrow> f64_exp x \<le> f64_exp y"
proof -
  assume "0 < x" "x \<le> y"
  then have "2 powi f64_exp x < (2 powi (f64_exp y + 1) :: rat)"
    using f64_exp_bounds(1) [of x] f64_exp_bounds(2) [of y] by linarith
  then show ?thesis by (simp add: powi_less_cancel)
qed

lemma f64_exp_eq: "2 powi e \<le> x \<Longrightarrow> x < 2 powi (e + 1) \<Longrightarrow> f64_exp x = e"
proof -
  assume a: "2 powi e \<le> x" "x < 2 powi (e + 1)"
  moreover have "0 < x" using a(1) zero_less_power_int [of "2::rat" e] by linarith
  ultimately have "2 powi e < (2 powi (f64_exp x + 1) :: rat)" "2 powi f64_exp x < (2 powi (e + 1) :: rat)"
    using f64_exp_bounds [of x] by linarith+
  then show ?thesis by (simp add: powi_less_cancel)
qed

lemma f64_ulp_pos [simp]: "0 < f64_ulp x"
  by (simp add: f64_ulp_def)

lemma f64_ulp_ne [simp]: "f64_ulp x \<noteq> 0"
  using f64_ulp_pos [of x] by linarith

lemma f64_ulp_bounds:
  assumes "0 < x"
  shows "2 ^ 52 * f64_ulp x \<le> x" "x < 2 ^ 53 * f64_ulp x"
  using f64_exp_bounds [OF assms] by (simp_all add: f64_ulp_def power_int_diff power_int_add)

lemma round_half_even_near: "\<bar>of_int (round_half_even y) - y\<bar> \<le> 1 / 2"
  unfolding round_half_even_def Let_def frac_def using floor_correct [of y] by (auto split: abs_split)

lemma round_half_even_int [simp]: "round_half_even (of_int n) = n"
  by (simp add: round_half_even_def Let_def)

lemma round_half_even_mono: "x \<le> y \<Longrightarrow> round_half_even x \<le> round_half_even y"
proof -
  assume "x \<le> y"
  then have "\<lfloor>x\<rfloor> < \<lfloor>y\<rfloor> \<or> \<lfloor>x\<rfloor> = \<lfloor>y\<rfloor> \<and> frac x \<le> frac y"
    by (auto simp: frac_def dest: floor_mono)
  then show ?thesis
    unfolding round_half_even_def Let_def by (auto simp: not_less)
qed

lemma rnd_0 [simp]: "rnd 0 = 0"
  by (simp add: rnd_def)

lemma rnd_pos_eq: "0 < x \<Longrightarrow> rnd x = of_int (round_half_even (x / f64_ulp x)) * f64_ulp x"
  by (simp add: rnd_def)

lemma rnd_error:
  assumes "0 < x" shows "\<bar>rnd x - x\<bar> \<le> x / 2 ^ 53"
proof -
  let ?q = "of_int (round_half_even (x / f64_ulp x)) - x / f64_ulp x"
  have "rnd x - x = ?q * f64_ulp x"
    using assms by (simp add: rnd_pos_eq left_diff_distrib)
  then have "\<bar>rnd x - x\<bar> = \<bar>?q\<bar> * f64_ulp x"
    using f64_ulp_pos [of x] by (simp only: abs_mult abs_of_pos)
  also have "\<dots> \<le> 1 / 2 * f64_ulp x"
    by (intro mult_right_mono round_half_even_near less_imp_le f64_ulp_pos)
  also have "\<dots> \<le> x / 2 ^ 53" using f64_ulp_bounds(1) [OF assms] by simp
  finally show ?thesis .
qed

lemma rnd_binade:
  assumes "0 < x"
  shows "2 ^ 52 * f64_ulp x \<le> rnd x" "rnd x \<le> 2 ^ 53 * f64_ulp x"
proof -
  have b: "of_int (2 ^ 52) \<le> x / f64_ulp x" "x / f64_ulp x \<le> of_int (2 ^ 53)"
    using f64_ulp_bounds [OF assms] by (simp_all add: pos_le_divide_eq pos_divide_le_eq)
  have "2 ^ 52 \<le> round_half_even (x / f64_ulp x)" "round_half_even (x / f64_ulp x) \<le> 2 ^ 53"
    using round_half_even_mono [OF b(1)] round_half_even_mono [OF b(2)] by (simp_all only: round_half_even_int)
  then have "of_int (2 ^ 52) \<le> (of_int (round_half_even (x / f64_ulp x)) :: rat)"
    "of_int (round_half_even (x / f64_ulp x)) \<le> (of_int (2 ^ 53) :: rat)"
    by (simp_all only: of_int_le_iff)
  then have "of_int (2 ^ 52) * f64_ulp x \<le> rnd x" "rnd x \<le> of_int (2 ^ 53) * f64_ulp x"
    unfolding rnd_pos_eq [OF assms] by (auto intro: mult_right_mono simp: less_imp_le simp del: of_int_power)
  then show "2 ^ 52 * f64_ulp x \<le> rnd x" "rnd x \<le> 2 ^ 53 * f64_ulp x" by simp_all
qed

lemma rnd_pos: "0 < x \<Longrightarrow> 0 < rnd x"
  using rnd_binade(1) [of x] f64_ulp_pos [of x] by (meson less_le_trans mult_pos_pos zero_less_numeral zero_less_power)

lemma rnd_nonneg: "0 \<le> x \<Longrightarrow> 0 \<le> rnd x"
  using rnd_pos [of x] by (cases "x = 0") (simp_all add: less_le)

lemma rnd_mono:
  assumes "0 \<le> x" "x \<le> y" shows "rnd x \<le> rnd y"
proof (cases "x = 0")
  case True
  with assms rnd_nonneg show ?thesis by simp
next
  case False
  then have x: "0 < x" "0 < y" using assms by simp_all
  consider "f64_exp x = f64_exp y" | "f64_exp x + 1 \<le> f64_exp y"
    using f64_exp_mono [OF x(1) assms(2)] by linarith
  then show ?thesis
  proof cases
    case 1
    then have u: "f64_ulp x = f64_ulp y" by (simp add: f64_ulp_def)
    have "round_half_even (x / f64_ulp y) \<le> round_half_even (y / f64_ulp y)"
      using assms(2) by (intro round_half_even_mono divide_right_mono) (simp_all add: less_imp_le)
    then show ?thesis
      unfolding rnd_pos_eq [OF x(1)] rnd_pos_eq [OF x(2)] u
      by (intro mult_right_mono) (simp_all add: less_imp_le)
  next
    case 2
    then have "2 powi (f64_exp x + 1) \<le> (2 powi f64_exp y :: rat)" by (intro power_int_increasing) simp_all
    then have "2 ^ 53 * f64_ulp x \<le> 2 ^ 52 * f64_ulp y"
      by (simp add: f64_ulp_def power_int_diff power_int_add)
    with rnd_binade(2) [OF x(1)] rnd_binade(1) [OF x(2)] show ?thesis by linarith
  qed
qed

lemma rnd_int_ulps:
  assumes "0 < x" "x / f64_ulp x = of_int j" shows "rnd x = x"
proof -
  have "of_int j * f64_ulp x = x / f64_ulp x * f64_ulp x" by (simp only: assms(2))
  then have "of_int j * f64_ulp x = x" by simp
  then show ?thesis by (simp only: rnd_pos_eq [OF assms(1)] assms(2) round_half_even_int)
qed

lemma rnd_exact:
  assumes "0 \<le> m" "m < 2 ^ 53"
  shows "rnd (of_int m * 2 powi k) = of_int m * 2 powi k"
proof (cases "m = 0")
  case False
  let ?x = "of_int m * 2 powi k :: rat"
  let ?d = "k - (f64_exp ?x - 52)"
  have x: "0 < ?x" using assms False by simp
  have "of_int m < (of_int (2 ^ 53) :: rat)" using assms(2) by (simp only: of_int_less_iff)
  then have "?x < 2 powi (53 + k)" by (simp add: power_int_add)
  then have "2 powi f64_exp ?x < (2 powi (53 + k) :: rat)" using f64_exp_bounds(1) [OF x] by linarith
  then have "f64_exp ?x - 52 \<le> k" by (simp add: powi_less_cancel)
  then have "(2 powi ?d :: rat) = of_int (2 ^ nat ?d)" by (simp add: power_int_def)
  moreover have "(2 powi ?d :: rat) = 2 powi k / 2 powi (f64_exp ?x - 52)"
    by (rule power_int_diff) simp
  then have "?x / f64_ulp ?x = of_int m * (2 powi ?d)" by (simp only: f64_ulp_def times_divide_eq_right)
  ultimately have "?x / f64_ulp ?x = of_int (m * 2 ^ nat ?d)" by simp
  with x show ?thesis by (rule rnd_int_ulps)
qed simp

lemma rnd_nat: "n < 2 ^ 53 \<Longrightarrow> rnd (of_nat n) = of_nat n"
  using rnd_exact [of "int n" 0] by simp

lemma f64_of_exact: "unat w < 2 ^ 53 \<Longrightarrow> f64_of w = of_nat (unat w)"
  by (simp add: f64_of_def rnd_nat)

lemma rnd_ten: "k \<le> 22 \<Longrightarrow> rnd (10 ^ k) = 10 ^ k"
proof -
  assume "k \<le> 22"
  then have "(5::int) ^ k \<le> 5 ^ 22" by (intro power_increasing) simp_all
  then have "(5::int) ^ k < 2 ^ 53" by simp
  from rnd_exact [OF _ this, of "int k"] show ?thesis
    by (simp flip: power_mult_distrib)
qed

lemma powi_loop_ten: "i * b + j \<le> 22 \<Longrightarrow> 0 < b \<Longrightarrow> powi_loop (10 ^ i) b (10 ^ j) = 10 ^ (i * b + j)"
proof (induction b arbitrary: i j rule: less_induct)
  case (less b)
  let ?j = "if odd b then i + j else j"
  have "i * 1 \<le> i * b" using less.prems(2) by (intro mult_left_mono) simp_all
  then have "i + j \<le> 22" using less.prems(1) by linarith
  then have r: "(if odd b then fmul (10 ^ j) (10 ^ i) else 10 ^ j) = 10 ^ ?j"
    by (simp add: fmul_def rnd_ten add.commute flip: power_add)
  show ?case
  proof (cases "b < 2")
    case True
    with less.prems(2) have "b = 1" by simp
    then show ?thesis using r by (simp add: powi_loop.simps)
  next
    case False
    then have "i * 2 \<le> i * b" by simp
    then have "i + i \<le> 22" using less.prems(1) by linarith
    then have a: "fmul (10 ^ i) (10 ^ i) = 10 ^ (i + i)"
      by (simp add: fmul_def rnd_ten flip: power_add)
    have e: "(i + i) * (b div 2) + ?j = i * b + j"
    proof (cases "odd b")
      case True
      then obtain q where "b = 2 * q + 1" by (elim oddE)
      then show ?thesis by (simp add: algebra_simps)
    next
      case False
      then obtain q where "b = 2 * q" by (auto elim: evenE)
      then show ?thesis by (simp add: algebra_simps)
    qed
    have "powi_loop (10 ^ (i + i)) (b div 2) (10 ^ ?j) = 10 ^ ((i + i) * (b div 2) + ?j)"
      using False less.prems(1) e by (intro less.IH) simp_all
    with False show ?thesis by (subst powi_loop.simps) (simp only: Let_def r a e if_False)
  qed
qed

lemma f64_powi_ten: "d \<le> 22 \<Longrightarrow> f64_powi 10 d = 10 ^ d"
  using powi_loop_ten [of 1 d 0] by (cases "d = 0") (simp_all add: f64_powi_def powi_loop.simps)

lemma rnd_idem: "0 \<le> x \<Longrightarrow> rnd (rnd x) = rnd x"
proof (cases "x = 0")
  case False
  assume "0 \<le> x"
  with False have x: "0 < x" by simp
  let ?m = "round_half_even (x / f64_ulp x)"
  have r: "rnd x = of_int ?m * 2 powi (f64_exp x - 52)"
    by (simp only: rnd_pos_eq [OF x]) (simp only: f64_ulp_def)
  have "of_int 0 < (of_int ?m :: rat)" "of_int ?m \<le> (of_int (2 ^ 53) :: rat)"
    using rnd_pos [OF x] rnd_binade(2) [OF x] f64_ulp_pos [of x]
    by (simp_all add: rnd_pos_eq [OF x] zero_less_mult_iff not_less_iff_gr_or_eq)
  then have m: "0 < ?m" "?m \<le> 2 ^ 53" by (simp_all only: of_int_less_iff of_int_le_iff)
  show ?thesis
  proof (cases "?m = 2 ^ 53")
    case True
    then have "rnd x = of_int 1 * 2 powi (f64_exp x - 52 + 53)"
      unfolding r by (subst power_int_add) simp_all
    moreover have "rnd (of_int 1 * 2 powi (f64_exp x - 52 + 53)) = of_int 1 * 2 powi (f64_exp x - 52 + 53)"
      by (rule rnd_exact) simp_all
    ultimately show ?thesis by simp
  next
    case False
    with m have "rnd (of_int ?m * 2 powi (f64_exp x - 52)) = of_int ?m * 2 powi (f64_exp x - 52)"
      by (intro rnd_exact) simp_all
    then show ?thesis by (simp only: r)
  qed
qed simp

section \<open>Monotonicity\<close>

named_theorems f64_mono "signs and monotonicity of the operations"

lemma f64_nonneg [f64_mono]:
  "0 \<le> x \<Longrightarrow> 0 \<le> y \<Longrightarrow> 0 \<le> fadd x y" "0 \<le> x \<Longrightarrow> 0 \<le> y \<Longrightarrow> 0 \<le> fmul x y"
  "0 \<le> x \<Longrightarrow> 0 \<le> y \<Longrightarrow> 0 \<le> fdiv x y" "0 \<le> f64_of w"
  by (simp_all add: fadd_def fmul_def fdiv_def f64_of_def rnd_nonneg)

lemma fadd_mono [f64_mono]: "0 \<le> x \<Longrightarrow> 0 \<le> y \<Longrightarrow> x \<le> x' \<Longrightarrow> y \<le> y' \<Longrightarrow> fadd x y \<le> fadd x' y'"
  unfolding fadd_def by (intro rnd_mono) simp_all

lemma fmul_mono [f64_mono]: "0 \<le> x \<Longrightarrow> 0 \<le> y \<Longrightarrow> x \<le> x' \<Longrightarrow> y \<le> y' \<Longrightarrow> fmul x y \<le> fmul x' y'"
  unfolding fmul_def by (intro rnd_mono mult_mono) simp_all

lemma fdiv_mono [f64_mono]: "0 \<le> x \<Longrightarrow> 0 \<le> y \<Longrightarrow> x \<le> x' \<Longrightarrow> fdiv x y \<le> fdiv x' y"
  unfolding fdiv_def by (intro rnd_mono divide_right_mono) simp_all

lemma f64_of_mono [f64_mono]: "w \<le> w' \<Longrightarrow> f64_of w \<le> f64_of w'"
  unfolding f64_of_def by (intro rnd_mono) (simp_all add: word_le_nat_alt)

lemma fadd_increases:
  assumes "rnd x = x" "0 \<le> x" "0 \<le> y" shows "x \<le> fadd x y" "rnd (fadd x y) = fadd x y"
  using rnd_mono [of x "x + y"] assms by (simp_all add: fadd_def rnd_idem)

lemma powi_loop_pos: "0 < a \<Longrightarrow> 0 < r \<Longrightarrow> 0 < powi_loop a b r"
  by (induction a b r rule: powi_loop.induct) (subst powi_loop.simps, simp add: Let_def fmul_def rnd_pos)

lemma f64_powi_pos [simp]: "0 < a \<Longrightarrow> 0 < f64_powi a b"
  by (simp add: f64_powi_def powi_loop_pos)

section \<open>Error bounds\<close>

definition f64_step :: rat where
  "f64_step = 1 + 1 / 2 ^ 52"

definition approx :: "nat \<Rightarrow> f64 \<Rightarrow> rat \<Rightarrow> bool" where
  "approx n x y \<longleftrightarrow> 0 \<le> y \<and> y / f64_step ^ n \<le> x \<and> x \<le> y * f64_step ^ n"

named_theorems approx_intros "closure of the error bound under the operations"

lemma f64_step_gt [simp]: "1 < f64_step" "0 < f64_step" "1 \<le> f64_step" "f64_step \<noteq> 0"
  by (simp_all add: f64_step_def)

lemma f64_step_pow_pos [simp]: "0 < f64_step ^ n" "f64_step ^ n \<noteq> 0"
  by simp_all

lemma approx_exact: "0 \<le> y \<Longrightarrow> approx 0 y y"
  by (simp add: approx_def)

lemma approx_weaken: "approx n x y \<Longrightarrow> n \<le> m \<Longrightarrow> approx m x y"
proof -
  assume a: "approx n x y" "n \<le> m"
  then have "f64_step ^ n \<le> f64_step ^ m" by (intro power_increasing) simp_all
  then have "y / f64_step ^ m \<le> y / f64_step ^ n" "y * f64_step ^ n \<le> y * f64_step ^ m"
    using a by (auto intro!: divide_left_mono mult_left_mono simp: approx_def)
  with a show ?thesis by (simp add: approx_def)
qed

lemma approx_nonneg: "approx n x y \<Longrightarrow> 0 \<le> x"
proof -
  assume "approx n x y"
  then have "0 \<le> y / f64_step ^ n" "y / f64_step ^ n \<le> x"
    by (simp_all add: approx_def less_imp_le)
  then show ?thesis by linarith
qed

lemma approx_pos: "approx n x y \<Longrightarrow> 0 < y \<Longrightarrow> 0 < x"
proof -
  assume "approx n x y" "0 < y"
  then have "0 < y / f64_step ^ n" "y / f64_step ^ n \<le> x" by (simp_all add: approx_def)
  then show ?thesis by linarith
qed

lemma approx_rnd: "approx n x y \<Longrightarrow> approx (Suc n) (rnd x) y"
proof -
  assume a: "approx n x y"
  note x = approx_nonneg [OF a]
  have e: "\<bar>rnd x - x\<bar> \<le> x / 2 ^ 53"
    using rnd_error [of x] x by (cases "x = 0") simp_all
  have "rnd x \<le> x + x / 2 ^ 53" using e by linarith
  also have "\<dots> \<le> x * f64_step" using x by (simp add: f64_step_def distrib_left)
  finally have "rnd x \<le> x * f64_step" .
  also have "\<dots> \<le> y * f64_step ^ n * f64_step"
    using a by (intro mult_right_mono) (simp_all add: approx_def less_imp_le)
  finally have up: "rnd x \<le> y * f64_step ^ Suc n" by (simp add: mult_ac)
  have "x * 1 \<le> x * ((1 - 1 / 2 ^ 53) * f64_step)"
    using x by (intro mult_left_mono) (simp_all add: f64_step_def)
  then have "x / f64_step \<le> x * (1 - 1 / 2 ^ 53)" by (simp add: pos_divide_le_eq mult_ac)
  also have "\<dots> = x - x / 2 ^ 53" by (simp add: right_diff_distrib)
  also have "\<dots> \<le> rnd x" using e by linarith
  finally have "x / f64_step \<le> rnd x" .
  moreover have "y / f64_step ^ n / f64_step \<le> x / f64_step"
    using a by (intro divide_right_mono) (simp_all add: approx_def less_imp_le)
  ultimately show ?thesis using a up by (simp add: approx_def mult_ac)
qed

lemma approx_times: "approx n x y \<Longrightarrow> approx m x' y' \<Longrightarrow> approx (n + m) (x * x') (y * y')"
proof -
  assume a: "approx n x y" "approx m x' y'"
  note nn = approx_nonneg [OF a(1)] approx_nonneg [OF a(2)]
  have "y / f64_step ^ n * (y' / f64_step ^ m) \<le> x * x'"
    using a nn by (intro mult_mono) (simp_all add: approx_def less_imp_le)
  moreover have "x * x' \<le> y * f64_step ^ n * (y' * f64_step ^ m)"
    using a nn by (intro mult_mono) (simp_all add: approx_def less_imp_le)
  ultimately show ?thesis using a by (simp add: approx_def power_add mult_ac)
qed

lemma approx_inverse: "approx n x y \<Longrightarrow> 0 < y \<Longrightarrow> approx n (1 / x) (1 / y)"
proof -
  assume a: "approx n x y" "0 < y"
  note x = approx_pos [OF a]
  have "x / f64_step ^ n \<le> y" "y \<le> x * f64_step ^ n"
    using a by (simp_all add: approx_def pos_divide_le_eq)
  with a x show ?thesis by (simp add: approx_def field_simps)
qed

lemma approx_over: "approx n x y \<Longrightarrow> approx m x' y' \<Longrightarrow> 0 < y' \<Longrightarrow> approx (n + m) (x / x') (y / y')"
  using approx_times [OF _ approx_inverse, of n x y m x' y'] by simp

lemma approx_plus: "approx n x y \<Longrightarrow> approx n x' y' \<Longrightarrow> approx n (x + x') (y + y')"
  by (auto simp: approx_def add_divide_distrib distrib_right)

lemma approx_fmul [approx_intros]: "approx n x y \<Longrightarrow> approx m x' y' \<Longrightarrow> approx (Suc (n + m)) (fmul x x') (y * y')"
  unfolding fmul_def by (intro approx_rnd approx_times)

lemma approx_fdiv [approx_intros]:
  "approx n x y \<Longrightarrow> approx m x' y' \<Longrightarrow> 0 < y' \<Longrightarrow> approx (Suc (n + m)) (fdiv x x') (y / y')"
  unfolding fdiv_def by (intro approx_rnd approx_over)

lemma approx_fadd [approx_intros]:
  "approx n x y \<Longrightarrow> approx m x' y' \<Longrightarrow> approx (Suc (max n m)) (fadd x x') (y + y')"
  unfolding fadd_def by (intro approx_rnd approx_plus) (auto elim: approx_weaken)

lemma approx_f64_of [approx_intros]: "approx 1 (f64_of w) (of_nat (unat w))"
  using approx_rnd [OF approx_exact, of "of_nat (unat w)"] by (simp add: f64_of_def)

text \<open>The factor of up to 51 steps.\<close>

lemma small_power:
  fixes a :: rat
  assumes "0 \<le> a" "8 * (of_nat n * a) \<le> 1"
  shows "(1 + a) ^ n \<le> 1 + 5 / 4 * (of_nat n * a)"
  using assms(2)
proof (induction n)
  case (Suc n)
  define k where "k = of_nat n * a"
  have Sk: "of_nat (Suc n) * a = k + a" by (simp add: k_def distrib_right)
  have k: "8 * (k + a) \<le> 1" using Suc.prems by (simp only: Sk)
  then have le: "k \<le> 1 / 8" "8 * k \<le> 1" using assms(1) by simp_all
  have "(1 + a) ^ n \<le> 1 + 5 / 4 * k" using Suc.IH le(2) by (simp only: k_def)
  then have "(1 + a) ^ Suc n \<le> (1 + a) * (1 + 5 / 4 * k)"
    unfolding power_Suc using assms(1) by (intro mult_left_mono) simp_all
  also have "\<dots> = 1 + a + 5 / 4 * k + 5 / 4 * (k * a)" by (simp add: algebra_simps)
  also have "\<dots> \<le> 1 + 5 / 4 * (k + a)"
    using mult_right_mono [OF le(1) assms(1)] assms(1) by (simp add: mult.commute [of a])
  finally show ?case by (simp only: Sk)
qed simp

lemma f64_step_power:
  assumes "n \<le> 51" shows "f64_step ^ n \<le> 1 + 1 / 2 ^ 46"
proof -
  have "f64_step ^ n \<le> f64_step ^ 51" using assms by (simp add: power_increasing)
  also have "\<dots> \<le> 1 + 5 / 4 * (of_nat 51 * (1 / 2 ^ 52))"
    unfolding f64_step_def by (rule small_power) simp_all
  also have "\<dots> \<le> 1 + 1 / 2 ^ 46" by simp
  finally show ?thesis .
qed

text \<open>A difference keeps a bound when the subtrahend is at most half of the minuend.\<close>

text \<open>Two bounds on a factor \<open>e\<close> slightly above one, for differences.\<close>

lemma factor_above: "1 \<le> e \<Longrightarrow> 2 * e - 1 / e \<le> (e :: rat) ^ 4"
proof -
  assume e: "1 \<le> e"
  have "0 \<le> (e ^ 2 - 1) ^ 2" by simp
  then have "2 * e ^ 2 \<le> 1 + e ^ 4" by (simp add: power2_diff)
  then have "2 * e ^ 2 / e \<le> (1 + e ^ 4) / e" using e by (intro divide_right_mono) simp_all
  then have "2 * e - 1 / e \<le> e ^ 3" using e by (simp add: add_divide_distrib power_numeral_reduce)
  also have "\<dots> \<le> e ^ 4" using e by (intro power_increasing) simp_all
  finally show ?thesis .
qed

lemma factor_below:
  assumes "1 \<le> e" "e \<le> 11 / 10" shows "1 / (e :: rat) ^ 4 \<le> 2 * (1 / e) - e"
proof -
  define t where "t = e - 1"
  have t: "0 \<le> t" "t \<le> 1 / 10" "e = 1 + t" using assms by (simp_all add: t_def)
  have tt: "t * t \<le> t / 10" "0 \<le> t * t" using t mult_left_mono [of t "1 / 10" t] by simp_all
  have "e ^ 3 = 1 + 3 * t + t * t * (3 + t)"
    by (simp add: t(3) power3_eq_cube algebra_simps)
  moreover have "0 \<le> t * t * (3 + t)" using t by simp
  ultimately have c: "1 + 3 * t \<le> e ^ 3" by linarith
  have sq: "1 - 21 / 10 * t \<le> 2 - e ^ 2"
    using tt by (simp add: t(3) power2_eq_square algebra_simps)
  have "(1 + 3 * t) * (1 - 21 / 10 * t) = 1 + 9 / 10 * t - 63 / 10 * (t * t)"
    by (simp add: field_simps)
  then have "1 \<le> (1 + 3 * t) * (1 - 21 / 10 * t)" using tt t by linarith
  also have "\<dots> \<le> e ^ 3 * (2 - e ^ 2)" using c sq t by (intro mult_mono) simp_all
  also have "e ^ 3 * (2 - e ^ 2) = (2 * (1 / e) - e) * e ^ 4"
    using assms by (simp add: field_simps power_numeral_reduce)
  finally have "1 \<le> (2 * (1 / e) - e) * e ^ 4" .
  then show ?thesis using assms by (simp add: pos_divide_le_eq)
qed

lemma approx_minus:
  assumes "approx n s S" "approx n f F" "2 * F \<le> S" "f64_step ^ n \<le> 11 / 10"
  shows "approx (4 * n) (s - f) (S - F)"
proof -
  define e where "e = f64_step ^ n"
  have e: "1 \<le> e" "e \<le> 11 / 10" using assms(4) by (simp_all add: e_def one_le_power)
  have b: "S / e \<le> s" "s \<le> S * e" "F / e \<le> f" "f \<le> F * e" "0 \<le> F" "0 \<le> S"
    using assms(1,2) by (simp_all add: approx_def e_def)
  have i: "1 / e \<le> 1" "0 < 1 / e" using e by simp_all
  have "F * (e - 1 / e) \<le> (S - F) * (e - 1 / e)"
    using assms(3) e i by (intro mult_right_mono) linarith+
  moreover have "s - f \<le> (S - F) * e + F * (e - 1 / e)" "(S - F) / e - F * (e - 1 / e) \<le> s - f"
    using b by (simp_all add: left_diff_distrib right_diff_distrib diff_divide_distrib)
  moreover have "(S - F) * e + (S - F) * (e - 1 / e) = (S - F) * (2 * e - 1 / e)"
    "(S - F) / e - (S - F) * (e - 1 / e) = (S - F) * (2 * (1 / e) - e)"
    by (simp_all add: left_diff_distrib right_diff_distrib diff_divide_distrib mult.commute)
  ultimately have d: "s - f \<le> (S - F) * (2 * e - 1 / e)" "(S - F) * (2 * (1 / e) - e) \<le> s - f"
    by linarith+
  have "s - f \<le> (S - F) * e ^ 4"
    using d(1) mult_left_mono [OF factor_above [OF e(1)], of "S - F"] assms(3) b by linarith
  moreover have "(S - F) / e ^ 4 \<le> s - f"
    using d(2) mult_left_mono [OF factor_below [OF e], of "S - F"] assms(3) b by simp
  ultimately show ?thesis
    using assms(3) b by (simp add: approx_def e_def power_mult [symmetric] mult.commute)
qed

end
