(* ===== verification/LiveHealth.thy ===== *)
theory LiveHealth
  imports F64 KaminoDecode
begin

text \<open>
  The health of a live obligation, recomputed in \<^verbatim>\<open>f64\<close> from its positions and the
  reserves: \<^verbatim>\<open>crates/liq-kamino/src/live_health.rs\<close>, with the \<^verbatim>\<open>f64\<close> conversions of
  \<^verbatim>\<open>crates/liq-core/src/types.rs\<close> and \<^verbatim>\<open>classify_band\<close> of
  \<^verbatim>\<open>crates/liq-core/src/candidate_index.rs\<close>. Every value is finite (see theory
  \<open>F64\<close>), so the tests with \<^verbatim>\<open>is_finite\<close> have no branch; the base58 printing of a
  key is the argument \<open>b58\<close>. The theorems compare the computed flags with the same sums in exact rationals.
\<close>

section \<open>Conversions\<close>

definition price_from_f64 :: "f64 \<Rightarrow> price_fx" where
  "price_from_f64 v = PriceFx (as_u128 (round_away (fmul (max v 0) (f64_of price_scale))))"

definition price_to_f64 :: "price_fx \<Rightarrow> f64" where
  "price_to_f64 p = fdiv (f64_of (px p)) (f64_of price_scale)"

definition f64_of_signed :: "i128 \<Rightarrow> f64" where
  "f64_of_signed w = rnd (of_int (sint w))"

definition health_from_f64 :: "f64 \<Rightarrow> health_fx" where
  "health_from_f64 v = HealthFx (as_i128 (round_away (fmul v (f64_of_signed health_scale))))"

definition health_to_f64 :: "health_fx \<Rightarrow> f64" where
  "health_to_f64 h = fdiv (f64_of_signed (hf h)) (f64_of_signed health_scale)"

definition classify_band :: "health_fx \<Rightarrow> f64 \<Rightarrow> candidate_band" where
  "classify_band health distance_pct =
     (if is_liquidatable_hf health then Critical
      else if distance_pct \<le> rnd (2 / 100) then Hot
      else if distance_pct \<le> rnd (8 / 100) then Warm
      else Cold)"

definition fraction_scale :: u128 where
  "fraction_scale = push_bit 60 1"

definition sf_to_f64 :: "u128 \<Rightarrow> f64" where
  "sf_to_f64 sf = fdiv (f64_of sf) (f64_of fraction_scale)"

definition f64_to_sf :: "f64 \<Rightarrow> u128" where
  "f64_to_sf v = (if v \<le> 0 then 0 else as_u128 (round_away (fmul v (f64_of fraction_scale))))"

section \<open>Reserves\<close>

definition price_f64 :: "live_reserve_risk \<Rightarrow> f64" where
  "price_f64 r = sf_to_f64 (lr_market_price_sf r)"

definition reserve_price_fx :: "live_reserve_risk \<Rightarrow> price_fx" where
  "reserve_price_fx r = price_from_f64 (max (price_f64 r) 0)"

definition total_liquidity_tokens_f64 :: "live_reserve_risk \<Rightarrow> f64" where
  "total_liquidity_tokens_f64 r =
     (let available = f64_of (lr_total_available_amount r);
          borrowed = sf_to_f64 (lr_borrowed_amount_sf r);
          fees = fadd (fadd (sf_to_f64 (lr_accumulated_protocol_fees_sf r))
                            (sf_to_f64 (lr_accumulated_referrer_fees_sf r)))
                      (sf_to_f64 (lr_pending_referrer_fees_sf r))
      in max (fsub (fadd available borrowed) fees) 0)"

definition collateral_to_liquidity :: "live_reserve_risk \<Rightarrow> u64 \<Rightarrow> f64" where
  "collateral_to_liquidity r deposited_collateral =
     (let supply = lr_collateral_mint_total_supply r in
      if supply = 0 then f64_of deposited_collateral
      else let total_liq = total_liquidity_tokens_f64 r
           in fdiv (fmul (f64_of deposited_collateral) total_liq) (f64_of supply))"

definition tokens_to_usd_f64 :: "f64 \<Rightarrow> u8 \<Rightarrow> u128 \<Rightarrow> f64" where
  "tokens_to_usd_f64 token_amount decimals price_sf =
     (if token_amount \<le> 0 \<or> price_sf = 0 then 0
      else let price = sf_to_f64 price_sf;
               whole = fdiv token_amount (f64_powi 10 (unat decimals));
               usd = fmul whole price
           in if usd \<le> 0 then 0 else usd)"

definition tokens_to_usd_micro :: "f64 \<Rightarrow> u8 \<Rightarrow> u128 \<Rightarrow> u128" where
  "tokens_to_usd_micro token_amount decimals price_sf =
     (let usd = tokens_to_usd_f64 token_amount decimals price_sf in
      if usd \<le> 0 then 0 else as_u128 (round_away (fmul usd 1000000)))"

section \<open>The health of an obligation\<close>

record klend_computed_health =
  kh_deposited_value_usd_micro :: u128
  kh_borrowed_value_usd_micro :: u128
  kh_borrow_factor_adjusted_debt_usd_micro :: u128
  kh_unhealthy_borrow_value_usd_micro :: u128
  kh_allowed_borrow_value_usd_micro :: u128
  kh_health_factor :: f64
  kh_ltv :: f64
  kh_is_liquidatable :: bool
  kh_below_maintenance :: bool
  kh_missing_reserves :: "string list"

definition kh_health_fx :: "klend_computed_health \<Rightarrow> health_fx" where
  "kh_health_fx h = health_from_f64 (kh_health_factor h)"

definition min_liquidation_notional_usd :: f64 where
  "min_liquidation_notional_usd = rnd (1 / 100)"

type_synonym reserve_map = "pubkey \<rightharpoonup> live_reserve_risk"
type_synonym elevation_map = "u8 \<rightharpoonup> elevation_group_params"

text \<open>The running sums of the two loops of the source.\<close>

record deposit_sums =
  ds_missing :: "string list"
  ds_deposited_usd :: f64
  ds_unhealthy :: f64
  ds_allowed :: f64

record borrow_sums =
  bs_missing :: "string list"
  bs_borrowed_usd :: f64
  bs_bf_debt :: f64

definition active_elevation ::
    "live_obligation_positions \<Rightarrow> elevation_map option \<Rightarrow> elevation_group_params option" where
  "active_elevation pos elevation_groups =
     (let id = lh_elevation_group (lp_header pos) in
      if id = 0 then None else Option.bind elevation_groups (\<lambda>m. m id))"

definition deposit_step :: "(u8 list \<Rightarrow> string) \<Rightarrow> reserve_map \<Rightarrow> elevation_group_params option
    \<Rightarrow> deposit_sums \<Rightarrow> live_deposit_position \<Rightarrow> deposit_sums" where
  "deposit_step b58 reserves elev s d =
     (if ld_deposited_amount d = 0 then s
      else case reserves (ld_reserve d) of
        None \<Rightarrow> s\<lparr>ds_missing := ds_missing s @ [b58 (pk_bytes (ld_reserve d))]\<rparr>
      | Some r \<Rightarrow>
          if lr_market_price_sf r = 0
          then s\<lparr>ds_missing := ds_missing s @ [b58 (pk_bytes (ld_reserve d)) @ '':zero_price'']\<rparr>
          else
            (let liq_tokens = collateral_to_liquidity r (ld_deposited_amount d);
                 usd = tokens_to_usd_f64 liq_tokens (lr_mint_decimals r) (lr_market_price_sf r);
                 (thr, ltv) = (case elev of
                     Some e \<Rightarrow> (eg_liquidation_threshold_pct e, eg_ltv_pct e)
                   | None \<Rightarrow> (lr_liquidation_threshold_pct r, lr_loan_to_value_pct r))
             in s\<lparr>ds_deposited_usd := fadd (ds_deposited_usd s) usd,
                  ds_unhealthy := fadd (ds_unhealthy s) (fdiv (fmul usd (f64_of thr)) 100),
                  ds_allowed := fadd (ds_allowed s) (fdiv (fmul usd (f64_of ltv)) 100)\<rparr>))"

definition borrow_step :: "(u8 list \<Rightarrow> string) \<Rightarrow> reserve_map \<Rightarrow> elevation_group_params option
    \<Rightarrow> borrow_sums \<Rightarrow> live_borrow_position \<Rightarrow> borrow_sums" where
  "borrow_step b58 reserves elev s b =
     (if lb_borrowed_amount_sf b = 0 then s
      else case reserves (lb_reserve b) of
        None \<Rightarrow> s\<lparr>bs_missing := bs_missing s @ [b58 (pk_bytes (lb_reserve b))]\<rparr>
      | Some r \<Rightarrow>
          if lr_market_price_sf r = 0
          then s\<lparr>bs_missing := bs_missing s @ [b58 (pk_bytes (lb_reserve b)) @ '':zero_price'']\<rparr>
          else
            (let tokens = sf_to_f64 (lb_borrowed_amount_sf b);
                 usd = tokens_to_usd_f64 tokens (lr_mint_decimals r) (lr_market_price_sf r);
                 bf = (if elev \<noteq> None then 100 else f64_of (max (lr_borrow_factor_pct r) 1))
             in s\<lparr>bs_borrowed_usd := fadd (bs_borrowed_usd s) usd,
                  bs_bf_debt := fadd (bs_bf_debt s) (fdiv (fmul usd bf) 100)\<rparr>))"

definition to_micro :: "f64 \<Rightarrow> u128" where
  "to_micro v = (if v \<le> 0 then 0 else as_u128 (round_away (fmul v 1000000)))"

definition compute_obligation_health_live_with_elevation ::
    "(u8 list \<Rightarrow> string) \<Rightarrow> live_obligation_positions \<Rightarrow> reserve_map \<Rightarrow> elevation_map option
      \<Rightarrow> kamino_error + klend_computed_health" where
  "compute_obligation_health_live_with_elevation b58 pos reserves elevation_groups =
     (let elev = active_elevation pos elevation_groups;
          s = foldl (deposit_step b58 reserves elev)
                \<lparr>ds_missing = [], ds_deposited_usd = 0, ds_unhealthy = 0, ds_allowed = 0\<rparr> (lp_deposits pos);
          b = foldl (borrow_step b58 reserves elev)
                \<lparr>bs_missing = ds_missing s, bs_borrowed_usd = 0, bs_bf_debt = 0\<rparr> (lp_borrows pos);
          deposited_usd = ds_deposited_usd s;
          unhealthy = ds_unhealthy s;
          allowed = ds_allowed s;
          bf_debt = bs_bf_debt b;
          meaningful = (min_liquidation_notional_usd \<le> bf_debt
                        \<and> min_liquidation_notional_usd \<le> deposited_usd)
      in Inr \<lparr>kh_deposited_value_usd_micro = to_micro deposited_usd,
              kh_borrowed_value_usd_micro = to_micro (bs_borrowed_usd b),
              kh_borrow_factor_adjusted_debt_usd_micro = to_micro bf_debt,
              kh_unhealthy_borrow_value_usd_micro = to_micro unhealthy,
              kh_allowed_borrow_value_usd_micro = to_micro allowed,
              kh_health_factor = (if bf_debt \<le> 0 then 1000 else if unhealthy \<le> 0 then 1000
                                  else fdiv unhealthy bf_debt),
              kh_ltv = (if deposited_usd \<le> 0 then 0 else fdiv bf_debt deposited_usd),
              kh_is_liquidatable = (meaningful \<and> unhealthy < bf_debt),
              kh_below_maintenance = (meaningful \<and> allowed < bf_debt),
              kh_missing_reserves = bs_missing b\<rparr>)"

definition compute_obligation_health_live ::
    "(u8 list \<Rightarrow> string) \<Rightarrow> live_obligation_positions \<Rightarrow> reserve_map \<Rightarrow> kamino_error + klend_computed_health" where
  "compute_obligation_health_live b58 pos reserves =
     compute_obligation_health_live_with_elevation b58 pos reserves None"

text \<open>The prices of the reserves, in the iteration order \<open>order\<close> of the map's keys.\<close>

fun price_map_from_reserves :: "reserve_map \<Rightarrow> pubkey list \<Rightarrow> price_map" where
  "price_map_from_reserves reserves [] = []"
| "price_map_from_reserves reserves (k # order) =
     (case reserves k of
        Some r \<Rightarrow> if 0 < lr_market_price_sf r
                  then (lr_liquidity_mint r, reserve_price_fx r) # price_map_from_reserves reserves order
                  else price_map_from_reserves reserves order
      | None \<Rightarrow> price_map_from_reserves reserves order)"

definition band_from_klend_health :: "klend_computed_health \<Rightarrow> candidate_band" where
  "band_from_klend_health h =
     (if kh_is_liquidatable h then Critical
      else if kh_health_factor h < rnd (105 / 100) then Hot
      else if kh_health_factor h < rnd (120 / 100) then Warm
      else Cold)"

definition stale_sf_header_health_ratio :: "u128 \<Rightarrow> u128 \<Rightarrow> f64 option" where
  "stale_sf_header_health_ratio borrowed_assets_market_value_sf unhealthy_borrow_value_sf =
     (if borrowed_assets_market_value_sf = 0 then None
      else Some (fdiv (f64_of unhealthy_borrow_value_sf) (f64_of borrowed_assets_market_value_sf)))"

section \<open>The exact sums\<close>

definition sf_value :: "u128 \<Rightarrow> rat" where
  "sf_value sf = of_nat (unat sf) / 2 ^ 60"

definition gross_liquidity :: "live_reserve_risk \<Rightarrow> rat" where
  "gross_liquidity r = of_nat (unat (lr_total_available_amount r)) + sf_value (lr_borrowed_amount_sf r)"

definition reserve_fees :: "live_reserve_risk \<Rightarrow> rat" where
  "reserve_fees r = sf_value (lr_accumulated_protocol_fees_sf r) + sf_value (lr_accumulated_referrer_fees_sf r)
     + sf_value (lr_pending_referrer_fees_sf r)"

definition share_tokens :: "live_reserve_risk \<Rightarrow> u64 \<Rightarrow> rat" where
  "share_tokens r n =
     (let supply = unat (lr_collateral_mint_total_supply r) in
      if supply = 0 then of_nat (unat n)
      else of_nat (unat n) * (gross_liquidity r - reserve_fees r) / of_nat supply)"

definition token_usd :: "rat \<Rightarrow> u8 \<Rightarrow> u128 \<Rightarrow> rat" where
  "token_usd t decimals sf = t / 10 ^ unat decimals * sf_value sf"

definition exact_deposit_usd :: "reserve_map \<Rightarrow> live_deposit_position \<Rightarrow> rat" where
  "exact_deposit_usd reserves d =
     (case reserves (ld_reserve d) of
        None \<Rightarrow> 0
      | Some r \<Rightarrow> token_usd (share_tokens r (ld_deposited_amount d)) (lr_mint_decimals r) (lr_market_price_sf r))"

definition exact_borrow_usd :: "reserve_map \<Rightarrow> live_borrow_position \<Rightarrow> rat" where
  "exact_borrow_usd reserves b =
     (case reserves (lb_reserve b) of
        None \<Rightarrow> 0
      | Some r \<Rightarrow> token_usd (sf_value (lb_borrowed_amount_sf b)) (lr_mint_decimals r) (lr_market_price_sf r))"

text \<open>The percentage of a leg: the elevation group's when one is active, else the reserve's.\<close>

definition leg_pct :: "(elevation_group_params \<Rightarrow> u8) \<Rightarrow> (live_reserve_risk \<Rightarrow> u8)
    \<Rightarrow> elevation_group_params option \<Rightarrow> reserve_map \<Rightarrow> pubkey \<Rightarrow> nat" where
  "leg_pct of_group of_reserve elev reserves k =
     (case elev of Some e \<Rightarrow> unat (of_group e)
      | None \<Rightarrow> (case reserves k of Some r \<Rightarrow> unat (of_reserve r) | None \<Rightarrow> 0))"

abbreviation "threshold_pct \<equiv> leg_pct eg_liquidation_threshold_pct lr_liquidation_threshold_pct"
abbreviation "max_ltv_pct \<equiv> leg_pct eg_ltv_pct lr_loan_to_value_pct"

definition debt_pct :: "elevation_group_params option \<Rightarrow> reserve_map \<Rightarrow> pubkey \<Rightarrow> nat" where
  "debt_pct elev reserves k =
     (if elev \<noteq> None then 100
      else case reserves k of Some r \<Rightarrow> max (unat (lr_borrow_factor_pct r)) 1 | None \<Rightarrow> 0)"

definition exact_deposited :: "reserve_map \<Rightarrow> live_deposit_position list \<Rightarrow> rat" where
  "exact_deposited reserves ds = (\<Sum>d\<leftarrow>ds. exact_deposit_usd reserves d)"

definition exact_limit :: "(pubkey \<Rightarrow> nat) \<Rightarrow> reserve_map \<Rightarrow> live_deposit_position list \<Rightarrow> rat" where
  "exact_limit pct reserves ds = (\<Sum>d\<leftarrow>ds. exact_deposit_usd reserves d * of_nat (pct (ld_reserve d)) / 100)"

definition exact_debt :: "(pubkey \<Rightarrow> nat) \<Rightarrow> reserve_map \<Rightarrow> live_borrow_position list \<Rightarrow> rat" where
  "exact_debt pct reserves bs = (\<Sum>b\<leftarrow>bs. exact_borrow_usd reserves b * of_nat (pct (lb_reserve b)) / 100)"

text \<open>
  What the error bound needs of a reserve: at most 22 decimals (the powers of ten an \<^verbatim>\<open>f64\<close>
  holds exactly) and fees that are at most half of the liquidity.
\<close>

definition exact_decimals :: "live_reserve_risk \<Rightarrow> bool" where
  "exact_decimals r \<longleftrightarrow> unat (lr_mint_decimals r) \<le> 22"

definition well_scaled :: "live_reserve_risk \<Rightarrow> bool" where
  "well_scaled r \<longleftrightarrow> exact_decimals r \<and> 2 * reserve_fees r \<le> gross_liquidity r"

definition reserve_sat :: "(live_reserve_risk \<Rightarrow> bool) \<Rightarrow> reserve_map \<Rightarrow> pubkey \<Rightarrow> bool" where
  "reserve_sat P reserves k = (case reserves k of Some r \<Rightarrow> P r | None \<Rightarrow> True)"

definition decisive :: "rat \<Rightarrow> rat \<Rightarrow> bool" where
  "decisive x y \<longleftrightarrow> x * (1 + 1 / 2 ^ 46) < y"

section \<open>Error of the computed sums\<close>

lemma fraction_scale_exact [simp]: "f64_of fraction_scale = 2 ^ 60"
  using rnd_exact [of 1 60] by (simp add: f64_of_def fraction_scale_def)

lemma sf_value_nonneg [simp]: "0 \<le> sf_value sf"
  by (simp add: sf_value_def)

lemma approx_sf [approx_intros]: "approx 2 (sf_to_f64 sf) (sf_value sf)"
  using approx_fdiv [OF approx_f64_of approx_exact, of "2 ^ 60" sf]
  by (simp add: sf_to_f64_def sf_value_def numeral_2_eq_2)

lemma approx_zero: "approx n x 0 \<longleftrightarrow> x = 0"
  by (auto simp: approx_def)

lemma approx_eq_zero: "approx n x y \<Longrightarrow> x = 0 \<longleftrightarrow> y = 0"
  using approx_pos [of n x y] by (auto simp: approx_zero approx_def less_le)

lemma approx_total:
  assumes "well_scaled r"
  shows "approx 17 (total_liquidity_tokens_f64 r) (gross_liquidity r - reserve_fees r)"
proof -
  let ?s = "fadd (f64_of (lr_total_available_amount r)) (sf_to_f64 (lr_borrowed_amount_sf r))"
  let ?f = "fadd (fadd (sf_to_f64 (lr_accumulated_protocol_fees_sf r))
      (sf_to_f64 (lr_accumulated_referrer_fees_sf r))) (sf_to_f64 (lr_pending_referrer_fees_sf r))"
  have "approx (Suc (max 1 2)) ?s (gross_liquidity r)"
    unfolding gross_liquidity_def by (intro approx_intros)
  then have s: "approx 4 ?s (gross_liquidity r)" by (rule approx_weaken) simp
  have "approx (Suc (max (Suc (max 2 2)) 2)) ?f (reserve_fees r)"
    unfolding reserve_fees_def by (intro approx_intros)
  then have f: "approx 4 ?f (reserve_fees r)" by (rule approx_weaken) simp
  have "f64_step ^ 4 \<le> 11 / 10" by (simp add: f64_step_def power_numeral_reduce)
  with approx_minus [OF s f] assms have "approx (4 * 4) (?s - ?f) (gross_liquidity r - reserve_fees r)"
    by (simp add: well_scaled_def)
  then have "approx (Suc (4 * 4)) (fsub ?s ?f) (gross_liquidity r - reserve_fees r)"
    unfolding fsub_def by (rule approx_rnd)
  then have t: "approx 17 (fsub ?s ?f) (gross_liquidity r - reserve_fees r)" by simp
  with approx_nonneg [OF t] show ?thesis
    by (simp add: total_liquidity_tokens_f64_def Let_def max_absorb1)
qed

lemma approx_shares:
  assumes "well_scaled r"
  shows "approx 21 (collateral_to_liquidity r n) (share_tokens r n)"
proof (cases "lr_collateral_mint_total_supply r = 0")
  case True
  then show ?thesis
    using approx_weaken [OF approx_f64_of, of 21 n]
    by (simp add: collateral_to_liquidity_def share_tokens_def)
next
  case False
  then have "unat (lr_collateral_mint_total_supply r) \<noteq> 0" by (simp add: unat_eq_zero)
  moreover have "approx (Suc (Suc (1 + 17) + 1))
     (fdiv (fmul (f64_of n) (total_liquidity_tokens_f64 r)) (f64_of (lr_collateral_mint_total_supply r)))
     (of_nat (unat n) * (gross_liquidity r - reserve_fees r) / of_nat (unat (lr_collateral_mint_total_supply r)))"
    using calculation by (intro approx_fdiv approx_fmul approx_f64_of approx_total assms) simp
  ultimately show ?thesis
    using False by (simp add: collateral_to_liquidity_def share_tokens_def)
qed

lemma approx_token_usd:
  assumes "approx n t T" "unat decimals \<le> 22"
  shows "approx (n + 4) (tokens_to_usd_f64 t decimals sf) (token_usd T decimals sf)"
proof (cases "t = 0 \<or> sf = 0")
  case True
  then have "token_usd T decimals sf = 0"
    using approx_eq_zero [OF assms(1)] by (auto simp: token_usd_def sf_value_def)
  with True show ?thesis by (auto simp: tokens_to_usd_f64_def approx_zero)
next
  case False
  then have t: "0 < t" using approx_nonneg [OF assms(1)] by simp
  let ?u = "fmul (fdiv t (f64_powi 10 (unat decimals))) (sf_to_f64 sf)"
  have "approx 0 (f64_powi 10 (unat decimals)) (10 ^ unat decimals)"
    using assms(2) by (simp add: f64_powi_ten approx_exact)
  then have "approx (Suc (Suc (n + 0) + 2)) ?u (token_usd T decimals sf)"
    unfolding token_usd_def by (intro approx_fmul approx_fdiv approx_sf assms) simp_all
  then have u: "approx (n + 4) ?u (token_usd T decimals sf)" by (simp add: eval_nat_numeral)
  have "(if ?u \<le> 0 then 0 else ?u) = ?u" using approx_nonneg [OF u] by auto
  with u t False show ?thesis by (simp add: tokens_to_usd_f64_def Let_def)
qed

lemma approx_pct:
  assumes "approx n u U" "approx m p P"
  shows "approx (n + m + 2) (fdiv (fmul u p) 100) (U * P / 100)"
  using approx_fdiv [OF approx_fmul [OF assms] approx_exact, of 100] by (simp add: add_ac)

lemma approx_fadd_leg: "approx n x y \<Longrightarrow> approx m u v \<Longrightarrow> m \<le> n \<Longrightarrow> approx (Suc n) (fadd x u) (y + v)"
  using approx_fadd [of n x y m u v] by (simp add: max_absorb1)

definition sums_approx :: "nat \<Rightarrow> deposit_sums \<Rightarrow> rat \<Rightarrow> rat \<Rightarrow> rat \<Rightarrow> bool" where
  "sums_approx n s d u a \<longleftrightarrow> 28 \<le> n \<and> approx n (ds_deposited_usd s) d \<and> approx n (ds_unhealthy s) u
     \<and> approx n (ds_allowed s) a"

lemma deposit_step_approx:
  assumes "sums_approx n s D U A" "reserve_sat well_scaled reserves (ld_reserve d)"
  defines "v \<equiv> exact_deposit_usd reserves d"
  shows "sums_approx (Suc n) (deposit_step b58 reserves elev s d) (D + v)
     (U + v * of_nat (threshold_pct elev reserves (ld_reserve d)) / 100)
     (A + v * of_nat (max_ltv_pct elev reserves (ld_reserve d)) / 100)"
proof -
  have skip: "sums_approx (Suc n) (s\<lparr>ds_missing := ms\<rparr>) D U A" for ms
    using assms(1) by (auto simp: sums_approx_def elim: approx_weaken)
  have skip': "sums_approx (Suc n) s D U A" using skip [of "ds_missing s"] by simp
  show ?thesis
  proof (cases "reserves (ld_reserve d)")
    case None
    then show ?thesis
      using skip skip' by (simp add: deposit_step_def v_def exact_deposit_usd_def)
  next
    case (Some r)
    show ?thesis
    proof (cases "ld_deposited_amount d = 0 \<or> lr_market_price_sf r = 0")
      case True
      then have "v = 0" using Some
        by (auto simp: v_def exact_deposit_usd_def token_usd_def share_tokens_def sf_value_def Let_def)
      then show ?thesis using True Some skip skip' by (auto simp: deposit_step_def)
    next
      case False
      let ?u = "tokens_to_usd_f64 (collateral_to_liquidity r (ld_deposited_amount d))
          (lr_mint_decimals r) (lr_market_price_sf r)"
      have "well_scaled r" "unat (lr_mint_decimals r) \<le> 22"
        using assms(2) Some by (simp_all add: reserve_sat_def well_scaled_def exact_decimals_def)
      from approx_token_usd [OF approx_shares [OF this(1)] this(2)]
      have u: "approx 25 ?u v" using Some by (simp add: v_def exact_deposit_usd_def)
      have p: "approx 28 (fdiv (fmul ?u (f64_of w)) 100) (v * of_nat (unat w) / 100)" for w :: u8
        using approx_pct [OF u approx_f64_of, of w] by simp
      show ?thesis
        using assms(1) False Some
        by (cases elev)
          (auto simp: deposit_step_def sums_approx_def leg_pct_def Let_def
            intro!: approx_fadd_leg p approx_weaken [OF u])
    qed
  qed
qed

lemma deposit_fold_approx:
  assumes "sums_approx n s D U A" "\<forall>d \<in> set ds. reserve_sat well_scaled reserves (ld_reserve d)"
  shows "sums_approx (n + length ds) (foldl (deposit_step b58 reserves elev) s ds)
     (D + exact_deposited reserves ds)
     (U + exact_limit (threshold_pct elev reserves) reserves ds)
     (A + exact_limit (max_ltv_pct elev reserves) reserves ds)"
  using assms
proof (induction ds arbitrary: s n D U A)
  case (Cons d ds)
  have "sums_approx (Suc n) (deposit_step b58 reserves elev s d) (D + exact_deposit_usd reserves d)
     (U + exact_deposit_usd reserves d * of_nat (threshold_pct elev reserves (ld_reserve d)) / 100)
     (A + exact_deposit_usd reserves d * of_nat (max_ltv_pct elev reserves (ld_reserve d)) / 100)"
    using Cons.prems by (intro deposit_step_approx) simp_all
  from Cons.IH [OF this] Cons.prems(2) show ?case
    by (simp add: exact_deposited_def exact_limit_def add.assoc)
qed (simp add: exact_deposited_def exact_limit_def)

lemma borrow_step_approx:
  assumes "9 \<le> n" "approx n (bs_bf_debt s) B"
    "reserve_sat exact_decimals reserves (lb_reserve b)"
  shows "approx (Suc n) (bs_bf_debt (borrow_step b58 reserves elev s b))
     (B + exact_borrow_usd reserves b * of_nat (debt_pct elev reserves (lb_reserve b)) / 100)"
proof (cases "reserves (lb_reserve b)")
  case None
  then show ?thesis
    using approx_weaken [OF assms(2)] by (simp add: borrow_step_def exact_borrow_usd_def)
next
  case (Some r)
  show ?thesis
  proof (cases "lb_borrowed_amount_sf b = 0 \<or> lr_market_price_sf r = 0")
    case True
    then have "exact_borrow_usd reserves b = 0" using Some
      by (auto simp: exact_borrow_usd_def token_usd_def sf_value_def)
    then show ?thesis
      using True Some approx_weaken [OF assms(2)] by (auto simp: borrow_step_def)
  next
    case False
    let ?u = "tokens_to_usd_f64 (sf_to_f64 (lb_borrowed_amount_sf b)) (lr_mint_decimals r) (lr_market_price_sf r)"
    let ?bf = "if elev \<noteq> None then 100 else f64_of (max (lr_borrow_factor_pct r) 1)"
    have u: "approx 6 ?u (exact_borrow_usd reserves b)"
      using approx_token_usd [OF approx_sf] assms(3) Some
      by (simp add: exact_borrow_usd_def reserve_sat_def exact_decimals_def)
    have mx: "unat (max (lr_borrow_factor_pct r) 1) = max (unat (lr_borrow_factor_pct r)) 1"
      by (simp add: max_def word_le_nat_alt)
    have "approx 1 ?bf (of_nat (debt_pct elev reserves (lb_reserve b)))"
      using approx_weaken [OF approx_exact, of "100" 1]
        approx_f64_of [of "max (lr_borrow_factor_pct r) 1"] Some
      by (simp add: debt_pct_def mx)
    from approx_pct [OF u this]
    have "approx 9 (fdiv (fmul ?u ?bf) 100)
        (exact_borrow_usd reserves b * of_nat (debt_pct elev reserves (lb_reserve b)) / 100)" by simp
    from approx_fadd_leg [OF assms(2) this assms(1)] show ?thesis
      using False Some by (simp add: borrow_step_def Let_def)
  qed
qed

lemma borrow_fold_approx:
  assumes "9 \<le> n" "approx n (bs_bf_debt s) B"
    "\<forall>b \<in> set bs. reserve_sat exact_decimals reserves (lb_reserve b)"
  shows "approx (n + length bs) (bs_bf_debt (foldl (borrow_step b58 reserves elev) s bs))
     (B + exact_debt (debt_pct elev reserves) reserves bs)"
  using assms
proof (induction bs arbitrary: s n B)
  case (Cons b bs)
  have "approx (Suc n) (bs_bf_debt (borrow_step b58 reserves elev s b))
     (B + exact_borrow_usd reserves b * of_nat (debt_pct elev reserves (lb_reserve b)) / 100)"
    using Cons.prems by (intro borrow_step_approx) simp_all
  from Cons.IH [OF _ this] Cons.prems(1,3) show ?case
    by (simp add: exact_debt_def add.assoc)
qed (simp add: exact_debt_def)

lemma decisive_less:
  assumes "approx n x X" "approx m y Y" "n + m \<le> 50" "decisive X Y"
  shows "x < y"
proof -
  have s: "f64_step ^ n * f64_step ^ m \<le> 1 + 1 / 2 ^ 46"
    unfolding power_add [symmetric] using assms(3) by (intro f64_step_power) simp
  have X: "0 \<le> X" "x \<le> X * f64_step ^ n" and Y: "Y / f64_step ^ m \<le> y"
    using assms(1,2) by (simp_all add: approx_def)
  have "X * f64_step ^ n * f64_step ^ m \<le> X * (1 + 1 / 2 ^ 46)"
    using mult_left_mono [OF s X(1)] by (simp add: mult_ac)
  also have "\<dots> < Y" using assms(4) by (simp add: decisive_def)
  finally have "X * f64_step ^ n < Y / f64_step ^ m" by (simp add: pos_less_divide_eq)
  with X Y show ?thesis by linarith
qed

section \<open>The decision\<close>

definition start_deposits :: deposit_sums where
  "start_deposits = \<lparr>ds_missing = [], ds_deposited_usd = 0, ds_unhealthy = 0, ds_allowed = 0\<rparr>"

definition live_deposits :: "(u8 list \<Rightarrow> string) \<Rightarrow> live_obligation_positions \<Rightarrow> reserve_map
    \<Rightarrow> elevation_map option \<Rightarrow> deposit_sums" where
  "live_deposits b58 pos reserves groups =
     foldl (deposit_step b58 reserves (active_elevation pos groups)) start_deposits (lp_deposits pos)"

definition live_borrows :: "(u8 list \<Rightarrow> string) \<Rightarrow> live_obligation_positions \<Rightarrow> reserve_map
    \<Rightarrow> elevation_map option \<Rightarrow> borrow_sums" where
  "live_borrows b58 pos reserves groups =
     foldl (borrow_step b58 reserves (active_elevation pos groups))
       \<lparr>bs_missing = ds_missing (live_deposits b58 pos reserves groups), bs_borrowed_usd = 0, bs_bf_debt = 0\<rparr>
       (lp_borrows pos)"

lemma live_health_flags:
  assumes "compute_obligation_health_live_with_elevation b58 pos reserves groups = Inr h"
  defines "s \<equiv> live_deposits b58 pos reserves groups" and "b \<equiv> live_borrows b58 pos reserves groups"
  shows "kh_is_liquidatable h \<longleftrightarrow> min_liquidation_notional_usd \<le> bs_bf_debt b
           \<and> min_liquidation_notional_usd \<le> ds_deposited_usd s \<and> ds_unhealthy s < bs_bf_debt b"
    and "kh_below_maintenance h \<longleftrightarrow> min_liquidation_notional_usd \<le> bs_bf_debt b
           \<and> min_liquidation_notional_usd \<le> ds_deposited_usd s \<and> ds_allowed s < bs_bf_debt b"
    and "kh_health_factor h = (if bs_bf_debt b \<le> 0 \<or> ds_unhealthy s \<le> 0 then 1000
           else fdiv (ds_unhealthy s) (bs_bf_debt b))"
  using assms(1)
  by (auto simp: compute_obligation_health_live_with_elevation_def Let_def s_def b_def
      live_deposits_def live_borrows_def start_deposits_def)

text \<open>The exact value of the deposits, of the liquidation limit and of the weighted debt.\<close>

definition exact_sums :: "live_obligation_positions \<Rightarrow> reserve_map \<Rightarrow> elevation_map option
    \<Rightarrow> rat \<times> rat \<times> rat" where
  "exact_sums pos reserves groups =
     (let elev = active_elevation pos groups
      in (exact_deposited reserves (lp_deposits pos),
          exact_limit (threshold_pct elev reserves) reserves (lp_deposits pos),
          exact_debt (debt_pct elev reserves) reserves (lp_borrows pos)))"

definition positions_scaled :: "live_obligation_positions \<Rightarrow> reserve_map \<Rightarrow> bool" where
  "positions_scaled pos reserves \<longleftrightarrow>
     length (lp_deposits pos) \<le> live_max_deposits \<and> length (lp_borrows pos) \<le> live_max_borrows
     \<and> (\<forall>d \<in> set (lp_deposits pos). reserve_sat well_scaled reserves (ld_reserve d))
     \<and> (\<forall>b \<in> set (lp_borrows pos). reserve_sat exact_decimals reserves (lb_reserve b))"

lemma live_sums_approx:
  assumes "positions_scaled pos reserves" "exact_sums pos reserves groups = (D, U, B)"
  shows "approx 36 (ds_deposited_usd (live_deposits b58 pos reserves groups)) D"
    and "approx 36 (ds_unhealthy (live_deposits b58 pos reserves groups)) U"
    and "approx 14 (bs_bf_debt (live_borrows b58 pos reserves groups)) B"
proof -
  have "sums_approx 28 start_deposits 0 0 0"
    by (simp add: sums_approx_def start_deposits_def approx_zero)
  from deposit_fold_approx [OF this] assms
  have "sums_approx (28 + length (lp_deposits pos)) (live_deposits b58 pos reserves groups) D U
      (exact_limit (max_ltv_pct (active_elevation pos groups) reserves) reserves (lp_deposits pos))"
    by (auto simp: positions_scaled_def exact_sums_def live_deposits_def Let_def)
  with assms(1) show "approx 36 (ds_deposited_usd (live_deposits b58 pos reserves groups)) D"
    "approx 36 (ds_unhealthy (live_deposits b58 pos reserves groups)) U"
    by (auto simp: sums_approx_def positions_scaled_def elim!: approx_weaken)
  have "approx (9 + length (lp_borrows pos)) (bs_bf_debt (live_borrows b58 pos reserves groups)) (0 + B)"
    using borrow_fold_approx [of 9 "\<lparr>bs_missing = ds_missing (live_deposits b58 pos reserves groups),
        bs_borrowed_usd = 0, bs_bf_debt = 0\<rparr>" 0 "lp_borrows pos" reserves b58 "active_elevation pos groups"] assms
    by (simp add: positions_scaled_def exact_sums_def Let_def approx_zero live_borrows_def)
  with assms(1) show "approx 14 (bs_bf_debt (live_borrows b58 pos reserves groups)) B"
    by (auto simp: positions_scaled_def elim!: approx_weaken)
qed

lemma approx_min_notional: "approx 1 min_liquidation_notional_usd (1 / 100)"
  using approx_rnd [OF approx_exact, of "1 / 100"] by (simp add: min_liquidation_notional_usd_def)

lemma live_decision:
  assumes "compute_obligation_health_live_with_elevation b58 pos reserves groups = Inr h"
    and "positions_scaled pos reserves" "exact_sums pos reserves groups = (D, U, B)"
  shows "decisive (1 / 100) B \<Longrightarrow> decisive (1 / 100) D \<Longrightarrow> decisive U B \<Longrightarrow> kh_is_liquidatable h"
    and "decisive B (1 / 100) \<or> decisive D (1 / 100) \<or> decisive B U \<Longrightarrow> \<not> kh_is_liquidatable h"
proof -
  note a = live_sums_approx [OF assms(2,3), where ?b58.0 = b58] approx_min_notional
  note flags = live_health_flags(1) [OF assms(1)]
  show "decisive (1 / 100) B \<Longrightarrow> decisive (1 / 100) D \<Longrightarrow> decisive U B \<Longrightarrow> kh_is_liquidatable h"
    using decisive_less [OF a(4) a(3)] decisive_less [OF a(4) a(1)] decisive_less [OF a(2) a(3)]
    by (simp add: flags)
  show "decisive B (1 / 100) \<or> decisive D (1 / 100) \<or> decisive B U \<Longrightarrow> \<not> kh_is_liquidatable h"
    using decisive_less [OF a(3) a(4)] decisive_less [OF a(1) a(4)] decisive_less [OF a(3) a(2)]
    by (auto simp: flags)
qed

text \<open>
  C13: the flag the f64 computation raises is the protocol's. Let D, U and B be the value of
  the deposits, their liquidation limit and the weighted debt, summed in exact rationals over at most 8
  deposits and 5 borrows (the slots of an account) whose reserves have at most 22 decimals and fees of at most half of their
  liquidity. The obligation is flagged when debt and deposits exceed one cent and B exceeds U,
  each by more than one part in 2^46, and it is not flagged when one of the comparisons fails by as much.
\<close>

theorem live_flag_correct:
  assumes "compute_obligation_health_live_with_elevation b58 pos reserves groups = Inr h"
    and "positions_scaled pos reserves" "exact_sums pos reserves groups = (D, U, B)"
  shows "(decisive (1 / 100) B \<and> decisive (1 / 100) D \<and> decisive U B \<longrightarrow> kh_is_liquidatable h)
    \<and> (decisive B (1 / 100) \<or> decisive D (1 / 100) \<or> decisive B U \<longrightarrow> \<not> kh_is_liquidatable h)"
  using live_decision [OF assms] by blast

definition sample_risk :: live_reserve_risk where
  "sample_risk = \<lparr>lr_address = pubkey_default, lr_lending_market = pubkey_default,
     lr_liquidity_mint = pubkey_default, lr_mint_decimals = 0, lr_loan_to_value_pct = 75,
     lr_liquidation_threshold_pct = 80, lr_borrow_factor_pct = 100, lr_market_price_sf = 2 ^ 60,
     lr_total_available_amount = 1000, lr_borrowed_amount_sf = 0, lr_accumulated_protocol_fees_sf = 0,
     lr_accumulated_referrer_fees_sf = 0, lr_pending_referrer_fees_sf = 0,
     lr_collateral_mint_total_supply = 1000, lr_pyth_oracle = pubkey_default,
     lr_switchboard_price = pubkey_default, lr_scope_prices = pubkey_default\<rparr>"

definition sample_header :: live_obligation_header where
  "sample_header = \<lparr>lh_address = pubkey_default, lh_lending_market = pubkey_default, lh_owner = pubkey_default,
     lh_deposited_value_sf = 0, lh_borrow_factor_adjusted_debt_value_sf = 0,
     lh_borrowed_assets_market_value_sf = 0, lh_allowed_borrow_value_sf = 0,
     lh_unhealthy_borrow_value_sf = 0, lh_has_debt = True, lh_elevation_group = 0,
     lh_referrer = pubkey_default\<rparr>"

definition sample_positions :: "u128 \<Rightarrow> live_obligation_positions" where
  "sample_positions debt_sf = \<lparr>lp_header = sample_header,
     lp_deposits = [\<lparr>ld_reserve = pubkey_default, ld_deposited_amount = 100, ld_market_value_sf = 0\<rparr>],
     lp_borrows = [\<lparr>lb_reserve = pubkey_default, lb_borrowed_amount_sf = debt_sf, lb_market_value_sf = 0\<rparr>]\<rparr>"

abbreviation "sample_risks \<equiv> [pubkey_default \<mapsto> sample_risk]"

lemma sample_scaled: "positions_scaled (sample_positions debt_sf) sample_risks"
  by (simp add: positions_scaled_def sample_positions_def reserve_sat_def well_scaled_def
      exact_decimals_def reserve_fees_def gross_liquidity_def sample_risk_def sf_value_def)

lemma sample_sums: "exact_sums (sample_positions debt_sf) sample_risks None = (100, 80, sf_value debt_sf)"
  by (simp add: exact_sums_def exact_deposited_def exact_limit_def exact_debt_def exact_deposit_usd_def
      exact_borrow_usd_def token_usd_def share_tokens_def gross_liquidity_def reserve_fees_def
      leg_pct_def debt_pct_def active_elevation_def sample_positions_def sample_header_def
      sample_risk_def sf_value_def)

lemma sample_computed: "\<exists>h. compute_obligation_health_live_with_elevation b58 pos reserves groups = Inr h"
  by (simp add: compute_obligation_health_live_with_elevation_def Let_def)

theorem live_flag_correct_witness:
  "\<exists>h h'. compute_obligation_health_live_with_elevation (\<lambda>_. []) (sample_positions (90 * 2 ^ 60)) sample_risks None = Inr h
     \<and> compute_obligation_health_live_with_elevation (\<lambda>_. []) (sample_positions (70 * 2 ^ 60)) sample_risks None = Inr h'
     \<and> kh_is_liquidatable h \<and> \<not> kh_is_liquidatable h'"
proof -
  note c = live_flag_correct [OF _ sample_scaled sample_sums]
  obtain h h' where
    "compute_obligation_health_live_with_elevation (\<lambda>_. []) (sample_positions (90 * 2 ^ 60)) sample_risks None = Inr h"
    "compute_obligation_health_live_with_elevation (\<lambda>_. []) (sample_positions (70 * 2 ^ 60)) sample_risks None = Inr h'"
    using sample_computed by blast
  with c [OF this(1)] c [OF this(2)] show ?thesis by (simp add: decisive_def sf_value_def)
qed

text \<open>
  A deposit whose reserve is missing is not counted, so an obligation with enough collateral is flagged when
  the reserve of one of its deposits was not loaded. The flag does not look at the list of missing reserves.
\<close>

definition two_deposits :: live_obligation_positions where
  "two_deposits = (sample_positions (90 * 2 ^ 60))\<lparr>lp_deposits :=
     [\<lparr>ld_reserve = pubkey_default, ld_deposited_amount = 100, ld_market_value_sf = 0\<rparr>,
      \<lparr>ld_reserve = pubkey_test 3 1, ld_deposited_amount = 100, ld_market_value_sf = 0\<rparr>]\<rparr>"

lemma missing_reserve_flags:
  assumes "compute_obligation_health_live_with_elevation b58 two_deposits
      (sample_risks(pubkey_test 3 1 \<mapsto> sample_risk)) None = Inr h"
    and "compute_obligation_health_live_with_elevation b58 two_deposits sample_risks None = Inr h'"
  shows "\<not> kh_is_liquidatable h" and "kh_is_liquidatable h'"
proof -
  note defs = positions_scaled_def two_deposits_def sample_positions_def reserve_sat_def well_scaled_def
    exact_decimals_def reserve_fees_def gross_liquidity_def sample_risk_def sf_value_def
    exact_sums_def exact_deposited_def exact_limit_def exact_debt_def exact_deposit_usd_def
    exact_borrow_usd_def token_usd_def share_tokens_def leg_pct_def debt_pct_def active_elevation_def
    sample_header_def
  have "hd (pk_bytes (pubkey_test 3 1)) \<noteq> hd (pk_bytes pubkey_default)" by (simp add: pubkey_default_def)
  then have ne: "pubkey_test 3 1 \<noteq> pubkey_default" by metis
  have "positions_scaled two_deposits (sample_risks(pubkey_test 3 1 \<mapsto> sample_risk))"
    "exact_sums two_deposits (sample_risks(pubkey_test 3 1 \<mapsto> sample_risk)) None = (200, 160, 90)"
    using ne by (simp_all add: defs)
  from live_decision(2) [OF assms(1) this] show "\<not> kh_is_liquidatable h" by (simp add: decisive_def)
  have "positions_scaled two_deposits sample_risks" "exact_sums two_deposits sample_risks None = (100, 80, 90)"
    using ne by (simp_all add: defs)
  from live_decision(1) [OF assms(2) this] show "kh_is_liquidatable h'" by (simp add: decisive_def)
qed

section \<open>Consistency of the flags\<close>

lemma usd_nonneg [f64_mono]: "0 \<le> tokens_to_usd_f64 t d sf"
  by (simp add: tokens_to_usd_f64_def Let_def)

lemma sf_to_f64_nonneg [f64_mono]: "0 \<le> sf_to_f64 sf"
  unfolding sf_to_f64_def by (intro f64_mono)

lemma sf_to_f64_mono [f64_mono]: "sf \<le> sf' \<Longrightarrow> sf_to_f64 sf \<le> sf_to_f64 sf'"
  unfolding sf_to_f64_def by (intro f64_mono) simp_all

lemma usd_mono [f64_mono]:
  assumes "t \<le> t'" shows "tokens_to_usd_f64 t d sf \<le> tokens_to_usd_f64 t' d sf"
proof (cases "t \<le> 0 \<or> sf = 0")
  case True
  then show ?thesis using usd_nonneg [of t' d sf] by (simp add: tokens_to_usd_f64_def)
next
  case False
  let ?v = "\<lambda>t. fmul (fdiv t (f64_powi 10 (unat d))) (sf_to_f64 sf)"
  have p: "0 \<le> f64_powi 10 (unat d)" by (simp add: less_imp_le)
  have "0 \<le> ?v t" "?v t \<le> ?v t'"
    using False assms p by (auto intro!: f64_mono)
  moreover from this have "0 \<le> ?v t'" by linarith
  ultimately show ?thesis
    using False assms by (simp add: tokens_to_usd_f64_def Let_def)
qed

lemma pct_mono [f64_mono]: "0 \<le> u \<Longrightarrow> u \<le> u' \<Longrightarrow> 0 \<le> p \<Longrightarrow> p \<le> p' \<Longrightarrow> fdiv (fmul u p) 100 \<le> fdiv (fmul u' p') 100"
  by (intro f64_mono) simp_all

text \<open>\<open>limits_ordered\<close>: the maximum LTV of a leg does not exceed its liquidation threshold.\<close>

definition limits_ordered :: "elevation_group_params option \<Rightarrow> reserve_map \<Rightarrow> pubkey \<Rightarrow> bool" where
  "limits_ordered elev reserves k \<longleftrightarrow> max_ltv_pct elev reserves k \<le> threshold_pct elev reserves k"

definition sums_ordered :: "deposit_sums \<Rightarrow> bool" where
  "sums_ordered s \<longleftrightarrow> 0 \<le> ds_allowed s \<and> ds_allowed s \<le> ds_unhealthy s"

lemma deposit_step_ordered:
  assumes "sums_ordered s" "limits_ordered elev reserves (ld_reserve d)"
  shows "sums_ordered (deposit_step b58 reserves elev s d)"
proof (cases "reserves (ld_reserve d)")
  case (Some r)
  then show ?thesis
    using assms
    by (cases elev)
      (auto simp: deposit_step_def sums_ordered_def limits_ordered_def leg_pct_def Let_def word_le_nat_alt
        intro!: f64_mono)
qed (use assms in \<open>simp add: deposit_step_def sums_ordered_def\<close>)

lemma deposit_fold_ordered:
  "sums_ordered s \<Longrightarrow> \<forall>d \<in> set ds. limits_ordered elev reserves (ld_reserve d)
    \<Longrightarrow> sums_ordered (foldl (deposit_step b58 reserves elev) s ds)"
  by (induction ds arbitrary: s) (simp_all add: deposit_step_ordered)



section \<open>More debt\<close>

definition more_debt :: "live_obligation_positions \<Rightarrow> live_obligation_positions \<Rightarrow> bool" where
  "more_debt pos pos' \<longleftrightarrow> lp_header pos' = lp_header pos \<and> lp_deposits pos' = lp_deposits pos
     \<and> list_all2 (\<lambda>b b'. lb_reserve b' = lb_reserve b \<and> lb_borrowed_amount_sf b \<le> lb_borrowed_amount_sf b')
         (lp_borrows pos) (lp_borrows pos')"

definition borrow_leg :: "elevation_group_params option \<Rightarrow> live_reserve_risk \<Rightarrow> u128 \<Rightarrow> f64" where
  "borrow_leg elev r sf =
     fdiv (fmul (tokens_to_usd_f64 (sf_to_f64 sf) (lr_mint_decimals r) (lr_market_price_sf r))
       (if elev \<noteq> None then 100 else f64_of (max (lr_borrow_factor_pct r) 1))) 100"

lemma borrow_leg_mono: "0 \<le> borrow_leg elev r sf" "sf \<le> sf' \<Longrightarrow> borrow_leg elev r sf \<le> borrow_leg elev r sf'"
  unfolding borrow_leg_def by (auto intro!: f64_mono)

lemma borrow_step_debt:
  "bs_bf_debt (borrow_step b58 reserves elev s b) =
     (case reserves (lb_reserve b) of None \<Rightarrow> bs_bf_debt s
      | Some r \<Rightarrow> if lb_borrowed_amount_sf b = 0 \<or> lr_market_price_sf r = 0 then bs_bf_debt s
                  else fadd (bs_bf_debt s) (borrow_leg elev r (lb_borrowed_amount_sf b)))"
  by (simp add: borrow_step_def borrow_leg_def Let_def split: option.split)

text \<open>A running sum that is an \<^verbatim>\<open>f64\<close> and not negative.\<close>

definition f64_sum :: "f64 \<Rightarrow> bool" where
  "f64_sum x \<longleftrightarrow> 0 \<le> x \<and> rnd x = x"

lemma borrow_step_mono:
  assumes "f64_sum (bs_bf_debt s)" "f64_sum (bs_bf_debt s')" "bs_bf_debt s \<le> bs_bf_debt s'"
    and "lb_reserve b' = lb_reserve b" "lb_borrowed_amount_sf b \<le> lb_borrowed_amount_sf b'"
  shows "f64_sum (bs_bf_debt (borrow_step b58 reserves elev s b))"
    and "bs_bf_debt (borrow_step b58 reserves elev s b) \<le> bs_bf_debt (borrow_step b58 reserves elev s' b')"
proof -
  have grow: "x \<le> fadd x (borrow_leg elev r sf)" "f64_sum (fadd x (borrow_leg elev r sf))"
    if "f64_sum x" for x r sf
    using that fadd_increases [of x "borrow_leg elev r sf"] borrow_leg_mono(1)
    by (auto simp: f64_sum_def intro!: f64_mono)
  show "f64_sum (bs_bf_debt (borrow_step b58 reserves elev s b))"
    using assms(1) by (simp add: borrow_step_debt grow split: option.split)
  have "fadd (bs_bf_debt s) (borrow_leg elev r (lb_borrowed_amount_sf b))
      \<le> fadd (bs_bf_debt s') (borrow_leg elev r (lb_borrowed_amount_sf b'))" for r
    using assms(1,3,5) by (intro fadd_mono borrow_leg_mono) (simp_all add: f64_sum_def)
  moreover have "lb_borrowed_amount_sf b = 0" if "lb_borrowed_amount_sf b' = 0"
    using assms(5) that by simp
  moreover have "bs_bf_debt s \<le> fadd (bs_bf_debt s') (borrow_leg elev r sf)" for r sf
    using assms(3) grow(1) [OF assms(2)] by (rule order_trans)
  ultimately show "bs_bf_debt (borrow_step b58 reserves elev s b) \<le> bs_bf_debt (borrow_step b58 reserves elev s' b')"
    using assms(3,4) by (simp add: borrow_step_debt split: option.split)
qed

lemma borrow_fold_mono:
  assumes "list_all2 (\<lambda>b b'. lb_reserve b' = lb_reserve b \<and> lb_borrowed_amount_sf b \<le> lb_borrowed_amount_sf b') bs bs'"
    "f64_sum (bs_bf_debt s)" "f64_sum (bs_bf_debt s')" "bs_bf_debt s \<le> bs_bf_debt s'"
  shows "bs_bf_debt (foldl (borrow_step b58 reserves elev) s bs)
    \<le> bs_bf_debt (foldl (borrow_step b58 reserves elev) s' bs')"
  using assms
proof (induction arbitrary: s s' rule: list_all2_induct)
  case (Cons b bs b' bs')
  then show ?case
    using borrow_step_mono [of s s' b' b b58 reserves elev] borrow_step_mono(1) [of s' s' b' b' b58 reserves elev]
    by simp
qed simp

text \<open>
  C15: debt only pushes an obligation towards liquidation. When the borrowed amounts grow and nothing else
  changes, an obligation that is flagged liquidatable stays flagged, and one below maintenance stays below it.
\<close>

theorem more_debt_stays_liquidatable:
  assumes "compute_obligation_health_live_with_elevation b58 pos reserves groups = Inr h"
    and "compute_obligation_health_live_with_elevation b58 pos' reserves groups = Inr h'"
    and "more_debt pos pos'"
  shows "(kh_is_liquidatable h \<longrightarrow> kh_is_liquidatable h') \<and> (kh_below_maintenance h \<longrightarrow> kh_below_maintenance h')"
proof -
  let ?d = "\<lambda>p. bs_bf_debt (live_borrows b58 p reserves groups)"
  have e: "active_elevation pos' groups = active_elevation pos groups"
    "live_deposits b58 pos' reserves groups = live_deposits b58 pos reserves groups"
    using assms(3) by (simp_all add: more_debt_def active_elevation_def live_deposits_def)
  have "?d pos \<le> ?d pos'"
    using assms(3) unfolding live_borrows_def e more_debt_def by (intro borrow_fold_mono) (simp_all add: f64_sum_def)
  then show ?thesis
    using live_health_flags(1,2) [OF assms(1)] live_health_flags(1,2) [OF assms(2)] by (auto simp: e)
qed

theorem more_debt_stays_liquidatable_witness:
  "\<exists>h h'. compute_obligation_health_live_with_elevation (\<lambda>_. []) (sample_positions (90 * 2 ^ 60)) sample_risks None = Inr h
     \<and> compute_obligation_health_live_with_elevation (\<lambda>_. []) (sample_positions (95 * 2 ^ 60)) sample_risks None = Inr h'
     \<and> kh_is_liquidatable h'"
proof -
  obtain h h' where h:
    "compute_obligation_health_live_with_elevation (\<lambda>_. []) (sample_positions (90 * 2 ^ 60)) sample_risks None = Inr h"
    "compute_obligation_health_live_with_elevation (\<lambda>_. []) (sample_positions (95 * 2 ^ 60)) sample_risks None = Inr h'"
    using sample_computed by blast
  have "kh_is_liquidatable h"
    using live_decision(1) [OF h(1) sample_scaled sample_sums] by (simp add: decisive_def sf_value_def)
  moreover have "more_debt (sample_positions (90 * 2 ^ 60)) (sample_positions (95 * 2 ^ 60))"
    by (simp add: more_debt_def sample_positions_def)
  ultimately show ?thesis using more_debt_stays_liquidatable [OF h] h by blast
qed

end
