(* ===== verification/Discovery.thy ===== *)
theory Discovery
  imports LiveHealth JsonRpc EnvFile RpcPool
begin

text \<open>
  The read-only discovery of \<^verbatim>\<open>crates/liq-streaming/src/discovery.rs\<close>: it fetches the markets
  and the accounts of the three protocols, recomputes the health of every Kamino obligation and
  reports those that can be liquidated. The client is that of theory \<open>JsonRpc\<close> over the JSON interface \<open>j\<close>;
  the formatting of a float with six decimals is the argument \<open>fmt6\<close>. The decoders never panic
  (\<open>live_decoders_never_panic\<close>), so their fault is read as the error branch. The maps of reserves and elevation groups are partial
  maps; the JSON objects of the report are records. Logging is left out.
\<close>

section \<open>Known accounts\<close>

definition klend_main_market :: string where
  "klend_main_market = ''7u3HeHxYDLhnCoErrtycNokbQYbWGzLs6JSDqGAv5PfF''"
definition marginfi_main_group :: string where
  "marginfi_main_group = ''4qp6Fx6tnZkY5Wropq9wUYgtFxXKwE6viZxFHg3rdAG8''"
definition save_main_market :: string where
  "save_main_market = ''4UpD2fh7xH3VP9QQaXtsS1YY3bxzWhtfpks7FatyKvdY''"
definition save_obligation_datasizes :: "u64 list" where
  "save_obligation_datasizes = [1300, 916, 1192]"
definition save_obligation_market_offset :: u64 where "save_obligation_market_offset = 10"
definition klend_obligation_datasize :: u64 where "klend_obligation_datasize = 3344"
definition klend_reserve_datasize :: u64 where "klend_reserve_datasize = 8624"
definition marginfi_account_disc :: "u8 list" where
  "marginfi_account_disc = [67, 178, 130, 109, 126, 114, 28, 42]"
definition marginfi_bank_disc :: "u8 list" where
  "marginfi_bank_disc = [142, 49, 166, 242, 50, 66, 97, 188]"

record discovered_account =
  da_protocol :: string
  da_kind :: string
  da_pubkey :: "string option"
  da_pubkey_short :: string
  da_data_len :: nat
  da_decode :: string
  da_health :: "f64 option"
  da_band :: "string option"
  da_notes :: "string list"

record klend_health_stats =
  ks_obligations_decoded :: nat
  ks_with_debt :: nat
  ks_liquidatable :: nat
  ks_below_maintenance :: nat
  ks_missing_reserve_price :: nat
  ks_sample_healthy :: "discovered_account list"
  ks_min_health :: "f64 option"
  ks_max_health :: "f64 option"
  ks_median_health :: "f64 option"
  ks_p10_health :: "f64 option"

text \<open>The texts of the errors the notes and the gaps quote.\<close>

fun bootstrap_error_text :: "bootstrap_error \<Rightarrow> string" where
  "bootstrap_error_text (RpcError s) = ''rpc: '' @ s"
| "bootstrap_error_text (DecodeFailure s) = ''decode: '' @ s"
| "bootstrap_error_text (HttpError s) = ''http: '' @ s"
| "bootstrap_error_text (ConfigError s) = ''config: '' @ s"

fun decode_error_text :: "decode_error \<Rightarrow> string" where
  "decode_error_text TooShort = ''account too short''"
| "decode_error_text BadMagic = ''bad magic''"
| "decode_error_text BadVersion = ''unsupported version''"

fun decode_fault_text :: "decode_fault \<Rightarrow> string" where
  "decode_fault_text (Err e) = decode_error_text e"
| "decode_fault_text Panic = ''''"

fun kamino_error_text :: "kamino_error \<Rightarrow> string" where
  "kamino_error_text MissingPrice = ''missing price for asset''"
| "kamino_error_text InvalidAmount = ''invalid amount''"
| "kamino_error_text ScopeStale = ''scope oracle stale''"

definition pk :: "crypto \<Rightarrow> string \<Rightarrow> bootstrap_error + pubkey" where
  "pk c s = ok_or (pubkey_from_base58 c s) (DecodeFailure (''bad pubkey '' @ s))"

definition short_pk :: "(u8 list \<Rightarrow> string) \<Rightarrow> pubkey \<Rightarrow> string" where
  "short_pk b58 p = short_b58 (b58 (pk_bytes p))"

definition show_bool :: "bool \<Rightarrow> string" where
  "show_bool b = (if b then ''true'' else ''false'')"

section \<open>Classification of an obligation\<close>

text \<open>The notes about the positions, before any health is computed.\<close>

definition position_notes :: "(u8 list \<Rightarrow> string) \<Rightarrow> (f64 \<Rightarrow> string) \<Rightarrow> live_obligation_positions \<Rightarrow> string list" where
  "position_notes b58 fmt6 pos =
     (let h = lp_header pos in
      [''market='' @ short_pk b58 (lh_lending_market h),
       ''has_debt='' @ show_bool (lh_has_debt h),
       ''n_deposits='' @ show_nat (length (lp_deposits pos)),
       ''n_borrows='' @ show_nat (length (lp_borrows pos))]
      @ (case pick_liquidate_reserves pos of None \<Rightarrow> []
         | Some (repay, withdraw) \<Rightarrow>
             [''repay_res='' @ short_pk b58 repay, ''withdraw_res='' @ short_pk b58 withdraw])
      @ (if lh_has_debt h then
           (case stale_sf_header_health_ratio
                   (if 0 < lh_borrow_factor_adjusted_debt_value_sf h
                    then lh_borrow_factor_adjusted_debt_value_sf h
                    else lh_borrowed_assets_market_value_sf h)
                   (lh_unhealthy_borrow_value_sf h) of
              Some stale \<Rightarrow> [''stale_sf_hf='' @ fmt6 stale]
            | None \<Rightarrow> [])
         else []))"

text \<open>What the computed health contributes: notes, health and band.\<close>

definition health_notes :: "(f64 \<Rightarrow> string) \<Rightarrow> bool \<Rightarrow> klend_computed_health
    \<Rightarrow> string list \<times> f64 option \<times> string option" where
  "health_notes fmt6 has_debt ch =
     (let ns = [''ltv='' @ fmt6 (kh_ltv ch),
                ''unhealthy_usd_micro='' @ show_nat (unat (kh_unhealthy_borrow_value_usd_micro ch)),
                ''bf_debt_usd_micro='' @ show_nat (unat (kh_borrow_factor_adjusted_debt_usd_micro ch))]
               @ (if kh_missing_reserves ch \<noteq> []
                  then [''missing_reserves='' @ show_nat (length (kh_missing_reserves ch))] else [])
      in if 0 < kh_borrow_factor_adjusted_debt_usd_micro ch \<or> 0 < kh_deposited_value_usd_micro ch
         then (ns @ [if kh_is_liquidatable ch then ''liquidatable=true''
                     else if kh_below_maintenance ch then ''below_maintenance=true''
                     else ''healthy=true''],
               Some (kh_health_factor ch), Some (band_as_str (band_from_klend_health ch)))
         else (ns @ [if has_debt then ''health_incomplete_no_prices'' else ''no_debt_or_zero_borrow_sf''],
               None, None))"

definition classify_positions :: "(u8 list \<Rightarrow> string) \<Rightarrow> (f64 \<Rightarrow> string) \<Rightarrow> live_obligation_positions
    \<Rightarrow> reserve_map option \<Rightarrow> elevation_map option
    \<Rightarrow> string \<times> string list \<times> f64 option \<times> string option" where
  "classify_positions b58 fmt6 pos reserves elevation_groups =
     (let ns = position_notes b58 fmt6 pos; has_debt = lh_has_debt (lp_header pos)
      in case reserves of
           Some m \<Rightarrow>
             (let ns' = ns @ [''elevation_group='' @ show_nat (unat (lh_elevation_group (lp_header pos)))]
              in case compute_obligation_health_live_with_elevation b58 pos m elevation_groups of
                   Inr ch \<Rightarrow> (let (hs, health, band) = health_notes fmt6 has_debt ch
                              in (''live_health'', ns' @ hs, health, band))
                 | Inl e \<Rightarrow> (''live_health'', ns' @ [''health_err='' @ kamino_error_text e], None, None))
         | None \<Rightarrow>
             (''live_positions'',
              ns @ [if has_debt then ''no_reserve_map_skip_critical'' else ''no_debt_or_zero_borrow_sf''],
              None, None))"

definition classify_header :: "(u8 list \<Rightarrow> string) \<Rightarrow> pubkey \<Rightarrow> u8 list
    \<Rightarrow> string \<times> string list \<times> f64 option \<times> string option" where
  "classify_header b58 addr data =
     (case decode_obligation_live_header addr data of
        Inr h \<Rightarrow> (''live_header'', [''market='' @ short_pk b58 (lh_lending_market h),
                    ''has_debt='' @ show_bool (lh_has_debt h), ''positions_decode_failed_header_only''], None, None)
      | Inl e \<Rightarrow> (''unknown'', [''decode_err='' @ decode_fault_text e], None, None))"

definition classify_klend_obligation_full :: "(u8 list \<Rightarrow> string) \<Rightarrow> (f64 \<Rightarrow> string) \<Rightarrow> pubkey \<Rightarrow> u8 list
    \<Rightarrow> reserve_map option \<Rightarrow> elevation_map option \<Rightarrow> discovered_account" where
  "classify_klend_obligation_full b58 fmt6 addr data reserves elevation_groups =
     (let (decode, ns, health, band) =
        (if length data < 2260 then (''incomplete'', [''too_short_for_value_fields''], None, None)
         else case decode_obligation_live_positions addr data of
                Inr pos \<Rightarrow> classify_positions b58 fmt6 pos reserves elevation_groups
              | Inl _ \<Rightarrow> classify_header b58 addr data)
      in \<lparr>da_protocol = protocol_debug Kamino, da_kind = ''obligation'',
          da_pubkey = Some (b58 (pk_bytes addr)), da_pubkey_short = short_pk b58 addr,
          da_data_len = length data, da_decode = decode, da_health = health, da_band = band,
          da_notes = ns\<rparr>)"

definition classify_klend_obligation_with_reserves where
  "classify_klend_obligation_with_reserves b58 fmt6 addr data reserves =
     classify_klend_obligation_full b58 fmt6 addr data reserves None"

definition classify_klend_obligation where
  "classify_klend_obligation b58 fmt6 addr data =
     classify_klend_obligation_with_reserves b58 fmt6 addr data None"

definition percentile :: "f64 list \<Rightarrow> f64 \<Rightarrow> f64 option" where
  "percentile xs p =
     (if xs = [] then None
      else let idx = min (nat (round_away (fmul p (fsub (rnd (of_nat (length xs))) 1)))) (length xs - 1)
           in Some (xs ! idx))"

text \<open>\<^verbatim>\<open>{:02x?}\<close> of a slice of bytes.\<close>

fun hex_list :: "u8 list \<Rightarrow> string" where
  "hex_list [] = ''''"
| "hex_list [b] = hex_pair b"
| "hex_list (b # bs) = hex_pair b @ '', '' @ hex_list bs"

definition classify_raw :: "(u8 list \<Rightarrow> string) \<Rightarrow> protocol \<Rightarrow> string \<Rightarrow> raw_account \<Rightarrow> discovered_account" where
  "classify_raw b58 protocol kind a =
     \<lparr>da_protocol = protocol_debug protocol, da_kind = kind, da_pubkey = Some (b58 (pk_bytes (ra_pubkey a))),
      da_pubkey_short = short_pk b58 (ra_pubkey a), da_data_len = length (ra_data a),
      da_decode = (if 8 \<le> length (ra_data a) then ''header_only'' else ''empty''),
      da_health = None, da_band = None,
      da_notes = (if 8 \<le> length (ra_data a)
                  then [''disc=['' @ hex_list (take 8 (ra_data a)) @ '']''] else [])\<rparr>"

section \<open>The scan of the obligations\<close>

record klend_scan =
  sc_decoded :: nat
  sc_with_debt :: nat
  sc_liquidatable :: nat
  sc_below_maint :: nat
  sc_missing_px :: nat
  sc_healths :: "f64 list"
  sc_sample_healthy :: "discovered_account list"
  sc_liquidatable_candidates :: "discovered_account list"
  sc_scanned :: "discovered_account list"

definition klend_scan_start :: klend_scan where
  "klend_scan_start = \<lparr>sc_decoded = 0, sc_with_debt = 0, sc_liquidatable = 0, sc_below_maint = 0,
     sc_missing_px = 0, sc_healths = [], sc_sample_healthy = [], sc_liquidatable_candidates = [],
     sc_scanned = []\<rparr>"

definition has_note :: "discovered_account \<Rightarrow> string \<Rightarrow> bool" where
  "has_note d n \<longleftrightarrow> n \<in> set (da_notes d)"

definition is_liq :: "discovered_account \<Rightarrow> bool" where
  "is_liq d \<longleftrightarrow> da_band d = Some ''CRITICAL'' \<or> has_note d ''liquidatable=true''"

definition is_bm :: "discovered_account \<Rightarrow> bool" where
  "is_bm d \<longleftrightarrow> has_note d ''below_maintenance=true''"

definition is_debt :: "discovered_account \<Rightarrow> bool" where
  "is_debt d \<longleftrightarrow> has_note d ''has_debt=true''"

definition misses_price :: "discovered_account \<Rightarrow> bool" where
  "misses_price d \<longleftrightarrow> (\<exists>n \<in> set (da_notes d). starts_with n ''missing_reserves='')"

text \<open>One pass of the loop over the downloaded accounts.\<close>

definition scan_step :: "klend_scan \<Rightarrow> discovered_account \<Rightarrow> klend_scan" where
  "scan_step s d =
     (let s1 = s\<lparr>sc_decoded := sc_decoded s + 1,
                 sc_with_debt := sc_with_debt s + (if is_debt d then 1 else 0),
                 sc_missing_px := sc_missing_px s + (if misses_price d then 1 else 0),
                 sc_healths := sc_healths s @ (case da_health d of Some v \<Rightarrow> [v] | None \<Rightarrow> [])\<rparr>;
          s2 = (if is_liq d
                then s1\<lparr>sc_liquidatable := sc_liquidatable s1 + 1,
                        sc_liquidatable_candidates := sc_liquidatable_candidates s1 @ [d]\<rparr>
                else if is_bm d then s1\<lparr>sc_below_maint := sc_below_maint s1 + 1\<rparr>
                else if length (sc_sample_healthy s1) < 8 \<and> da_health d \<noteq> None \<and> is_debt d
                then s1\<lparr>sc_sample_healthy := sc_sample_healthy s1 @ [d]\<rparr>
                else s1)
      in if length (sc_scanned s2) < 48 \<and> (is_liq d \<or> is_bm d \<or> length (sc_scanned s2) < 16)
         then s2\<lparr>sc_scanned := sc_scanned s2 @ [d]\<rparr> else s2)"

definition f64_max :: f64 where
  "f64_max = (2 - 1 / 2 ^ 52) * 2 ^ 1023"

definition rank_health :: "discovered_account \<Rightarrow> f64" where
  "rank_health d = (case da_health d of Some h \<Rightarrow> h | None \<Rightarrow> f64_max)"

definition rank_candidates :: "discovered_account list \<Rightarrow> discovered_account list" where
  "rank_candidates = sort_key rank_health"

definition stats_of :: "klend_scan \<Rightarrow> klend_health_stats" where
  "stats_of s =
     (let healths = sort (sc_healths s) in
      \<lparr>ks_obligations_decoded = sc_decoded s, ks_with_debt = sc_with_debt s,
       ks_liquidatable = sc_liquidatable s, ks_below_maintenance = sc_below_maint s,
       ks_missing_reserve_price = sc_missing_px s, ks_sample_healthy = sc_sample_healthy s,
       ks_min_health = (if healths = [] then None else Some (hd healths)),
       ks_max_health = (if healths = [] then None else Some (last healths)),
       ks_median_health = percentile healths (1 / 2),
       ks_p10_health = percentile healths (rnd (1 / 10))\<rparr>)"

section \<open>The discovery\<close>

record market_summary =
  ms_pubkey_short :: string
  ms_lamports :: u64
  ms_data_len :: nat
  ms_owner_short :: string

record account_counts =
  ac_kamino_obligations :: nat
  ac_kamino_reserves :: nat
  ac_marginfi_accounts :: nat
  ac_marginfi_banks :: nat
  ac_save_accounts :: nat

text \<open>
  The report; the fields that quote program ids and the statistics of the pool (\<^verbatim>\<open>endpoint_host\<close>,
  \<^verbatim>\<open>endpoint_stats\<close>, \<^verbatim>\<open>program_ids\<close>) are left out.
\<close>

record discovery_report =
  dr_slot :: u64
  dr_health :: string
  dr_known_markets :: "(string \<times> market_summary option) list"
  dr_accounts_scanned :: nat
  dr_by_protocol :: account_counts
  dr_candidates :: "discovered_account list"
  dr_liquidatable_candidates :: "discovered_account list"
  dr_klend_health_stats :: "klend_health_stats option"
  dr_gaps :: "string list"

text \<open>What the phases of the scan share: the counters, the gaps and the results so far.\<close>

record discovery_state =
  ds_gaps :: "string list"
  ds_counts :: account_counts
  ds_scanned :: "discovered_account list"
  ds_liquidatable :: "discovered_account list"
  ds_stats :: "klend_health_stats option"

definition discovery_start :: "string list \<Rightarrow> discovery_state" where
  "discovery_start gaps = \<lparr>ds_gaps = gaps,
     ds_counts = \<lparr>ac_kamino_obligations = 0, ac_kamino_reserves = 0, ac_marginfi_accounts = 0,
                  ac_marginfi_banks = 0, ac_save_accounts = 0\<rparr>,
     ds_scanned = [], ds_liquidatable = [], ds_stats = None\<rparr>"

definition add_gap :: "string \<Rightarrow> discovery_state \<Rightarrow> discovery_state" where
  "add_gap g s = s\<lparr>ds_gaps := ds_gaps s @ [g]\<rparr>"

definition memcmp :: "'v json_rpc_api \<Rightarrow> u64 \<Rightarrow> string \<Rightarrow> 'v" where
  "memcmp j offset bytes =
     j_obj j [(''memcmp'', j_obj j [(''offset'', j_num j offset), (''bytes'', j_str j bytes)])]"

definition data_size :: "'v json_rpc_api \<Rightarrow> u64 \<Rightarrow> 'v" where
  "data_size j n = j_obj j [(''dataSize'', j_num j n)]"

definition market_summary_of :: "(u8 list \<Rightarrow> string) \<Rightarrow> raw_account \<Rightarrow> market_summary" where
  "market_summary_of b58 a = \<lparr>ms_pubkey_short = short_pk b58 (ra_pubkey a), ms_lamports = ra_lamports a,
     ms_data_len = length (ra_data a), ms_owner_short = short_b58 (b58 (pk_bytes (ra_owner a)))\<rparr>"

text \<open>The markets, each by its label, with a gap for every one that is not on chain.\<close>

fun known_market_entries :: "(u8 list \<Rightarrow> string) \<Rightarrow> raw_account option list \<Rightarrow> string list
    \<Rightarrow> (string \<times> market_summary option) list \<times> string list" where
  "known_market_entries b58 accts [] = ([], [])"
| "known_market_entries b58 accts (label # labels) =
     (let (ms, gs) = known_market_entries b58 (tl accts) labels
      in case (case accts of [] \<Rightarrow> None | a # _ \<Rightarrow> a) of
           Some a \<Rightarrow> ((label, Some (market_summary_of b58 a)) # ms, gs)
         | None \<Rightarrow> ((label, None) # ms, (label @ '' missing on-chain'') # gs))"

text \<open>The elevation groups of the first market and the reserves it lends.\<close>

definition discover_elevation :: "raw_account option list \<Rightarrow> elevation_map \<times> string list" where
  "discover_elevation accts =
     (case accts of
        Some mkt # _ \<Rightarrow> (case decode_lending_market_elevation_groups (ra_data mkt) of
            Inr m \<Rightarrow> (m, [])
          | Inl e \<Rightarrow> (Map.empty, [''klend elevation groups: '' @ decode_fault_text e]))
      | _ \<Rightarrow> (Map.empty, []))"

fun insert_reserves :: "raw_account list \<Rightarrow> reserve_map \<Rightarrow> reserve_map" where
  "insert_reserves [] m = m"
| "insert_reserves (a # as) m =
     insert_reserves as (case decode_reserve_live_risk (ra_pubkey a) (ra_data a) of
        Inr r \<Rightarrow> m(ra_pubkey a \<mapsto> r) | Inl _ \<Rightarrow> m)"

definition any_priced :: "reserve_map \<Rightarrow> raw_account list \<Rightarrow> bool" where
  "any_priced m accts \<longleftrightarrow>
     (\<exists>a \<in> set accts. case m (ra_pubkey a) of Some r \<Rightarrow> 0 < lr_market_price_sf r | None \<Rightarrow> False)"

definition scan_reserves :: "crypto \<Rightarrow> 'v json_rpc_api \<Rightarrow> 'v json_rpc_bootstrap
    \<Rightarrow> discovery_state \<Rightarrow> (reserve_map \<times> pubkey list) \<times> discovery_state" where
  "scan_reserves c j boot s =
     (case json_get_program_accounts_filtered c j boot prog_klend
             [data_size j klend_reserve_datasize, memcmp j 32 klend_main_market] of
        Inr accts \<Rightarrow>
          (let m = insert_reserves accts Map.empty;
               s1 = s\<lparr>ds_counts := (ds_counts s)\<lparr>ac_kamino_reserves := length accts\<rparr>\<rparr>
           in ((m, map ra_pubkey accts), if any_priced m accts then s1
                  else add_gap ''klend reserves decoded but all market_price_sf=0'' s1))
      | Inl e \<Rightarrow> ((Map.empty, []), add_gap (''klend reserve GPA: '' @ bootstrap_error_text e) s))"

text \<open>\<^verbatim>\<open>is_empty\<close> of a map whose keys are among \<open>ks\<close>.\<close>

definition some_unless_empty :: "'k list \<Rightarrow> ('k \<rightharpoonup> 'b) \<Rightarrow> ('k \<rightharpoonup> 'b) option" where
  "some_unless_empty ks m = (if \<forall>k \<in> set ks. m k = None then None else Some m)"

definition all_group_ids :: "u8 list" where
  "all_group_ids = map word_of_nat [0..<256]"

definition zero_liquidatable_gap :: "klend_scan \<Rightarrow> string" where
  "zero_liquidatable_gap sc = ''klend: zero liquidatable in scan window ('' @ show_nat (sc_decoded sc)
     @ '' obligations, '' @ show_nat (sc_with_debt sc)
     @ '' with debt); sample healthy stats attached '' @ [CHR 0xE2, CHR 0x80, CHR 0x94]
     @ '' not pretending CRITICAL''"

definition scan_obligations :: "crypto \<Rightarrow> 'v json_rpc_api \<Rightarrow> (f64 \<Rightarrow> string) \<Rightarrow> 'v json_rpc_bootstrap
    \<Rightarrow> reserve_map \<times> pubkey list \<Rightarrow> elevation_map \<Rightarrow> discovery_state \<Rightarrow> discovery_state" where
  "scan_obligations c j fmt6 boot reserves elevation_map s =
     (case json_get_program_accounts_filtered c j boot prog_klend
             [data_size j klend_obligation_datasize, memcmp j 32 klend_main_market] of
        Inr accts \<Rightarrow>
          (let classify = (\<lambda>a. classify_klend_obligation_full (b58_encode j) fmt6 (ra_pubkey a) (ra_data a)
                 (some_unless_empty (snd reserves) (fst reserves)) (some_unless_empty all_group_ids elevation_map));
               sc = foldl (\<lambda>sc a. scan_step sc (classify a)) (klend_scan_start\<lparr>sc_scanned := ds_scanned s\<rparr>) accts;
               s1 = s\<lparr>ds_counts := (ds_counts s)\<lparr>ac_kamino_obligations := length accts\<rparr>,
                      ds_scanned := sc_scanned sc,
                      ds_liquidatable := rank_candidates (sc_liquidatable_candidates sc),
                      ds_stats := Some (stats_of sc)\<rparr>
           in if sc_liquidatable sc = 0 then add_gap (zero_liquidatable_gap sc) s1 else s1)
      | Inl e \<Rightarrow> add_gap (''klend obligation GPA: '' @ bootstrap_error_text e) s)"

definition scan_marginfi :: "crypto \<Rightarrow> 'v json_rpc_api \<Rightarrow> 'v json_rpc_bootstrap \<Rightarrow> discovery_state \<Rightarrow> discovery_state" where
  "scan_marginfi c j boot s =
     (case json_get_program_accounts_filtered c j boot prog_marginfi
             [memcmp j 0 (b58_encode j marginfi_account_disc), memcmp j 8 marginfi_main_group] of
        Inr accts \<Rightarrow>
          s\<lparr>ds_counts := (ds_counts s)\<lparr>ac_marginfi_accounts := length accts\<rparr>,
            ds_scanned := ds_scanned s @ map (\<lambda>a. let d = classify_raw (b58_encode j) Project0 ''marginfi_account'' a
              in d\<lparr>da_notes := da_notes d @ [''full_health_decode_pending_zero_copy'']\<rparr>) (take 32 accts)\<rparr>
      | Inl e \<Rightarrow>
          (let s1 = add_gap (''marginfi account GPA: '' @ bootstrap_error_text e) s
           in case json_get_program_accounts_filtered c j boot prog_marginfi
                     [memcmp j 0 (b58_encode j marginfi_bank_disc)] of
                Inr accts \<Rightarrow>
                  s1\<lparr>ds_counts := (ds_counts s1)\<lparr>ac_marginfi_banks := length accts\<rparr>,
                     ds_scanned := ds_scanned s1
                       @ map (classify_raw (b58_encode j) Project0 ''bank'') (take 16 accts)\<rparr>
              | Inl e2 \<Rightarrow> add_gap (''marginfi bank GPA: '' @ bootstrap_error_text e2) s1))"

text \<open>The loop over the documented obligation sizes ends at the first that has accounts.\<close>

fun scan_save_sizes :: "crypto \<Rightarrow> 'v json_rpc_api \<Rightarrow> 'v json_rpc_bootstrap \<Rightarrow> u64 list
    \<Rightarrow> discovery_state \<Rightarrow> bool \<times> discovery_state" where
  "scan_save_sizes c j boot [] s = (False, s)"
| "scan_save_sizes c j boot (n # sizes) s =
     (case json_get_program_accounts_filtered c j boot prog_save
             [memcmp j save_obligation_market_offset save_main_market, data_size j n] of
        Inr accts \<Rightarrow>
          if accts \<noteq> [] then
            (True, (add_gap (''Save: pinned obligation dataSize='' @ show_nat (unat n) @ '', market offset=''
                       @ show_nat (unat save_obligation_market_offset))
                     (s\<lparr>ds_counts := (ds_counts s)\<lparr>ac_save_accounts := length accts\<rparr>\<rparr>))
                   \<lparr>ds_scanned := ds_scanned s @ map (\<lambda>a. let d = classify_raw (b58_encode j) Save ''obligation'' a
                      in d\<lparr>da_notes := da_notes d @ [''save_datasize='' @ show_nat (unat n)]\<rparr>) (take 16 accts)\<rparr>)
          else scan_save_sizes c j boot sizes s
      | Inl e \<Rightarrow> scan_save_sizes c j boot sizes
                   (add_gap (''save GPA dataSize='' @ show_nat (unat n) @ '': '' @ bootstrap_error_text e) s))"

definition scan_save :: "crypto \<Rightarrow> 'v json_rpc_api \<Rightarrow> 'v json_rpc_bootstrap \<Rightarrow> raw_account option list
    \<Rightarrow> discovery_state \<Rightarrow> discovery_state" where
  "scan_save c j boot known_accts s =
     (let s1 = (case drop 2 known_accts of
                  Some mkt # _ \<Rightarrow> s\<lparr>ds_scanned := ds_scanned s
                                  @ [classify_raw (b58_encode j) Save ''lending_market'' mkt]\<rparr>
                | _ \<Rightarrow> s);
          (found, s2) = scan_save_sizes c j boot save_obligation_datasizes s1
      in if found then s2
         else add_gap ''Save: no obligation GPA hit for dataSizes 1300/916/1192 @ market offset 10; market account still fetched'' s2)"

text \<open>The phases after the markets are known, each passing its state to the next.\<close>

definition discover_phases :: "crypto \<Rightarrow> 'v json_rpc_api \<Rightarrow> (f64 \<Rightarrow> string) \<Rightarrow> 'v json_rpc_bootstrap
    \<Rightarrow> string list \<Rightarrow> raw_account option list \<Rightarrow> discovery_state" where
  "discover_phases c j fmt6 boot gaps known_accts =
     (let (elevation_map, elevation_gaps) = discover_elevation known_accts;
          s0 = discovery_start (gaps @ elevation_gaps);
          (reserves, s1) = scan_reserves c j boot s0;
          s2 = scan_obligations c j fmt6 boot reserves elevation_map s1;
          s3 = scan_marginfi c j boot s2;
          s4 = scan_save c j boot known_accts s3;
          s5 = add_gap ''Marginfi balances / Save reserve vault zero-copy still incomplete; Kamino live health uses deposits/borrows + reserve marketPriceSf + liqThreshold'' s4
      in if ds_liquidatable s5 = []
         then add_gap (''no liquidatable/below-maintenance Kamino obligations '' @ [CHR 0xE2, CHR 0x80, CHR 0x94]
                @ '' candidates list is empty (see klend_health_stats.sample_healthy)'') s5
         else s5)"

definition discover_mainnet :: "crypto \<Rightarrow> 'v json_rpc_api \<Rightarrow> (f64 \<Rightarrow> string) \<Rightarrow> 'v transport
    \<Rightarrow> bootstrap_error + discovery_report" where
  "discover_mainnet c j fmt6 pool =
     (let boot = json_rpc_bootstrap_new pool in
      and_then (get_slot j boot) (\<lambda>slot.
      let (health, gaps) = (case get_health j boot of
             Inr h \<Rightarrow> (h, [])
           | Inl e \<Rightarrow> (''unknown'', [''getHealth failed: '' @ bootstrap_error_text e])) in
      and_then (pk c klend_main_market) (\<lambda>klend_market.
      and_then (pk c marginfi_main_group) (\<lambda>mfi_group.
      and_then (pk c save_main_market) (\<lambda>save_market.
      and_then (json_get_multiple_accounts c j boot [klend_market, mfi_group, save_market]) (\<lambda>known_accts.
      let (markets, missing) = known_market_entries (b58_encode j) known_accts
             [''klend_main_market'', ''marginfi_main_group'', ''save_main_market''];
          s = discover_phases c j fmt6 boot (gaps @ missing) known_accts;
          n = ds_counts s
      in Inr \<lparr>dr_slot = slot, dr_health = health, dr_known_markets = markets,
              dr_accounts_scanned = ac_kamino_obligations n + ac_kamino_reserves n + ac_marginfi_accounts n
                + ac_marginfi_banks n + ac_save_accounts n + length (filter (\<lambda>a. a \<noteq> None) known_accts),
              dr_by_protocol = n, dr_candidates = take 32 (ds_liquidatable s),
              dr_liquidatable_candidates = ds_liquidatable s, dr_klend_health_stats = ds_stats s,
              dr_gaps = ds_gaps s\<rparr>))))))"

text \<open>The pool built from the endpoints of the environment.\<close>

definition pool_from_env :: "process_env \<Rightarrow> bootstrap_error + rpc_pool" where
  "pool_from_env env = from_urls (rpc_urls_from_env env)"

section \<open>Critical means liquidatable\<close>

lemma min_notional_bounds: "1 / 1000000 \<le> min_liquidation_notional_usd"
proof -
  have "1 / 1000000 \<le> (1 / 100) / f64_step ^ 1" by (simp add: f64_step_def)
  also have "\<dots> \<le> min_liquidation_notional_usd" using approx_min_notional by (simp only: approx_def)
  finally show ?thesis .
qed

lemma as_u128_pos: "1 \<le> n \<Longrightarrow> 0 < as_u128 n"
proof -
  assume "1 \<le> n"
  then have k: "0 < max 0 (min n (2 ^ 128 - 1))" "max 0 (min n (2 ^ 128 - 1)) < 2 ^ 128" by simp_all
  then have "uint (as_u128 n) = max 0 (min n (2 ^ 128 - 1))"
    unfolding as_u128_def by (subst uint_word_of_int) (simp add: take_bit_int_eq_self)
  with k(1) have "0 < uint (as_u128 n)" by simp
  then show ?thesis by (simp add: word_less_def)
qed

lemma to_micro_pos:
  assumes "min_liquidation_notional_usd \<le> v" shows "0 < to_micro v"
proof -
  have v: "1 / 1000000 \<le> v" using assms min_notional_bounds by linarith
  then have "1 \<le> v * 1000000" by simp
  from rnd_mono [OF _ this] have "1 \<le> fmul v 1000000" using rnd_nat [of 1] by (simp add: fmul_def)
  then have "1 \<le> round_away (fmul v 1000000)" by (simp add: round_away_def le_floor_iff)
  with v show ?thesis by (simp add: to_micro_def as_u128_pos)
qed

lemma liquidatable_debt_micro:
  assumes "compute_obligation_health_live_with_elevation b58 pos m groups = Inr h" "kh_is_liquidatable h"
  shows "0 < kh_borrow_factor_adjusted_debt_usd_micro h"
  using assms
  by (auto simp: compute_obligation_health_live_with_elevation_def Let_def intro!: to_micro_pos)

lemma band_as_str_critical: "band_as_str b = ''CRITICAL'' \<longleftrightarrow> b = Critical"
  by (cases b) simp_all

lemma position_notes_plain: "''liquidatable=true'' \<notin> set (position_notes b58 fmt6 pos)"
proof -
  let ?h = "lp_header pos"
  have r: "''liquidatable=true'' \<notin> set (case pick_liquidate_reserves pos of None \<Rightarrow> []
      | Some (r, w) \<Rightarrow> [''repay_res='' @ short_pk b58 r, ''withdraw_res='' @ short_pk b58 w])"
    by (cases "pick_liquidate_reserves pos") auto
  have s: "''liquidatable=true'' \<notin> set (case x of Some st \<Rightarrow> [''stale_sf_hf='' @ fmt6 st] | None \<Rightarrow> [])" for x
    by (cases x) simp_all
  have t: "''liquidatable=true'' \<notin> set [''market='' @ x, ''has_debt='' @ y, ''n_deposits='' @ z, ''n_borrows='' @ w]"
    for x y z w by simp
  show ?thesis
    unfolding position_notes_def Let_def set_append Un_iff
    using r s t by (cases "lh_has_debt ?h") (simp_all only: if_True if_False list.set empty_iff simp_thms not_False_eq_True)
qed

lemma health_notes_liquidatable:
  assumes "compute_obligation_health_live_with_elevation b58 pos m groups = Inr h"
    and "health_notes fmt6 debt h = (hs, health, band)"
  shows "''liquidatable=true'' \<in> set hs \<longleftrightarrow> kh_is_liquidatable h"
    and "band = Some ''CRITICAL'' \<longleftrightarrow> kh_is_liquidatable h"
  using assms(2) liquidatable_debt_micro [OF assms(1)]
  by (auto simp: health_notes_def Let_def band_as_str_critical band_from_klend_health_def split: if_splits)

lemma decoded_length: "decode_obligation_live_positions addr data = Inr pos \<Longrightarrow> 2260 \<le> length data"
  by (simp add: decode_live_positions_total split: if_splits)

definition flagged :: "(u8 list \<Rightarrow> string) \<Rightarrow> live_obligation_positions \<Rightarrow> reserve_map option
    \<Rightarrow> elevation_map option \<Rightarrow> bool" where
  "flagged b58 pos reserves groups \<longleftrightarrow>
     (case reserves of None \<Rightarrow> False
      | Some m \<Rightarrow> (case compute_obligation_health_live_with_elevation b58 pos m groups of
          Inl e \<Rightarrow> False | Inr h \<Rightarrow> kh_is_liquidatable h))"

lemma classify_positions_flag:
  assumes "classify_positions b58 fmt6 pos reserves groups = (dec, ns, health, band)"
  shows "''liquidatable=true'' \<in> set ns \<longleftrightarrow> flagged b58 pos reserves groups"
    and "band = Some ''CRITICAL'' \<longleftrightarrow> flagged b58 pos reserves groups"
proof -
  have "(''liquidatable=true'' \<in> set ns \<longleftrightarrow> flagged b58 pos reserves groups)
      \<and> (band = Some ''CRITICAL'' \<longleftrightarrow> flagged b58 pos reserves groups)"
  proof (cases reserves)
    case None
    with assms show ?thesis
      by (auto simp: classify_positions_def flagged_def Let_def position_notes_plain split: if_splits)
  next
    case (Some m)
    obtain h where h: "compute_obligation_health_live_with_elevation b58 pos m groups = Inr h"
      using sample_computed by blast
    obtain hs hl bd where hn: "health_notes fmt6 (lh_has_debt (lp_header pos)) h = (hs, hl, bd)"
      by (cases "health_notes fmt6 (lh_has_debt (lp_header pos)) h")
    from assms health_notes_liquidatable [OF h hn] show ?thesis
      by (auto simp: classify_positions_def flagged_def Let_def position_notes_plain Some h hn)
  qed
  then show "''liquidatable=true'' \<in> set ns \<longleftrightarrow> flagged b58 pos reserves groups"
    "band = Some ''CRITICAL'' \<longleftrightarrow> flagged b58 pos reserves groups" by simp_all
qed

lemma classify_flag:
  fixes b58 fmt6 addr data reserves groups
  defines "d \<equiv> classify_klend_obligation_full b58 fmt6 addr data reserves groups"
  defines "f \<equiv> (case decode_obligation_live_positions addr data of
      Inl e \<Rightarrow> False | Inr pos \<Rightarrow> flagged b58 pos reserves groups)"
  shows "has_note d ''liquidatable=true'' \<longleftrightarrow> f" and "da_band d = Some ''CRITICAL'' \<longleftrightarrow> f"
proof -
  have "(has_note d ''liquidatable=true'' \<longleftrightarrow> f) \<and> (da_band d = Some ''CRITICAL'' \<longleftrightarrow> f)"
  proof (cases "decode_obligation_live_positions addr data")
    case (Inl e)
    then show ?thesis
      by (auto simp: d_def f_def classify_klend_obligation_full_def classify_header_def has_note_def
          split: sum.splits)
  next
    case (Inr pos)
    obtain dec ns hl bd where c: "classify_positions b58 fmt6 pos reserves groups = (dec, ns, hl, bd)"
      by (cases "classify_positions b58 fmt6 pos reserves groups")
    from classify_positions_flag [OF c] decoded_length [OF Inr] show ?thesis
      by (simp add: d_def f_def classify_klend_obligation_full_def has_note_def Inr c)
  qed
  then show "has_note d ''liquidatable=true'' \<longleftrightarrow> f" "da_band d = Some ''CRITICAL'' \<longleftrightarrow> f" by simp_all
qed


section \<open>The tally of the scan\<close>

definition scan_from :: "discovered_account list \<Rightarrow> discovered_account list \<Rightarrow> klend_scan" where
  "scan_from prior ds = foldl scan_step (klend_scan_start\<lparr>sc_scanned := prior\<rparr>) ds"

definition healthy_sample :: "discovered_account \<Rightarrow> bool" where
  "healthy_sample d \<longleftrightarrow> \<not> is_liq d \<and> \<not> is_bm d \<and> da_health d \<noteq> None \<and> is_debt d"

lemma scan_from_snoc: "scan_from prior (ds @ [d]) = scan_step (scan_from prior ds) d"
  by (simp add: scan_from_def)

lemma scan_step_fields:
  "sc_decoded (scan_step s d) = sc_decoded s + 1"
  "sc_with_debt (scan_step s d) = sc_with_debt s + (if is_debt d then 1 else 0)"
  "sc_missing_px (scan_step s d) = sc_missing_px s + (if misses_price d then 1 else 0)"
  "sc_healths (scan_step s d) = sc_healths s @ (case da_health d of Some v \<Rightarrow> [v] | None \<Rightarrow> [])"
  "sc_liquidatable (scan_step s d) = sc_liquidatable s + (if is_liq d then 1 else 0)"
  "sc_liquidatable_candidates (scan_step s d) = sc_liquidatable_candidates s @ (if is_liq d then [d] else [])"
  "sc_below_maint (scan_step s d) = sc_below_maint s + (if \<not> is_liq d \<and> is_bm d then 1 else 0)"
  "sc_sample_healthy (scan_step s d) = sc_sample_healthy s
     @ (if healthy_sample d \<and> length (sc_sample_healthy s) < 8 then [d] else [])"
  "sc_scanned (scan_step s d) = sc_scanned s
     @ (if length (sc_scanned s) < 48 \<and> (is_liq d \<or> is_bm d \<or> length (sc_scanned s) < 16) then [d] else [])"
  by (auto simp: scan_step_def healthy_sample_def Let_def)

lemma scan_tally:
  "sc_decoded (scan_from prior ds) = length ds"
  "sc_with_debt (scan_from prior ds) = length (filter is_debt ds)"
  "sc_missing_px (scan_from prior ds) = length (filter misses_price ds)"
  "sc_liquidatable (scan_from prior ds) = length (filter is_liq ds)"
  "sc_liquidatable_candidates (scan_from prior ds) = filter is_liq ds"
  "sc_below_maint (scan_from prior ds) = length (filter (\<lambda>d. \<not> is_liq d \<and> is_bm d) ds)"
  "sc_sample_healthy (scan_from prior ds) = take 8 (filter healthy_sample ds)"
  "sc_healths (scan_from prior ds) = List.map_filter da_health ds"
  "length prior \<le> 48 \<Longrightarrow> length (sc_scanned (scan_from prior ds)) \<le> 48"
  by (induction ds rule: rev_induct)
    (auto simp: scan_from_snoc scan_step_fields map_filter_def split: option.splits,
     simp_all add: scan_from_def klend_scan_start_def)

lemma percentile_member: "percentile xs p = Some v \<Longrightarrow> v \<in> set xs"
  by (auto simp: percentile_def Let_def min_less_iff_disj split: if_splits intro!: nth_mem)

lemma percentile_none: "percentile xs p = None \<longleftrightarrow> xs = []"
  by (simp add: percentile_def Let_def)

text \<open>The later phases leave the ranking alone.\<close>

lemma keep_ranking [frame_simps]:
  "ds_liquidatable (add_gap g s) = ds_liquidatable s"
  "ds_liquidatable (discovery_start gs) = []"
  "ds_liquidatable (snd (scan_reserves c j boot s)) = ds_liquidatable s"
  "ds_liquidatable (scan_marginfi c j boot s) = ds_liquidatable s"
  by (simp_all add: add_gap_def discovery_start_def scan_reserves_def scan_marginfi_def Let_def split: sum.split)

lemma keep_ranking_sizes [frame_simps]:
  "ds_liquidatable (snd (scan_save_sizes c j boot sizes s)) = ds_liquidatable s"
  by (induction c j boot sizes s rule: scan_save_sizes.induct) (simp_all add: add_gap_def split: sum.split)

lemma keep_ranking_save [frame_simps]:
  "ds_liquidatable (scan_save c j boot known s) = ds_liquidatable s"
proof -
  have "ds_liquidatable (snd (scan_save_sizes c j boot save_obligation_datasizes
      (case drop 2 known of Some mkt # ms \<Rightarrow> s\<lparr>ds_scanned := x mkt\<rparr> | _ \<Rightarrow> s))) = ds_liquidatable s" for x
    unfolding keep_ranking_sizes by (simp split: list.split option.split)
  then show ?thesis
    by (simp add: scan_save_def Let_def split_def frame_simps)
qed

text \<open>\<open>live_critical d\<close>: the account \<open>d\<close> stems from an obligation whose recomputed health is liquidatable.\<close>

definition live_critical :: "(u8 list \<Rightarrow> string) \<Rightarrow> (f64 \<Rightarrow> string) \<Rightarrow> discovered_account \<Rightarrow> bool" where
  "live_critical b58 fmt6 d \<longleftrightarrow>
     (\<exists>addr data m groups pos h. d = classify_klend_obligation_full b58 fmt6 addr data (Some m) groups
        \<and> decode_obligation_live_positions addr data = Inr pos
        \<and> compute_obligation_health_live_with_elevation b58 pos m groups = Inr h \<and> kh_is_liquidatable h)"

lemma candidates_of_scan:
  "sc_liquidatable_candidates (foldl (\<lambda>sc a. scan_step sc (f a)) (klend_scan_start\<lparr>sc_scanned := p\<rparr>) xs)
     = filter is_liq (map f xs)"
  using scan_tally(5) [of p "map f xs"] by (simp add: scan_from_def foldl_map)

lemma ranked_obligations:
  "case json_get_program_accounts_filtered c j boot prog_klend
          [data_size j klend_obligation_datasize, memcmp j 32 klend_main_market] of
     Inl e \<Rightarrow> ds_liquidatable (scan_obligations c j fmt6 boot reserves groups s) = ds_liquidatable s
   | Inr accts \<Rightarrow> ds_liquidatable (scan_obligations c j fmt6 boot reserves groups s)
       = rank_candidates (filter is_liq (map (\<lambda>a. classify_klend_obligation_full (b58_encode j) fmt6
           (ra_pubkey a) (ra_data a) (some_unless_empty (snd reserves) (fst reserves))
           (some_unless_empty all_group_ids groups)) accts))"
  by (simp add: scan_obligations_def Let_def frame_simps candidates_of_scan split: sum.split)

lemma is_liq_critical:
  assumes "is_liq (classify_klend_obligation_full b58 fmt6 addr data reserves groups)"
  shows "live_critical b58 fmt6 (classify_klend_obligation_full b58 fmt6 addr data reserves groups)"
proof -
  let ?d = "classify_klend_obligation_full b58 fmt6 addr data reserves groups"
  have "da_band ?d = Some ''CRITICAL''" using assms by (simp add: is_liq_def classify_flag)
  then obtain pos where pos: "decode_obligation_live_positions addr data = Inr pos" "flagged b58 pos reserves groups"
    unfolding classify_flag by (auto split: sum.splits)
  then obtain m h where "reserves = Some m" "compute_obligation_health_live_with_elevation b58 pos m groups = Inr h"
    "kh_is_liquidatable h"
    by (auto simp: flagged_def split: option.splits sum.splits)
  with pos(1) show ?thesis unfolding live_critical_def by blast
qed

lemma phases_ranking:
  "\<exists>reserves groups s. ds_liquidatable s = [] \<and> ds_liquidatable (discover_phases c j fmt6 boot gaps known)
     = ds_liquidatable (scan_obligations c j fmt6 boot reserves groups s)"
proof -
  let ?e = "discover_elevation known"
  let ?r = "scan_reserves c j boot (discovery_start (gaps @ snd ?e))"
  have "ds_liquidatable (discover_phases c j fmt6 boot gaps known)
      = ds_liquidatable (scan_obligations c j fmt6 boot (fst ?r) (fst ?e) (snd ?r))"
    by (simp add: discover_phases_def Let_def split_def frame_simps)
  moreover have "ds_liquidatable (snd ?r) = []" by (simp add: frame_simps)
  ultimately show ?thesis by blast
qed

lemma phases_critical:
  fixes c j fmt6 boot gaps known
  defines "xs \<equiv> ds_liquidatable (discover_phases c j fmt6 boot gaps known)"
  shows "d \<in> set xs \<Longrightarrow> live_critical (b58_encode j) fmt6 d" and "sorted (map rank_health xs)"
proof -
  obtain reserves groups s where r: "ds_liquidatable s = []"
    "xs = ds_liquidatable (scan_obligations c j fmt6 boot reserves groups s)"
    unfolding xs_def using phases_ranking by metis
  have "(\<forall>d \<in> set xs. live_critical (b58_encode j) fmt6 d) \<and> sorted (map rank_health xs)"
    using ranked_obligations [where c = c and j = j and boot = boot and ?fmt6.0 = fmt6
        and reserves = reserves and groups = groups and s = s] r(1)
    by (auto simp: r(2) rank_candidates_def is_liq_critical split: sum.splits)
  then show "d \<in> set xs \<Longrightarrow> live_critical (b58_encode j) fmt6 d" "sorted (map rank_health xs)" by simp_all
qed


end
