(* ===== verification/Fixtures.thy ===== *)
theory Fixtures
  imports LiveHealth CandidateIndex Failover Strings
begin

text \<open>
  The recorded ticks and borrowers of \<^verbatim>\<open>crates/liq-streaming/src/fixtures.rs\<close> and the settings of
  the gRPC stream, \<^verbatim>\<open>crates/liq-streaming/src/yellowstone.rs\<close>, whose client is not linked. The
  file system and the JSON deserializer of \<^verbatim>\<open>serde\<close> are arguments; a path is a string.
\<close>

section \<open>Fixture files\<close>

record fixture_pubkey =
  fx_tag :: u8
  fx_index :: u64

definition to_pubkey :: "fixture_pubkey \<Rightarrow> pubkey" where
  "to_pubkey f = pubkey_test (fx_tag f) (fx_index f)"

record oracle_tick_fixture =
  ot_asset :: fixture_pubkey
  ot_label :: "string option"
  ot_price_usd :: f64
  ot_slot :: u64
  ot_write_version :: u64
  ot_note :: "string option"

record oracle_ticks_file =
  of_description :: "string option"
  of_ticks :: "oracle_tick_fixture list"

record trigger_fixture =
  tf_asset :: fixture_pubkey
  tf_side :: string
  tf_trigger_price_usd :: f64

record plan_fixture =
  pf_ix_order :: string
  pf_repay_amount :: u64
  pf_gross_profit_usd :: f64
  pf_notional_usd :: f64
  pf_capital_usd :: f64

record borrower_fixture =
  bf_account :: fixture_pubkey
  bf_protocol :: string
  bf_band :: string
  bf_health :: f64
  bf_assets :: "fixture_pubkey list"
  bf_triggers :: "trigger_fixture list"
  bf_plan :: plan_fixture

record borrowers_file =
  bw_description :: "string option"
  bw_borrowers :: "borrower_fixture list"

definition parse_protocol :: "string \<Rightarrow> stream_error + protocol" where
  "parse_protocol s =
     (let t = to_lowercase s
      in if t = ''kamino'' then Inr Kamino
         else if t \<in> {''project0'', ''p0'', ''marginfi''} then Inr Project0
         else if t \<in> {''save'', ''solend''} then Inr Save
         else Inl (FixtureError (''unknown protocol: '' @ t)))"

definition parse_band :: "string \<Rightarrow> stream_error + candidate_band" where
  "parse_band s =
     (let t = to_lowercase s
      in if t = ''critical'' then Inr Critical else if t = ''hot'' then Inr Hot
         else if t = ''warm'' then Inr Warm else if t = ''cold'' then Inr Cold
         else Inl (FixtureError (''unknown band: '' @ t)))"

definition parse_side :: "string \<Rightarrow> stream_error + trigger_side" where
  "parse_side s =
     (let t = to_lowercase s
      in if t \<in> {''collateraldown'', ''collateral_down''} then Inr CollateralDown
         else if t \<in> {''debtup'', ''debt_up''} then Inr DebtUp
         else Inl (FixtureError (''unknown side: '' @ t)))"

text \<open>Reading a file and deserializing it; both failures are fixture errors.\<close>

definition load_fixture ::
    "string \<Rightarrow> (string \<Rightarrow> string + string) \<Rightarrow> (string \<Rightarrow> string + 'a) \<Rightarrow> string \<Rightarrow> stream_error + 'a" where
  "load_fixture what read_to_string from_str path =
     (case read_to_string path of
        Inl e \<Rightarrow> Inl (FixtureError (''read '' @ path @ '': '' @ e))
      | Inr raw \<Rightarrow> (case from_str raw of
            Inl e \<Rightarrow> Inl (FixtureError (what @ '' json: '' @ e))
          | Inr f \<Rightarrow> Inr f))"

definition load_oracle_ticks ::
    "(string \<Rightarrow> string + string) \<Rightarrow> (string \<Rightarrow> string + oracle_ticks_file) \<Rightarrow> string
      \<Rightarrow> stream_error + oracle_ticks_file" where
  "load_oracle_ticks = load_fixture ''oracle''"

definition load_borrowers ::
    "(string \<Rightarrow> string + string) \<Rightarrow> (string \<Rightarrow> string + borrowers_file) \<Rightarrow> string
      \<Rightarrow> stream_error + borrowers_file" where
  "load_borrowers = load_fixture ''borrowers''"

text \<open>\<open>has_ticks p\<close> says whether the directory \<open>p\<close> holds the file of ticks.\<close>

definition resolve_fixtures_dir ::
    "string option \<Rightarrow> (string \<Rightarrow> string option) \<Rightarrow> (string \<Rightarrow> bool) \<Rightarrow> string" where
  "resolve_fixtures_dir explicit env has_ticks =
     (case explicit of Some p \<Rightarrow> p
      | None \<Rightarrow> (case env ''LIQ_FIXTURES'' of Some p \<Rightarrow> p
      | None \<Rightarrow> (case List.find has_ticks [''fixtures'', ''./fixtures'', ''../fixtures''] of
                   Some p \<Rightarrow> p | None \<Rightarrow> ''fixtures'')))"

definition tick_event :: "oracle_tick_fixture \<Rightarrow> stream_event" where
  "tick_event t = PriceEvent (to_pubkey (ot_asset t)) (px (price_from_f64 (ot_price_usd t)))
     (ot_slot t) (ot_write_version t)"

definition ticks_to_events :: "oracle_ticks_file \<Rightarrow> stream_event list" where
  "ticks_to_events f = map tick_event (of_ticks f)"

definition borrower_to_meta :: "borrower_fixture \<Rightarrow> stream_error + candidate_meta" where
  "borrower_to_meta b =
     and_then (parse_protocol (bf_protocol b)) (\<lambda>protocol.
     and_then (parse_band (bf_band b)) (\<lambda>band.
       Inr \<lparr>cm_account = to_pubkey (bf_account b), cm_protocol = protocol, cm_band = band,
            cm_health = health_from_f64 (bf_health b), cm_assets = map to_pubkey (bf_assets b)\<rparr>))"

text \<open>Collecting into a \<^verbatim>\<open>Result\<close> stops at the first error.\<close>

fun collect_triggers :: "pubkey \<Rightarrow> trigger_fixture list \<Rightarrow> stream_error + price_trigger list" where
  "collect_triggers account [] = Inr []"
| "collect_triggers account (t # ts) =
     and_then (parse_side (tf_side t)) (\<lambda>side.
     and_then (collect_triggers account ts) (\<lambda>rest.
       Inr (\<lparr>pt_account = account, pt_asset = to_pubkey (tf_asset t), pt_side = side,
             pt_trigger_price = price_from_f64 (tf_trigger_price_usd t)\<rparr> # rest)))"

definition borrower_triggers :: "borrower_fixture \<Rightarrow> stream_error + price_trigger list" where
  "borrower_triggers b = collect_triggers (to_pubkey (bf_account b)) (bf_triggers b)"

section \<open>The gRPC stream\<close>

record yellowstone_config =
  yc_endpoint :: string
  yc_x_token :: "string option"
  yc_commitment :: string
  yc_ping_interval_ms :: u64

definition default_commitment :: string where "default_commitment = ''processed''"
definition default_ping_ms :: u64 where "default_ping_ms = 15000"

definition yellowstone_from_env :: "(string \<Rightarrow> string option) \<Rightarrow> yellowstone_config option" where
  "yellowstone_from_env env =
     (case env ''GEYSER_ENDPOINT'' of
        None \<Rightarrow> None
      | Some endpoint \<Rightarrow>
          if endpoint = '''' \<or> str_contains endpoint ''YOUR_'' then None
          else Some \<lparr>yc_endpoint = endpoint, yc_x_token = env ''GEYSER_X_TOKEN'',
                     yc_commitment = (case env ''GEYSER_COMMITMENT'' of Some c \<Rightarrow> c | None \<Rightarrow> default_commitment),
                     yc_ping_interval_ms = (case Option.bind (env ''GEYSER_PING_MS'') parse_u64 of
                        Some n \<Rightarrow> n | None \<Rightarrow> default_ping_ms)\<rparr>)"

definition has_credentials :: "yellowstone_config \<Rightarrow> bool" where
  "has_credentials cfg =
     (case yc_x_token cfg of Some t \<Rightarrow> t \<noteq> '''' \<and> \<not> str_contains t ''YOUR_'' | None \<Rightarrow> False)"

definition connect_placeholder :: "yellowstone_config \<Rightarrow> stream_error + unit" where
  "connect_placeholder cfg =
     (if \<not> has_credentials cfg
      then Inl (SubscribeFailed (''Yellowstone: GEYSER_X_TOKEN missing '' @ [CHR 0xE2, CHR 0x80, CHR 0x94]
                 @ '' stub only (no live gRPC)''))
      else Inl (SubscribeFailed (''Yellowstone client not linked (endpoint='' @ yc_endpoint cfg
                 @ ''); enable yellowstone feature + creds'')))"

text \<open>The call of \<^verbatim>\<open>unreachable!\<close> after the connection is the value \<open>None\<close>.\<close>

definition yellowstone_subscribe :: "yellowstone_config \<Rightarrow> subscribe_filter
    \<Rightarrow> (stream_error + stream_event list) option" where
  "yellowstone_subscribe cfg flt =
     (case connect_placeholder cfg of Inl e \<Rightarrow> Some (Inl e) | Inr _ \<Rightarrow> None)"

section \<open>Lemmas\<close>

lemma parse_protocol_names: "parse_protocol (protocol_debug p) = Inr p"
  by (induction p) code_simp+

lemma parse_band_names: "parse_band (band_as_str b) = Inr b"
  by (induction b) code_simp+

lemma subscribe_settles: "\<exists>e. yellowstone_subscribe cfg flt = Some (Inl (SubscribeFailed e))"
  by (simp add: yellowstone_subscribe_def connect_placeholder_def)

lemma collected_triggers:
  "collect_triggers account ts = Inr trs \<Longrightarrow>
     length trs = length ts \<and> (\<forall>t \<in> set trs. pt_account t = account)"
  by (induction account ts arbitrary: trs rule: collect_triggers.induct) (auto simp: and_then_Inr_iff)

lemma borrower_meta_account: "borrower_to_meta b = Inr m \<Longrightarrow> cm_account m = to_pubkey (bf_account b)"
  by (auto simp: borrower_to_meta_def and_then_Inr_iff)

end
