(* ===== verification/EventLoop.thy ===== *)
theory EventLoop
  imports Main
begin

text \<open>
  The ingestion loop of \<^verbatim>\<open>bins/liquidator/src/main.rs\<close>, for any handler of events. The Rust loop
  has no bound of its own when the stream is recorded again and again, so the model has fuel, and running out of
  it is \<open>None\<close>. The lemmas say how many ticks a run makes and which events it handles, and when it never ends.
\<close>

section \<open>The loop\<close>

text \<open>
  \<open>rx\<close> are the events left in the channel; when it is empty, a dry run with more than one tick to go
  subscribes to the recorded events again.
\<close>

fun run_loop :: "('s \<Rightarrow> 'e \<Rightarrow> 's) \<Rightarrow> bool \<Rightarrow> 'e list \<Rightarrow> nat \<Rightarrow> nat \<Rightarrow> 'e list \<Rightarrow> nat \<Rightarrow> 's \<Rightarrow> ('s \<times> nat) option" where
  "run_loop handle dry events max_ticks 0 rx ticks s = None"
| "run_loop handle dry events max_ticks (Suc fuel) rx ticks s =
     (if ticks < max_ticks then
        (case rx of
           ev # rx' \<Rightarrow> run_loop handle dry events max_ticks fuel rx' (ticks + 1) (handle s ev)
         | [] \<Rightarrow> if dry \<and> ticks + 1 < max_ticks
                 then run_loop handle dry events max_ticks fuel events ticks s
                 else Some (s, ticks))
      else Some (s, ticks))"

section \<open>The loop returns\<close>

text \<open>How many ticks a run makes, with \<open>n\<close> recorded events.\<close>

definition loop_ticks :: "bool \<Rightarrow> nat \<Rightarrow> nat \<Rightarrow> nat" where
  "loop_ticks dry n max_ticks =
     (if max_ticks \<le> n then max_ticks
      else if \<not> dry then n
      else if (max_ticks - 1) mod n = 0 then max_ticks - 1 else max_ticks)"

definition cycled :: "'e list \<Rightarrow> nat \<Rightarrow> 'e list" where
  "cycled xs m = map (\<lambda>i. xs ! (i mod length xs)) [0..<m]"

lemma length_cycled [simp]: "length (cycled xs m) = m"
  by (simp add: cycled_def)

lemma cycled_short: "m \<le> length xs \<Longrightarrow> cycled xs m = take m xs"
  by (rule nth_equalityI) (simp_all add: cycled_def)

lemma cycled_round: "xs \<noteq> [] \<Longrightarrow> cycled xs (length xs + m) = xs @ cycled xs m"
  by (rule nth_equalityI) (auto simp: cycled_def nth_append le_mod_geq not_less)

lemma loop_ticks_last: "0 < n \<Longrightarrow> loop_ticks True n (Suc n) = n"
  by (simp add: loop_ticks_def)

lemma loop_ticks_round:
  assumes "0 < n" shows "loop_ticks True n (n + Suc (Suc k)) = n + loop_ticks True n (Suc (Suc k))"
proof -
  have "(n + Suc k) mod n = Suc k mod n" by (rule mod_add_self1)
  then have "(n + Suc (Suc k) - 1) mod n = Suc k mod n" by simp
  moreover have "Suc (Suc k) \<le> n \<Longrightarrow> Suc k mod n \<noteq> 0" by simp
  ultimately show ?thesis using assms by (auto simp: loop_ticks_def)
qed

lemma run_loop_consume:
  assumes "ticks + length xs \<le> max_ticks"
  shows "run_loop handle dry events max_ticks (length xs + fuel) (xs @ rx) ticks s
    = run_loop handle dry events max_ticks fuel rx (ticks + length xs) (foldl handle s xs)"
  using assms
proof (induction xs arbitrary: ticks s)
  case (Cons x xs)
  then show ?case using Cons.IH [of "Suc ticks"] by simp
qed simp

lemma run_loop_full:
  assumes "m \<le> length events" "m < fuel"
  shows "run_loop handle dry events (ticks + m) fuel events ticks s
    = Some (foldl handle s (take m events), ticks + m)"
proof -
  obtain f where f: "fuel = m + Suc f" using assms(2) by (metis less_iff_Suc_add add_Suc_right)
  show ?thesis
    using run_loop_consume [of ticks "take m events" "ticks + m" handle dry events "Suc f" "drop m events" s] assms(1)
    by (simp add: f min_absorb2)
qed

text \<open>One round over the recorded events that does not use up the ticks.\<close>

lemma run_loop_round:
  "run_loop handle dry events (ticks + (length events + Suc k)) (length events + Suc f) events ticks s
    = (if dry \<and> k \<noteq> 0
       then run_loop handle dry events (ticks + length events + Suc k) f events (ticks + length events)
              (foldl handle s events)
       else Some (foldl handle s events, ticks + length events))"
  using run_loop_consume [of ticks events "ticks + (length events + Suc k)" handle dry events "Suc f" "[]" s]
  by (simp add: add.assoc)

text \<open>From a fresh channel with \<open>m\<close> ticks to go.\<close>

lemma run_loop_fresh:
  assumes "events \<noteq> []" "2 * m < fuel"
  shows "run_loop handle dry events (ticks + m) fuel events ticks s
    = Some (foldl handle s (cycled events (loop_ticks dry (length events) m)),
            ticks + loop_ticks dry (length events) m)"
  using assms(2)
proof (induction m arbitrary: ticks s fuel rule: less_induct)
  case (less m)
  let ?n = "length events"
  have n: "0 < ?n" using assms(1) by simp
  show ?case
  proof (cases "m \<le> ?n")
    case True
    with less.prems show ?thesis by (simp add: run_loop_full loop_ticks_def cycled_short)
  next
    case False
    then obtain k where m: "m = ?n + Suc k" by (metis add_Suc_right less_iff_Suc_add not_le)
    obtain f where f: "fuel = ?n + Suc f" "2 * Suc k + ?n \<le> f"
      using less.prems m by (intro that [of "fuel - Suc ?n"]) simp_all
    note round = run_loop_round [of handle dry events ticks k f s, folded f(1) m]
    show ?thesis
    proof (cases "dry \<and> k \<noteq> 0")
      case False
      then have "loop_ticks dry ?n m = ?n" using n m by (auto simp: loop_ticks_def)
      with False show ?thesis by (simp only: round if_False cycled_short order_refl take_all)
    next
      case True
      then obtain k' where k: "k = Suc k'" by (cases k) simp_all
      have "run_loop handle dry events (ticks + ?n + Suc k) f events (ticks + ?n) (foldl handle s events)
          = Some (foldl handle (foldl handle s events) (cycled events (loop_ticks dry ?n (Suc k))),
                  ticks + ?n + loop_ticks dry ?n (Suc k))"
        by (rule less.IH) (use f(2) n m in linarith)+
      moreover have "loop_ticks dry ?n m = ?n + loop_ticks dry ?n (Suc k)"
        using loop_ticks_round [OF n, of k'] True by (simp add: m k)
      moreover note round [unfolded if_P [OF True]]
      ultimately show ?thesis using assms(1) by (simp add: cycled_round add.assoc)
    qed
  qed
qed

text \<open>A dry run with no events and more than one tick to go subscribes for ever.\<close>

lemma run_loop_spins:
  "ticks + 1 < max_ticks \<Longrightarrow> run_loop handle True [] max_ticks fuel [] ticks s = None"
  by (induction fuel) simp_all

lemma run_loop_idle: "0 < fuel \<Longrightarrow> \<not> (dry \<and> 1 < max_ticks) \<Longrightarrow> run_loop handle dry [] max_ticks fuel [] 0 s = Some (s, 0)"
  by (cases fuel) auto

text \<open>A live run ends at the latest when the channel is empty.\<close>

lemma run_loop_live:
  "length rx < fuel \<Longrightarrow> \<exists>s' n. run_loop handle False events max_ticks fuel rx ticks s = Some (s', n)"
proof (induction rx arbitrary: fuel ticks s)
  case Nil
  then show ?case by (cases fuel) simp_all
next
  case (Cons ev rx)
  then show ?case by (cases fuel) (simp_all add: Cons.IH)
qed

lemma run_loop_inv:
  assumes "run_loop handle dry events max_ticks fuel rx ticks s = Some (s', n)" "P s"
    and step: "\<And>s ev. P s \<Longrightarrow> P (handle s ev)"
  shows "P s'"
  using assms(1,2)
proof (induction fuel arbitrary: rx ticks s)
  case (Suc fuel)
  then show ?case by (auto intro: step split: if_splits list.splits)
qed simp

lemma run_loop_bound:
  "run_loop handle dry events max_ticks fuel rx ticks s = Some (s', n) \<Longrightarrow> ticks \<le> max_ticks \<Longrightarrow> n \<le> max_ticks"
  by (induction handle dry events max_ticks fuel rx ticks s rule: run_loop.induct)
    (auto split: if_splits list.splits)

end
