(* ===== verification/Liquidator.thy ===== *)
theory Liquidator
  imports EventLoop Fixtures OraclePath Plan Execution JsonRpc Discovery
begin

text \<open>
  The main loop of the liquidator, \<^verbatim>\<open>bins/liquidator/src/main.rs\<close>: the configuration, the
  bootstrap of the store, the candidates, and the loop that turns each price update into hits,
  each hit into a plan, and each plan into a dry-run record or an execution. Log output and the optional
  simulation of a dry run, which changes no state, are left out; the waits between ticks change only the time. The clock is
  an argument: \<open>le_clock k\<close> gives the time before and during the k-th execution. What the loop did is
  collected in a trace. The loop itself is in theory \<open>EventLoop\<close>.
\<close>

section \<open>Configuration\<close>

record app_config =
  ap_dry_run :: bool
  ap_rpc_url :: string
  ap_jito_block_engine_url :: "string option"
  ap_geyser_endpoint :: "string option"
  ap_min_profit_usd :: f64
  ap_loop_ticks :: "u64 option"

definition app_config_default :: app_config where
  "app_config_default = \<lparr>ap_dry_run = True, ap_rpc_url = ''https://YOUR_PRIVATE_RPC'',
     ap_jito_block_engine_url = None, ap_geyser_endpoint = None, ap_min_profit_usd = 1 / 2,
     ap_loop_ticks = None\<rparr>"

definition load_config ::
    "(string \<Rightarrow> string option) \<Rightarrow> (string \<Rightarrow> string option) \<Rightarrow> (string \<Rightarrow> app_config option) \<Rightarrow> app_config" where
  "load_config env read_to_string from_toml =
     (let path = (case env ''LIQ_CONFIG'' of Some p \<Rightarrow> p | None \<Rightarrow> ''config/example.toml'')
      in case read_to_string path of
           Some s \<Rightarrow> (case from_toml s of Some cfg \<Rightarrow> cfg | None \<Rightarrow> app_config_default)
         | None \<Rightarrow> app_config_default)"

definition dry_run_of :: "(string \<Rightarrow> string option) \<Rightarrow> app_config \<Rightarrow> bool" where
  "dry_run_of env cfg =
     (case env ''DRY_RUN'' of Some v \<Rightarrow> v = ''1'' \<or> eq_ignore_ascii_case v ''true''
      | None \<Rightarrow> ap_dry_run cfg)"

definition profit_config_of :: "app_config \<Rightarrow> profit_config" where
  "profit_config_of cfg = profit_config_default
     \<lparr>pc_min_profit_usd_micro := as_u64 (f64_trunc (fmul (ap_min_profit_usd cfg) 1000000))\<rparr>"

text \<open>The number of ticks: the environment, then the configuration, then one pass over the events in a dry
  run and no bound otherwise.\<close>

definition max_ticks_of :: "(string \<Rightarrow> string option) \<Rightarrow> app_config \<Rightarrow> bool \<Rightarrow> nat \<Rightarrow> u64" where
  "max_ticks_of env cfg dry n_events =
     (case Option.bind (env ''LIQ_LOOP_TICKS'') parse_u64 of
        Some n \<Rightarrow> n
      | None \<Rightarrow> (case ap_loop_ticks cfg of
            Some n \<Rightarrow> n
          | None \<Rightarrow> if dry then word_of_nat (max n_events 1) else - 1))"

section \<open>Bootstrap\<close>

definition protocol_owners :: "pubkey list" where
  "protocol_owners = [prog_klend, prog_save, prog_marginfi]"

definition fixture_store :: "u64 \<Rightarrow> u8 list state_store \<Rightarrow> bootstrap_error + u8 list state_store" where
  "fixture_store now_us store =
     foldl (\<lambda>r owner. and_then r (\<lambda>st.
         and_then (fixture_get_program_accounts demo_for_protocols owner) (\<lambda>accts.
           Inr (apply_raw_to_store now_us st accts Rpc)))) (Inr store) protocol_owners"

text \<open>The store the loop starts from. \<open>pool\<close> is the transport of the endpoints, or no pool.\<close>

definition bootstrap_store :: "crypto \<Rightarrow> 'v json_rpc_api \<Rightarrow> (f64 \<Rightarrow> string) \<Rightarrow> u64 \<Rightarrow> bool \<Rightarrow> bool
    \<Rightarrow> 'v transport option \<Rightarrow> bootstrap_error + u8 list state_store" where
  "bootstrap_store c j fmt6 now_us force_fixtures live_configured pool =
     (if force_fixtures \<or> \<not> live_configured then fixture_store now_us store_new
      else case pool of
        None \<Rightarrow> fixture_store now_us store_new
      | Some t \<Rightarrow>
          (case discover_mainnet c j fmt6 t of
             Inl e \<Rightarrow> fixture_store now_us store_new
           | Inr rep \<Rightarrow>
               (let keys = List.map_filter (pubkey_from_base58 c)
                      [klend_main_market, marginfi_main_group, save_main_market]
                in case json_get_multiple_accounts c j (json_rpc_bootstrap_new t) keys of
                     Inr accts \<Rightarrow> Inr (apply_raw_to_store now_us store_new (List.map_filter id accts) Rpc)
                   | Inl e \<Rightarrow> Inr store_new)))"

text \<open>The fixtures enter the index one borrower at a time; a borrower that does not parse is skipped.\<close>

definition load_borrower :: "candidate_index \<Rightarrow> borrower_fixture \<Rightarrow> candidate_index" where
  "load_borrower ix b =
     (let ix1 = (case borrower_to_meta b of Inr meta \<Rightarrow> upsert_candidate ix meta | Inl e \<Rightarrow> ix)
      in case borrower_triggers b of
           Inr trigs \<Rightarrow> set_triggers ix1 (to_pubkey (bf_account b)) trigs
         | Inl e \<Rightarrow> ix1)"

definition load_index :: "borrower_fixture list \<Rightarrow> candidate_index" where
  "load_index bs = foldl load_borrower index_new bs"

text \<open>Without a file of ticks one price event is replayed.\<close>

definition initial_events :: "oracle_ticks_file option \<Rightarrow> stream_event list" where
  "initial_events f =
     (case f of Some ticks \<Rightarrow> ticks_to_events ticks
      | None \<Rightarrow> [PriceEvent (pubkey_test 9 1) (px (price_from_f64 110)) 1 1])"

section \<open>From a hit to a plan\<close>

definition pubkey_display :: "pubkey \<Rightarrow> string" where
  "pubkey_display k =
     concat (map hex_pair (take 4 (pk_bytes k))) @ [CHR 0xE2, CHR 0x80, CHR 0xA6]
       @ concat (map hex_pair (drop 28 (pk_bytes k)))"

fun strategy_debug :: "funding_strategy \<Rightarrow> string" where
  "strategy_debug Inventory = ''Inventory''"
| "strategy_debug SaveFlashLoan = ''SaveFlashLoan''"
| "strategy_debug KaminoFlashBorrow = ''KaminoFlashBorrow''"
| "strategy_debug Project0Receivership = ''Project0Receivership''"

datatype hit_outcome =
  Planned (ho_opp: opportunity_json) (ho_tx: prepared_tx)
| Submitted (ho_opp: opportunity_json) (ho_tx: prepared_tx) "exec_error + submit_result"

record 'v liq_env =
  le_dry :: bool
  le_crypto :: crypto
  le_json :: "'v json_rpc_api"
  le_blob :: jupiter_quote_blob
  le_profit :: profit_config
  le_borrowers :: "borrower_fixture list"
  le_clock :: "nat \<Rightarrow> nat \<times> nat"

record liq_state =
  ls_store :: "u8 list state_store"
  ls_path :: oracle_path
  ls_engine :: execution_engine
  ls_now :: nat
  ls_calls :: nat
  ls_trace :: "hit_outcome list"

definition find_borrower :: "borrower_fixture list \<Rightarrow> pubkey \<Rightarrow> borrower_fixture option" where
  "find_borrower bs account = List.find (\<lambda>b. to_pubkey (bf_account b) = account) bs"

definition usd_micro_i64 :: "f64 \<Rightarrow> i64" where
  "usd_micro_i64 v = as_i64 (f64_trunc (fmul v 1000000))"

definition usd_micro_u64 :: "f64 \<Rightarrow> u64" where
  "usd_micro_u64 v = as_u64 (f64_trunc (fmul v 1000000))"

definition economics :: "borrower_fixture option \<Rightarrow> i64 \<times> u64 \<times> u64" where
  "economics borrower =
     (case borrower of
        Some b \<Rightarrow> (usd_micro_i64 (pf_gross_profit_usd (bf_plan b)), usd_micro_u64 (pf_notional_usd (bf_plan b)),
                   usd_micro_u64 (pf_capital_usd (bf_plan b)))
      | None \<Rightarrow> (2000000, 50000000, 50000000))"

text \<open>The plan of a hit on a candidate, when some funding path is feasible.\<close>

definition plan_hit :: "'v liq_env \<Rightarrow> candidate_meta \<Rightarrow> pubkey \<Rightarrow> u64 \<Rightarrow> (opportunity_json \<times> prepared_tx) option" where
  "plan_hit env meta account slot =
     (let borrower = find_borrower (le_borrowers env) account;
          (gross, notional, capital) = economics borrower;
          plan = evaluate_funding (le_profit env) (cm_protocol meta) gross 100000 80000 50000 notional capital 9
      in case plan_best plan of
           None \<Rightarrow> None
         | Some best \<Rightarrow>
             (let labels = strategy_ix_labels (sp_strategy best) (cm_protocol meta);
                  opp = opportunity_from_best (le_dry env) (pubkey_display account) plan best labels slot;
                  amount = (case borrower of Some b \<Rightarrow> pf_repay_amount (bf_plan b) | None \<Rightarrow> 1000000);
                  planned = build_strategy_ixs (le_crypto env) (cm_protocol meta) (sp_strategy best)
                              (from_seed account) amount (le_blob env);
                  ixs = map li_ix (pn_labeled planned);
                  envelope = shadow_tx_base64 (le_json env) ixs ''11111111111111111111111111111111''
              in Some (opp,
                  \<lparr>pt_label = protocol_debug (cm_protocol meta) @ ''-'' @ strategy_debug (sp_strategy best),
                   pt_protocol = protocol_debug (cm_protocol meta), pt_account = pubkey_display account,
                   pt_notional_usd_micro = notional,
                   pt_expected_profit_usd_micro = sp_net_profit_usd_micro best, pt_wire = ascii envelope,
                   pt_ixs = labels, pt_instructions = ixs,
                   pt_funding_strategy = Some (strategy_as_str (sp_strategy best))\<rparr>)))"

definition handle_hit :: "'v liq_env \<Rightarrow> u64 \<Rightarrow> liq_state \<Rightarrow> trigger_hit \<Rightarrow> liq_state" where
  "handle_hit env slot s hit =
     (case by_account (op_index (ls_path s)) (th_account hit) of
        None \<Rightarrow> s
      | Some meta \<Rightarrow>
          (case plan_hit env meta (th_account hit) slot of
             None \<Rightarrow> s
           | Some (opp, tx) \<Rightarrow>
               if le_dry env then s\<lparr>ls_trace := ls_trace s @ [Planned opp tx]\<rparr>
               else
                 (let (d1, d2) = le_clock env (ls_calls s);
                      now = ls_now s + d1; later = now + d2;
                      (res, e') = execute now later (ls_engine s) tx 0
                  in s\<lparr>ls_engine := e', ls_now := later, ls_calls := ls_calls s + 1,
                       ls_trace := ls_trace s @ [Submitted opp tx res]\<rparr>)))"

definition micros :: "nat \<Rightarrow> u64" where
  "micros now = word_of_nat (now div 1000)"

fun handle_event :: "'v liq_env \<Rightarrow> liq_state \<Rightarrow> stream_event \<Rightarrow> liq_state" where
  "handle_event env s (AccountEvent upd) =
     (let store' = snd (apply_account_update (micros (ls_now s)) (ls_store s) upd);
          m = op_metrics (ls_path s)
      in s\<lparr>ls_store := store',
           ls_path := (ls_path s)\<lparr>op_metrics := m\<lparr>m_oracle_updates := counter_inc (m_oracle_updates m)\<rparr>\<rparr>\<rparr>)"
| "handle_event env s (SlotEvent u) = s"
| "handle_event env s (PriceEvent asset price_fx slot write_version) =
     (let (hits, path') = apply_oracle_update (micros (ls_now s)) (ls_path s) asset (PriceFx price_fx)
            slot write_version Mock
      in foldl (handle_hit env slot) (s\<lparr>ls_path := path'\<rparr>) hits)"

section \<open>The whole run\<close>

definition liq_start :: "'v liq_env \<Rightarrow> app_config \<Rightarrow> u8 list state_store \<Rightarrow> nat \<Rightarrow> liq_state" where
  "liq_start env cfg store now =
     \<lparr>ls_store = store, ls_path = oracle_path_new (load_index (le_borrowers env)) metrics_new,
      ls_engine = engine_new \<lparr>ec_dry_run = le_dry env, ec_rpc_url = ap_rpc_url cfg,
        ec_jito_block_engine_url = ap_jito_block_engine_url cfg, ec_bid_profile = Balanced\<rparr>
        (cb_new risk_limits_default metrics_new) metrics_new,
      ls_now = now, ls_calls = 0, ls_trace = []\<rparr>"

definition liquidator_loop :: "'v liq_env \<Rightarrow> (string \<Rightarrow> string option) \<Rightarrow> app_config \<Rightarrow> oracle_ticks_file option
    \<Rightarrow> u8 list state_store \<Rightarrow> nat \<Rightarrow> nat \<Rightarrow> (liq_state \<times> nat) option" where
  "liquidator_loop env vars cfg ticks store now fuel =
     (let events = initial_events ticks
      in run_loop (handle_event env) (le_dry env) events
           (unat (max_ticks_of vars cfg (le_dry env) (length events))) fuel events 0
           (liq_start env cfg store now))"

section \<open>Lemmas\<close>

text \<open>\<open>liq_run\<close> is the state after the first \<open>n\<close> ticks, the recorded events repeated.\<close>

definition liq_run :: "'v liq_env \<Rightarrow> app_config \<Rightarrow> oracle_ticks_file option \<Rightarrow> u8 list state_store \<Rightarrow> nat
    \<Rightarrow> nat \<Rightarrow> liq_state" where
  "liq_run env cfg ticks store now n =
     foldl (handle_event env) (liq_start env cfg store now) (cycled (initial_events ticks) n)"

lemma foldl_inv: "P s \<Longrightarrow> (\<And>s x. P s \<Longrightarrow> P (f s x)) \<Longrightarrow> P (foldl f s xs)"
  by (induction xs arbitrary: s) simp_all

lemma handle_event_inv:
  assumes hit: "\<And>s slot h. P s \<Longrightarrow> P (handle_hit env slot s h)"
    and keep: "\<And>s st path. P s \<Longrightarrow> P (s\<lparr>ls_store := st, ls_path := path\<rparr>)"
  shows "P s \<Longrightarrow> P (handle_event env s ev)"
proof -
  assume "P s"
  have path: "P (s\<lparr>ls_path := path\<rparr>)" for path
    using keep [OF \<open>P s\<close>, where st = "ls_store s" and path = path] by simp
  show ?thesis
  proof (cases ev)
    case (PriceEvent asset p slot wv)
    have "P (foldl (handle_hit env slot) (s\<lparr>ls_path := path\<rparr>) hits)" for path hits
      using path hit by (rule foldl_inv)
    then show ?thesis by (simp add: PriceEvent split_beta)
  qed (simp_all add: Let_def keep [OF \<open>P s\<close>] \<open>P s\<close>)
qed

lemma handle_hit_cases:
  obtains (skipped) "handle_hit env slot s h = s"
  | (planned) opp tx meta where "le_dry env" "by_account (op_index (ls_path s)) (th_account h) = Some meta"
      "plan_hit env meta (th_account h) slot = Some (opp, tx)"
      "handle_hit env slot s h = s\<lparr>ls_trace := ls_trace s @ [Planned opp tx]\<rparr>"
  | (submitted) opp tx meta d1 d2 where "\<not> le_dry env"
      "by_account (op_index (ls_path s)) (th_account h) = Some meta"
      "plan_hit env meta (th_account h) slot = Some (opp, tx)" "le_clock env (ls_calls s) = (d1, d2)"
      "handle_hit env slot s h = s\<lparr>ls_engine := snd (execute (ls_now s + d1) (ls_now s + d1 + d2) (ls_engine s) tx 0),
         ls_now := ls_now s + d1 + d2, ls_calls := ls_calls s + 1,
         ls_trace := ls_trace s @ [Submitted opp tx (fst (execute (ls_now s + d1) (ls_now s + d1 + d2) (ls_engine s) tx 0))]\<rparr>"
proof (cases "by_account (op_index (ls_path s)) (th_account h)")
  case None
  then show ?thesis by (intro skipped) (simp add: handle_hit_def)
next
  case (Some meta)
  note a = this
  show ?thesis
  proof (cases "plan_hit env meta (th_account h) slot")
    case None
    with a show ?thesis by (intro skipped) (simp add: handle_hit_def)
  next
    case (Some r)
    obtain opp tx where r: "r = (opp, tx)" by (cases r)
    obtain d1 d2 where d: "le_clock env (ls_calls s) = (d1, d2)" by fastforce
    show ?thesis
    proof (cases "le_dry env")
      case True
      with a Some r show ?thesis by (intro planned) (simp_all add: handle_hit_def)
    next
      case False
      with a Some r d show ?thesis by (intro submitted) (simp_all add: handle_hit_def split_beta Let_def)
    qed
  qed
qed

text \<open>A dry run leaves the engine and the clock of its executions alone and only plans.\<close>

definition dry_inv :: "execution_engine \<Rightarrow> liq_state \<Rightarrow> bool" where
  "dry_inv e s \<longleftrightarrow> ls_engine s = e \<and> ls_calls s = 0
     \<and> (\<forall>x \<in> set (ls_trace s). \<exists>opp tx. x = Planned opp tx \<and> oj_dry_run opp)"

lemma plan_hit_dry: "plan_hit env meta a slot = Some (opp, tx) \<Longrightarrow> oj_dry_run opp = le_dry env"
  by (auto simp: plan_hit_def opportunity_from_best_def Let_def split_beta split: option.splits)

lemma dry_inv_step:
  assumes "le_dry env" "dry_inv e s" shows "dry_inv e (handle_event env s ev)"
proof (rule handle_event_inv [where P = "dry_inv e", OF _ _ assms(2)])
  fix s slot h assume i: "dry_inv e s"
  show "dry_inv e (handle_hit env slot s h)"
    by (cases rule: handle_hit_cases [where env = env and slot = slot and s = s and h = h])
      (use assms(1) i in \<open>auto simp: dry_inv_def dest: plan_hit_dry\<close>)
qed (simp add: dry_inv_def)

text \<open>A live run keeps the invariants of the engine.\<close>

definition submissions_inv :: "risk_limits \<Rightarrow> liq_state \<Rightarrow> bool" where
  "submissions_inv lims s \<longleftrightarrow> engine_inv lims (ls_engine s) (ls_now s) \<and> live_inv lims (ls_engine s) (ls_now s)"

lemma submissions_inv_step:
  assumes "\<not> le_dry env" "rl_pause_on_breaker lims" "submissions_inv lims s"
  shows "submissions_inv lims (handle_event env s ev)"
proof (rule handle_event_inv [where P = "submissions_inv lims", OF _ _ assms(3)])
  fix s slot h assume i: "submissions_inv lims s"
  show "submissions_inv lims (handle_hit env slot s h)"
  proof (cases rule: handle_hit_cases [where env = env and slot = slot and s = s and h = h])
    case (submitted opp tx meta d1 d2)
    with i show ?thesis
      by (auto simp: submissions_inv_def intro: engine_inv_step live_inv_step [OF assms(2)])
  qed (use i assms(1) in simp_all)
qed (simp add: submissions_inv_def)

text \<open>What the plan of a hit is made of.\<close>

lemma plan_hit_sound:
  assumes "plan_hit env meta account slot = Some (opp, tx)"
  shows "\<exists>strategy \<in> set (applicable_for (cm_protocol meta)). \<exists>amount.
      oj_account opp = pubkey_display account \<and> pt_account tx = pubkey_display account
      \<and> oj_funding_strategy opp = strategy_as_str strategy \<and> pt_funding_strategy tx = Some (strategy_as_str strategy)
      \<and> oj_ix_labels opp = strategy_ix_labels strategy (cm_protocol meta)
      \<and> pt_expected_profit_usd_micro tx = oj_net_profit_usd_micro opp
      \<and> pt_instructions tx = map li_ix (pn_labeled (build_strategy_ixs (le_crypto env) (cm_protocol meta) strategy
           (from_seed account) amount (le_blob env)))"
proof -
  obtain gross notional capital where e: "economics (find_borrower (le_borrowers env) account) = (gross, notional, capital)"
    by (cases "economics (find_borrower (le_borrowers env) account)") simp
  let ?plan = "evaluate_funding (le_profit env) (cm_protocol meta) gross 100000 80000 50000 notional capital 9"
  obtain best where best: "plan_best ?plan = Some best"
    using assms by (simp add: plan_hit_def e Let_def split: option.splits)
  then have "sp_strategy best \<in> set (applicable_for (cm_protocol meta))"
    unfolding evaluate_funding_def by (blast dest: default_plan_strategy)
  moreover have "opp = opportunity_from_best (le_dry env) (pubkey_display account) ?plan best
      (strategy_ix_labels (sp_strategy best) (cm_protocol meta)) slot"
    "\<exists>amount. pt_instructions tx = map li_ix (pn_labeled (build_strategy_ixs (le_crypto env) (cm_protocol meta)
      (sp_strategy best) (from_seed account) amount (le_blob env)))"
    "pt_account tx = pubkey_display account" "pt_expected_profit_usd_micro tx = sp_net_profit_usd_micro best"
    "pt_funding_strategy tx = Some (strategy_as_str (sp_strategy best))"
    using assms unfolding plan_hit_def Let_def e prod.case best option.case option.inject prod.inject by auto
  ultimately show ?thesis by (intro bexI [of _ "sp_strategy best"]) (simp_all add: opportunity_from_best_def)
qed

lemma plan_hit_None:
  "plan_hit env meta account slot = None \<longleftrightarrow>
    (case economics (find_borrower (le_borrowers env) account) of (gross, notional, capital) \<Rightarrow>
       plan_candidates (evaluate_funding (le_profit env) (cm_protocol meta) gross 100000 80000 50000 notional capital 9) = [])"
  by (simp add: plan_hit_def Let_def evaluate_funding_def split_beta flip: pick_best_None split: option.splits)

text \<open>
  The decision of the profit gate is recorded, but a live run does not look at it: the best of the rejected paths is
  submitted like an accepted one.
\<close>

lemma rejected_still_submitted:
  assumes "\<not> le_dry env" "by_account (op_index (ls_path s)) (th_account h) = Some meta"
    "plan_hit env meta (th_account h) slot = Some (opp, tx)"
  shows "\<exists>res. ls_trace (handle_hit env slot s h) = ls_trace s @ [Submitted opp tx res]"
  using assms by (auto simp: handle_hit_def Let_def split: prod.splits)

lemma rejected_plan:
  "map_option (\<lambda>c. is_accept (sp_decision c))
     (plan_best (evaluate_funding profit_config_default Kamino 0 100000 80000 50000 50000000 50000000 9)) = Some False"
  by (simp add: evaluate_funding_def pick_best_def default_paths_for_def default_path_def score_one_def Let_def
      List.map_filter_def funding_profit_input_def profit_evaluate_def profit_config_default_def sat_add_def sat_mul_def
      expected_value_score_def)

text \<open>The index does not change, and every outcome is the plan of one of its candidates.\<close>

definition outcome_planned :: "'v liq_env \<Rightarrow> candidate_index \<Rightarrow> hit_outcome \<Rightarrow> bool" where
  "outcome_planned env ix x \<longleftrightarrow>
     (\<exists>account meta slot. by_account ix account = Some meta \<and> plan_hit env meta account slot = Some (ho_opp x, ho_tx x))"

definition trace_inv :: "'v liq_env \<Rightarrow> candidate_index \<Rightarrow> liq_state \<Rightarrow> bool" where
  "trace_inv env ix s \<longleftrightarrow> op_index (ls_path s) = ix \<and> (\<forall>x \<in> set (ls_trace s). outcome_planned env ix x)"

lemma trace_inv_hit:
  assumes "trace_inv env ix s" shows "trace_inv env ix (handle_hit env slot s h)"
proof (cases rule: handle_hit_cases [where env = env and slot = slot and s = s and h = h])
  case (planned opp tx meta)
  with assms have "outcome_planned env ix (Planned opp tx)" by (auto simp: trace_inv_def outcome_planned_def)
  with planned(4) assms show ?thesis by (simp add: trace_inv_def)
next
  case (submitted opp tx meta d1 d2)
  with assms have "outcome_planned env ix (Submitted opp tx res)" for res
    by (auto simp: trace_inv_def outcome_planned_def)
  with submitted(5) assms show ?thesis by (simp add: trace_inv_def)
qed (use assms in simp)

lemma trace_inv_step:
  assumes "trace_inv env ix s" shows "trace_inv env ix (handle_event env s ev)"
proof (cases ev)
  case (PriceEvent asset p slot wv)
  let ?r = "apply_oracle_update (micros (ls_now s)) (ls_path s) asset (PriceFx p) slot wv Mock"
  have "trace_inv env ix (s\<lparr>ls_path := snd ?r\<rparr>)"
    using assms by (simp add: trace_inv_def apply_oracle_update_prices(3))
  then have "trace_inv env ix (foldl (handle_hit env slot) (s\<lparr>ls_path := snd ?r\<rparr>) (fst ?r))"
    using trace_inv_hit by (rule foldl_inv)
  then show ?thesis by (simp add: PriceEvent split_beta)
qed (use assms in \<open>simp_all add: trace_inv_def Let_def\<close>)

lemma loop_inv:
  assumes "liquidator_loop env vars cfg ticks store now fuel = Some (s, n)" "P (liq_start env cfg store now)"
    and "\<And>s ev. P s \<Longrightarrow> P (handle_event env s ev)"
  shows "P s"
  using assms(1) unfolding liquidator_loop_def Let_def by (rule run_loop_inv) (fact assms)+

section \<open>Properties\<close>

text \<open>
  C24: The loop ends, and what it did is known. When there is at least one recorded event, twice the number of ticks
  is enough fuel, and the final state is that of handling the recorded events over and over; a live run stops
  at the end of the recording, a dry run makes all its ticks, or one less when the recording ends exactly one tick before. With no
  recorded event a dry run with more than one tick to go never ends.
\<close>

theorem liquidator_returns:
  defines "m \<equiv> \<lambda>env vars cfg ticks. unat (max_ticks_of vars cfg (le_dry env) (length (initial_events ticks)))"
  shows "(initial_events ticks \<noteq> [] \<and> 2 * m env vars cfg ticks < fuel \<longrightarrow>
      liquidator_loop env vars cfg ticks store now fuel =
        (let n = loop_ticks (le_dry env) (length (initial_events ticks)) (m env vars cfg ticks)
         in Some (liq_run env cfg ticks store now n, n)))
    \<and> (initial_events ticks = [] \<and> le_dry env \<and> 1 < m env vars cfg ticks \<longrightarrow>
      liquidator_loop env vars cfg ticks store now fuel = None)"
  unfolding liquidator_loop_def liq_run_def m_def Let_def
  using run_loop_fresh [of "initial_events ticks" _ fuel "handle_event env" "le_dry env" 0] run_loop_spins [of 0]
  by auto

text \<open>
  C19: A dry run submits nothing. Whatever the events, the execution engine, its breaker and its counters are those it
  started with, and every outcome is a plan, marked as a dry run.
\<close>

theorem dry_run_submits_nothing:
  assumes "liquidator_loop env vars cfg ticks store now fuel = Some (s, n)" "le_dry env"
  shows "ls_engine s = ls_engine (liq_start env cfg store now) \<and> ls_calls s = 0
    \<and> (\<forall>x \<in> set (ls_trace s). \<exists>opp tx. x = Planned opp tx \<and> oj_dry_run opp)"
proof -
  have "dry_inv (ls_engine (liq_start env cfg store now)) s"
    by (rule loop_inv [OF assms(1)]) (simp_all add: dry_inv_step assms(2), simp add: dry_inv_def liq_start_def)
  then show ?thesis by (simp add: dry_inv_def)
qed



section \<open>Witnesses\<close>

definition sample_env :: "bool \<Rightarrow> json liq_env" where
  "sample_env dry = \<lparr>le_dry = dry, le_crypto = json_crypto, le_json = json_tree, le_blob = blob_default,
     le_profit = profit_config_default, le_borrowers = [], le_clock = (\<lambda>_. (1, 2))\<rparr>"

lemma sample_loop:
  "\<exists>s n. liquidator_loop (sample_env dry) Map.empty app_config_default None store_new 0 5 = Some (s, n)"
proof (cases dry)
  case True
  then show ?thesis
    using run_loop_fresh [of "initial_events None" 1 5 "handle_event (sample_env True)" True 0]
    by (simp add: liquidator_loop_def Let_def sample_env_def max_ticks_of_def app_config_default_def initial_events_def)
next
  case False
  then show ?thesis
    by (simp add: liquidator_loop_def Let_def sample_env_def run_loop_live initial_events_def)
qed

theorem liquidator_returns_witness:
  "\<exists>s. liquidator_loop (sample_env True) Map.empty app_config_default None store_new 0 5 = Some (s, 1)"
  using liquidator_returns [where ticks = None and env = "sample_env True" and vars = Map.empty
      and cfg = app_config_default and fuel = 5 and store = store_new and now = 0]
  by (simp add: sample_env_def max_ticks_of_def app_config_default_def initial_events_def loop_ticks_def)

theorem dry_run_submits_nothing_witness:
  "\<exists>s n. liquidator_loop (sample_env True) Map.empty app_config_default None store_new 0 5 = Some (s, n)
    \<and> ls_calls s = 0"
proof -
  obtain s n where r: "liquidator_loop (sample_env True) Map.empty app_config_default None store_new 0 5 = Some (s, n)"
    using sample_loop by blast
  from dry_run_submits_nothing [OF r] r show ?thesis by (auto simp: sample_env_def)
qed



end
