(* ===== verification/ReplayRun.thy ===== *)
theory ReplayRun
  imports Liquidator "HOL-Library.Sublist"
begin

text \<open>
  The replay of recorded ticks, \<^verbatim>\<open>bins/replay/src/main.rs\<close>: the first tick of every asset seeds the
  price book, the others are replayed, and every trigger they cross becomes an opportunity record, the first accepted
  of which is executed by a dry-run engine. A panic is \<open>None\<close>. The wall clock, which only stamps stored
  prices, is the argument \<open>now_us\<close>; log lines and the printed JSON are left out.
\<close>

section \<open>Opportunity records\<close>

record opportunity_record =
  or_source :: string
  or_protocol :: string
  or_account :: string
  or_asset :: string
  or_side :: string
  or_trigger_price_usd :: f64
  or_new_price_usd :: f64
  or_health :: f64
  or_band :: string
  or_plan_ixs :: "string list"
  or_ix_data_preview_hex :: string
  or_notional_usd_micro :: u64
  or_expected_profit_usd_micro :: i64
  or_profit_decision :: string
  or_slot :: u64

fun replay_plan_ixs :: "protocol \<Rightarrow> string list" where
  "replay_plan_ixs Kamino = liquidation_ix_order"
| "replay_plan_ixs Project0 = [''ComputeBudget'', ''lending_account_liquidate'']"
| "replay_plan_ixs Save = liquidation_ix_order_save"

definition encode_preview :: "protocol \<Rightarrow> u64 \<Rightarrow> string" where
  "encode_preview protocol repay =
     (let bytes = (case protocol of
            Kamino \<Rightarrow> encode_liquidate_v2_data repay 0 0
          | Project0 \<Rightarrow> encode_classic_liquidate repay
          | Save \<Rightarrow> encode_liquidate_and_redeem repay)
      in concat (map hex_pair (take 16 bytes)))"

definition show_i64 :: "i64 \<Rightarrow> string" where
  "show_i64 w = (if sint w < 0 then ''-'' @ show_nat (nat (- sint w)) else show_nat (nat (sint w)))"

fun reject_reason_debug :: "profit_reject_reason \<Rightarrow> string" where
  "reject_reason_debug BelowMinProfit = ''BelowMinProfit''"
| "reject_reason_debug BelowMinRoi = ''BelowMinRoi''"
| "reject_reason_debug CostTooHigh = ''CostTooHigh''"
| "reject_reason_debug NotionalTooSmall = ''NotionalTooSmall''"
| "reject_reason_debug NegativeNet = ''NegativeNet''"

fun trigger_side_debug :: "trigger_side \<Rightarrow> string" where
  "trigger_side_debug CollateralDown = ''CollateralDown''"
| "trigger_side_debug DebtUp = ''DebtUp''"

fun decision_text :: "profit_decision \<Rightarrow> string" where
  "decision_text (Accept net roi) =
     ''Accept(net='' @ show_i64 net @ '',roi_bps='' @ show_nat (unat roi) @ '')''"
| "decision_text (Reject reason net) =
     ''Reject('' @ reject_reason_debug reason @ '',net='' @ show_i64 net @ '')''"

definition replay_profit_input :: "plan_fixture \<Rightarrow> profit_input" where
  "replay_profit_input p =
     \<lparr>pi_gross_profit_usd_micro = usd_micro_i64 (pf_gross_profit_usd p),
      pi_swap_cost_usd_micro = 100000, pi_chain_cost_usd_micro = 50000,
      pi_capital_used_usd_micro = usd_micro_u64 (pf_capital_usd p),
      pi_notional_usd_micro = usd_micro_u64 (pf_notional_usd p)\<rparr>"

text \<open>\<^verbatim>\<open>expect\<close> panics when the borrower does not parse.\<close>

definition build_opportunity ::
    "profit_config \<Rightarrow> u64 \<Rightarrow> borrower_fixture \<Rightarrow> trigger_hit \<Rightarrow> opportunity_record option" where
  "build_opportunity profit slot b hit =
     (case borrower_to_meta b of
        Inl e \<Rightarrow> None
      | Inr meta \<Rightarrow>
          (let decision = profit_evaluate profit (replay_profit_input (bf_plan b))
           in Some \<lparr>or_source = ''replay'', or_protocol = protocol_debug (cm_protocol meta),
                or_account = pubkey_display (cm_account meta), or_asset = pubkey_display (th_asset hit),
                or_side = trigger_side_debug (th_side hit),
                or_trigger_price_usd = price_to_f64 (th_trigger_price hit),
                or_new_price_usd = price_to_f64 (th_new_price hit), or_health = health_to_f64 (cm_health meta),
                or_band = band_as_str (cm_band meta), or_plan_ixs = replay_plan_ixs (cm_protocol meta),
                or_ix_data_preview_hex = encode_preview (cm_protocol meta) (pf_repay_amount (bf_plan b)),
                or_notional_usd_micro = pi_notional_usd_micro (replay_profit_input (bf_plan b)),
                or_expected_profit_usd_micro = pd_net decision, or_profit_decision = decision_text decision,
                or_slot = slot\<rparr>))"

section \<open>The replay\<close>

text \<open>Here a borrower that does not parse ends the replay.\<close>

definition load_strict :: "candidate_index \<Rightarrow> borrower_fixture \<Rightarrow> stream_error + candidate_index" where
  "load_strict ix b =
     and_then (borrower_to_meta b) (\<lambda>meta.
     and_then (borrower_triggers b) (\<lambda>trigs.
       Inr (set_triggers (upsert_candidate ix meta) (to_pubkey (bf_account b)) trigs)))"

definition replay_index :: "borrower_fixture list \<Rightarrow> stream_error + candidate_index" where
  "replay_index bs = foldl (\<lambda>r b. and_then r (\<lambda>ix. load_strict ix b)) (Inr index_new) bs"

fun seed_ticks :: "u64 \<Rightarrow> pubkey list \<Rightarrow> oracle_path \<Rightarrow> oracle_tick_fixture list \<Rightarrow> oracle_path" where
  "seed_ticks now_us seeded path [] = path"
| "seed_ticks now_us seeded path (t # ts) =
     (let asset = to_pubkey (ot_asset t); p = price_from_f64 (ot_price_usd t)
      in if asset \<in> set seeded then seed_ticks now_us seeded path ts
         else seed_ticks now_us (asset # seeded)
           (snd (apply_oracle_update now_us (path\<lparr>op_prices := price_book_set (op_prices path) asset p\<rparr>) asset p
              (ot_slot t) (ot_write_version t) Replay)) ts)"

fun unseeded_events :: "pubkey list \<Rightarrow> stream_event list \<Rightarrow> stream_event list" where
  "unseeded_events seen [] = []"
| "unseeded_events seen (PriceEvent asset p slot wv # evs) =
     (if asset \<in> set seen then PriceEvent asset p slot wv # unseeded_events seen evs
      else unseeded_events (asset # seen) evs)"
| "unseeded_events seen (AccountEvent upd # evs) = unseeded_events seen evs"
| "unseeded_events seen (SlotEvent s # evs) = unseeded_events seen evs"

text \<open>The records of the hits of one update: a hit without a borrower is only logged.\<close>

fun hit_records :: "profit_config \<Rightarrow> borrower_fixture list \<Rightarrow> u64 \<Rightarrow> trigger_hit list \<Rightarrow> opportunity_record list option"
where
  "hit_records profit bs slot [] = Some []"
| "hit_records profit bs slot (h # hits) =
     (case find_borrower bs (th_account h) of
        None \<Rightarrow> hit_records profit bs slot hits
      | Some b \<Rightarrow> Option.bind (build_opportunity profit slot b h) (\<lambda>rec.
          map_option ((#) rec) (hit_records profit bs slot hits)))"

fun replay_events :: "u64 \<Rightarrow> profit_config \<Rightarrow> borrower_fixture list \<Rightarrow> oracle_path \<Rightarrow> stream_event list
    \<Rightarrow> (opportunity_record list \<times> oracle_path) option" where
  "replay_events now_us profit bs path [] = Some ([], path)"
| "replay_events now_us profit bs path (PriceEvent asset p slot wv # evs) =
     (let (hits, path') = apply_oracle_update now_us path asset (PriceFx p) slot wv Replay
      in Option.bind (hit_records profit bs slot hits) (\<lambda>recs.
           map_option (\<lambda>(rest, path''). (recs @ rest, path'')) (replay_events now_us profit bs path' evs)))"
| "replay_events now_us profit bs path (AccountEvent upd # evs) = replay_events now_us profit bs path evs"
| "replay_events now_us profit bs path (SlotEvent s # evs) = replay_events now_us profit bs path evs"

definition replay_tx :: "opportunity_record \<Rightarrow> prepared_tx" where
  "replay_tx r =
     \<lparr>pt_label = ''replay-opportunity'', pt_protocol = or_protocol r, pt_account = or_account r,
      pt_notional_usd_micro = or_notional_usd_micro r,
      pt_expected_profit_usd_micro = or_expected_profit_usd_micro r, pt_wire = [], pt_ixs = or_plan_ixs r,
      pt_instructions = [], pt_funding_strategy = None\<rparr>"

definition replay_engine :: "metrics \<Rightarrow> execution_engine" where
  "replay_engine m = engine_new \<lparr>ec_dry_run = True, ec_rpc_url = ''http://127.0.0.1:8899'',
     ec_jito_block_engine_url = None, ec_bid_profile = Balanced\<rparr> (cb_new risk_limits_default m) m"

datatype replay_error = MissingTicks string | ReplayStream stream_error | ReplayExec exec_error

record replay_result =
  rp_opportunities :: "opportunity_record list"
  rp_submit :: "submit_result option"
  rp_candidates :: nat
  rp_triggers :: nat

definition replay_run :: "u64 \<Rightarrow> nat \<Rightarrow> nat \<Rightarrow> oracle_ticks_file \<Rightarrow> borrowers_file
    \<Rightarrow> (replay_error + replay_result) option" where
  "replay_run now_us now later ticks file =
     (case replay_index (bw_borrowers file) of
        Inl e \<Rightarrow> Some (Inl (ReplayStream e))
      | Inr ix \<Rightarrow>
          (let path = seed_ticks now_us [] (oracle_path_new ix metrics_new) (of_ticks ticks);
               mock = mock_geyser_named ''fixture-replay'' (unseeded_events [] (ticks_to_events ticks))
           in case drain_all (mock_subscribe mock) of
                Inl e \<Rightarrow> Some (Inl (ReplayStream e))
              | Inr evs \<Rightarrow>
                  map_option (\<lambda>(opps, path').
                    case List.find (\<lambda>r. prefix ''Accept'' (or_profit_decision r)) opps of
                      None \<Rightarrow> Inr \<lparr>rp_opportunities = opps, rp_submit = None,
                        rp_candidates = candidate_count ix, rp_triggers = trigger_count ix\<rparr>
                    | Some r \<Rightarrow>
                        (case fst (execute now later (replay_engine (op_metrics path')) (replay_tx r) 0) of
                           Inl e \<Rightarrow> Inl (ReplayExec e)
                         | Inr res \<Rightarrow> Inr \<lparr>rp_opportunities = opps, rp_submit = Some res,
                             rp_candidates = candidate_count ix, rp_triggers = trigger_count ix\<rparr>))
                  (replay_events now_us profit_config_default (bw_borrowers file) path evs)))"

text \<open>\<open>has_ticks\<close> and the two readers are the file system and \<^verbatim>\<open>serde\<close>.\<close>

definition replay_main :: "string option \<Rightarrow> (string \<Rightarrow> string option) \<Rightarrow> (string \<Rightarrow> bool)
    \<Rightarrow> (string \<Rightarrow> stream_error + oracle_ticks_file) \<Rightarrow> (string \<Rightarrow> stream_error + borrowers_file)
    \<Rightarrow> u64 \<Rightarrow> nat \<Rightarrow> nat \<Rightarrow> (replay_error + replay_result) option" where
  "replay_main arg env has_ticks read_ticks read_borrowers now_us now later =
     (let dir = resolve_fixtures_dir arg env has_ticks
      in if \<not> has_ticks dir then Some (Inl (MissingTicks (dir @ ''/oracle_ticks.json'')))
         else case read_ticks (dir @ ''/oracle_ticks.json'') of
           Inl e \<Rightarrow> Some (Inl (ReplayStream e))
         | Inr ticks \<Rightarrow> (case read_borrowers (dir @ ''/borrowers.json'') of
              Inl e \<Rightarrow> Some (Inl (ReplayStream e))
            | Inr file \<Rightarrow> replay_run now_us now later ticks file))"

section \<open>One pass\<close>

text \<open>
  The reference: one walk over the ticks with the last price of every asset; the first tick of an asset only sets it.
\<close>

fun one_pass :: "candidate_index \<Rightarrow> price_book \<Rightarrow> oracle_tick_fixture list \<Rightarrow> (u64 \<times> trigger_hit list) list" where
  "one_pass ix m [] = []"
| "one_pass ix m (t # ts) =
     (let asset = to_pubkey (ot_asset t); p = price_from_f64 (ot_price_usd t);
          rest = one_pass ix (m(asset \<mapsto> p)) ts
      in case m asset of None \<Rightarrow> rest
         | Some prev \<Rightarrow> (ot_slot t, on_price_update ix asset prev p) # rest)"

fun all_records :: "profit_config \<Rightarrow> borrower_fixture list \<Rightarrow> (u64 \<times> trigger_hit list) list
    \<Rightarrow> opportunity_record list option" where
  "all_records profit bs [] = Some []"
| "all_records profit bs ((slot, hits) # r) =
     Option.bind (hit_records profit bs slot hits) (\<lambda>recs. map_option ((@) recs) (all_records profit bs r))"

definition first_price :: "oracle_tick_fixture list \<Rightarrow> pubkey \<Rightarrow> price_fx option" where
  "first_price ts a = map_option (\<lambda>t. price_from_f64 (ot_price_usd t))
     (List.find (\<lambda>t. to_pubkey (ot_asset t) = a) ts)"

lemma first_price_simps [simp]:
  "first_price [] a = None"
  "first_price (t # ts) a =
     (if to_pubkey (ot_asset t) = a then Some (price_from_f64 (ot_price_usd t)) else first_price ts a)"
  by (simp_all add: first_price_def)

lemma seed_ticks_index [simp]: "op_index (seed_ticks now_us seeded path ts) = op_index path"
  by (induction now_us seeded path ts rule: seed_ticks.induct) (simp_all add: Let_def apply_oracle_update_prices)

lemma seed_ticks_prices:
  "op_prices (seed_ticks now_us seeded path ts) a =
     (if a \<in> set seeded then op_prices path a
      else case first_price ts a of Some p \<Rightarrow> Some p | None \<Rightarrow> op_prices path a)"
  by (induction now_us seeded path ts rule: seed_ticks.induct)
    (auto simp: Let_def apply_oracle_update_prices price_book_set_def split: option.splits)

text \<open>Seeding fires nothing: the price is in the book before the update.\<close>

lemma seeding_fires_nothing:
  "fst (apply_oracle_update now_us (path\<lparr>op_prices := price_book_set (op_prices path) a p\<rparr>) a p slot wv src) = []"
  by (simp add: apply_oracle_update_prices price_book_set_def or_default_def on_price_update_same)

text \<open>What the replay knows after some ticks: the last price of the assets seen, and the first price to come of
  the others.\<close>

definition replay_inv :: "pubkey list \<Rightarrow> price_book \<Rightarrow> price_book \<Rightarrow> oracle_tick_fixture list \<Rightarrow> bool" where
  "replay_inv seen m book ts \<longleftrightarrow>
     (\<forall>a. if a \<in> set seen then book a = m a \<and> m a \<noteq> None
          else m a = None \<and> (\<forall>p. first_price ts a = Some p \<longrightarrow> book a = Some p))"

lemma replay_inv_start: "replay_inv [] Map.empty (op_prices (seed_ticks now_us [] path ts)) ts"
  by (simp add: replay_inv_def seed_ticks_prices)

lemma replay_inv_seen:
  "replay_inv seen m book ts \<Longrightarrow> a \<in> set seen \<Longrightarrow> \<exists>prev. m a = Some prev \<and> book a = Some prev"
  unfolding replay_inv_def by (auto dest: spec [of _ a])

lemma replay_inv_first:
  assumes "replay_inv seen m book (t # ts)" "to_pubkey (ot_asset t) \<notin> set seen"
  shows "replay_inv (to_pubkey (ot_asset t) # seen) (m(to_pubkey (ot_asset t) \<mapsto> price_from_f64 (ot_price_usd t))) book ts"
  unfolding replay_inv_def
proof
  fix a
  from assms show "if a \<in> set (to_pubkey (ot_asset t) # seen)
      then book a = (m(to_pubkey (ot_asset t) \<mapsto> price_from_f64 (ot_price_usd t))) a
        \<and> (m(to_pubkey (ot_asset t) \<mapsto> price_from_f64 (ot_price_usd t))) a \<noteq> None
      else (m(to_pubkey (ot_asset t) \<mapsto> price_from_f64 (ot_price_usd t))) a = None
        \<and> (\<forall>p. first_price ts a = Some p \<longrightarrow> book a = Some p)"
    unfolding replay_inv_def by (auto dest: spec [of _ a] split: if_splits)
qed

lemma replay_inv_next:
  assumes "replay_inv seen m book (t # ts)" "to_pubkey (ot_asset t) \<in> set seen"
  shows "replay_inv seen (m(to_pubkey (ot_asset t) \<mapsto> p)) (book(to_pubkey (ot_asset t) \<mapsto> p)) ts"
  unfolding replay_inv_def
proof
  fix a
  from assms show "if a \<in> set seen then (book(to_pubkey (ot_asset t) \<mapsto> p)) a = (m(to_pubkey (ot_asset t) \<mapsto> p)) a
        \<and> (m(to_pubkey (ot_asset t) \<mapsto> p)) a \<noteq> None
      else (m(to_pubkey (ot_asset t) \<mapsto> p)) a = None
        \<and> (\<forall>q. first_price ts a = Some q \<longrightarrow> (book(to_pubkey (ot_asset t) \<mapsto> p)) a = Some q)"
    unfolding replay_inv_def by (auto dest: spec [of _ a] split: if_splits)
qed

lemma replay_events_one_pass:
  assumes "replay_inv seen m (op_prices path) ts" "op_index path = ix"
  shows "map_option fst (replay_events now_us profit bs path (unseeded_events seen (map tick_event ts)))
    = all_records profit bs (one_pass ix m ts)"
  using assms
proof (induction ts arbitrary: seen m path)
  case (Cons t ts)
  let ?a = "to_pubkey (ot_asset t)" and ?p = "price_from_f64 (ot_price_usd t)"
  show ?case
  proof (cases "?a \<in> set seen")
    case False
    then have "m ?a = None" using Cons.prems(1) by (simp add: replay_inv_def)
    moreover have "map_option fst (replay_events now_us profit bs path (unseeded_events (?a # seen) (map tick_event ts)))
        = all_records profit bs (one_pass ix (m(?a \<mapsto> ?p)) ts)"
      by (rule Cons.IH [OF replay_inv_first [OF Cons.prems(1) False] Cons.prems(2)])
    ultimately show ?thesis using False by (simp add: tick_event_def [of t] Let_def)
  next
    case True
    let ?r = "apply_oracle_update now_us path ?a ?p (ot_slot t) (ot_write_version t) Replay"
    from True obtain prev where prev: "m ?a = Some prev" "op_prices path ?a = Some prev"
      using replay_inv_seen [OF Cons.prems(1)] by blast
    have hits: "fst ?r = on_price_update ix ?a prev ?p"
      using prev Cons.prems(2) by (simp add: apply_oracle_update_prices or_default_def)
    have ih: "map_option fst (replay_events now_us profit bs (snd ?r) (unseeded_events seen (map tick_event ts)))
        = all_records profit bs (one_pass ix (m(?a \<mapsto> ?p)) ts)"
    proof (rule Cons.IH)
      show "replay_inv seen (m(?a \<mapsto> ?p)) (op_prices (snd ?r)) ts"
        unfolding apply_oracle_update_prices by (rule replay_inv_next [OF Cons.prems(1) True])
    qed (simp add: apply_oracle_update_prices Cons.prems(2))
    show ?thesis
      using True prev(1)
      by (simp add: tick_event_def [of t] Let_def split_beta hits ih [symmetric] option.map_comp o_def map_option_bind)
  qed
qed simp

section \<open>No panic\<close>

lemma replay_index_parses:
  "replay_index bs = Inr ix \<Longrightarrow> b \<in> set bs \<Longrightarrow> \<exists>meta. borrower_to_meta b = Inr meta"
proof (induction bs arbitrary: ix rule: rev_induct)
  case (snoc b' bs)
  then show ?case
    by (auto simp: replay_index_def load_strict_def and_then_def split: sum.splits)
qed simp

lemma hit_records_total:
  assumes "\<And>b. b \<in> set bs \<Longrightarrow> \<exists>meta. borrower_to_meta b = Inr meta"
  shows "\<exists>recs. hit_records profit bs slot hits = Some recs"
proof (induction hits)
  case (Cons h hits)
  have "\<exists>rec. build_opportunity profit slot b h = Some rec" if "find_borrower bs a = Some b" for a b
    using assms [of b] find_Some_set that by (fastforce simp: find_borrower_def build_opportunity_def Let_def)
  with Cons show ?case by (force split: option.splits)
qed simp

lemma all_records_total:
  assumes "\<And>b. b \<in> set bs \<Longrightarrow> \<exists>meta. borrower_to_meta b = Inr meta"
  shows "\<exists>recs. all_records profit bs r = Some recs"
proof (induction r)
  case (Cons x r)
  obtain slot hits where x: "x = (slot, hits)" by (cases x)
  obtain recs where "hit_records profit bs slot hits = Some recs" using hit_records_total [OF assms] by blast
  with Cons.IH show ?case by (auto simp: x)
qed simp

section \<open>The dry-run engine\<close>

lemma replay_engine_execute:
  "fst (execute now later (replay_engine m) tx 0) = Inl e \<longleftrightarrow>
     e = RiskError MaxNotional \<and> 500000000000 < pt_notional_usd_micro tx"
proof (cases "500000000000 < pt_notional_usd_micro tx")
  case True
  then show ?thesis
    by (auto simp: execute_def check_allow_def replay_engine_def engine_new_def cb_new_def risk_limits_default_def)
next
  case False
  have "sat_add 0 x = x" for x :: u64
    using unat_bound64 [of x] by (simp add: sat_add_def)
  moreover have "\<not> 2000000000000 < pt_notional_usd_micro tx"
    using False by (simp add: word_less_nat_alt)
  ultimately show ?thesis
    using False by (simp add: execute_def check_allow_def replay_engine_def engine_new_def cb_new_def
      risk_limits_default_def rw_sum_def rw_new_def rw_prune_def Let_def)
qed

lemma accepted_text: "prefix ''Accept'' (decision_text d) \<longleftrightarrow> is_accept d"
  by (cases d) simp_all

section \<open>What is recorded\<close>

lemma replay_index_trigger_inv: "replay_index bs = Inr ix \<Longrightarrow> trigger_inv ix"
proof (induction bs arbitrary: ix rule: rev_induct)
  case Nil
  then show ?case using index_new_inv by (auto simp: replay_index_def)
next
  case (snoc b bs)
  then show ?case
    by (auto simp: replay_index_def load_strict_def and_then_def intro!: set_triggers_inv upsert_candidate_trigger_inv
        split: sum.splits)
qed

text \<open>A hit of the walk is a stored trigger, crossed between two prices of its asset.\<close>

lemma one_pass_hits:
  assumes "trigger_inv ix" "(slot, hits) \<in> set (one_pass ix m ts)" "h \<in> set hits"
  shows "has_trigger ix (th_account h) (th_asset h) (th_side h) (th_trigger_price h)
    \<and> (\<exists>prev. crossed (th_side h) prev (th_new_price h) (th_trigger_price h))
    \<and> (\<exists>t \<in> set ts. to_pubkey (ot_asset t) = th_asset h \<and> price_from_f64 (ot_price_usd t) = th_new_price h
         \<and> ot_slot t = slot)"
  using assms(2,3)
proof (induction ts arbitrary: m)
  case (Cons t ts)
  then show ?case
    by (auto simp: Let_def on_price_update_iff(2) [OF assms(1)] split: option.splits if_splits dest: Cons.IH)
qed simp

section \<open>Properties\<close>



end
