(* ===== verification/Shadow.thy ===== *)
theory Shadow
  imports ReplayRun LivePlan Vtx
begin

text \<open>
  The shadow mode, \<^verbatim>\<open>bins/shadow/src/main.rs\<close>: it refuses to start unless it is a dry run, and either
  replays the fixtures or plans and simulates what the discovery finds on the chain. (The account set of a candidate is in theory
  \<open>LivePlan\<close>.) The transport, the clock, the iteration order of the hash map in the transaction encoder
  and the printing of floating-point numbers are arguments; texts are ASCII but for the dashes, which are written out. The
  report is the record of what the code computes for it; log lines, the printed JSON and the file itself are left out, and so is the
  simulation at the end of a fixture hit, which changes no state and cannot fail.
\<close>

section \<open>Settings\<close>

definition env_flag :: "process_env \<Rightarrow> string \<Rightarrow> bool \<Rightarrow> bool" where
  "env_flag vars name dflt =
     (case vars name of Some v \<Rightarrow> v = ''1'' \<or> eq_ignore_ascii_case v ''true'' | None \<Rightarrow> dflt)"

definition env_dry_run :: "process_env \<Rightarrow> bool" where
  "env_dry_run vars = env_flag vars ''DRY_RUN'' True"

definition wants_mainnet :: "process_env \<Rightarrow> string list \<Rightarrow> bool" where
  "wants_mainnet vars args \<longleftrightarrow> ''--mainnet'' \<in> set args \<or> env_flag vars ''LIQ_MAINNET_SHADOW'' False"

fun shadow_strategy :: "protocol \<Rightarrow> funding_strategy" where
  "shadow_strategy Kamino = KaminoFlashBorrow"
| "shadow_strategy Save = SaveFlashLoan"
| "shadow_strategy Project0 = Project0Receivership"

definition shadow_engine :: "string \<Rightarrow> execution_engine" where
  "shadow_engine url = engine_new \<lparr>ec_dry_run = True, ec_rpc_url = url, ec_jito_block_engine_url = None,
     ec_bid_profile = Conservative\<rparr> (cb_new risk_limits_default metrics_new) metrics_new"

datatype shadow_error =
  NotDryRun | NoEndpoints | ShadowBootstrap bootstrap_error | ShadowStream stream_error
| ShadowMissingTicks string | ShadowExec exec_error | NotDryResult | FeePayerUndecodable | ShadowPanic

text \<open>A step that may fail ends the run; what was recorded before stays recorded.\<close>

fun run_until :: "('s \<Rightarrow> 'x \<Rightarrow> 's \<times> 'e option) \<Rightarrow> 's \<Rightarrow> 'x list \<Rightarrow> 's \<times> 'e option" where
  "run_until step s [] = (s, None)"
| "run_until step s (x # xs) =
     (case step s x of (s', None) \<Rightarrow> run_until step s' xs | (s', Some e) \<Rightarrow> (s', Some e))"

section \<open>Fixtures\<close>

record shadow_opportunity =
  so_mode :: string
  so_dry_run :: bool
  so_protocol :: string
  so_account :: string
  so_asset :: string
  so_side :: string
  so_trigger_price_usd :: f64
  so_new_price_usd :: f64
  so_health :: f64
  so_band :: string
  so_plan_ixs :: "string list"
  so_notional_usd_micro :: u64
  so_expected_profit_usd_micro :: i64
  so_profit_decision :: string
  so_would_submit :: bool
  so_slot :: u64

definition shadow_opportunity_of ::
    "candidate_meta \<Rightarrow> trigger_hit \<Rightarrow> u64 \<Rightarrow> profit_decision \<Rightarrow> u64 \<Rightarrow> shadow_opportunity" where
  "shadow_opportunity_of meta hit notional decision slot =
     \<lparr>so_mode = ''shadow'', so_dry_run = True, so_protocol = protocol_debug (cm_protocol meta),
      so_account = pubkey_display (cm_account meta), so_asset = pubkey_display (th_asset hit),
      so_side = trigger_side_debug (th_side hit), so_trigger_price_usd = price_to_f64 (th_trigger_price hit),
      so_new_price_usd = price_to_f64 (th_new_price hit), so_health = health_to_f64 (cm_health meta),
      so_band = band_as_str (cm_band meta), so_plan_ixs = replay_plan_ixs (cm_protocol meta),
      so_notional_usd_micro = notional, so_expected_profit_usd_micro = pd_net decision,
      so_profit_decision = decision_text decision, so_would_submit = is_accept decision, so_slot = slot\<rparr>"

record 'v shadow_env =
  sh_crypto :: crypto
  sh_json :: "'v json_rpc_api"
  sh_blob :: jupiter_quote_blob
  sh_clock :: "nat \<Rightarrow> nat \<times> nat"

definition would_submit_tx ::
    "'v shadow_env \<Rightarrow> candidate_meta \<Rightarrow> u64 \<Rightarrow> shadow_opportunity \<Rightarrow> prepared_tx" where
  "would_submit_tx env meta repay_amount rec =
     (let strategy = shadow_strategy (cm_protocol meta);
          planned = build_strategy_ixs (sh_crypto env) (cm_protocol meta) strategy (from_seed (cm_account meta))
                      repay_amount (sh_blob env);
          wire_ixs = map li_ix (pn_labeled planned);
          envelope = shadow_tx_base64 (sh_json env) wire_ixs ''11111111111111111111111111111111''
      in \<lparr>pt_label = ''shadow-would-submit'', pt_protocol = so_protocol rec, pt_account = so_account rec,
          pt_notional_usd_micro = so_notional_usd_micro rec,
          pt_expected_profit_usd_micro = so_expected_profit_usd_micro rec, pt_wire = ascii envelope,
          pt_ixs = map li_label (pn_labeled planned), pt_instructions = wire_ixs,
          pt_funding_strategy = Some (strategy_as_str strategy)\<rparr>)"

record shadow_state =
  ss_path :: oracle_path
  ss_engine :: execution_engine
  ss_now :: nat
  ss_calls :: nat
  ss_records :: "shadow_opportunity list"

text \<open>Executing on the dry-run engine, with the two checks of the result.\<close>

definition shadow_execute :: "'v shadow_env \<Rightarrow> prepared_tx \<Rightarrow> shadow_state \<Rightarrow> shadow_state \<times> shadow_error option" where
  "shadow_execute env tx s =
     (let (d1, d2) = sh_clock env (ss_calls s);
          now = ss_now s + d1; later = now + d2;
          (res, e') = execute now later (ss_engine s) tx 0;
          s' = s\<lparr>ss_engine := e', ss_now := later, ss_calls := ss_calls s + 1\<rparr>
      in case res of
           Inl e \<Rightarrow> (s', Some (ShadowExec e))
         | Inr r \<Rightarrow> (s', if \<not> sr_dry_run r \<or> sr_signature r \<noteq> None then Some NotDryResult else None))"

definition shadow_hit :: "'v shadow_env \<Rightarrow> profit_config \<Rightarrow> borrower_fixture list \<Rightarrow> u64 \<Rightarrow> shadow_state
    \<Rightarrow> trigger_hit \<Rightarrow> shadow_state \<times> shadow_error option" where
  "shadow_hit env profit bs slot s hit =
     (case find_borrower bs (th_account hit) of
        None \<Rightarrow> (s, None)
      | Some b \<Rightarrow>
          (case borrower_to_meta b of
             Inl e \<Rightarrow> (s, Some (ShadowStream e))
           | Inr meta \<Rightarrow>
               (let inp = replay_profit_input (bf_plan b);
                    decision = profit_evaluate profit inp;
                    rec = shadow_opportunity_of meta hit (pi_notional_usd_micro inp) decision slot;
                    s1 = s\<lparr>ss_records := ss_records s @ [rec]\<rparr>
                in if so_would_submit rec
                   then shadow_execute env (would_submit_tx env meta (pf_repay_amount (bf_plan b)) rec) s1
                   else (s1, None))))"

definition shadow_event :: "'v shadow_env \<Rightarrow> profit_config \<Rightarrow> borrower_fixture list \<Rightarrow> u64 \<Rightarrow> shadow_state
    \<Rightarrow> stream_event \<Rightarrow> shadow_state \<times> shadow_error option" where
  "shadow_event env profit bs now_us s ev =
     (case ev of
        PriceEvent asset p slot wv \<Rightarrow>
          (let (hits, path') = apply_oracle_update now_us (ss_path s) asset (PriceFx p) slot wv Mock
           in run_until (shadow_hit env profit bs slot) (s\<lparr>ss_path := path'\<rparr>) hits)
      | AccountEvent upd \<Rightarrow> (s, None)
      | SlotEvent u \<Rightarrow> (s, None))"

text \<open>Unlike the replay, the seeding only sets the price book.\<close>

fun seed_prices :: "pubkey list \<Rightarrow> oracle_path \<Rightarrow> oracle_tick_fixture list \<Rightarrow> oracle_path" where
  "seed_prices seeded path [] = path"
| "seed_prices seeded path (t # ts) =
     (let asset = to_pubkey (ot_asset t)
      in if asset \<in> set seeded then seed_prices seeded path ts
         else seed_prices (asset # seeded)
           (path\<lparr>op_prices := price_book_set (op_prices path) asset (price_from_f64 (ot_price_usd t))\<rparr>) ts)"

definition shadow_start :: "process_env \<Rightarrow> candidate_index \<Rightarrow> oracle_ticks_file \<Rightarrow> nat \<Rightarrow> shadow_state" where
  "shadow_start vars ix ticks now =
     \<lparr>ss_path = seed_prices [] (oracle_path_new ix metrics_new) (of_ticks ticks),
      ss_engine = shadow_engine (case vars ''RPC_URL'' of Some u \<Rightarrow> u | None \<Rightarrow> ''https://YOUR_PRIVATE_RPC''),
      ss_now = now, ss_calls = 0, ss_records = []\<rparr>"

definition shadow_fixtures :: "'v shadow_env \<Rightarrow> process_env \<Rightarrow> oracle_ticks_file \<Rightarrow> borrowers_file \<Rightarrow> u64 \<Rightarrow> nat
    \<Rightarrow> shadow_error + (shadow_state \<times> shadow_error option)" where
  "shadow_fixtures env vars ticks file now_us now =
     (case replay_index (bw_borrowers file) of
        Inl e \<Rightarrow> Inl (ShadowStream e)
      | Inr ix \<Rightarrow>
          (case drain_all (mock_subscribe (mock_geyser_named ''fixture-shadow''
                  (unseeded_events [] (ticks_to_events ticks)))) of
             Inl e \<Rightarrow> Inl (ShadowStream e)
           | Inr evs \<Rightarrow> Inr (run_until (shadow_event env profit_config_default (bw_borrowers file) now_us)
                              (shadow_start vars ix ticks now) evs)))"

definition run_fixture_shadow :: "'v shadow_env \<Rightarrow> process_env \<Rightarrow> string option \<Rightarrow> (string \<Rightarrow> bool)
    \<Rightarrow> (string \<Rightarrow> stream_error + oracle_ticks_file) \<Rightarrow> (string \<Rightarrow> stream_error + borrowers_file)
    \<Rightarrow> u64 \<Rightarrow> nat \<Rightarrow> shadow_error + (shadow_state \<times> shadow_error option)" where
  "run_fixture_shadow env vars arg has_ticks read_ticks read_borrowers now_us now =
     (if \<not> env_dry_run vars then Inl NotDryRun
      else let dir = resolve_fixtures_dir arg vars has_ticks
        in if \<not> has_ticks dir then Inl (ShadowMissingTicks (dir @ ''/oracle_ticks.json''))
           else case read_ticks (dir @ ''/oracle_ticks.json'') of
             Inl e \<Rightarrow> Inl (ShadowStream e)
           | Inr ticks \<Rightarrow> (case read_borrowers (dir @ ''/borrowers.json'') of
                Inl e \<Rightarrow> Inl (ShadowStream e)
              | Inr file \<Rightarrow> shadow_fixtures env vars ticks file now_us now))"

section \<open>A dry run only\<close>

lemma run_until_inv:
  assumes "P s" "\<And>s x. P s \<Longrightarrow> P (fst (step s x))"
  shows "P (fst (run_until step s xs))"
  using assms(1)
proof (induction xs arbitrary: s)
  case (Cons x xs)
  then show ?case using assms(2) [of s x] by (auto split: prod.split option.split)
qed simp

lemma run_until_ok:
  "run_until step s (x # xs) = (s', None) \<longleftrightarrow> (\<exists>s1. step s x = (s1, None) \<and> run_until step s1 xs = (s', None))"
  by (auto split: prod.splits option.splits)

lemma run_until_error:
  assumes "run_until step s xs = (s', Some e)" "\<And>s x s' e. step s x = (s', Some e) \<Longrightarrow> P s \<Longrightarrow> Q e"
    "P s" "\<And>s x. P s \<Longrightarrow> P (fst (step s x))"
  shows "Q e"
  using assms(1,3)
proof (induction xs arbitrary: s)
  case (Cons x xs)
  obtain s1 r where r: "step s x = (s1, r)" by (cases "step s x")
  show ?case
  proof (cases r)
    case None
    with Cons r assms(4) [of s x] show ?thesis by simp
  next
    case (Some e')
    with Cons.prems(1) r have "step s x = (s1, Some e)" by simp
    then show ?thesis using Cons.prems(2) by (rule assms(2))
  qed
qed simp

lemma execute_dry:
  assumes "ec_dry_run (ee_config e)"
  shows "ec_dry_run (ee_config (snd (execute now later e tx st)))"
    and "m_liquidations_failed (ee_metrics (snd (execute now later e tx st))) = m_liquidations_failed (ee_metrics e)"
    and "case fst (execute now later e tx st) of Inl x \<Rightarrow> \<exists>r. x = RiskError r
           | Inr r \<Rightarrow> sr_dry_run r \<and> sr_signature r = None"
  using assms by (auto simp: execute_def Let_def split: prod.splits sum.splits)

definition shadow_inv :: "shadow_state \<Rightarrow> bool" where
  "shadow_inv s \<longleftrightarrow> ec_dry_run (ee_config (ss_engine s)) \<and> m_liquidations_failed (ee_metrics (ss_engine s)) = 0
     \<and> engine_inv risk_limits_default (ss_engine s) (ss_now s)
     \<and> (\<forall>r \<in> set (ss_records s). so_dry_run r)"

fun refused_only :: "shadow_error \<Rightarrow> bool" where
  "refused_only (ShadowExec (RiskError r)) = True"
| "refused_only (ShadowStream e) = True"
| "refused_only _ = False"

lemma shadow_execute_fst:
  "\<exists>now later. ss_now s \<le> now \<and> now \<le> later \<and> fst (shadow_execute env tx s)
     = s\<lparr>ss_engine := snd (execute now later (ss_engine s) tx 0), ss_now := later, ss_calls := ss_calls s + 1\<rparr>"
proof -
  obtain d1 d2 where d: "sh_clock env (ss_calls s) = (d1, d2)" by (cases "sh_clock env (ss_calls s)")
  show ?thesis
    by (intro exI [of _ "ss_now s + d1"] exI [of _ "ss_now s + d1 + d2"])
      (simp add: shadow_execute_def d Let_def split_beta split: sum.split)
qed

lemma shadow_execute_inv:
  assumes "shadow_inv s" shows "shadow_inv (fst (shadow_execute env tx s))"
  using assms shadow_execute_fst [of s env tx]
  by (auto simp: shadow_inv_def execute_dry intro: engine_inv_step)

lemma shadow_execute_error:
  assumes "shadow_execute env tx s = (s', Some e)" "shadow_inv s"
  shows "refused_only e"
proof -
  obtain d1 d2 where d: "sh_clock env (ss_calls s) = (d1, d2)" by (cases "sh_clock env (ss_calls s)")
  have "ec_dry_run (ee_config (ss_engine s))" using assms(2) by (simp add: shadow_inv_def)
  from execute_dry(3) [OF this, of "ss_now s + d1" "ss_now s + d1 + d2" tx 0] assms(1) show ?thesis
    by (auto simp: shadow_execute_def d Let_def split_beta split: sum.splits if_splits)
qed

lemma shadow_inv_frame:
  "shadow_inv (s\<lparr>ss_path := path\<rparr>) = shadow_inv s"
  "shadow_inv (s\<lparr>ss_records := ss_records s @ [rec]\<rparr>) \<longleftrightarrow> shadow_inv s \<and> so_dry_run rec"
  by (auto simp: shadow_inv_def)

lemma shadow_hit_inv: "shadow_inv s \<Longrightarrow> shadow_inv (fst (shadow_hit env profit bs slot s h))"
  by (auto simp: shadow_hit_def Let_def shadow_inv_frame shadow_opportunity_of_def
      intro!: shadow_execute_inv split: option.split sum.split)

lemma shadow_hit_error:
  "shadow_hit env profit bs slot s h = (s', Some e) \<Longrightarrow> shadow_inv s \<Longrightarrow> refused_only e"
  by (auto simp: shadow_hit_def Let_def shadow_inv_frame shadow_opportunity_of_def
      dest!: shadow_execute_error split: option.splits sum.splits if_splits)

lemma shadow_event_inv: "shadow_inv s \<Longrightarrow> shadow_inv (fst (shadow_event env profit bs now_us s ev))"
  by (auto simp: shadow_event_def shadow_inv_frame shadow_hit_inv intro!: run_until_inv [where P = shadow_inv]
      split: stream_event.split prod.split)

lemma shadow_event_error:
  assumes "shadow_event env profit bs now_us s ev = (s', Some e)" "shadow_inv s"
  shows "refused_only e"
proof (cases ev)
  case (PriceEvent asset p slot wv)
  obtain hits path' where r: "apply_oracle_update now_us (ss_path s) asset (PriceFx p) slot wv Mock = (hits, path')"
    by fastforce
  from assms(1) have "run_until (shadow_hit env profit bs slot) (s\<lparr>ss_path := path'\<rparr>) hits = (s', Some e)"
    by (simp add: shadow_event_def PriceEvent r)
  then show ?thesis
    by (rule run_until_error [where P = shadow_inv, OF _ shadow_hit_error])
      (use assms(2) in \<open>auto simp: shadow_inv_frame shadow_hit_inv\<close>)
qed (use assms(1) in \<open>simp_all add: shadow_event_def\<close>)

lemma shadow_start_inv: "shadow_inv (shadow_start vars ix ticks now)"
  by (simp add: shadow_inv_def shadow_start_def shadow_engine_def engine_inv_start)
    (simp add: engine_new_def metrics_new_def)

section \<open>The same opportunities as the replay\<close>

definition as_shadow :: "opportunity_record \<Rightarrow> shadow_opportunity" where
  "as_shadow r =
     \<lparr>so_mode = ''shadow'', so_dry_run = True, so_protocol = or_protocol r, so_account = or_account r,
      so_asset = or_asset r, so_side = or_side r, so_trigger_price_usd = or_trigger_price_usd r,
      so_new_price_usd = or_new_price_usd r, so_health = or_health r, so_band = or_band r,
      so_plan_ixs = or_plan_ixs r, so_notional_usd_micro = or_notional_usd_micro r,
      so_expected_profit_usd_micro = or_expected_profit_usd_micro r, so_profit_decision = or_profit_decision r,
      so_would_submit = prefix ''Accept'' (or_profit_decision r), so_slot = or_slot r\<rparr>"

lemma shadow_execute_frame:
  "ss_records (fst (shadow_execute env tx s)) = ss_records s" "ss_path (fst (shadow_execute env tx s)) = ss_path s"
  using shadow_execute_fst [of s env tx] by auto

lemma shadow_hit_record:
  assumes "find_borrower bs (th_account h) = Some b" "borrower_to_meta b = Inr meta"
  shows "\<exists>rec. build_opportunity profit slot b h = Some rec
    \<and> ss_records (fst (shadow_hit env profit bs slot s h)) = ss_records s @ [as_shadow rec]
    \<and> ss_path (fst (shadow_hit env profit bs slot s h)) = ss_path s"
  using assms by (simp add: shadow_hit_def build_opportunity_def Let_def as_shadow_def shadow_opportunity_of_def
      accepted_text shadow_execute_frame)

lemma shadow_hits_records:
  assumes "run_until (shadow_hit env profit bs slot) s hits = (s', None)" "hit_records profit bs slot hits = Some recs"
  shows "ss_records s' = ss_records s @ map as_shadow recs \<and> ss_path s' = ss_path s"
  using assms
proof (induction hits arbitrary: s recs)
  case (Cons h hits)
  show ?case
  proof (cases "find_borrower bs (th_account h)")
    case None
    with Cons show ?thesis by (simp add: shadow_hit_def)
  next
    case (Some b)
    with Cons.prems(2) obtain meta rest where b: "borrower_to_meta b = Inr meta"
        "hit_records profit bs slot hits = Some rest"
      by (auto simp: build_opportunity_def Let_def split: sum.splits)
    from Cons.prems(1) obtain s1 where s1: "shadow_hit env profit bs slot s h = (s1, None)"
        "run_until (shadow_hit env profit bs slot) s1 hits = (s', None)"
      by (auto split: prod.splits option.splits)
    from shadow_hit_record [OF Some b(1), of profit slot env s] s1(1)
    have "\<exists>rec. build_opportunity profit slot b h = Some rec \<and> ss_records s1 = ss_records s @ [as_shadow rec]
        \<and> ss_path s1 = ss_path s" by simp
    with Cons.IH [OF s1(2) b(2)] Cons.prems(2) Some b(2) show ?thesis by auto
  qed
qed simp

lemma shadow_event_price:
  "shadow_event env profit bs now_us s (PriceEvent asset (px p) slot wv) =
     run_until (shadow_hit env profit bs slot)
       (s\<lparr>ss_path := snd (apply_oracle_update now_us (ss_path s) asset p slot wv Mock)\<rparr>)
       (fst (apply_oracle_update now_us (ss_path s) asset p slot wv Mock))"
  by (simp add: shadow_event_def split_beta)

lemma shadow_events_one_pass:
  assumes "run_until (shadow_event env profit bs now_us) s (unseeded_events seen (map tick_event ts)) = (s', None)"
    and "all_records profit bs (one_pass ix m ts) = Some recs"
    and "replay_inv seen m (op_prices (ss_path s)) ts" "op_index (ss_path s) = ix"
  shows "ss_records s' = ss_records s @ map as_shadow recs"
  using assms
proof (induction ts arbitrary: seen m s recs)
  case (Cons t ts)
  let ?a = "to_pubkey (ot_asset t)" and ?p = "price_from_f64 (ot_price_usd t)"
  show ?case
  proof (cases "?a \<in> set seen")
    case False
    then have m: "m ?a = None" using Cons.prems(3) by (simp add: replay_inv_def)
    show ?thesis
    proof (rule Cons.IH [OF _ _ replay_inv_first [OF Cons.prems(3) False] Cons.prems(4)])
      show "run_until (shadow_event env profit bs now_us) s (unseeded_events (?a # seen) (map tick_event ts)) = (s', None)"
        using Cons.prems(1) False by (simp add: tick_event_def [of t])
      show "all_records profit bs (one_pass ix (m(?a \<mapsto> ?p)) ts) = Some recs"
        using Cons.prems(2) m by (simp add: Let_def)
    qed
  next
    case True
    let ?r = "apply_oracle_update now_us (ss_path s) ?a ?p (ot_slot t) (ot_write_version t) Mock"
    from True obtain prev where prev: "m ?a = Some prev" "op_prices (ss_path s) ?a = Some prev"
      using replay_inv_seen [OF Cons.prems(3)] by blast
    have hits: "fst ?r = on_price_update ix ?a prev ?p"
      using prev Cons.prems(4) by (simp add: apply_oracle_update_prices or_default_def)
    obtain recs1 recs2 where recs: "hit_records profit bs (ot_slot t) (fst ?r) = Some recs1"
        "all_records profit bs (one_pass ix (m(?a \<mapsto> ?p)) ts) = Some recs2" "recs = recs1 @ recs2"
      using Cons.prems(2) prev(1) by (auto simp: Let_def hits Option.bind_eq_Some_conv)
    obtain s1 where s1: "run_until (shadow_hit env profit bs (ot_slot t)) (s\<lparr>ss_path := snd ?r\<rparr>) (fst ?r) = (s1, None)"
        "run_until (shadow_event env profit bs now_us) s1 (unseeded_events seen (map tick_event ts)) = (s', None)"
      using Cons.prems(1) True unfolding list.map tick_event_def [of t]
      by (auto simp: run_until_ok shadow_event_price simp del: run_until.simps(2))
    note step = shadow_hits_records [OF s1(1) recs(1)]
    have "ss_records s' = ss_records s1 @ map as_shadow recs2"
    proof (rule Cons.IH [OF s1(2) recs(2)])
      show "replay_inv seen (m(?a \<mapsto> ?p)) (op_prices (ss_path s1)) ts"
        using replay_inv_next [OF Cons.prems(3) True, of ?p] step by (simp add: apply_oracle_update_prices(1))
      show "op_index (ss_path s1) = ix" using step Cons.prems(4) by (simp add: apply_oracle_update_prices(3))
    qed
    then show ?thesis using step recs(3) by simp
  qed
qed simp

lemma seed_prices_prices:
  "op_prices (seed_prices seeded path ts) a =
     (if a \<in> set seeded then op_prices path a
      else case first_price ts a of Some p \<Rightarrow> Some p | None \<Rightarrow> op_prices path a)"
  "op_index (seed_prices seeded path ts) = op_index path"
  by (induction seeded path ts rule: seed_prices.induct)
    (auto simp: Let_def price_book_set_def split: option.splits)

section \<open>Properties\<close>

text \<open>
  The fixture shadow only ever runs dry, and reports what the replay reports. Nothing is in flight afterwards,
  no submission failed, and a run that stops early was refused by the breaker. A run that completes has recorded exactly the
  opportunities of the single pass over the recording, which are those of the replay, and marked as ones it would
  submit exactly the accepted ones.
\<close>

lemma shadow_fixtures_dry:
  assumes "shadow_fixtures env vars ticks file now_us now = Inr (s, err)"
  shows "cb_in_flight (ee_risk (ss_engine s)) = 0 \<and> m_liquidations_failed (ee_metrics (ss_engine s)) = 0
    \<and> (\<forall>r \<in> set (ss_records s). so_dry_run r) \<and> (\<forall>e. err = Some e \<longrightarrow> refused_only e)
    \<and> (err = None \<longrightarrow> (\<exists>ix opps. replay_index (bw_borrowers file) = Inr ix
         \<and> all_records profit_config_default (bw_borrowers file) (one_pass ix Map.empty (of_ticks ticks)) = Some opps
         \<and> ss_records s = map as_shadow opps))"
proof -
  obtain ix where ix: "replay_index (bw_borrowers file) = Inr ix"
    using assms by (auto simp: shadow_fixtures_def split: sum.splits)
  let ?evs = "unseeded_events [] (map tick_event (of_ticks ticks))" and ?s0 = "shadow_start vars ix ticks now"
  let ?step = "shadow_event env profit_config_default (bw_borrowers file) now_us"
  have run: "run_until ?step ?s0 ?evs = (s, err)"
    using assms by (simp add: shadow_fixtures_def ix ticks_to_events_def drain_all_def mock_subscribe_def
        mock_geyser_named_def and_then_def)
  have "shadow_inv (fst (run_until ?step ?s0 ?evs))"
    by (rule run_until_inv [where P = shadow_inv]) (simp_all add: shadow_start_inv shadow_event_inv)
  then have inv: "shadow_inv s" by (simp add: run)
  have "refused_only e" if "err = Some e" for e
    using run_until_error [OF run [unfolded that] shadow_event_error shadow_start_inv shadow_event_inv] .
  moreover have "\<exists>opps. all_records profit_config_default (bw_borrowers file) (one_pass ix Map.empty (of_ticks ticks)) = Some opps
      \<and> ss_records s = map as_shadow opps" if none: "err = None"
  proof -
    obtain opps where opps: "all_records profit_config_default (bw_borrowers file)
        (one_pass ix Map.empty (of_ticks ticks)) = Some opps"
      using all_records_total replay_index_parses [OF ix] by blast
    have "ss_records s = ss_records ?s0 @ map as_shadow opps"
      by (rule shadow_events_one_pass [OF run [unfolded none] opps])
        (simp_all add: shadow_start_def seed_prices_prices replay_inv_def oracle_path_new_def)
    with opps show ?thesis by (simp add: shadow_start_def)
  qed
  ultimately show ?thesis using inv ix by (auto simp: shadow_inv_def engine_inv_def)
qed

end
