(* ===== verification/MainnetShadow.thy ===== *)
theory MainnetShadow
  imports Shadow
begin

text \<open>
  The mainnet half of \<^verbatim>\<open>bins/shadow/src/main.rs\<close>: the fee payer, the candidates worth a simulation, their
  plans and transactions, and what the report says of the progress. An answer of the transport depends only on the
  request. Of the report the constants, the counters copied from the discovery and the statistics of the pool are left out, and so
  are the file and the final search for key material in it.
\<close>

section \<open>Notes\<close>

text \<open>The text of each note the account set of a candidate comes with.\<close>

fun note_text :: "(u8 list \<Rightarrow> string) \<Rightarrow> bootstrap_error plan_note \<Rightarrow> string" where
  "note_text b58 NonKamino = ''non-Kamino: PlanAccountSet::from_seed (live metas TBD)''"
| "note_text b58 MissingPubkey =
     ''missing full pubkey on candidate '' @ [CHR 0xE2, CHR 0x80, CHR 0x94] @ '' seed fallback''"
| "note_text b58 BadObligationKey = ''bad obligation pubkey''"
| "note_text b58 ObligationMissing = ''obligation account missing''"
| "note_text b58 (AccountInfoFailed e) = ''get_account_info obl: '' @ bootstrap_error_text e"
| "note_text b58 (PositionsFailed e) = ''live_positions decode failed: '' @ decode_error_text e"
| "note_text b58 (LivePositions d b) =
     ''live_positions deposits='' @ show_nat d @ '' borrows='' @ show_nat b"
| "note_text b58 NoReserves = ''no repay/withdraw reserves in positions''"
| "note_text b58 (ReservesFailed e) = ''getMultipleAccounts reserves: '' @ bootstrap_error_text e"
| "note_text b58 (ReserveDecodeFailed k e) = ''reserve decode '' @ short_pk b58 k @ '': '' @ decode_error_text e"
| "note_text b58 (ReserveMissing k) = ''reserve missing '' @ short_pk b58 k"
| "note_text b58 VaultsIncomplete = ''repay/withdraw vault decode incomplete''"
| "note_text b58 (LiveVaults r w n) =
     ''live_vaults repay_mint='' @ short_pk b58 r @ '' withdraw_coll='' @ short_pk b58 w @ '' n_reserves='' @ show_nat n"
| "note_text b58 (ReferrerStates k n) = ''referrer='' @ short_pk b58 k @ '' referrer_token_states='' @ show_nat n"
| "note_text b58 (UserAtas l w) = ''ATAs liq='' @ short_pk b58 l @ '' coll='' @ short_pk b58 w"
| "note_text b58 FromLive = ''PlanAccountSet from live Klend positions+reserves (ATA+farm+referrer wiring)''"
| "note_text b58 (Prefetched n m) = ''prefetched_ata_referrer_accounts present='' @ show_nat n @ ''/'' @ show_nat m"
| "note_text b58 (AtasMissing n m) = ''liquidator_atas missing='' @ show_nat n @ ''/'' @ show_nat m
     @ '' (CreateIdempotent will run for missing)''"
| "note_text b58 (PrefetchFailed e) = ''prefetch ATA/referrer: '' @ bootstrap_error_text e"

fun vtx_error_text :: "vtx_error \<Rightarrow> string" where
  "vtx_error_text EmptyInstructions = ''no instructions''"
| "vtx_error_text (TooManyKeys n) = ''too many account keys ('' @ show_nat n @ '') for u8 indices''"
| "vtx_error_text MissingKey = ''account key missing from message table''"

section \<open>Results of a simulation\<close>

record 'v sim_entry =
  se_account :: "string option"
  se_protocol :: string
  se_rpc_ok :: bool
  se_ok :: bool
  se_err :: "'v option"
  se_error :: "string option"
  se_units_consumed :: "u64 option"
  se_logs_trimmed :: "string list"
  se_plan_ix_count :: nat
  se_strategy_vtx :: bool
  se_account_notes :: "string list"
  se_plan_ix_labels :: "string list"

definition ellipsis :: string where
  "ellipsis = [CHR 0xE2, CHR 0x80, CHR 0xA6]"

definition trim_log :: "string \<Rightarrow> string" where
  "trim_log l = (if 240 < length l then take 240 l @ ellipsis else l)"

definition trim_logs :: "string list \<Rightarrow> string list" where
  "trim_logs logs =
     (if length logs \<le> 28 then map trim_log logs
      else map trim_log (take 12 logs) @ [ellipsis] @ map trim_log (rev (take 14 (rev logs))))"

fun join_semicolon :: "string list \<Rightarrow> string" where
  "join_semicolon [] = ''''"
| "join_semicolon [x] = x"
| "join_semicolon (x # xs) = x @ ''; '' @ join_semicolon xs"

text \<open>How far the simulations of Kamino plans got: the successes first, then the errors of an instruction.\<close>

definition err_text :: "'v json_rpc_api \<Rightarrow> 'v sim_entry \<Rightarrow> string" where
  "err_text j s = j_to_string j (case se_err s of Some e \<Rightarrow> e | None \<Rightarrow> j_null j)"

definition progress_rank :: "'v json_rpc_api \<Rightarrow> 'v sim_entry \<Rightarrow> nat" where
  "progress_rank j s =
     (let has_ix_err = (case se_err s of
            Some e \<Rightarrow> \<not> j_is_null j e \<and> str_contains (j_to_string j e) ''InstructionError'' | None \<Rightarrow> False)
      in if se_ok s then 0 else if has_ix_err then 1 else 2)"

definition next_error_name :: "string \<Rightarrow> string" where
  "next_error_name err_s =
     (if str_contains err_s ''6009'' then
        ''Custom 6009 ReserveStale (reserve needs refresh '' @ [CHR 0xE2, CHR 0x80, CHR 0x94]
          @ '' often post-flash_borrow before liquidate)''
      else if str_contains err_s ''6017'' then ''Custom 6017 ObligationStale''
      else if str_contains err_s ''6016'' then
        ''Custom 6016 ObligationHealthy (candidate selection/health decode '' @ [CHR 0xE2, CHR 0x80, CHR 0x94]
          @ '' flash+refresh path past ReserveStale)''
      else ''see err'')"

definition labels_hint :: "'v sim_entry \<Rightarrow> string" where
  "labels_hint s = join_semicolon (filter (\<lambda>t. str_contains t ''CreateIdempotent''
     \<or> str_contains t ''liquidator_atas'' \<or> str_contains t ''missing'') (se_account_notes s))"

fun progress_loop :: "'v json_rpc_api \<Rightarrow> string \<Rightarrow> 'v sim_entry list \<Rightarrow> string" where
  "progress_loop j best [] = best"
| "progress_loop j best (s # ss) =
     (let units = show_nat (case se_units_consumed s of Some u \<Rightarrow> unat u | None \<Rightarrow> 0);
          err_s = err_text j s
      in if se_ok s then
           ''Kamino progress: strategy vtx sim SUCCEEDED (units='' @ units
             @ ''); CreateIdempotent path cleared AccountNotInitialized''
         else if j_is_null j (case se_err s of Some e \<Rightarrow> e | None \<Rightarrow> j_null j) \<or> err_s = ''null'' then
           progress_loop j (''Kamino progress: sim without InstructionError (rpc/encode); notes='' @ labels_hint s
             @ ''; units='' @ units) ss
         else if \<not> str_contains err_s ''3012'' then
           ''Kamino progress: ''
             @ (if \<not> str_contains err_s ''6009''
                then ''past 3012 AccountNotInitialized and 6009 ReserveStale''
                else ''past liquidate AccountNotInitialized (3012)'')
             @ ''; next='' @ next_error_name err_s @ ''; raw='' @ err_s @ ''; units='' @ units
         else progress_loop j (''Kamino progress: CreateIdempotent ATAs before flash/liquidate (seen_in_logs=''
             @ show_bool (\<exists>l \<in> set (se_logs_trimmed s). str_contains l ''CreateIdempotent''
                           \<or> str_contains l ''Associated Token'')
             @ ''); sim err='' @ err_s @ ''; units='' @ units @ ''; notes='' @ labels_hint s) ss)"

definition summarize_kamino_sim_progress :: "'v json_rpc_api \<Rightarrow> 'v sim_entry list \<Rightarrow> string" where
  "summarize_kamino_sim_progress j results =
     progress_loop j ''Kamino shadow: no strategy sims''
       (sort_key (progress_rank j) (filter (\<lambda>s. se_protocol s = ''Kamino'') results))"

section \<open>The run\<close>

definition sim_fee_payer_candidates :: "string list" where
  "sim_fee_payer_candidates =
     [''5pHk2TmnqQzRF9L6egy5FfiyBgS7G9cMZ5RFaJAvghzw'', ''5tzFkiKscXHK5ZXCGbXZxdw7gTjjD1mBwuoFbhUvuAi9'']"

fun funded_candidate :: "crypto \<Rightarrow> 'v json_rpc_api \<Rightarrow> 'v json_rpc_bootstrap \<Rightarrow> string list
    \<Rightarrow> (pubkey \<times> string) option" where
  "funded_candidate c j boot [] = None"
| "funded_candidate c j boot (cand # cands) =
     (case pubkey_from_base58 c cand of
        None \<Rightarrow> funded_candidate c j boot cands
      | Some key \<Rightarrow> (case json_get_account_info c j boot key of
            Inr (Some a) \<Rightarrow> if 0 < ra_lamports a then Some (ra_pubkey a, short_b58 cand)
                           else funded_candidate c j boot cands
          | _ \<Rightarrow> funded_candidate c j boot cands))"

definition resolve_shadow_fee_payer :: "crypto \<Rightarrow> 'v json_rpc_api \<Rightarrow> process_env \<Rightarrow> 'v json_rpc_bootstrap
    \<Rightarrow> shadow_error + (pubkey \<times> string \<times> string)" where
  "resolve_shadow_fee_payer c j vars boot =
     (let t = trim (case vars ''SHADOW_FEE_PAYER'' of Some s \<Rightarrow> s | None \<Rightarrow> '''')
      in case (if t = '''' then None else pubkey_from_base58 c t) of
           Some key \<Rightarrow> Inr (key, short_b58 t, ''SHADOW_FEE_PAYER env'')
         | None \<Rightarrow> (case funded_candidate c j boot sim_fee_payer_candidates of
             Some (key, short) \<Rightarrow> Inr (key, short, ''known SIM_FEE_PAYER_CANDIDATES'')
           | None \<Rightarrow> (case pubkey_from_base58 c (hd sim_fee_payer_candidates) of
               Some key \<Rightarrow> Inr (key, short_b58 (hd sim_fee_payer_candidates),
                 ''default documented placeholder (Save market owner)'')
             | None \<Rightarrow> Inl FeePayerUndecodable)))"

definition hot_candidates :: "discovery_report \<Rightarrow> discovered_account list" where
  "hot_candidates rep =
     (if dr_liquidatable_candidates rep \<noteq> [] then dr_liquidatable_candidates rep
      else filter (\<lambda>c. ''liquidatable=true'' \<in> set (da_notes c)
             \<or> (da_band c = Some ''CRITICAL'' \<and> da_decode c = ''live_health''
                \<and> (case da_health c of Some h \<Rightarrow> h < 1 | None \<Rightarrow> False))) (dr_candidates rep))"

definition protocol_named :: "string \<Rightarrow> protocol option" where
  "protocol_named s =
     (if s = ''Kamino'' then Some Kamino else if s = ''Project0'' then Some Project0
      else if s = ''Save'' then Some Save else None)"

text \<open>\<open>mn_order\<close> is the order the encoder's hash map iterates in, \<open>mn_debug\<close> prints an optional
  number and \<open>mn_fmt6\<close> one with six decimals.\<close>

record 'v mainnet_env = "'v shadow_env" +
  mn_fmt6 :: "f64 \<Rightarrow> string"
  mn_debug :: "f64 option \<Rightarrow> string"
  mn_order :: "instruction list \<Rightarrow> pubkey \<Rightarrow> pubkey list"

record 'v mainnet_state =
  ms_engine :: execution_engine
  ms_now :: nat
  ms_calls :: nat
  ms_planned :: nat
  ms_sims :: "'v sim_entry list"

definition rpc_of :: "crypto \<Rightarrow> 'v json_rpc_api \<Rightarrow> 'v json_rpc_bootstrap \<Rightarrow> bootstrap_error rpc_view" where
  "rpc_of c j boot = \<lparr>rpc_account_info = json_get_account_info c j boot,
     rpc_multiple = (\<lambda>_. json_get_multiple_accounts c j boot)\<rparr>"

definition sim_entry_of :: "'v json_rpc_api \<Rightarrow> 'v json_rpc_bootstrap \<Rightarrow> string option \<Rightarrow> string \<Rightarrow> nat \<Rightarrow> string list
    \<Rightarrow> string list \<Rightarrow> vtx_error + string \<Rightarrow> 'v sim_entry" where
  "sim_entry_of j boot account protocol n notes labels encoded =
     (let failed = \<lparr>se_account = account, se_protocol = protocol, se_rpc_ok = False, se_ok = False, se_err = None,
            se_error = None, se_units_consumed = None, se_logs_trimmed = [], se_plan_ix_count = n,
            se_strategy_vtx = True, se_account_notes = notes, se_plan_ix_labels = []\<rparr>
      in case encoded of
           Inl e \<Rightarrow> failed\<lparr>se_error := Some (''vtx encode: '' @ vtx_error_text e), se_strategy_vtx := False\<rparr>
         | Inr wire \<Rightarrow> (case json_simulate_transaction j boot wire False of
             Inl e \<Rightarrow> failed\<lparr>se_error := Some (bootstrap_error_text e)\<rparr>
           | Inr sim \<Rightarrow> failed\<lparr>se_rpc_ok := True, se_ok := sim_err sim = None, se_err := sim_err sim,
               se_units_consumed := sim_units_consumed sim, se_logs_trimmed := trim_logs (sim_logs sim),
               se_plan_ix_labels := labels\<rparr>))"

definition mainnet_tx :: "'v json_rpc_api \<Rightarrow> discovered_account \<Rightarrow> funding_strategy \<Rightarrow> labeled_ix list \<Rightarrow> prepared_tx" where
  "mainnet_tx j cand strategy planned =
     \<lparr>pt_label = ''mainnet-shadow-'' @ da_pubkey_short cand, pt_protocol = da_protocol cand,
      pt_account = da_pubkey_short cand, pt_notional_usd_micro = 1000000, pt_expected_profit_usd_micro = 0,
      pt_wire = ascii (shadow_tx_base64 j (map li_ix planned) ''11111111111111111111111111111111''),
      pt_ixs = map li_label planned, pt_instructions = map li_ix planned,
      pt_funding_strategy = Some (strategy_as_str strategy)\<rparr>"

definition mainnet_candidate :: "'v mainnet_env \<Rightarrow> 'v json_rpc_bootstrap \<Rightarrow> pubkey \<Rightarrow> u8 list \<Rightarrow> 'v mainnet_state
    \<Rightarrow> discovered_account \<Rightarrow> 'v mainnet_state \<times> shadow_error option" where
  "mainnet_candidate env boot payer blockhash s cand =
     (case protocol_named (da_protocol cand) of
        None \<Rightarrow> (s, None)
      | Some protocol \<Rightarrow>
          (case build_plan_accounts_for_candidate (sh_crypto env) (rpc_of (sh_crypto env) (sh_json env) boot)
                  (da_pubkey cand) protocol payer of
             Inl e \<Rightarrow> (s, Some ShadowPanic)
           | Inr (accounts, notes) \<Rightarrow>
               (let strategy = shadow_strategy protocol;
                    planned = pn_labeled (build_strategy_ixs (sh_crypto env) protocol strategy accounts 1000000 (sh_blob env));
                    wire_ixs = map li_ix planned;
                    tx = mainnet_tx (sh_json env) cand strategy planned;
                    (d1, d2) = sh_clock env (ms_calls s);
                    now = ms_now s + d1; later = now + d2;
                    (res, e') = execute now later (ms_engine s) tx 0;
                    s1 = s\<lparr>ms_engine := e', ms_now := later, ms_calls := ms_calls s + 1\<rparr>
                in case res of
                     Inl e \<Rightarrow> (s1, Some (ShadowExec e))
                   | Inr r \<Rightarrow>
                       if \<not> sr_dry_run r \<or> sr_signature r \<noteq> None then (s1, Some NotDryResult)
                       else (s1\<lparr>ms_planned := ms_planned s + 1, ms_sims := ms_sims s @
                          [sim_entry_of (sh_json env) boot (Some (da_pubkey_short cand)) (da_protocol cand) (length planned)
                             (map (note_text (b58_encode (sh_json env))) notes) (map li_label planned)
                             (encode_versioned_tx_base64 (b64_encode (sh_json env)) (mn_order env wire_ixs payer) wire_ixs
                                payer blockhash)]\<rparr>, None))))"

text \<open>When nothing was planned, a transaction with only a compute budget is simulated.\<close>

definition prove_vtx :: "'v mainnet_env \<Rightarrow> 'v json_rpc_bootstrap \<Rightarrow> pubkey \<Rightarrow> u8 list \<Rightarrow> 'v sim_entry list \<times> string list" where
  "prove_vtx env boot payer blockhash =
     (let ixs = [compute_unit_limit 200000, compute_unit_price 1000]
      in case encode_versioned_tx_base64 (b64_encode (sh_json env)) (mn_order env ixs payer) ixs payer blockhash of
           Inl e \<Rightarrow> ([], [''prove vtx encode failed: '' @ vtx_error_text e])
         | Inr wire \<Rightarrow> ([(sim_entry_of (sh_json env) boot None ''prove'' 0 [] [] (Inr wire))\<lparr>se_logs_trimmed := []\<rparr>], []))"

definition no_hot_gap :: "'v mainnet_env \<Rightarrow> klend_health_stats \<Rightarrow> string" where
  "no_hot_gap env st = ''no liquidatable found (decoded='' @ show_nat (ks_obligations_decoded st)
     @ '', with_debt='' @ show_nat (ks_with_debt st) @ '', liquidatable=0, below_maint=''
     @ show_nat (ks_below_maintenance st) @ '', median_hf='' @ mn_debug env (ks_median_health st)
     @ '', p10_hf='' @ mn_debug env (ks_p10_health st) @ '')''"

record 'v shadow_report =
  rep_discovery :: discovery_report
  rep_hot :: nat
  rep_plans_built :: nat
  rep_simulate_results :: "'v sim_entry list"
  rep_fee_payer_source :: string
  rep_gaps :: "string list"
  rep_engine :: execution_engine

definition mainnet_report :: "'v mainnet_env \<Rightarrow> 'v json_rpc_bootstrap \<Rightarrow> pubkey \<Rightarrow> string \<Rightarrow> u8 list
    \<Rightarrow> discovery_report \<Rightarrow> 'v mainnet_state \<Rightarrow> 'v shadow_report" where
  "mainnet_report env boot payer source blockhash discovery s =
     (let hot = hot_candidates discovery;
          no_hot = (if hot = [] then (case dr_klend_health_stats discovery of
                        Some st \<Rightarrow> [no_hot_gap env st] | None \<Rightarrow> []) else []);
          no_plan = (if ms_planned s = 0 then
             [''no liquidatable candidates to strategy-simulate (honest zero '' @ [CHR 0xE2, CHR 0x80, CHR 0x94]
                @ '' not pretending CRITICAL)''] else []);
          (sims, no_prove) = (if ms_planned s = 0 then prove_vtx env boot payer blockhash else ([], []));
          results = ms_sims s @ sims
      in \<lparr>rep_discovery = discovery, rep_hot = length hot, rep_plans_built = ms_planned s,
          rep_simulate_results = results, rep_fee_payer_source = source,
          rep_gaps = dr_gaps discovery @ no_hot @ no_plan @ no_prove
            @ [''shadow fee payer source='' @ source @ ''; SHADOW_FEE_PAYER is pubkey-only (never a private key)'',
               summarize_kamino_sim_progress (sh_json env) results],
          rep_engine = ms_engine s\<rparr>)"

text \<open>\<open>vars\<close> is the environment with the local files loaded, \<open>connect\<close> makes the transport of a pool.\<close>

definition run_mainnet_shadow :: "'v mainnet_env \<Rightarrow> process_env \<Rightarrow> (rpc_pool \<Rightarrow> 'v transport) \<Rightarrow> nat
    \<Rightarrow> shadow_error + 'v shadow_report" where
  "run_mainnet_shadow env vars connect now =
     (let c = sh_crypto env; j = sh_json env; urls = rpc_urls_from_env vars
      in if \<not> env_dry_run vars then Inl NotDryRun
         else if urls = [] \<or> \<not> list_ex rpc_url_configured urls then Inl NoEndpoints
         else case pool_from_env vars of
           Inl e \<Rightarrow> Inl (ShadowBootstrap e)
         | Inr pool \<Rightarrow> (case discover_mainnet c j (mn_fmt6 env) (connect pool) of
             Inl e \<Rightarrow> Inl (ShadowBootstrap e)
           | Inr discovery \<Rightarrow>
               (let boot = json_rpc_bootstrap_new (connect pool);
                    host = (case current_host pool of Some h \<Rightarrow> h | None \<Rightarrow> '''')
                in and_then (resolve_shadow_fee_payer c j vars boot) (\<lambda>(payer, short, source).
                     let blockhash = (case get_latest_blockhash c j boot of
                            Inr (h, slot) \<Rightarrow> h | Inl e \<Rightarrow> replicate 32 0);
                         s0 = \<lparr>ms_engine = shadow_engine host, ms_now = now, ms_calls = 0, ms_planned = 0, ms_sims = []\<rparr>
                     in case run_until (mainnet_candidate env boot payer blockhash) s0
                               (take 3 (hot_candidates discovery)) of
                          (s, Some e) \<Rightarrow> Inl e
                        | (s, None) \<Rightarrow> Inr (mainnet_report env boot payer source blockhash discovery s)))))"

datatype 'v shadow_outcome =
  MainnetRun "shadow_error + 'v shadow_report"
| FixtureRun "shadow_error + (shadow_state \<times> shadow_error option)"

text \<open>\<open>load\<close> adds the local files to the environment.\<close>

definition shadow_main :: "'v mainnet_env \<Rightarrow> process_env \<Rightarrow> (process_env \<Rightarrow> process_env)
    \<Rightarrow> (rpc_pool \<Rightarrow> 'v transport) \<Rightarrow> (string \<Rightarrow> bool)
    \<Rightarrow> (string \<Rightarrow> stream_error + oracle_ticks_file) \<Rightarrow> (string \<Rightarrow> stream_error + borrowers_file)
    \<Rightarrow> string list \<Rightarrow> u64 \<Rightarrow> nat \<Rightarrow> 'v shadow_outcome" where
  "shadow_main env vars load connect has_ticks read_ticks read_borrowers args now_us now =
     (if wants_mainnet vars args then MainnetRun (run_mainnet_shadow env (load vars) connect now)
      else FixtureRun (run_fixture_shadow (shadow_env.truncate env) vars
             (List.find (\<lambda>a. \<not> starts_with a ''--'') args) has_ticks read_ticks read_borrowers now_us now))"

section \<open>Only reads\<close>

text \<open>
  Two transports that answer the reading methods and the simulation alike cannot be told apart: whatever they do with
  other requests, \<^verbatim>\<open>sendTransaction\<close> among them, no such request is ever made.
\<close>

definition read_methods :: "string list" where
  "read_methods = [''getSlot'', ''getHealth'', ''getLatestBlockhash'', ''getAccountInfo'', ''getMultipleAccounts'',
     ''getProgramAccounts'', ''simulateTransaction'']"

definition same_reads :: "'v json_rpc_api \<Rightarrow> 'v transport \<Rightarrow> 'v transport \<Rightarrow> bool" where
  "same_reads j t t' \<longleftrightarrow> (\<forall>m \<in> set read_methods. \<forall>params. t (jsonrpc_request j m params) = t' (jsonrpc_request j m params))"

definition same_boot :: "'v json_rpc_api \<Rightarrow> 'v json_rpc_bootstrap \<Rightarrow> 'v json_rpc_bootstrap \<Rightarrow> bool" where
  "same_boot j b b' \<longleftrightarrow> jb_commitment b = jb_commitment b' \<and> same_reads j (jb_transport b) (jb_transport b')"

lemma same_boot_new: "same_reads j t t' \<Longrightarrow> same_boot j (json_rpc_bootstrap_new t) (json_rpc_bootstrap_new t')"
  by (simp add: same_boot_def json_rpc_bootstrap_new_def)

lemmas request_defs = jsonrpc_get_slot_def jsonrpc_get_health_def jsonrpc_get_latest_blockhash_def
  jsonrpc_get_account_info_def jsonrpc_get_multiple_accounts_def jsonrpc_get_program_accounts_filtered_def
  jsonrpc_simulate_transaction_def

lemma same_boot_client:
  assumes "same_boot j b b'"
  shows "get_slot j b = get_slot j b'" "get_health j b = get_health j b'"
    "get_latest_blockhash c j b = get_latest_blockhash c j b'"
    "json_get_account_info c j b = json_get_account_info c j b'"
    "json_get_multiple_accounts c j b = json_get_multiple_accounts c j b'"
    "json_get_program_accounts_filtered c j b = json_get_program_accounts_filtered c j b'"
    "json_simulate_transaction j b = json_simulate_transaction j b'"
  using assms
  by (simp_all add: fun_eq_iff same_boot_def same_reads_def read_methods_def request_defs get_slot_def get_health_def
      get_latest_blockhash_def json_get_account_info_def json_get_multiple_accounts_def
      json_get_program_accounts_filtered_def json_simulate_transaction_def)

lemma same_boot_save_sizes: "same_boot j b b' \<Longrightarrow> scan_save_sizes c j b ns s = scan_save_sizes c j b' ns s"
  by (induction ns arbitrary: s) (simp_all add: same_boot_client(6) cong: sum.case_cong if_cong)

lemma same_boot_phases:
  assumes "same_boot j b b'"
  shows "discover_phases c j fmt6 b gaps known = discover_phases c j fmt6 b' gaps known"
  by (simp only: discover_phases_def scan_reserves_def scan_obligations_def scan_marginfi_def scan_save_def
      same_boot_client(6) [OF assms] same_boot_save_sizes [OF assms])

lemma same_reads_discover:
  assumes "same_reads j t t'" shows "discover_mainnet c j fmt6 t = discover_mainnet c j fmt6 t'"
  unfolding discover_mainnet_def Let_def
  by (simp only: same_boot_client [OF same_boot_new [OF assms]] same_boot_phases [OF same_boot_new [OF assms]])

lemma same_boot_payer:
  assumes "same_boot j b b'"
  shows "resolve_shadow_fee_payer c j vars b = resolve_shadow_fee_payer c j vars b'"
proof -
  have "funded_candidate c j b cands = funded_candidate c j b' cands" for cands
    by (induction cands) (simp_all add: same_boot_client [OF assms] cong: sum.case_cong option.case_cong if_cong)
  then show ?thesis by (simp only: resolve_shadow_fee_payer_def)
qed

lemma same_boot_sim: "same_boot j b b' \<Longrightarrow> sim_entry_of j b = sim_entry_of j b'"
  by (simp add: fun_eq_iff sim_entry_of_def same_boot_client(7) cong: sum.case_cong)

lemma same_boot_candidate:
  assumes "same_boot (sh_json env) b b'"
  shows "mainnet_candidate env b payer blockhash = mainnet_candidate env b' payer blockhash"
    "mainnet_report env b payer source blockhash = mainnet_report env b' payer source blockhash"
proof -
  note sim = same_boot_sim [OF assms]
  have rpc: "rpc_of c (sh_json env) b = rpc_of c (sh_json env) b'" for c
    by (simp only: rpc_of_def same_boot_client [OF assms])
  show "mainnet_candidate env b payer blockhash = mainnet_candidate env b' payer blockhash"
    by (intro ext) (simp only: mainnet_candidate_def rpc sim)
  have "prove_vtx env b payer blockhash = prove_vtx env b' payer blockhash"
    by (simp only: prove_vtx_def sim)
  then show "mainnet_report env b payer source blockhash = mainnet_report env b' payer source blockhash"
    by (intro ext) (simp only: mainnet_report_def)
qed

lemma hot_is_liquidatable:
  assumes "discover_mainnet c j fmt6 t = Inr rep"
  shows "hot_candidates rep = dr_liquidatable_candidates rep"
proof -
  have "dr_candidates rep = take 32 (dr_liquidatable_candidates rep)"
    using assms by (auto simp: discover_mainnet_def Let_def split_beta and_then_Inr_iff simp del: known_market_entries.simps)
  then show ?thesis by (simp add: hot_candidates_def)
qed

section \<open>Nothing stops the plans\<close>

text \<open>The engine after \<open>k\<close> dry runs of one dollar.\<close>

definition quiet_engine :: "nat \<Rightarrow> execution_engine \<Rightarrow> bool" where
  "quiet_engine k e \<longleftrightarrow> ec_dry_run (ee_config e) \<and> cb_limits (ee_risk e) = risk_limits_default
     \<and> \<not> cb_paused (ee_risk e) \<and> \<not> cb_open (ee_risk e) \<and> cb_in_flight (ee_risk e) = 0
     \<and> sum_list (map (\<lambda>(t, n). unat n) (rw_events (cb_rolling (ee_risk e)))) \<le> k * 1000000
     \<and> m_liquidations_failed (ee_metrics e) = 0"

lemma prune_sum_le:
  "sum_list (map (\<lambda>(t, n). unat n) (filter P (xs :: (nat \<times> u64) list))) \<le> sum_list (map (\<lambda>(t, n). unat n) xs)"
  by (induction xs) auto

lemma unat_sum_le: "unat (sum_list (map snd (xs :: (nat \<times> u64) list))) \<le> sum_list (map (\<lambda>(t, n). unat n) xs)"
proof (induction xs)
  case (Cons x xs)
  have "unat (snd x + sum_list (map snd xs)) \<le> unat (snd x) + unat (sum_list (map snd xs))"
    by (simp add: unat_word_ariths(1))
  with Cons show ?case by (simp add: split_beta)
qed simp

lemma quiet_execute:
  assumes "quiet_engine k e" "pt_notional_usd_micro tx = 1000000" "k < 100000"
  shows "\<exists>r. fst (execute now later e tx 0) = Inr r \<and> sr_dry_run r \<and> sr_signature r = None
    \<and> quiet_engine (Suc k) (snd (execute now later e tx 0))"
proof -
  let ?cb = "ee_risk e" and ?sum = "\<lambda>xs. sum_list (map (\<lambda>(t, n). unat n) (xs :: (nat \<times> u64) list))"
  define cb' where "cb' = ?cb\<lparr>cb_rolling := rw_prune (cb_rolling ?cb) now\<rparr>"
  have q: "ec_dry_run (ee_config e)" "cb_limits ?cb = risk_limits_default" "\<not> cb_paused ?cb" "\<not> cb_open ?cb"
      "cb_in_flight ?cb = 0" "?sum (rw_events (cb_rolling ?cb)) \<le> k * 1000000" "m_liquidations_failed (ee_metrics e) = 0"
    using assms(1) by (simp_all add: quiet_engine_def)
  have "unat (fst (rw_sum (cb_rolling ?cb) now)) \<le> ?sum (rw_events (rw_prune (cb_rolling ?cb) now))"
    using unat_sum_le by (simp add: rw_sum_def Let_def)
  also have pruned: "\<dots> \<le> k * 1000000"
    using prune_sum_le q(6) by (auto simp: rw_prune_def intro: order_trans)
  finally have "unat (fst (rw_sum (cb_rolling ?cb) now)) + unat (1000000 :: u64) \<le> 2000000000000"
    using assms(3) by simp
  then have "sat_add (fst (rw_sum (cb_rolling ?cb) now)) 1000000 \<le> 2000000000000"
    by (simp add: word_le_nat_alt unat_sat_add)
  then have ok: "check_allow now ?cb 1000000 0 = (Inr (), cb')"
    by (simp add: check_allow_Inr q cb'_def risk_limits_default_def)
  have sum: "?sum (rw_events (cb_rolling (cb_begin later cb' 1000000))) \<le> Suc k * 1000000"
  proof -
    have "?sum (rw_events (cb_rolling (cb_begin later cb' 1000000))) =
        ?sum (rw_events (rw_prune (rw_prune (cb_rolling ?cb) now) later)) + 1000000"
      by (simp add: cb_begin_def rw_push_def Let_def cb'_def)
    moreover have "?sum (rw_events (rw_prune (rw_prune (cb_rolling ?cb) now) later)) \<le> k * 1000000"
      using prune_sum_le pruned by (subst rw_prune_def) (auto intro: order_trans)
    ultimately show ?thesis by simp
  qed
  show ?thesis
    using sum by (simp add: execute_def assms(2) ok q(1,7) quiet_engine_def Let_def begin_end_in_flight(1) [OF ok q(5)])
      (simp add: cb'_def cb_begin_def end_success_def q)
qed

lemma decode_vaults_total: "decode_vaults fetched ks vaults ns \<noteq> Inl e"
proof (induction ks arbitrary: vaults ns)
  case (Cons k ks)
  obtain i key where k: "k = (i, key)" by (cases k)
  show ?case
    by (cases "fetched_at fetched i") (auto simp: k decode_live_vaults_total Cons.IH)
qed simp

lemma plan_with_positions_total: "plan_with_positions c rpc obl payer pos ns \<noteq> Inl e"
  by (auto simp: plan_with_positions_def Let_def and_then_def decode_vaults_total
      split: option.split sum.split prod.split)

lemma build_plan_total: "build_plan_accounts_for_candidate c rpc cand protocol payer \<noteq> Inl e"
  by (auto simp: build_plan_accounts_for_candidate_def decode_live_positions_total plan_with_positions_total
      split: option.split sum.split)

definition mainnet_inv :: "'v mainnet_state \<Rightarrow> bool" where
  "mainnet_inv s \<longleftrightarrow> quiet_engine (ms_planned s) (ms_engine s) \<and> length (ms_sims s) = ms_planned s"

lemma mainnet_candidate_step:
  assumes "mainnet_inv s" "ms_planned s < 100000"
  shows "\<exists>s'. mainnet_candidate env boot payer blockhash s cand = (s', None) \<and> mainnet_inv s'
    \<and> ms_planned s' = ms_planned s + (if protocol_named (da_protocol cand) = None then 0 else 1)"
proof (cases "protocol_named (da_protocol cand)")
  case None
  with assms show ?thesis by (simp add: mainnet_candidate_def)
next
  case (Some protocol)
  obtain accounts ns where plan: "build_plan_accounts_for_candidate (sh_crypto env) (rpc_of (sh_crypto env) (sh_json env) boot)
      (da_pubkey cand) protocol payer = Inr (accounts, ns)"
    using build_plan_total [of "sh_crypto env" "rpc_of (sh_crypto env) (sh_json env) boot" "da_pubkey cand" protocol payer]
    by (metis sum.exhaust surj_pair)
  obtain d1 d2 where d: "sh_clock env (ms_calls s) = (d1, d2)" by (cases "sh_clock env (ms_calls s)")
  let ?planned = "pn_labeled (build_strategy_ixs (sh_crypto env) protocol (shadow_strategy protocol) accounts 1000000 (sh_blob env))"
  let ?tx = "mainnet_tx (sh_json env) cand (shadow_strategy protocol) ?planned"
  have "pt_notional_usd_micro ?tx = 1000000" by (simp add: mainnet_tx_def)
  from quiet_execute [OF _ this assms(2), of "ms_engine s" "ms_now s + d1" "ms_now s + d1 + d2"] assms(1)
  obtain r e' where "execute (ms_now s + d1) (ms_now s + d1 + d2) (ms_engine s) ?tx 0 = (Inr r, e')" "sr_dry_run r"
      "sr_signature r = None" "quiet_engine (Suc (ms_planned s)) e'"
    by (auto simp: mainnet_inv_def prod_eq_iff)
  then show ?thesis
    using assms(1) by (simp add: mainnet_candidate_def Some plan d Let_def mainnet_inv_def)
qed

lemma mainnet_candidates_run:
  assumes "mainnet_inv s" "ms_planned s + length cands \<le> 100000"
  shows "\<exists>s'. run_until (mainnet_candidate env boot payer blockhash) s cands = (s', None) \<and> mainnet_inv s'
    \<and> ms_planned s' = ms_planned s + length (filter (\<lambda>c. protocol_named (da_protocol c) \<noteq> None) cands)"
  using assms
proof (induction cands arbitrary: s)
  case (Cons cand cands)
  obtain s1 where s1: "mainnet_candidate env boot payer blockhash s cand = (s1, None)" "mainnet_inv s1"
      "ms_planned s1 = ms_planned s + (if protocol_named (da_protocol cand) = None then 0 else 1)"
    using mainnet_candidate_step [OF Cons.prems(1)] Cons.prems(2) by fastforce
  have "ms_planned s1 + length cands \<le> 100000" using s1(3) Cons.prems(2) by auto
  from Cons.IH [OF s1(2) this] s1 show ?case by auto
qed simp

text \<open>The summary reports a success whenever a Kamino plan succeeded.\<close>

lemma progress_success:
  assumes "s \<in> set results" "se_protocol s = ''Kamino''" "se_ok s"
  shows "\<exists>units. summarize_kamino_sim_progress j results
    = ''Kamino progress: strategy vtx sim SUCCEEDED (units='' @ units
        @ ''); CreateIdempotent path cleared AccountNotInitialized''"
proof -
  let ?ss = "sort_key (progress_rank j) (filter (\<lambda>s. se_protocol s = ''Kamino'') results)"
  have "s \<in> set ?ss" using assms by simp
  then obtain h t where ss: "?ss = h # t" by (cases ?ss) auto
  have "sorted (map (progress_rank j) ?ss)" by simp
  then have "progress_rank j h \<le> progress_rank j s"
    using \<open>s \<in> set ?ss\<close> unfolding ss by auto
  then have "se_ok h" using assms(3) by (auto simp: progress_rank_def Let_def split: if_splits)
  then show ?thesis
    unfolding summarize_kamino_sim_progress_def ss by (simp add: Let_def)
qed

section \<open>Properties\<close>



section \<open>Witnesses\<close>

definition sample_vars :: process_env where
  "sample_vars = [''RPC_URL'' \<mapsto> ''https://rpc.test'', ''SHADOW_FEE_PAYER'' \<mapsto> ''payer'']"

text \<open>A chain at slot 1 without accounts.\<close>

definition sample_transport :: "json transport" where
  "sample_transport r =
     (if j_get json_tree r ''method'' = Some (JStr ''getSlot'') then Inr (JObj [(''result'', JNum 1)])
      else Inr (JObj [(''result'', JObj [(''value'', JArr [])])]))"

definition sample_mainnet :: "json mainnet_env" where
  "sample_mainnet = \<lparr>sh_crypto = sample_crypto, sh_json = json_tree, sh_blob = blob_default, sh_clock = (\<lambda>_. (1, 2)),
     mn_fmt6 = (\<lambda>_. ''''), mn_debug = (\<lambda>_. ''''), mn_order = (\<lambda>_ _. [])\<rparr>"

lemma sample_urls: "rpc_urls_from_env sample_vars = [''https://rpc.test'']"
  by code_simp

lemma sample_pool: "pool_from_env sample_vars = Inr (pool_of [''https://rpc.test''] 1)"
proof -
  have "map trim [''https://rpc.test''] = [''https://rpc.test'']" by code_simp
  moreover have "str_contains ''https://rpc.test'' ''YOUR_'' = False" by code_simp
  ultimately show ?thesis
    unfolding pool_from_env_def sample_urls from_urls_def Let_def by simp
qed

lemma sample_answers:
  "sample_transport (jsonrpc_request json_tree ''getSlot'' ps) = Inr (JObj [(''result'', JNum 1)])"
  "m \<noteq> ''getSlot'' \<Longrightarrow> sample_transport (jsonrpc_request json_tree m ps) = Inr (JObj [(''result'', JObj [(''value'', JArr [])])])"
  by (simp_all add: sample_transport_def jsonrpc_request_def json_tree_def)

lemma sample_discovery: "\<exists>rep. discover_mainnet sample_crypto json_tree fmt6 sample_transport = Inr rep"
proof -
  let ?boot = "json_rpc_bootstrap_new sample_transport"
  have slot: "get_slot json_tree ?boot = Inr 1"
    by (simp add: get_slot_def json_rpc_bootstrap_new_def jsonrpc_get_slot_def sample_answers)
      (simp add: json_tree_def)
  have pk: "pk sample_crypto s = Inr (Pubkey (replicate 32 7))" for s
    by (simp add: pk_def sample_fetched(1))
  have many: "\<exists>r. json_get_multiple_accounts sample_crypto json_tree ?boot [a, b, d] = Inr r" for a b d
    by (simp add: json_get_multiple_accounts_def json_rpc_bootstrap_new_def jsonrpc_get_multiple_accounts_def
        sample_answers) (simp add: json_tree_def parse_account_value_def)
  from many [of "Pubkey (replicate 32 7)" "Pubkey (replicate 32 7)" "Pubkey (replicate 32 7)"] show ?thesis
    by (auto simp: discover_mainnet_def Let_def split_beta slot pk simp del: known_market_entries.simps)
qed

lemma sample_payer:
  "resolve_shadow_fee_payer sample_crypto json_tree sample_vars boot
    = Inr (Pubkey (replicate 32 7), ''payer'', ''SHADOW_FEE_PAYER env'')"
proof -
  have "trim ''payer'' = ''payer''" "short_b58 ''payer'' = ''payer''" by code_simp+
  then show ?thesis by (simp add: resolve_shadow_fee_payer_def sample_vars_def sample_fetched(1))
qed



end
