(* ===== verification/PlanWire.thy ===== *)
theory PlanWire
  imports LivePlan Vtx
begin

text \<open>
  From an account set to the bytes of a transaction. A key of the code is an array of 32 bytes, a key of the model a
  list: here is shown that every account set the planner starts from, and every instruction it makes of one, has
  keys of 32 bytes, which is what the encoder of theory \<open>Vtx\<close> needs, so that a plan can be read back from
  the wire. The lemmas of the builders are collected in \<open>typed\<close>.
\<close>

named_theorems typed \<open>instructions and account sets have keys of 32 bytes\<close>

section \<open>Typing\<close>

definition ix_typed :: "pubkey \<Rightarrow> labeled_ix \<Rightarrow> bool" where
  "ix_typed w l \<longleftrightarrow> pubkey_wf (ix_program_id (li_ix l)) \<and> (\<forall>a \<in> set (ix_accounts (li_ix l)). pubkey_wf (am_pubkey a)
     \<and> (am_is_signer a \<longrightarrow> am_pubkey a = w))"

definition opt_typed :: "pubkey option \<Rightarrow> bool" where
  "opt_typed v \<longleftrightarrow> (\<forall>k. v = Some k \<longrightarrow> pubkey_wf k)"

definition keys_typed :: "pubkey list \<Rightarrow> bool" where
  "keys_typed ks \<longleftrightarrow> (\<forall>k \<in> set ks. pubkey_wf k)"

definition refresh_typed :: "refresh_reserve_accounts \<Rightarrow> bool" where
  "refresh_typed r \<longleftrightarrow> pubkey_wf (rr_reserve r) \<and> pubkey_wf (rr_lending_market r) \<and> pubkey_wf (rr_pyth_oracle r)
     \<and> pubkey_wf (rr_switchboard_price r) \<and> pubkey_wf (rr_switchboard_twap r) \<and> pubkey_wf (rr_scope_prices r)"

definition plan_typed :: "pubkey \<Rightarrow> plan_account_set \<Rightarrow> bool" where
  "plan_typed w a \<longleftrightarrow> pubkey_wf w \<and> pa_liquidator a = w \<and> pubkey_wf (pa_obligation a) \<and> pubkey_wf (pa_lending_market a)
     \<and> pubkey_wf (pa_lending_market_authority a) \<and> pubkey_wf (pa_repay_reserve a) \<and> pubkey_wf (pa_withdraw_reserve a)
     \<and> pubkey_wf (pa_user_liquidity a) \<and> pubkey_wf (pa_user_collateral a)
     \<and> opt_typed (pa_repay_liquidity_mint a) \<and> opt_typed (pa_repay_liquidity_supply a)
     \<and> opt_typed (pa_repay_fee_receiver a) \<and> opt_typed (pa_withdraw_liquidity_mint a)
     \<and> opt_typed (pa_withdraw_collateral_mint a) \<and> opt_typed (pa_withdraw_collateral_supply a)
     \<and> opt_typed (pa_withdraw_liquidity_supply a) \<and> opt_typed (pa_withdraw_fee_receiver a)
     \<and> opt_typed (pa_repay_token_program a) \<and> opt_typed (pa_withdraw_token_program a)
     \<and> keys_typed (pa_deposit_reserves_extra a) \<and> keys_typed (pa_borrow_reserves_extra a)
     \<and> list_all refresh_typed (pa_refresh_reserve_metas a)
     \<and> opt_typed (pa_user_destination_liquidity a)
     \<and> opt_typed (pa_collateral_obligation_farm_user_state a) \<and> opt_typed (pa_collateral_reserve_farm_state a)
     \<and> opt_typed (pa_debt_obligation_farm_user_state a) \<and> opt_typed (pa_debt_reserve_farm_state a)
     \<and> keys_typed (pa_referrer_token_states a)"

lemma opt_typed_simps [simp]:
  "opt_typed None" "opt_typed (Some k) \<longleftrightarrow> pubkey_wf k"
  "opt_typed v \<Longrightarrow> pubkey_wf d \<Longrightarrow> pubkey_wf (unwrap_or v d)"
  by (cases v; simp add: opt_typed_def unwrap_or_def)+

lemma keys_typed_simps [simp]:
  "keys_typed []" "keys_typed (k # ks) \<longleftrightarrow> pubkey_wf k \<and> keys_typed ks"
  "keys_typed (ks @ ks') \<longleftrightarrow> keys_typed ks \<and> keys_typed ks'"
  by (auto simp: keys_typed_def)

lemma ix_typed_new [simp]:
  "ix_typed w (labeled l (instruction_new p ms d)) \<longleftrightarrow> pubkey_wf p \<and> (\<forall>m \<in> set ms. pubkey_wf (am_pubkey m)
     \<and> (am_is_signer m \<longrightarrow> am_pubkey m = w))"
  by (simp add: ix_typed_def labeled_def)

text \<open>The hash of a program address has 32 bytes.\<close>

definition hash_typed :: "crypto \<Rightarrow> bool" where
  "hash_typed c \<longleftrightarrow> (\<forall>bs. length (sha256 c bs) = 32)"

lemma find_program_address_typed [typed]:
  assumes "hash_typed c" shows "pubkey_wf (fst (find_program_address c seeds p))"
  using pda_search_correct [of 255 c seeds p] assms
  by (auto simp: find_program_address_def pda_hash_def hash_typed_def)

lemma ata_typed [typed]: "hash_typed c \<Longrightarrow> pubkey_wf (get_associated_token_address c o' m t)"
  by (simp add: get_associated_token_address_def typed)

lemma derived_typed [typed]:
  "hash_typed c \<Longrightarrow> pubkey_wf (klend_referrer_token_state c r k)"
  "hash_typed c \<Longrightarrow> pubkey_wf (lending_market_authority c k)"
  by (simp_all add: klend_referrer_token_state_def lending_market_authority_def typed)

lemma budget_typed [typed]: "ix_typed w (cu_limit_ix n)" "ix_typed w (cu_price_ix m)"
  by (simp_all add: cu_limit_ix_def cu_price_ix_def compute_unit_limit_def compute_unit_price_def)

section \<open>Builders\<close>

definition kamino_typed :: "pubkey \<Rightarrow> kamino_tx_build_params \<Rightarrow> bool" where
  "kamino_typed w p \<longleftrightarrow> pubkey_wf w \<and> pubkey_wf (kp_obligation p) \<and> keys_typed (kp_deposit_reserves p) \<and> keys_typed (kp_borrow_reserves p)
     \<and> ix_typed w (liquidate_ix p) \<and> pubkey_wf (lv_lending_market (kp_liquidate p))
     \<and> pubkey_wf (lv_withdraw_reserve (kp_liquidate p))
     \<and> list_all refresh_typed (kp_refresh_reserves p) \<and> keys_typed (kp_referrer_token_states p)
     \<and> (\<forall>e \<in> set (kp_ensure_atas p). ea_payer e = w \<and> pubkey_wf (ea_owner e) \<and> pubkey_wf (ea_mint e)
          \<and> pubkey_wf (ea_token_program e))"

lemma kamino_typedD [typed]:
  assumes "kamino_typed w p"
  shows "ix_typed w (liquidate_ix p)" "pubkey_wf (lv_withdraw_reserve (kp_liquidate p))"
  using assms by (simp_all add: kamino_typed_def)

lemma fix_oracle_typed [simp]: "pubkey_wf k \<Longrightarrow> pubkey_wf (fix_oracle_pubkey k)"
  by (simp add: fix_oracle_pubkey_def)

lemma refresh_ix_typed [typed]:
  assumes "kamino_typed w p" "pubkey_wf r" shows "ix_typed w (refresh_reserve_ix p r)"
proof (cases "List.find (\<lambda>x. rr_reserve x = r) (kp_refresh_reserves p)")
  case None
  with assms show ?thesis by (simp add: refresh_reserve_ix_def kamino_typed_def)
next
  case (Some rr)
  then have "rr \<in> set (kp_refresh_reserves p)" by (rule find_Some_set [THEN conjunct1])
  with assms have "refresh_typed rr" by (auto simp: kamino_typed_def list_all_iff)
  with Some show ?thesis by (simp add: refresh_reserve_ix_def refresh_typed_def)
qed

lemma refresh_obligation_typed [typed]:
  "kamino_typed w p \<Longrightarrow> keys_typed ks \<Longrightarrow> ix_typed w (refresh_obligation_ix p ks)"
  by (auto simp: refresh_obligation_ix_def Let_def kamino_typed_def keys_typed_def)

lemma refresh_keys_typed [typed]: "kamino_typed w p \<Longrightarrow> keys_typed (unique_refresh_reserve_keys p)"
  by (auto simp: unique_refresh_reserve_keys_def kamino_typed_def keys_typed_def list_all_iff refresh_typed_def)

lemma refresh_ixs_typed [typed]: "kamino_typed w p \<Longrightarrow> list_all (ix_typed w) (refresh_ixs p)"
  using refresh_keys_typed [of w p] by (auto simp: refresh_ixs_def Let_def list_all_iff typed keys_typed_def)

lemma post_refresh_typed [typed]:
  "kamino_typed w p \<Longrightarrow> pubkey_wf r \<Longrightarrow> list_all (ix_typed w) (post_flash_refresh_ixs p r)"
  by (auto simp: post_flash_refresh_ixs_def Let_def typed)

lemma ensure_loop_typed:
  "hash_typed c \<Longrightarrow> pubkey_wf w \<Longrightarrow> (\<forall>e \<in> set es. ea_payer e = w \<and> pubkey_wf (ea_owner e) \<and> pubkey_wf (ea_mint e)
     \<and> pubkey_wf (ea_token_program e)) \<Longrightarrow> list_all (ix_typed w) (ensure_ata_loop c seen es)"
  by (induction c seen es rule: ensure_ata_loop.induct)
    (auto simp: Let_def ensure_ata_to_labeled_ix_def create_ata_idempotent_def typed)

lemma ensure_ixs_typed [typed]: "hash_typed c \<Longrightarrow> kamino_typed w p \<Longrightarrow> list_all (ix_typed w) (ensure_ata_ixs c p)"
  by (simp add: ensure_ata_ixs_def kamino_typed_def ensure_loop_typed)

text \<open>The liquidation of a plan, its flash pair and its token accounts.\<close>

lemma opt_farm_typed: "opt_typed v \<Longrightarrow> pubkey_wf p \<Longrightarrow> pubkey_wf (am_pubkey (meta_of_desc (opt_farm n v p)))"
    "\<not> am_is_signer (meta_of_desc (opt_farm n v p))"
  by (cases v; simp add: opt_farm_def)+

lemma kamino_liquidate_typed:
  assumes "plan_typed w a" "kp_liquidate p = kamino_liquidate_accounts c a"
  shows "ix_typed w (liquidate_ix p)"
  using assms(1)
  by (auto simp: liquidate_ix_def assms(2) liquidate_v2_metas_def kamino_liquidate_accounts_def plan_typed_def Let_def
      keys_typed_def opt_farm_typed)

lemma ensure_specs_subset: "set (ensure_specs c missing seen specs) \<subseteq> set specs"
  by (induction c missing seen specs rule: ensure_specs.induct) (auto simp: Let_def)

lemma ensure_atas_typed:
  assumes "plan_typed w a" "e \<in> set (liquidator_ensure_atas c a)"
  shows "ea_payer e = w \<and> pubkey_wf (ea_owner e) \<and> pubkey_wf (ea_mint e) \<and> pubkey_wf (ea_token_program e)"
proof -
  note sub = ensure_specs_subset [THEN subsetD]
  from assms(2) show ?thesis
    unfolding liquidator_ensure_atas_def Let_def
    by (drule_tac sub) (use assms(1) in \<open>auto simp: plan_typed_def\<close>)
qed

lemma kamino_params_typed [typed]:
  assumes "plan_typed w a" "keys_typed (fst reserves)" "keys_typed (snd reserves)"
  shows "kamino_typed w (kamino_params c a amount reserves flash)"
proof -
  have "ix_typed w (liquidate_ix (kamino_params c a amount reserves flash))"
    by (rule kamino_liquidate_typed [OF assms(1)]) (simp add: kamino_params_def)
  then show ?thesis
    using assms ensure_atas_typed [OF assms(1)]
    by (auto simp: kamino_typed_def kamino_params_def plan_typed_def kamino_liquidate_accounts_def Let_def)
qed

lemma padded_typed: "keys_typed ks \<Longrightarrow> pubkey_wf k \<Longrightarrow> keys_typed (padded ks k)"
  by (simp add: padded_def Let_def)

lemma reserves_typed [typed]:
  "plan_typed w a \<Longrightarrow> keys_typed (fst (flash_reserves a)) \<and> keys_typed (snd (flash_reserves a))"
  "plan_typed w a \<Longrightarrow> keys_typed (fst (inventory_reserves a)) \<and> keys_typed (snd (inventory_reserves a))"
  by (simp_all add: flash_reserves_def inventory_reserves_def plan_typed_def padded_typed)

lemma kamino_flash_typed:
  assumes "hash_typed c" "plan_typed w a" "list_all (ix_typed w) swaps"
    "build_flash_tx c (kamino_params c a amount (flash_reserves a) (Some (kamino_flash_pair a))) swaps = Some ixs"
  shows "list_all (ix_typed w) ixs"
proof -
  let ?p = "kamino_params c a amount (flash_reserves a) (Some (kamino_flash_pair a))"
  obtain b r where br: "kamino_flash_pair a = (b, r)" by (cases "kamino_flash_pair a")
  have p: "kamino_typed w ?p" using assms(2) by (simp add: typed)
  have pair: "ix_typed w (labeled l (flash_borrow_build_ix b n))" "ix_typed w (labeled l' (flash_repay_build_ix r n i))"
      "pubkey_wf (kfb_reserve b)" for l l' n i
    using br assms(2)
    by (auto simp: kamino_flash_pair_def Let_def flash_borrow_build_ix_def flash_repay_build_ix_def flash_borrow_metas_def
        flash_repay_metas_def referrer_meta_def absent_referrer_meta_def plan_typed_def split: option.split)
  have "kp_flash ?p = Some (b, r)" by (simp add: kamino_params_def br)
  then show ?thesis
    using assms(4) p pair assms(1,3)
    by (auto simp: build_flash_tx_def Let_def typed)
qed

lemma save_flash_typed:
  "plan_typed w a \<Longrightarrow> list_all (ix_typed w) swaps
    \<Longrightarrow> list_all (ix_typed w) (sap_labeled (build_flash_atomic_plan (save_flash_accounts a) amount swaps n m))"
  by (simp add: build_flash_atomic_plan_def Let_def save_flash_accounts_def typed refresh_reserve_ix_save_def
      refresh_obligation_ix_save_def liquidate_ix_save_def save_liquidate_build_ix_def save_liquidate_metas_def
      flash_borrow_build_ix_save_def flash_borrow_metas_save_def flash_repay_build_ix_save_def flash_repay_metas_save_def
      plan_typed_def)

lemma receivership_typed:
  "plan_typed w a \<Longrightarrow> list_all (ix_typed w) swaps \<Longrightarrow> list_all (ix_typed w) (build_receivership_tx (receivership_params a amount) swaps)"
  by (simp add: build_receivership_tx_def receivership_params_def typed start_liquidation_metas_def
      end_liquidation_metas_def withdraw_metas_def repay_metas_def plan_typed_def)

lemma build_strategy_typed:
  assumes "hash_typed c" "plan_typed w a" "list_all (ix_typed w) (jq_instructions blob)"
  shows "list_all (ix_typed w) (pn_labeled (build_strategy_ixs c protocol strategy a amount blob))"
proof -
  have "list_all (ix_typed w) (unwrap_or (build_flash_tx c
      (kamino_params c a amount (flash_reserves a) (Some (kamino_flash_pair a))) (jq_instructions blob)) [])"
    using kamino_flash_typed [OF assms]
    by (cases "build_flash_tx c (kamino_params c a amount (flash_reserves a) (Some (kamino_flash_pair a)))
      (jq_instructions blob)") simp_all
  moreover have "list_all (ix_typed w) (build_inventory_tx c (kamino_params c a amount (inventory_reserves a) None) (jq_instructions blob))"
  proof -
    let ?p = "kamino_params c a amount (inventory_reserves a) None"
    have "kamino_typed w ?p" using assms(2) by (simp add: typed)
    then show ?thesis using assms(1,3) by (simp add: build_inventory_tx_def typed)
  qed
  ultimately show ?thesis
    using save_flash_typed [OF assms(2,3)] receivership_typed [OF assms(2,3)]
    by (cases "(c, protocol, strategy, a, amount, blob)" rule: build_strategy_ixs.cases)
      (simp_all add: attach_or_omit_def typed)
qed

section \<open>Account sets\<close>

lemma key_at_wf: "a + 32 \<le> length data \<Longrightarrow> pubkey_wf (key_at data a)"
  by (simp add: key_at_def slice_def)

lemma from_base58_wf: "pubkey_from_base58 c s = Some k \<Longrightarrow> pubkey_wf k"
  by (auto simp: pubkey_from_base58_def pubkey_from_bytes_def bind_eq_Some_conv split: if_splits)

definition vaults_typed :: "live_reserve_vaults \<Rightarrow> bool" where
  "vaults_typed r \<longleftrightarrow> pubkey_wf (rv_address r) \<and> refresh_typed (refresh_accounts_of r)
     \<and> pubkey_wf (rv_liquidity_mint r) \<and> pubkey_wf (rv_liquidity_supply r) \<and> pubkey_wf (rv_fee_vault r)
     \<and> pubkey_wf (rv_token_program r) \<and> pubkey_wf (rv_collateral_mint r) \<and> pubkey_wf (rv_collateral_supply r)"

definition positions_typed :: "live_obligation_positions \<Rightarrow> bool" where
  "positions_typed pos \<longleftrightarrow> pubkey_wf (lh_lending_market (lp_header pos)) \<and> pubkey_wf (lh_referrer (lp_header pos))
     \<and> keys_typed (position_reserves pos)"

lemma decoded_positions_typed:
  assumes "decode_obligation_live_positions obl data = Inr pos" shows "positions_typed pos"
proof -
  have "2288 \<le> length data" "pos = live_positions_view obl data"
    using assms by (simp_all add: decode_live_positions_total split: if_splits)
  then show ?thesis
    by (auto simp: positions_typed_def live_positions_view_def live_header_view_def position_reserves_def keys_typed_def
        deposit_at_def borrow_at_def key_at_wf simp del: upt_Suc)
qed

lemma decoded_vaults_typed:
  assumes "decoded fetched ks k = Some v" "keys_typed (map snd ks)" shows "vaults_typed v"
proof -
  have "(k, v) \<in> set (List.map_filter (vault_entry fetched) ks)"
    using assms(1) unfolding decoded_def by (auto dest: map_of_SomeD)
  then obtain ik where ik: "ik \<in> set ks" "vault_entry fetched ik = Some (k, v)"
    unfolding set_map_filter by blast
  then obtain raw where "fetched_at fetched (fst ik) = Some raw"
    by (auto simp: vault_entry_def split: option.splits)
  with ik have "k \<in> set (map snd ks)" "5256 \<le> length (ra_data raw)" "v = live_vaults_view k (ra_data raw)"
    by (auto simp: vault_entry_def split: if_splits)
  then show ?thesis
    using assms(2)
    by (auto simp: vaults_typed_def live_vaults_view_def refresh_accounts_of_def refresh_typed_def key_at_wf keys_typed_def)
qed

lemma seed_plan_typed:
  "pubkey_wf seed \<Longrightarrow> pubkey_wf payer \<Longrightarrow> plan_typed payer (seed_plan seed payer)"
  by (simp add: seed_plan_def from_seed_def Let_def plan_typed_def)

lemma token_program_typed [simp]: "pubkey_wf k \<Longrightarrow> pubkey_wf (token_program_or_default k)"
  by (simp add: token_program_or_default_def)

lemma refresh_overlay_typed:
  "(\<And>k v. vaults k = Some v \<Longrightarrow> vaults_typed v) \<Longrightarrow> list_all refresh_typed (refresh_overlay vaults seen keys)"
  by (induction vaults seen keys rule: refresh_overlay.induct) (auto simp: vaults_typed_def split: option.split)

lemma kamino_live_typed:
  assumes "hash_typed c" "pubkey_wf obl" "pubkey_wf payer" "positions_typed pos" "vaults_typed rep" "vaults_typed wd"
    and "pubkey_wf auth" "list_all refresh_typed rs"
  shows "plan_typed payer ((from_kamino_live c obl payer pos rep wd auth)\<lparr>pa_refresh_reserve_metas := rs\<rparr>)"
  using assms
  by (auto simp: plan_typed_def from_kamino_live_def Let_def typed positions_typed_def vaults_typed_def
      position_reserves_def keys_typed_def split: option.splits)

lemma vaults_plan_typed:
  assumes "hash_typed c" "pubkey_wf obl" "pubkey_wf payer" "positions_typed pos" "pubkey_wf repay" "pubkey_wf withdraw"
    and v: "\<And>k v. vaults k = Some v \<Longrightarrow> vaults_typed v"
  shows "plan_typed payer (fst (plan_with_vaults c rpc obl payer pos repay withdraw vaults ns))"
proof -
  have prefetch: "plan_typed payer (fst (prefetch_atas rpc a ns'))" if "plan_typed payer a" for a and ns'
    using prefetch_atas_shape [of rpc a ns'] that by (auto simp: plan_typed_def)
  have seed: "plan_typed payer ((seed_plan obl payer)\<lparr>pa_obligation := obl, pa_repay_reserve := repay,
      pa_withdraw_reserve := withdraw\<rparr>)"
    using seed_plan_typed [OF assms(2,3)] assms(2,5,6) by (simp add: plan_typed_def)
  have live: "plan_typed payer ((from_kamino_live c obl payer pos rep wd
      (lending_market_authority c (lh_lending_market (lp_header pos))))
      \<lparr>pa_refresh_reserve_metas := refresh_overlay vaults [] (position_reserves pos)\<rparr>)"
    if "vaults repay = Some rep" "vaults withdraw = Some wd" for rep wd
    using assms v that by (intro kamino_live_typed refresh_overlay_typed) (auto simp: typed)
  show ?thesis
    by (cases "vaults repay"; cases "vaults withdraw")
      (simp_all add: plan_with_vaults_def seed live Let_def prefetch split: option.split)
qed

lemma positions_plan_typed:
  assumes "hash_typed c" "pubkey_wf obl" "pubkey_wf payer" "positions_typed pos"
    and "plan_with_positions c rpc obl payer pos ns0 = Inr (a, ns)"
  shows "plan_typed payer a"
proof (cases "pick_liquidate_reserves pos")
  case None
  then show ?thesis
    using assms seed_plan_typed [OF assms(2,3)]
    by (auto simp: plan_with_positions_def Let_def plan_typed_def positions_typed_def)
next
  case (Some rw)
  then obtain repay withdraw where pick: "pick_liquidate_reserves pos = Some (repay, withdraw)" by (cases rw) auto
  let ?keys = "dedup (position_reserves pos @ [repay, withdraw])"
  have rw: "pubkey_wf repay" "pubkey_wf withdraw" "keys_typed (position_reserves pos)"
    using picked_in_positions [OF pick] assms(4) by (auto simp: positions_typed_def keys_typed_def)
  then have keys: "keys_typed ?keys" by (auto simp: keys_typed_def)
  show ?thesis
  proof (cases "rpc_multiple rpc 0 ?keys")
    case (Inl e)
    then show ?thesis
      using assms rw(1,2) seed_plan_typed [OF assms(2,3)]
      by (auto simp: plan_with_positions_def Let_def pick collect_reserve_keys_eq plan_typed_def positions_typed_def)
  next
    case (Inr fetched)
    let ?v = "decoded fetched (enumerate 0 ?keys)"
    from assms(5) Inr obtain ns1 where "(a, ns) = plan_with_vaults c rpc obl payer pos repay withdraw ?v ns1"
      by (simp add: plan_with_positions_def Let_def pick collect_reserve_keys_eq decode_vaults_eq flip: decoded_def)
        (metis (no_types))
    moreover have "vaults_typed v" if "?v k = Some v" for k v
      by (rule decoded_vaults_typed [OF that]) (simp add: keys)
    ultimately show ?thesis
      using vaults_plan_typed [where vaults = ?v and rpc = rpc and ns = ns1, OF assms(1-4) rw(1,2)] by (metis fst_conv)
  qed
qed

lemma candidate_plan_typed:
  assumes "hash_typed c" "pubkey_wf payer"
    and "build_plan_accounts_for_candidate c rpc cand protocol payer = Inr (a, ns)"
  shows "plan_typed payer a"
proof (cases "\<exists>s obl acct pos. protocol = Kamino \<and> cand = Some s \<and> pubkey_from_base58 c s = Some obl
    \<and> rpc_account_info rpc obl = Inr (Some acct) \<and> decode_obligation_live_positions obl (ra_data acct) = Inr pos")
  case True
  then obtain s obl acct pos where p: "protocol = Kamino" "cand = Some s" "pubkey_from_base58 c s = Some obl"
      "rpc_account_info rpc obl = Inr (Some acct)" "decode_obligation_live_positions obl (ra_data acct) = Inr pos"
    by blast
  then have "plan_with_positions c rpc obl payer pos [] = Inr (a, ns)"
    using assms(3) by (simp add: build_plan_accounts_for_candidate_def)
  from positions_plan_typed [OF assms(1) from_base58_wf [OF p(3)] assms(2) decoded_positions_typed [OF p(5)] this]
  show ?thesis .
next
  case False
  have key: "pubkey_wf (unwrap_or (Option.bind cand (pubkey_from_base58 c)) (pubkey_test t i))" for t i
    by (cases cand) (auto simp: unwrap_or_def dest: from_base58_wf split: option.split)
  from False assms(3) show ?thesis
    using key
    by (auto simp: build_plan_accounts_for_candidate_def unwrap_or_def Let_def assms(2) from_base58_wf
        split: if_splits option.splits sum.splits decode_fault.splits
        intro!: seed_plan_typed) (auto simp: plan_typed_def seed_plan_typed [unfolded plan_typed_def] from_base58_wf assms(2))
qed

section \<open>From the account set to the wire\<close>

lemma one_signature:
  assumes "\<forall>ix \<in> set ixs. \<forall>k. signs ix k \<longrightarrow> k = payer"
  shows "{k \<in> dom (collect_flags payer ixs). k = payer \<or> (\<exists>ix \<in> set ixs. signs ix k)} = {payer}"
  using assms by (auto simp: collect_flags_facts)

lemma typed_instructions:
  assumes "list_all (ix_typed payer) ls" "pubkey_wf payer"
  shows "ixs_wf payer (map li_ix ls)" "\<forall>ix \<in> set (map li_ix ls). \<forall>k. signs ix k \<longrightarrow> k = payer"
  using assms by (auto simp: ixs_wf_def ix_typed_def list_all_iff signs_def)

lemma plan_nonempty: "pn_labeled (build_strategy_ixs c protocol strategy a amount blob) \<noteq> []"
proof -
  have "build_flash_tx c (kamino_params c a amount rs (Some (b, r))) swaps \<noteq> Some []" for rs swaps and b r
    by (simp add: build_flash_tx_def kamino_params_def Let_def)
  then have flash: "unwrap_or (build_flash_tx c (kamino_params c a amount rs (Some f)) swaps) [] \<noteq> []" for rs f swaps
    by (cases f) (simp add: build_flash_tx_def kamino_params_def Let_def)
  show ?thesis
    by (cases "(c, protocol, strategy, a, amount, blob)" rule: build_strategy_ixs.cases)
      (simp_all add: attach_or_omit_def flash build_inventory_tx_def build_flash_atomic_plan_def build_receivership_tx_def
        Let_def)
qed

text \<open>How many keys a transaction can name.\<close>

lemma key_bound: "card (dom (collect_flags fp ixs)) \<le> 1 + (\<Sum>ix \<leftarrow> ixs. 1 + length (ix_accounts ix))"
proof -
  let ?ks = "fp # concat (map (\<lambda>ix. ix_program_id ix # map am_pubkey (ix_accounts ix)) ixs)"
  have "dom (collect_flags fp ixs) = set ?ks" by (auto simp: collect_flags_facts names_key_def)
  then have "card (dom (collect_flags fp ixs)) \<le> length ?ks" using card_length [of ?ks] by simp
  then show ?thesis by (simp add: length_concat comp_def)
qed

lemma iteration_exists: "\<exists>order. iterates order fp ixs"
proof -
  have "finite (dom (collect_flags fp ixs))"
    by (rule finite_subset [of _ "set (fp # concat (map (\<lambda>ix. ix_program_id ix # map am_pubkey (ix_accounts ix)) ixs))"])
      (auto simp: collect_flags_facts names_key_def)
  from finite_distinct_list [OF this] show ?thesis by (auto simp: iterates_def)
qed

text \<open>
  C5: Whatever a candidate is, and however its accounts were found, every key of its account set and of every
  instruction planned from it has 32 bytes, and the only signer an instruction asks for is the fee payer, as long as the
  swap does the same.
\<close>

theorem plans_well_typed:
  assumes "hash_typed c" "pubkey_wf payer"
    and "build_plan_accounts_for_candidate c rpc cand protocol payer = Inr (a, ns)"
    and "list_all (ix_typed payer) (jq_instructions blob)"
  shows "plan_typed payer a
    \<and> list_all (ix_typed payer) (pn_labeled (build_strategy_ixs c protocol' strategy a amount blob))"
  using candidate_plan_typed [OF assms(1-3)] build_strategy_typed [OF assms(1) _ assms(4)] by blast


lemma sample_hash_typed: "hash_typed sample_crypto"
  by (simp add: hash_typed_def sample_crypto_def)

lemma sample_blob_typed: "list_all (ix_typed w) (jq_instructions blob_default)"
  by (simp add: blob_default_def)

theorem plans_well_typed_witness:
  "\<exists>a ns. build_plan_accounts_for_candidate sample_crypto sample_rpc (Some ''7u3H'') Kamino (pubkey_test 1 1) = Inr (a, ns)
     \<and> pa_from_live_decode a
     \<and> list_all (ix_typed (pubkey_test 1 1))
         (pn_labeled (build_strategy_ixs sample_crypto Kamino KaminoFlashBorrow a 1000 blob_default))"
proof -
  obtain a and ns :: "unit plan_note list" where a:
    "build_plan_accounts_for_candidate sample_crypto sample_rpc (Some ''7u3H'') Kamino (pubkey_test 1 1) = Inr (a, ns)"
    "pa_from_live_decode a"
    using sample_live by blast
  with plans_well_typed [OF sample_hash_typed pubkey_wf_simps(2) a(1) sample_blob_typed] show ?thesis by blast
qed

definition sample_save_ixs :: "instruction list" where
  "sample_save_ixs = map li_ix (pn_labeled (build_strategy_ixs sample_crypto Save SaveFlashLoan
     (seed_plan (pubkey_test 0xA5 1) (pubkey_test 1 1)) 1000 blob_default))"

lemma sample_save_small: "card (dom (collect_flags (pubkey_test 1 1) sample_save_ixs)) < 256"
  by (rule le_less_trans [OF key_bound])
    (simp add: sample_save_ixs_def build_flash_atomic_plan_def Let_def save_flash_accounts_def attach_or_omit_def
      blob_default_def refresh_reserve_ix_save_def refresh_obligation_ix_save_def liquidate_ix_save_def
      save_liquidate_build_ix_def save_liquidate_metas_def flash_borrow_build_ix_save_def flash_borrow_metas_save_def
      flash_repay_build_ix_save_def flash_repay_metas_save_def cu_limit_ix_def cu_price_ix_def compute_unit_limit_def
      compute_unit_price_def labeled_def)


end
