(* ===== verification/SolendSdk.thy ===== *)
theory SolendSdk
  imports Instructions
begin

text \<open>
  The copy of the Save program's own interface that the repository keeps,
  \<^verbatim>\<open>crates/liq-save/idls/solend_sdk_0.1.0_instruction.rs\<close>: the instruction type, the reader
  \<^verbatim>\<open>unpack\<close> the program on chain runs, the writer \<^verbatim>\<open>pack\<close>, and the
  instruction constructors. Theory \<open>SaveWire\<close> holds the adapter's own encoders against it.

  Two types the file imports from its own crate, \<^verbatim>\<open>ReserveConfig\<close> and
  \<^verbatim>\<open>ReserveFees\<close>, are not in the repository; the file names all their fields and reads each, so
  their types are known from it. The ids of the token program and of the two sysvars, of other packages, are a
  parameter.
\<close>

section \<open>Types\<close>

datatype lending_error = InstructionUnpackError

record reserve_fees =
  rf_borrow_fee_wad :: u64
  rf_flash_loan_fee_wad :: u64
  rf_host_fee_percentage :: u8

record reserve_config =
  rc_optimal_utilization_rate :: u8
  rc_loan_to_value_ratio :: u8
  rc_liquidation_bonus :: u8
  rc_liquidation_threshold :: u8
  rc_min_borrow_rate :: u8
  rc_optimal_borrow_rate :: u8
  rc_max_borrow_rate :: u8
  rc_fees :: reserve_fees
  rc_deposit_limit :: u64
  rc_borrow_limit :: u64
  rc_fee_receiver :: pubkey
  rc_protocol_liquidation_fee :: u8
  rc_protocol_take_rate :: u8

datatype lending_instruction =
  InitLendingMarket pubkey "u8 list"
| SetLendingMarketOwner pubkey
| InitReserve u64 reserve_config
| RefreshReserve
| DepositReserveLiquidity u64
| RedeemReserveCollateral u64
| InitObligation
| RefreshObligation
| DepositObligationCollateral u64
| WithdrawObligationCollateral u64
| BorrowObligationLiquidity u64
| RepayObligationLiquidity u64
| LiquidateObligation u64
| FlashLoan u64
| DepositReserveLiquidityAndObligationCollateral u64
| WithdrawObligationCollateralAndRedeemReserveCollateral u64
| UpdateReserveConfig reserve_config
| LiquidateObligationAndRedeemReserveCollateral u64
| RedeemFees
| FlashBorrowReserveLiquidity u64
| FlashRepayReserveLiquidity u64 u8

section \<open>The reader\<close>

definition unpack_u64 :: "u8 list \<Rightarrow> lending_error + (u64 \<times> u8 list)" where
  "unpack_u64 input =
     (if length input < 8 then Inl InstructionUnpackError else Inr (word_of_le (take 8 input), drop 8 input))"

definition unpack_u8 :: "u8 list \<Rightarrow> lending_error + (u8 \<times> u8 list)" where
  "unpack_u8 input = (case input of [] \<Rightarrow> Inl InstructionUnpackError | b # rest \<Rightarrow> Inr (b, rest))"

definition unpack_bytes32 :: "u8 list \<Rightarrow> lending_error + (u8 list \<times> u8 list)" where
  "unpack_bytes32 input =
     (if length input < 32 then Inl InstructionUnpackError else Inr (take 32 input, drop 32 input))"

definition unpack_pubkey :: "u8 list \<Rightarrow> lending_error + (pubkey \<times> u8 list)" where
  "unpack_pubkey input =
     (if length input < 32 then Inl InstructionUnpackError else Inr (Pubkey (take 32 input), drop 32 input))"

text \<open>The fields of a reserve's configuration, which two branches of the reader read the same way.\<close>

definition unpack_config :: "u8 list \<Rightarrow> lending_error + (reserve_config \<times> u8 list)" where
  "unpack_config r0 =
     and_then (unpack_u8 r0) (\<lambda>(optimal_utilization_rate, r1).
     and_then (unpack_u8 r1) (\<lambda>(loan_to_value_ratio, r2).
     and_then (unpack_u8 r2) (\<lambda>(liquidation_bonus, r3).
     and_then (unpack_u8 r3) (\<lambda>(liquidation_threshold, r4).
     and_then (unpack_u8 r4) (\<lambda>(min_borrow_rate, r5).
     and_then (unpack_u8 r5) (\<lambda>(optimal_borrow_rate, r6).
     and_then (unpack_u8 r6) (\<lambda>(max_borrow_rate, r7).
     and_then (unpack_u64 r7) (\<lambda>(borrow_fee_wad, r8).
     and_then (unpack_u64 r8) (\<lambda>(flash_loan_fee_wad, r9).
     and_then (unpack_u8 r9) (\<lambda>(host_fee_percentage, r10).
     and_then (unpack_u64 r10) (\<lambda>(deposit_limit, r11).
     and_then (unpack_u64 r11) (\<lambda>(borrow_limit, r12).
     and_then (unpack_pubkey r12) (\<lambda>(fee_receiver, r13).
     and_then (unpack_u8 r13) (\<lambda>(protocol_liquidation_fee, r14).
     and_then (unpack_u8 r14) (\<lambda>(protocol_take_rate, r15).
       Inr (\<lparr>rc_optimal_utilization_rate = optimal_utilization_rate, rc_loan_to_value_ratio = loan_to_value_ratio,
             rc_liquidation_bonus = liquidation_bonus, rc_liquidation_threshold = liquidation_threshold,
             rc_min_borrow_rate = min_borrow_rate, rc_optimal_borrow_rate = optimal_borrow_rate,
             rc_max_borrow_rate = max_borrow_rate,
             rc_fees = \<lparr>rf_borrow_fee_wad = borrow_fee_wad, rf_flash_loan_fee_wad = flash_loan_fee_wad,
               rf_host_fee_percentage = host_fee_percentage\<rparr>,
             rc_deposit_limit = deposit_limit, rc_borrow_limit = borrow_limit, rc_fee_receiver = fee_receiver,
             rc_protocol_liquidation_fee = protocol_liquidation_fee,
             rc_protocol_take_rate = protocol_take_rate\<rparr>, r15))))))))))))))))"

definition unpack_amount ::
    "(u64 \<Rightarrow> lending_instruction) \<Rightarrow> u8 list \<Rightarrow> lending_error + lending_instruction" where
  "unpack_amount mk rest = and_then (unpack_u64 rest) (\<lambda>(amount, _). Inr (mk amount))"

definition unpack :: "u8 list \<Rightarrow> lending_error + lending_instruction" where
  "unpack input =
     (case input of [] \<Rightarrow> Inl InstructionUnpackError
      | tag # rest \<Rightarrow>
          if tag = 0 then
            and_then (unpack_pubkey rest) (\<lambda>(owner, rest').
            and_then (unpack_bytes32 rest') (\<lambda>(quote_currency, _). Inr (InitLendingMarket owner quote_currency)))
          else if tag = 1 then and_then (unpack_pubkey rest) (\<lambda>(new_owner, _). Inr (SetLendingMarketOwner new_owner))
          else if tag = 2 then
            and_then (unpack_u64 rest) (\<lambda>(liquidity_amount, rest').
            and_then (unpack_config rest') (\<lambda>(config, _). Inr (InitReserve liquidity_amount config)))
          else if tag = 3 then Inr RefreshReserve
          else if tag = 4 then unpack_amount DepositReserveLiquidity rest
          else if tag = 5 then unpack_amount RedeemReserveCollateral rest
          else if tag = 6 then Inr InitObligation
          else if tag = 7 then Inr RefreshObligation
          else if tag = 8 then unpack_amount DepositObligationCollateral rest
          else if tag = 9 then unpack_amount WithdrawObligationCollateral rest
          else if tag = 10 then unpack_amount BorrowObligationLiquidity rest
          else if tag = 11 then unpack_amount RepayObligationLiquidity rest
          else if tag = 12 then unpack_amount LiquidateObligation rest
          else if tag = 13 then unpack_amount FlashLoan rest
          else if tag = 14 then unpack_amount DepositReserveLiquidityAndObligationCollateral rest
          else if tag = 15 then unpack_amount WithdrawObligationCollateralAndRedeemReserveCollateral rest
          else if tag = 16 then and_then (unpack_config rest) (\<lambda>(config, _). Inr (UpdateReserveConfig config))
          else if tag = 17 then unpack_amount LiquidateObligationAndRedeemReserveCollateral rest
          else if tag = 18 then Inr RedeemFees
          else if tag = 19 then unpack_amount FlashBorrowReserveLiquidity rest
          else if tag = 20 then
            and_then (unpack_u64 rest) (\<lambda>(liquidity_amount, rest').
            and_then (unpack_u8 rest') (\<lambda>(borrow_instruction_index, _).
              Inr (FlashRepayReserveLiquidity liquidity_amount borrow_instruction_index)))
          else Inl InstructionUnpackError)"

section \<open>The writer\<close>

definition pack_config :: "reserve_config \<Rightarrow> u8 list" where
  "pack_config config =
     [rc_optimal_utilization_rate config, rc_loan_to_value_ratio config, rc_liquidation_bonus config,
      rc_liquidation_threshold config, rc_min_borrow_rate config, rc_optimal_borrow_rate config,
      rc_max_borrow_rate config]
     @ u64_le (rf_borrow_fee_wad (rc_fees config)) @ u64_le (rf_flash_loan_fee_wad (rc_fees config))
     @ [rf_host_fee_percentage (rc_fees config)]
     @ u64_le (rc_deposit_limit config) @ u64_le (rc_borrow_limit config)
     @ pk_bytes (rc_fee_receiver config)
     @ [rc_protocol_liquidation_fee config, rc_protocol_take_rate config]"

fun pack :: "lending_instruction \<Rightarrow> u8 list" where
  "pack (InitLendingMarket owner quote_currency) = [0] @ pk_bytes owner @ quote_currency"
| "pack (SetLendingMarketOwner new_owner) = [1] @ pk_bytes new_owner"
| "pack (InitReserve liquidity_amount config) = [2] @ u64_le liquidity_amount @ pack_config config"
| "pack RefreshReserve = [3]"
| "pack (DepositReserveLiquidity liquidity_amount) = [4] @ u64_le liquidity_amount"
| "pack (RedeemReserveCollateral collateral_amount) = [5] @ u64_le collateral_amount"
| "pack InitObligation = [6]"
| "pack RefreshObligation = [7]"
| "pack (DepositObligationCollateral collateral_amount) = [8] @ u64_le collateral_amount"
| "pack (WithdrawObligationCollateral collateral_amount) = [9] @ u64_le collateral_amount"
| "pack (BorrowObligationLiquidity liquidity_amount) = [10] @ u64_le liquidity_amount"
| "pack (RepayObligationLiquidity liquidity_amount) = [11] @ u64_le liquidity_amount"
| "pack (LiquidateObligation liquidity_amount) = [12] @ u64_le liquidity_amount"
| "pack (FlashLoan amount) = [13] @ u64_le amount"
| "pack (DepositReserveLiquidityAndObligationCollateral liquidity_amount) = [14] @ u64_le liquidity_amount"
| "pack (WithdrawObligationCollateralAndRedeemReserveCollateral collateral_amount) = [15] @ u64_le collateral_amount"
| "pack (UpdateReserveConfig config) = [16] @ pack_config config"
| "pack (LiquidateObligationAndRedeemReserveCollateral liquidity_amount) = [17] @ u64_le liquidity_amount"
| "pack RedeemFees = [18]"
| "pack (FlashBorrowReserveLiquidity liquidity_amount) = [19] @ u64_le liquidity_amount"
| "pack (FlashRepayReserveLiquidity liquidity_amount borrow_instruction_index) =
     [20] @ u64_le liquidity_amount @ [borrow_instruction_index]"

section \<open>The constructors\<close>

record sdk_ids =
  token_id :: pubkey
  rent_id :: pubkey
  instructions_id :: pubkey

definition init_lending_market ::
    "sdk_ids \<Rightarrow> pubkey \<Rightarrow> pubkey \<Rightarrow> u8 list \<Rightarrow> pubkey \<Rightarrow> pubkey \<Rightarrow> pubkey \<Rightarrow> instruction" where
  "init_lending_market ids program_id owner quote_currency lending_market oracle_program_id
      switchboard_oracle_program_id =
     instruction_new program_id
       [meta_new lending_market False, meta_new_readonly (rent_id ids) False,
       meta_new_readonly (token_id ids) False, meta_new_readonly oracle_program_id False,
       meta_new_readonly switchboard_oracle_program_id False]
       (pack (InitLendingMarket owner quote_currency))"

definition set_lending_market_owner ::
    "pubkey \<Rightarrow> pubkey \<Rightarrow> pubkey \<Rightarrow> pubkey \<Rightarrow> instruction" where
  "set_lending_market_owner program_id lending_market lending_market_owner new_owner =
     instruction_new program_id
       [meta_new lending_market False, meta_new_readonly lending_market_owner True]
       (pack (SetLendingMarketOwner new_owner))"

definition init_reserve ::
    "crypto \<Rightarrow> sdk_ids \<Rightarrow> pubkey \<Rightarrow> u64 \<Rightarrow> reserve_config \<Rightarrow> pubkey \<Rightarrow>
      pubkey \<Rightarrow> pubkey \<Rightarrow> pubkey \<Rightarrow> pubkey \<Rightarrow> pubkey \<Rightarrow> pubkey \<Rightarrow> pubkey \<Rightarrow>
      pubkey \<Rightarrow> pubkey \<Rightarrow> pubkey \<Rightarrow> pubkey \<Rightarrow> pubkey \<Rightarrow> instruction" where
  "init_reserve c ids program_id liquidity_amount config source_liquidity destination_collateral reserve
      reserve_liquidity_mint reserve_liquidity_supply reserve_collateral_mint reserve_collateral_supply
      pyth_product pyth_price switchboard_feed lending_market lending_market_owner user_transfer_authority =
     (let lending_market_authority = fst (find_program_address c [pk_bytes lending_market] program_id)
      in instruction_new program_id
          [meta_new source_liquidity False, meta_new destination_collateral False, meta_new reserve False,
          meta_new_readonly reserve_liquidity_mint False, meta_new reserve_liquidity_supply False,
          meta_new (rc_fee_receiver config) False, meta_new reserve_collateral_mint False,
          meta_new reserve_collateral_supply False, meta_new_readonly pyth_product False,
          meta_new_readonly pyth_price False, meta_new_readonly switchboard_feed False,
          meta_new_readonly lending_market False, meta_new_readonly lending_market_authority False,
          meta_new_readonly lending_market_owner True, meta_new_readonly user_transfer_authority True,
          meta_new_readonly (rent_id ids) False, meta_new_readonly (token_id ids) False]
          (pack (InitReserve liquidity_amount config)))"

definition refresh_reserve ::
    "pubkey \<Rightarrow> pubkey \<Rightarrow> pubkey \<Rightarrow> pubkey \<Rightarrow> instruction" where
  "refresh_reserve program_id reserve reserve_liquidity_pyth_oracle reserve_liquidity_switchboard_oracle =
     instruction_new program_id
       [meta_new reserve False, meta_new_readonly reserve_liquidity_pyth_oracle False,
       meta_new_readonly reserve_liquidity_switchboard_oracle False]
       (pack RefreshReserve)"

definition deposit_reserve_liquidity ::
    "crypto \<Rightarrow> sdk_ids \<Rightarrow> pubkey \<Rightarrow> u64 \<Rightarrow> pubkey \<Rightarrow> pubkey \<Rightarrow> pubkey \<Rightarrow>
      pubkey \<Rightarrow> pubkey \<Rightarrow> pubkey \<Rightarrow> pubkey \<Rightarrow> instruction" where
  "deposit_reserve_liquidity c ids program_id liquidity_amount source_liquidity destination_collateral
      reserve reserve_liquidity_supply reserve_collateral_mint lending_market user_transfer_authority =
     (let lending_market_authority = fst (find_program_address c [pk_bytes lending_market] program_id)
      in instruction_new program_id
          [meta_new source_liquidity False, meta_new destination_collateral False, meta_new reserve False,
          meta_new reserve_liquidity_supply False, meta_new reserve_collateral_mint False,
          meta_new_readonly lending_market False, meta_new_readonly lending_market_authority False,
          meta_new_readonly user_transfer_authority True, meta_new_readonly (token_id ids) False]
          (pack (DepositReserveLiquidity liquidity_amount)))"

definition redeem_reserve_collateral ::
    "crypto \<Rightarrow> sdk_ids \<Rightarrow> pubkey \<Rightarrow> u64 \<Rightarrow> pubkey \<Rightarrow> pubkey \<Rightarrow> pubkey \<Rightarrow>
      pubkey \<Rightarrow> pubkey \<Rightarrow> pubkey \<Rightarrow> pubkey \<Rightarrow> instruction" where
  "redeem_reserve_collateral c ids program_id collateral_amount source_collateral destination_liquidity
      reserve reserve_collateral_mint reserve_liquidity_supply lending_market user_transfer_authority =
     (let lending_market_authority = fst (find_program_address c [pk_bytes lending_market] program_id)
      in instruction_new program_id
          [meta_new source_collateral False, meta_new destination_liquidity False, meta_new reserve False,
          meta_new reserve_collateral_mint False, meta_new reserve_liquidity_supply False,
          meta_new_readonly lending_market False, meta_new_readonly lending_market_authority False,
          meta_new_readonly user_transfer_authority True, meta_new_readonly (token_id ids) False]
          (pack (RedeemReserveCollateral collateral_amount)))"

definition init_obligation ::
    "sdk_ids \<Rightarrow> pubkey \<Rightarrow> pubkey \<Rightarrow> pubkey \<Rightarrow> pubkey \<Rightarrow> instruction" where
  "init_obligation ids program_id obligation lending_market obligation_owner =
     instruction_new program_id
       [meta_new obligation False, meta_new_readonly lending_market False,
       meta_new_readonly obligation_owner True, meta_new_readonly (rent_id ids) False,
       meta_new_readonly (token_id ids) False]
       (pack InitObligation)"

definition refresh_obligation ::
    "pubkey \<Rightarrow> pubkey \<Rightarrow> pubkey list \<Rightarrow> instruction" where
  "refresh_obligation program_id obligation reserve_pubkeys =
     instruction_new program_id
       (meta_new obligation False # map (\<lambda>k. meta_new_readonly k False) reserve_pubkeys)
       (pack RefreshObligation)"

definition deposit_obligation_collateral ::
    "sdk_ids \<Rightarrow> pubkey \<Rightarrow> u64 \<Rightarrow> pubkey \<Rightarrow> pubkey \<Rightarrow> pubkey \<Rightarrow> pubkey \<Rightarrow>
      pubkey \<Rightarrow> pubkey \<Rightarrow> pubkey \<Rightarrow> instruction" where
  "deposit_obligation_collateral ids program_id collateral_amount source_collateral destination_collateral
      deposit_reserve obligation lending_market obligation_owner user_transfer_authority =
     instruction_new program_id
       [meta_new source_collateral False, meta_new destination_collateral False, meta_new deposit_reserve False,
       meta_new obligation False, meta_new_readonly lending_market False,
       meta_new_readonly obligation_owner True, meta_new_readonly user_transfer_authority True,
       meta_new_readonly (token_id ids) False]
       (pack (DepositObligationCollateral collateral_amount))"

definition deposit_reserve_liquidity_and_obligation_collateral ::
    "crypto \<Rightarrow> sdk_ids \<Rightarrow> pubkey \<Rightarrow> u64 \<Rightarrow> pubkey \<Rightarrow> pubkey \<Rightarrow> pubkey \<Rightarrow>
      pubkey \<Rightarrow> pubkey \<Rightarrow> pubkey \<Rightarrow> pubkey \<Rightarrow> pubkey \<Rightarrow> pubkey \<Rightarrow> pubkey \<Rightarrow>
      pubkey \<Rightarrow> pubkey \<Rightarrow> instruction" where
  "deposit_reserve_liquidity_and_obligation_collateral c ids program_id liquidity_amount source_liquidity
      user_collateral reserve reserve_liquidity_supply reserve_collateral_mint lending_market
      destination_deposit_collateral obligation obligation_owner reserve_liquidity_pyth_oracle
      reserve_liquidity_switchboard_oracle user_transfer_authority =
     (let lending_market_authority = fst (find_program_address c [pk_bytes lending_market] program_id)
      in instruction_new program_id
          [meta_new source_liquidity False, meta_new user_collateral False, meta_new reserve False,
          meta_new reserve_liquidity_supply False, meta_new reserve_collateral_mint False,
          meta_new_readonly lending_market False, meta_new_readonly lending_market_authority False,
          meta_new destination_deposit_collateral False, meta_new obligation False,
          meta_new obligation_owner True, meta_new_readonly reserve_liquidity_pyth_oracle False,
          meta_new_readonly reserve_liquidity_switchboard_oracle False,
          meta_new_readonly user_transfer_authority True, meta_new_readonly (token_id ids) False]
          (pack (DepositReserveLiquidityAndObligationCollateral liquidity_amount)))"

definition withdraw_obligation_collateral_and_redeem_reserve_collateral ::
    "crypto \<Rightarrow> sdk_ids \<Rightarrow> pubkey \<Rightarrow> u64 \<Rightarrow> pubkey \<Rightarrow> pubkey \<Rightarrow> pubkey \<Rightarrow>
      pubkey \<Rightarrow> pubkey \<Rightarrow> pubkey \<Rightarrow> pubkey \<Rightarrow> pubkey \<Rightarrow> pubkey \<Rightarrow> pubkey \<Rightarrow> instruction" where
  "withdraw_obligation_collateral_and_redeem_reserve_collateral c ids program_id collateral_amount
      source_collateral destination_collateral withdraw_reserve obligation lending_market
      destination_liquidity reserve_collateral_mint reserve_liquidity_supply obligation_owner
      user_transfer_authority =
     (let lending_market_authority = fst (find_program_address c [pk_bytes lending_market] program_id)
      in instruction_new program_id
          [meta_new source_collateral False, meta_new destination_collateral False,
          meta_new withdraw_reserve False, meta_new obligation False, meta_new_readonly lending_market False,
          meta_new_readonly lending_market_authority False, meta_new destination_liquidity False,
          meta_new reserve_collateral_mint False, meta_new reserve_liquidity_supply False,
          meta_new_readonly obligation_owner True, meta_new_readonly user_transfer_authority True,
          meta_new_readonly (token_id ids) False]
          (pack (WithdrawObligationCollateralAndRedeemReserveCollateral collateral_amount)))"

definition withdraw_obligation_collateral ::
    "crypto \<Rightarrow> sdk_ids \<Rightarrow> pubkey \<Rightarrow> u64 \<Rightarrow> pubkey \<Rightarrow> pubkey \<Rightarrow> pubkey \<Rightarrow>
      pubkey \<Rightarrow> pubkey \<Rightarrow> pubkey \<Rightarrow> instruction" where
  "withdraw_obligation_collateral c ids program_id collateral_amount source_collateral
      destination_collateral withdraw_reserve obligation lending_market obligation_owner =
     (let lending_market_authority = fst (find_program_address c [pk_bytes lending_market] program_id)
      in instruction_new program_id
          [meta_new source_collateral False, meta_new destination_collateral False,
          meta_new_readonly withdraw_reserve False, meta_new obligation False,
          meta_new_readonly lending_market False, meta_new_readonly lending_market_authority False,
          meta_new_readonly obligation_owner True, meta_new_readonly (token_id ids) False]
          (pack (WithdrawObligationCollateral collateral_amount)))"

definition borrow_obligation_liquidity ::
    "crypto \<Rightarrow> sdk_ids \<Rightarrow> pubkey \<Rightarrow> u64 \<Rightarrow> pubkey \<Rightarrow> pubkey \<Rightarrow> pubkey \<Rightarrow>
      pubkey \<Rightarrow> pubkey \<Rightarrow> pubkey \<Rightarrow> pubkey \<Rightarrow> pubkey option \<Rightarrow> instruction" where
  "borrow_obligation_liquidity c ids program_id liquidity_amount source_liquidity destination_liquidity
      borrow_reserve borrow_reserve_liquidity_fee_receiver obligation lending_market obligation_owner
      host_fee_receiver =
     (let lending_market_authority = fst (find_program_address c [pk_bytes lending_market] program_id)
      in instruction_new program_id
          ([meta_new source_liquidity False, meta_new destination_liquidity False, meta_new borrow_reserve False,
          meta_new borrow_reserve_liquidity_fee_receiver False, meta_new obligation False,
          meta_new_readonly lending_market False, meta_new_readonly lending_market_authority False,
          meta_new_readonly obligation_owner True, meta_new_readonly (token_id ids) False]
          @ (case host_fee_receiver of Some k \<Rightarrow> [meta_new k False] | None \<Rightarrow> []))
          (pack (BorrowObligationLiquidity liquidity_amount)))"

definition repay_obligation_liquidity ::
    "sdk_ids \<Rightarrow> pubkey \<Rightarrow> u64 \<Rightarrow> pubkey \<Rightarrow> pubkey \<Rightarrow> pubkey \<Rightarrow> pubkey \<Rightarrow>
      pubkey \<Rightarrow> pubkey \<Rightarrow> instruction" where
  "repay_obligation_liquidity ids program_id liquidity_amount source_liquidity destination_liquidity
      repay_reserve obligation lending_market user_transfer_authority =
     instruction_new program_id
       [meta_new source_liquidity False, meta_new destination_liquidity False, meta_new repay_reserve False,
       meta_new obligation False, meta_new_readonly lending_market False,
       meta_new_readonly user_transfer_authority True, meta_new_readonly (token_id ids) False]
       (pack (RepayObligationLiquidity liquidity_amount))"

definition liquidate_obligation ::
    "crypto \<Rightarrow> sdk_ids \<Rightarrow> pubkey \<Rightarrow> u64 \<Rightarrow> pubkey \<Rightarrow> pubkey \<Rightarrow> pubkey \<Rightarrow>
      pubkey \<Rightarrow> pubkey \<Rightarrow> pubkey \<Rightarrow> pubkey \<Rightarrow> pubkey \<Rightarrow> pubkey \<Rightarrow> instruction" where
  "liquidate_obligation c ids program_id liquidity_amount source_liquidity destination_collateral
      repay_reserve repay_reserve_liquidity_supply withdraw_reserve withdraw_reserve_collateral_supply
      obligation lending_market user_transfer_authority =
     (let lending_market_authority = fst (find_program_address c [pk_bytes lending_market] program_id)
      in instruction_new program_id
          [meta_new source_liquidity False, meta_new destination_collateral False, meta_new repay_reserve False,
          meta_new repay_reserve_liquidity_supply False, meta_new_readonly withdraw_reserve False,
          meta_new withdraw_reserve_collateral_supply False, meta_new obligation False,
          meta_new_readonly lending_market False, meta_new_readonly lending_market_authority False,
          meta_new_readonly user_transfer_authority True, meta_new_readonly (token_id ids) False]
          (pack (LiquidateObligation liquidity_amount)))"

definition update_reserve_config ::
    "crypto \<Rightarrow> pubkey \<Rightarrow> reserve_config \<Rightarrow> pubkey \<Rightarrow> pubkey \<Rightarrow> pubkey \<Rightarrow>
      pubkey \<Rightarrow> pubkey \<Rightarrow> pubkey \<Rightarrow> instruction" where
  "update_reserve_config c program_id config reserve lending_market lending_market_owner pyth_product
      pyth_price switchboard_feed =
     (let lending_market_authority = fst (find_program_address c [pk_bytes lending_market] program_id)
      in instruction_new program_id
          [meta_new reserve False, meta_new_readonly lending_market False,
          meta_new_readonly lending_market_authority False, meta_new_readonly lending_market_owner True,
          meta_new_readonly pyth_product False, meta_new_readonly pyth_price False,
          meta_new_readonly switchboard_feed False]
          (pack (UpdateReserveConfig config)))"

definition liquidate_obligation_and_redeem_reserve_collateral ::
    "crypto \<Rightarrow> sdk_ids \<Rightarrow> pubkey \<Rightarrow> u64 \<Rightarrow> pubkey \<Rightarrow> pubkey \<Rightarrow> pubkey \<Rightarrow>
      pubkey \<Rightarrow> pubkey \<Rightarrow> pubkey \<Rightarrow> pubkey \<Rightarrow> pubkey \<Rightarrow> pubkey \<Rightarrow> pubkey \<Rightarrow>
      pubkey \<Rightarrow> pubkey \<Rightarrow> pubkey \<Rightarrow> instruction" where
  "liquidate_obligation_and_redeem_reserve_collateral c ids program_id liquidity_amount source_liquidity
      destination_collateral destination_liquidity repay_reserve repay_reserve_liquidity_supply
      withdraw_reserve withdraw_reserve_collateral_mint withdraw_reserve_collateral_supply
      withdraw_reserve_liquidity_supply withdraw_reserve_liquidity_fee_receiver obligation lending_market
      user_transfer_authority =
     (let lending_market_authority = fst (find_program_address c [pk_bytes lending_market] program_id)
      in instruction_new program_id
          [meta_new source_liquidity False, meta_new destination_collateral False,
          meta_new destination_liquidity False, meta_new repay_reserve False,
          meta_new repay_reserve_liquidity_supply False, meta_new withdraw_reserve False,
          meta_new withdraw_reserve_collateral_mint False, meta_new withdraw_reserve_collateral_supply False,
          meta_new withdraw_reserve_liquidity_supply False,
          meta_new withdraw_reserve_liquidity_fee_receiver False, meta_new obligation False,
          meta_new_readonly lending_market False, meta_new_readonly lending_market_authority False,
          meta_new_readonly user_transfer_authority True, meta_new_readonly (token_id ids) False]
          (pack (LiquidateObligationAndRedeemReserveCollateral liquidity_amount)))"

definition redeem_fees ::
    "crypto \<Rightarrow> sdk_ids \<Rightarrow> pubkey \<Rightarrow> pubkey \<Rightarrow> pubkey \<Rightarrow> pubkey \<Rightarrow> pubkey \<Rightarrow> instruction" where
  "redeem_fees c ids program_id reserve reserve_liquidity_fee_receiver reserve_supply_liquidity
      lending_market =
     (let lending_market_authority = fst (find_program_address c [pk_bytes lending_market] program_id)
      in instruction_new program_id
          [meta_new reserve False, meta_new reserve_liquidity_fee_receiver False,
          meta_new reserve_supply_liquidity False, meta_new_readonly lending_market False,
          meta_new_readonly lending_market_authority False, meta_new_readonly (token_id ids) False]
          (pack RedeemFees))"

definition flash_borrow_reserve_liquidity ::
    "crypto \<Rightarrow> sdk_ids \<Rightarrow> pubkey \<Rightarrow> u64 \<Rightarrow> pubkey \<Rightarrow> pubkey \<Rightarrow> pubkey \<Rightarrow>
      pubkey \<Rightarrow> instruction" where
  "flash_borrow_reserve_liquidity c ids program_id liquidity_amount source_liquidity destination_liquidity
      reserve lending_market =
     (let lending_market_authority = fst (find_program_address c [pk_bytes lending_market] program_id)
      in instruction_new program_id
          [meta_new source_liquidity False, meta_new destination_liquidity False, meta_new reserve False,
          meta_new_readonly lending_market False, meta_new_readonly lending_market_authority False,
          meta_new_readonly (instructions_id ids) False, meta_new_readonly (token_id ids) False]
          (pack (FlashBorrowReserveLiquidity liquidity_amount)))"

definition flash_repay_reserve_liquidity ::
    "sdk_ids \<Rightarrow> pubkey \<Rightarrow> u64 \<Rightarrow> u8 \<Rightarrow> pubkey \<Rightarrow> pubkey \<Rightarrow> pubkey \<Rightarrow>
      pubkey \<Rightarrow> pubkey \<Rightarrow> pubkey \<Rightarrow> pubkey \<Rightarrow> instruction" where
  "flash_repay_reserve_liquidity ids program_id liquidity_amount borrow_instruction_index source_liquidity
      destination_liquidity reserve_liquidity_fee_receiver host_fee_receiver reserve lending_market
      user_transfer_authority =
     instruction_new program_id
       [meta_new source_liquidity False, meta_new destination_liquidity False,
       meta_new reserve_liquidity_fee_receiver False, meta_new host_fee_receiver False, meta_new reserve False,
       meta_new_readonly lending_market False, meta_new_readonly user_transfer_authority True,
       meta_new_readonly (instructions_id ids) False, meta_new_readonly (token_id ids) False]
       (pack (FlashRepayReserveLiquidity liquidity_amount borrow_instruction_index))"

section \<open>Field codecs\<close>

text \<open>
  What a reader of one field promises: it takes exactly what its writer wrote and leaves the rest, and it takes
  nothing else.
\<close>

locale field_codec =
  fixes enc :: "'a \<Rightarrow> u8 list" and dec :: "u8 list \<Rightarrow> lending_error + ('a \<times> u8 list)" and ok :: "'a \<Rightarrow> bool"
  assumes dec_iff: "dec bs = Inr (x, r) \<longleftrightarrow> ok x \<and> bs = enc x @ r"
begin

lemma dec_enc: "ok x \<Longrightarrow> dec (enc x @ r) = Inr (x, r)"
  by (simp add: dec_iff)

lemma prefix_free: "ok x \<Longrightarrow> ok y \<Longrightarrow> enc x @ r = enc y @ r' \<Longrightarrow> x = y \<and> r = r'"
  by (metis dec_enc Inr_inject prod.inject)

lemma then_iff: "and_then (dec bs) f = Inr y \<longleftrightarrow> (\<exists>x r. ok x \<and> bs = enc x @ r \<and> f (x, r) = Inr y)"
  by (auto simp: and_then_Inr_iff dec_iff)

end

lemma word_of_le_iff8: "length bs = 8 \<Longrightarrow> u64_le (word_of_le bs) = bs"
  using nat_le_bytes_le_nat [of bs] le_nat_bound [of bs]
  by (simp add: u64_le_def word_of_le_def unat_of_nat)

interpretation u64_field: field_codec u64_le unpack_u64 "\<lambda>_. True"
proof
  fix bs r and x :: u64
  show "unpack_u64 bs = Inr (x, r) \<longleftrightarrow> True \<and> bs = u64_le x @ r"
    using word_of_le_iff8 [of "take 8 bs"]
    by (auto simp: unpack_u64_def not_less)
qed

interpretation u8_field: field_codec "\<lambda>b. [b]" unpack_u8 "\<lambda>_. True"
  by unfold_locales (auto simp: unpack_u8_def split: list.split)

interpretation bytes32_field: field_codec "\<lambda>bs. bs" unpack_bytes32 "\<lambda>bs. length bs = 32"
  by unfold_locales (auto simp: unpack_bytes32_def)

interpretation pubkey_field: field_codec pk_bytes unpack_pubkey pubkey_wf
proof
  fix bs r and x :: pubkey
  show "unpack_pubkey bs = Inr (x, r) \<longleftrightarrow> pubkey_wf x \<and> bs = pk_bytes x @ r"
    by (cases x) (auto simp: unpack_pubkey_def)
qed

lemmas field_iffs = u64_field.then_iff u8_field.then_iff bytes32_field.then_iff pubkey_field.then_iff

interpretation config_field: field_codec pack_config unpack_config "\<lambda>config. pubkey_wf (rc_fee_receiver config)"
proof
  fix bs r and x :: reserve_config
  obtain f where f: "rc_fees x = f" by simp
  show "unpack_config bs = Inr (x, r) \<longleftrightarrow> pubkey_wf (rc_fee_receiver x) \<and> bs = pack_config x @ r"
    by (cases x; cases "rc_fees x") (auto simp: unpack_config_def field_iffs pack_config_def)
qed

section \<open>Reader and writer\<close>

text \<open>The arrays of an instruction have their length.\<close>

fun sdk_wf :: "lending_instruction \<Rightarrow> bool" where
  "sdk_wf (InitLendingMarket owner quote_currency) \<longleftrightarrow> pubkey_wf owner \<and> length quote_currency = 32"
| "sdk_wf (SetLendingMarketOwner new_owner) \<longleftrightarrow> pubkey_wf new_owner"
| "sdk_wf (InitReserve _ config) \<longleftrightarrow> pubkey_wf (rc_fee_receiver config)"
| "sdk_wf (UpdateReserveConfig config) \<longleftrightarrow> pubkey_wf (rc_fee_receiver config)"
| "sdk_wf _ \<longleftrightarrow> True"

lemma unpack_amount_iff:
  "unpack_amount mk bs = Inr i \<longleftrightarrow> (\<exists>n r. bs = u64_le n @ r \<and> i = mk n)"
  by (auto simp: unpack_amount_def field_iffs)

lemma unpack_pack: "sdk_wf i \<Longrightarrow> unpack (pack i @ r) = Inr i"
  by (cases i)
    (simp_all add: unpack_def unpack_amount_def u64_field.dec_enc u8_field.dec_enc [simplified] bytes32_field.dec_enc
      pubkey_field.dec_enc config_field.dec_enc)

lemma unpack_Inr: "unpack bs = Inr i \<Longrightarrow> sdk_wf i \<and> (\<exists>r. bs = pack i @ r)"
  unfolding unpack_def
  by (auto simp: field_iffs config_field.then_iff unpack_amount_iff split: list.splits if_splits)

text \<open>
  C34: The reader of the program on chain is exactly the inverse of its writer: it accepts a buffer as an instruction if
  and only if the buffer starts with the bytes the writer makes of that instruction, whatever follows them.
\<close>

theorem sdk_unpack_inverse: "unpack bs = Inr i \<longleftrightarrow> sdk_wf i \<and> (\<exists>r. bs = pack i @ r)"
  using unpack_pack unpack_Inr by blast

end
