(* ===== verification/SaveWire.thy ===== *)
theory SaveWire
  imports Save SolendSdk
begin

text \<open>
  The Save adapter of theory \<open>Save\<close> held against the program's interface of theory
  \<open>SolendSdk\<close>: what the program's reader makes of the data the adapter encodes, and which of the
  adapter's instructions are the ones the interface's constructors build. The constructors of the two instruction types
  have the same names; those of the interface are written with the name of their type.
\<close>

section \<open>Data\<close>

text \<open>The tags of the adapter are those of the writer.\<close>

lemma pack_tag:
  "hd (pack i) = save_tag (case i of
      lending_instruction.InitLendingMarket _ _ \<Rightarrow> save_ix.InitLendingMarket
    | lending_instruction.SetLendingMarketOwner _ \<Rightarrow> save_ix.SetLendingMarketOwner
    | lending_instruction.InitReserve _ _ \<Rightarrow> save_ix.InitReserve
    | lending_instruction.RefreshReserve \<Rightarrow> save_ix.RefreshReserve
    | lending_instruction.DepositReserveLiquidity _ \<Rightarrow> save_ix.DepositReserveLiquidity
    | lending_instruction.RedeemReserveCollateral _ \<Rightarrow> save_ix.RedeemReserveCollateral
    | lending_instruction.InitObligation \<Rightarrow> save_ix.InitObligation
    | lending_instruction.RefreshObligation \<Rightarrow> save_ix.RefreshObligation
    | lending_instruction.DepositObligationCollateral _ \<Rightarrow> save_ix.DepositObligationCollateral
    | lending_instruction.WithdrawObligationCollateral _ \<Rightarrow> save_ix.WithdrawObligationCollateral
    | lending_instruction.BorrowObligationLiquidity _ \<Rightarrow> save_ix.BorrowObligationLiquidity
    | lending_instruction.RepayObligationLiquidity _ \<Rightarrow> save_ix.RepayObligationLiquidity
    | lending_instruction.LiquidateObligation _ \<Rightarrow> save_ix.LiquidateObligation
    | lending_instruction.FlashLoan _ \<Rightarrow> save_ix.FlashLoan
    | lending_instruction.DepositReserveLiquidityAndObligationCollateral _ \<Rightarrow>
        save_ix.DepositReserveLiquidityAndObligationCollateral
    | lending_instruction.WithdrawObligationCollateralAndRedeemReserveCollateral _ \<Rightarrow>
        save_ix.WithdrawObligationCollateralAndRedeemReserveCollateral
    | lending_instruction.UpdateReserveConfig _ \<Rightarrow> save_ix.UpdateReserveConfig
    | lending_instruction.LiquidateObligationAndRedeemReserveCollateral _ \<Rightarrow>
        save_ix.LiquidateObligationAndRedeemReserveCollateral
    | lending_instruction.RedeemFees \<Rightarrow> save_ix.RedeemFees
    | lending_instruction.FlashBorrowReserveLiquidity _ \<Rightarrow> save_ix.FlashBorrowReserveLiquidity
    | lending_instruction.FlashRepayReserveLiquidity _ _ \<Rightarrow> save_ix.FlashRepayReserveLiquidity)"
  by (cases i) simp_all

named_theorems encodes \<open>the adapter's encoders write what the interface writes\<close>

lemma encoders_pack [encodes]:
  "encode_refresh_reserve_save = pack lending_instruction.RefreshReserve"
  "encode_refresh_obligation_save = pack lending_instruction.RefreshObligation"
  "encode_liquidate_and_redeem amount = pack (lending_instruction.LiquidateObligationAndRedeemReserveCollateral amount)"
  "encode_flash_borrow_save amount = pack (lending_instruction.FlashBorrowReserveLiquidity amount)"
  "encode_flash_repay_save amount i = pack (lending_instruction.FlashRepayReserveLiquidity amount i)"
  "encode_flash_loan_legacy amount = pack (lending_instruction.FlashLoan amount)"
  by (simp_all add: encode_refresh_reserve_save_def encode_refresh_obligation_save_def encode_liquidate_and_redeem_def
      encode_flash_borrow_save_def encode_flash_repay_save_def encode_flash_loan_legacy_def)

lemma unpack_encoded: "sdk_wf i \<Longrightarrow> unpack (pack i) = Inr i"
  using unpack_pack [of i "[]"] by simp

text \<open>What the Save program reads of an instruction addressed to it.\<close>

definition program_reads :: "labeled_ix \<Rightarrow> (lending_error + lending_instruction) option" where
  "program_reads l = (if ix_program_id (li_ix l) = prog_save then Some (unpack (ix_data (li_ix l))) else None)"

lemma program_reads_save: "program_reads (labeled l (instruction_new prog_save ms d)) = Some (unpack d)"
  by (simp add: program_reads_def labeled_def)

lemma program_reads_budget: "program_reads (cu_limit_ix n) = None" "program_reads (cu_price_ix m) = None"
  by (simp_all add: program_reads_def labeled_def cu_limit_ix_def cu_price_ix_def compute_unit_limit_def
      compute_unit_price_def prog_save_def prog_compute_budget_def)

lemma save_reads:
  "program_reads (refresh_reserve_ix_save r) = Some (Inr lending_instruction.RefreshReserve)"
  "program_reads (refresh_obligation_ix_save obl) = Some (Inr lending_instruction.RefreshObligation)"
  "program_reads (liquidate_ix_save a amount) =
     Some (Inr (lending_instruction.LiquidateObligationAndRedeemReserveCollateral amount))"
  "program_reads (labeled l (flash_borrow_build_ix_save b amount)) =
     Some (Inr (lending_instruction.FlashBorrowReserveLiquidity amount))"
  "program_reads (labeled l (flash_repay_build_ix_save q amount i)) =
     Some (Inr (lending_instruction.FlashRepayReserveLiquidity amount i))"
  by (simp_all add: refresh_reserve_ix_save_def refresh_obligation_ix_save_def liquidate_ix_save_def
      save_liquidate_build_ix_def flash_borrow_build_ix_save_def flash_repay_build_ix_save_def program_reads_save encodes
      unpack_encoded del: pack.simps)

lemma refreshes_read:
  "List.map_filter program_reads (map refresh_reserve_ix_save rs) =
     replicate (length rs) (Inr lending_instruction.RefreshReserve)"
  by (induction rs) (simp_all add: List.map_filter_def save_reads)

lemma plan_reads:
  "List.map_filter program_reads (sap_labeled (build_flash_atomic_plan accounts amount swaps cu_limit cu_price)) =
     replicate (length (sfp_refresh_reserves accounts)) (Inr lending_instruction.RefreshReserve)
     @ [Inr lending_instruction.RefreshObligation, Inr (lending_instruction.FlashBorrowReserveLiquidity amount),
        Inr (lending_instruction.LiquidateObligationAndRedeemReserveCollateral amount)]
     @ List.map_filter program_reads swaps
     @ [Inr (lending_instruction.FlashRepayReserveLiquidity amount (word_of_nat (3 + length (sfp_refresh_reserves accounts))))]"
  by (simp add: build_flash_atomic_plan_def Let_def refreshes_read)
    (simp add: List.map_filter_def save_reads program_reads_budget comp_def map_replicate_const)

text \<open>
  C7: What the Save program reads of a flash plan, with the reader of its own interface: one reserve refresh per
  reserve, the obligation refresh, a flash borrow and a liquidation of the planned amount, whatever the swap holds, and
  last a flash repay of the same amount, whose index is, for less than 253 reserves, the place in the transaction of
  the instruction the program reads as that borrow.
\<close>

theorem save_plan_read_by_program:
  assumes "length (sfp_refresh_reserves accounts) < 253"
    and "ls = sap_labeled (build_flash_atomic_plan accounts amount swaps cu_limit cu_price)"
  shows "\<exists>i. List.map_filter program_reads ls =
      replicate (length (sfp_refresh_reserves accounts)) (Inr lending_instruction.RefreshReserve)
      @ [Inr lending_instruction.RefreshObligation, Inr (lending_instruction.FlashBorrowReserveLiquidity amount),
         Inr (lending_instruction.LiquidateObligationAndRedeemReserveCollateral amount)]
      @ List.map_filter program_reads swaps
      @ [Inr (lending_instruction.FlashRepayReserveLiquidity amount i)]
    \<and> unat i < length ls
    \<and> program_reads (ls ! unat i) = Some (Inr (lending_instruction.FlashBorrowReserveLiquidity amount))"
proof -
  let ?n = "length (sfp_refresh_reserves accounts)"
  have i: "unat (word_of_nat (3 + ?n) :: u8) = 3 + ?n" using assms(1) by (simp only: unat_of_nat) simp
  have "ls ! (3 + ?n) = labeled ''FlashBorrowReserveLiquidity'' (flash_borrow_build_ix_save (sfp_flash_borrow accounts) amount)"
    by (simp add: assms(2) build_flash_atomic_plan_def Let_def nth_append)
  moreover have "3 + ?n < length ls" by (simp add: assms(2) build_flash_atomic_plan_def Let_def)
  ultimately show ?thesis
    unfolding assms(2) plan_reads
    by (intro exI [of _ "word_of_nat (3 + ?n)"]) (simp only: i, simp add: save_reads)
qed

theorem save_plan_read_by_program_witness:
  "\<exists>i. last (List.map_filter program_reads (sap_labeled (build_flash_atomic_plan sample_flash_accounts 1000000 [] 400000 1000)))
     = Inr (lending_instruction.FlashRepayReserveLiquidity 1000000 i)"
proof -
  have "length (sfp_refresh_reserves sample_flash_accounts) < 253" by (simp add: sample_flash_accounts_def)
  from save_plan_read_by_program [OF this refl, of 1000000 "[]" 400000 1000] show ?thesis by auto
qed

section \<open>Instructions\<close>

text \<open>
  C6: With the ids of the token program and of the instructions sysvar as the adapter knows them, and the authority
  derived from the market, the adapter's flash borrow, flash repay and liquidation are, account for account, flag for
  flag and byte for byte, the instructions the interface's constructors build.
\<close>

theorem save_instructions_as_interface:
  assumes "token_id ids = prog_token" "instructions_id ids = prog_sysvar_instructions"
    and "sfb_lending_market_authority b = fst (find_program_address c [pk_bytes (sfb_lending_market b)] prog_save)"
    and "sl_lending_market_authority a = fst (find_program_address c [pk_bytes (sl_lending_market a)] prog_save)"
  shows "flash_borrow_build_ix_save b amount =
      flash_borrow_reserve_liquidity c ids prog_save amount (sfb_source_liquidity b) (sfb_destination_liquidity b)
        (sfb_reserve b) (sfb_lending_market b)
    \<and> flash_repay_build_ix_save q amount i =
      flash_repay_reserve_liquidity ids prog_save amount i (sfr_source_liquidity q) (sfr_destination_liquidity q)
        (sfr_fee_receiver q) (sfr_host_fee_receiver q) (sfr_reserve q) (sfr_lending_market q)
        (sfr_user_transfer_authority q)
    \<and> save_liquidate_build_ix a amount =
      liquidate_obligation_and_redeem_reserve_collateral c ids prog_save amount (sl_source_liquidity a)
        (sl_destination_collateral a) (sl_destination_liquidity a) (sl_repay_reserve a)
        (sl_repay_reserve_liquidity_supply a) (sl_withdraw_reserve a) (sl_withdraw_reserve_collateral_mint a)
        (sl_withdraw_reserve_collateral_supply a) (sl_withdraw_reserve_liquidity_supply a)
        (sl_withdraw_reserve_fee_receiver a) (sl_obligation a) (sl_lending_market a) (sl_user_transfer_authority a)"
  by (simp add: flash_borrow_build_ix_save_def flash_borrow_metas_save_def flash_borrow_reserve_liquidity_def
      flash_repay_build_ix_save_def flash_repay_metas_save_def flash_repay_reserve_liquidity_def
      save_liquidate_build_ix_def save_liquidate_metas_def liquidate_obligation_and_redeem_reserve_collateral_def
      Let_def assms encodes del: pack.simps)

definition sample_sdk_ids :: sdk_ids where
  "sample_sdk_ids = \<lparr>token_id = prog_token, rent_id = pubkey_test 3 1, instructions_id = prog_sysvar_instructions\<rparr>"

definition wire_crypto :: crypto where
  "wire_crypto = \<lparr>b58_decode = (\<lambda>_. None), sha256 = (\<lambda>_. replicate 32 0), on_curve = (\<lambda>_. False)\<rparr>"

definition sample_derived_borrow :: flash_borrow_accounts_save where
  "sample_derived_borrow = (sfp_flash_borrow sample_flash_accounts)
     \<lparr>sfb_lending_market_authority := fst (find_program_address wire_crypto
        [pk_bytes (sfb_lending_market (sfp_flash_borrow sample_flash_accounts))] prog_save)\<rparr>"

definition sample_derived_liquidate :: save_liquidate_accounts where
  "sample_derived_liquidate = (sfp_liquidate sample_flash_accounts)
     \<lparr>sl_lending_market_authority := fst (find_program_address wire_crypto
        [pk_bytes (sl_lending_market (sfp_liquidate sample_flash_accounts))] prog_save)\<rparr>"

theorem save_instructions_as_interface_witness:
  "flash_borrow_build_ix_save sample_derived_borrow 5 =
     flash_borrow_reserve_liquidity wire_crypto sample_sdk_ids prog_save 5 (sfb_source_liquidity sample_derived_borrow)
       (sfb_destination_liquidity sample_derived_borrow) (sfb_reserve sample_derived_borrow)
       (sfb_lending_market sample_derived_borrow)"
  using save_instructions_as_interface [of sample_sdk_ids sample_derived_borrow wire_crypto sample_derived_liquidate 5
      "sfp_flash_repay sample_flash_accounts" 0]
  by (simp add: sample_sdk_ids_def sample_derived_borrow_def sample_derived_liquidate_def)

text \<open>
  C35: The adapter's refresh instructions are not those of the interface: no choice of oracles makes the interface's
  reserve refresh the adapter's, which names the reserve alone, and the adapter's obligation refresh, which names the
  obligation alone, is the interface's only for an obligation without reserves.
\<close>

theorem save_refresh_lacks_accounts:
  "li_ix (refresh_reserve_ix_save r) \<noteq> refresh_reserve prog_save r pyth switchboard
   \<and> (li_ix (refresh_obligation_ix_save obl) = refresh_obligation prog_save obl reserves \<longleftrightarrow> reserves = [])"
  by (auto simp: refresh_reserve_ix_save_def refresh_obligation_ix_save_def refresh_reserve_def refresh_obligation_def
      labeled_def encodes instruction_new_def)

end
