(* ===== verification/P0Wire.thy ===== *)
theory P0Wire
  imports Marginfi
begin

text \<open>
  The marginfi adapter of theory \<open>Marginfi\<close> held against the program's own types, kept by the repository under
  \<^verbatim>\<open>crates/liq-project0/idls\<close>: the discriminators (\<^verbatim>\<open>discriminators.rs\<close>) and the
  fee state account (\<^verbatim>\<open>fee_state.rs\<close>). The struct is \<^verbatim>\<open>repr(C)\<close> and
  \<^verbatim>\<open>Pod\<close>, a derivation that refuses padding, so that its bytes are those of its fields in order. Two
  field types are not in the repository: a \<^verbatim>\<open>WrappedI80F48\<close> is kept as its bytes, of which
  there are 16, and a \<^verbatim>\<open>PanicState\<close> as its bytes, however many; that they are 32 follows from
  the size the file asserts.
\<close>

section \<open>Discriminators\<close>

definition idl_account_discriminators :: "(string \<times> u8 list) list" where
  "idl_account_discriminators =
     [(''GROUP'', [182, 23, 173, 240, 151, 206, 182, 67]),
      (''BANK'', [142, 49, 166, 242, 50, 66, 97, 188]),
      (''ACCOUNT'', [67, 178, 130, 109, 126, 114, 28, 42]),
      (''FEE_STATE'', [63, 224, 16, 85, 193, 36, 235, 220]),
      (''STAKED_SETTINGS'', [157, 140, 6, 77, 89, 173, 173, 125]),
      (''LIQUIDATION_RECORD'', [95, 116, 23, 132, 89, 210, 245, 162]),
      (''ORDER'', [134, 173, 223, 185, 77, 86, 28, 51]),
      (''EXECUTE_ORDER_RECORD'', [6, 100, 107, 60, 164, 226, 56, 97]),
      (''BANK_METADATA'', [49, 207, 31, 34, 67, 225, 169, 186]),
      (''SAME_ASSET_EMODE_REGISTRY'', [222, 21, 195, 149, 193, 72, 219, 31])]"

definition idl_ix_discriminators :: "(string \<times> u8 list) list" where
  "idl_ix_discriminators =
     [(''INIT_LIQUIDATION_RECORD'', [236, 213, 238, 126, 147, 251, 164, 8]),
      (''START_LIQUIDATION'', [244, 93, 90, 214, 192, 166, 191, 21]),
      (''END_LIQUIDATION'', [110, 11, 244, 54, 229, 181, 22, 184]),
      (''START_EXECUTE_ORDER'', [1, 70, 140, 134, 183, 29, 208, 224]),
      (''END_EXECUTE_ORDER'', [115, 42, 20, 93, 121, 84, 178, 83]),
      (''LENDING_ACCOUNT_WITHDRAW'', [36, 72, 74, 19, 210, 210, 192, 192]),
      (''LENDING_ACCOUNT_REPAY'', [79, 209, 172, 177, 222, 51, 173, 151]),
      (''KAMINO_WITHDRAW'', [199, 101, 41, 45, 213, 98, 224, 200]),
      (''DRIFT_WITHDRAW'', [86, 59, 186, 123, 183, 181, 234, 137]),
      (''JUPLEND_WITHDRAW'', [245, 164, 253, 202, 53, 77, 251, 221]),
      (''START_FLASHLOAN'', [14, 131, 33, 220, 81, 186, 180, 107]),
      (''END_FLASHLOAN'', [105, 124, 201, 106, 153, 2, 8, 156]),
      (''START_DELEVERAGE'', [10, 138, 10, 57, 40, 232, 182, 193]),
      (''END_DELEVERAGE'', [114, 14, 250, 143, 252, 104, 214, 209])]"

text \<open>The program tells instructions and accounts apart by them.\<close>

lemma idl_discriminators_distinct:
  "distinct (map snd idl_ix_discriminators)" "distinct (map snd idl_account_discriminators)"
  by (simp_all add: idl_ix_discriminators_def idl_account_discriminators_def)

definition ix_name :: "u8 list \<Rightarrow> string option" where
  "ix_name data = map_option fst (List.find (\<lambda>(_, d). d = take 8 data) idl_ix_discriminators)"

text \<open>The program takes each block of data the adapter encodes for the instruction the adapter means.\<close>

lemma encoded_ix_names:
  "ix_name encode_start_liquidation = Some ''START_LIQUIDATION''"
  "ix_name encode_end_liquidation = Some ''END_LIQUIDATION''"
  "ix_name (encode_withdraw amount all) = Some ''LENDING_ACCOUNT_WITHDRAW''"
  "ix_name (encode_repay amount all) = Some ''LENDING_ACCOUNT_REPAY''"
  by (simp_all add: ix_name_def idl_ix_discriminators_def encode_start_liquidation_def encode_end_liquidation_def
      encode_withdraw_def encode_repay_def disc_start_liquidation_def disc_end_liquidation_def
      disc_lending_account_withdraw_def disc_lending_account_repay_def)

section \<open>The fee state account\<close>

record idl_fee_state =
  fst_key :: pubkey
  fst_global_fee_admin :: pubkey
  fst_global_fee_wallet :: pubkey
  fst_account_transfer_fee :: u32
  fst_placeholder0 :: "u8 list"
  fst_bank_init_flat_sol_fee :: u32
  fst_bump_seed :: u8
  fst_padding0 :: "u8 list"
  fst_liquidation_max_fee :: "u8 list"
  fst_program_fee_fixed :: "u8 list"
  fst_program_fee_rate :: "u8 list"
  fst_panic_state :: "u8 list"
  fst_placeholder1 :: u64
  fst_liquidation_flat_sol_fee :: u32
  fst_order_init_flat_sol_fee :: u32
  fst_order_execution_max_fee :: "u8 list"
  fst_pause_delegate_admin :: pubkey
  fst_reserved0 :: "u64 list"

text \<open>The arrays have their lengths.\<close>

definition fee_state_wf :: "idl_fee_state \<Rightarrow> bool" where
  "fee_state_wf s \<longleftrightarrow> pubkey_wf (fst_key s) \<and> pubkey_wf (fst_global_fee_admin s) \<and> pubkey_wf (fst_global_fee_wallet s)
     \<and> length (fst_placeholder0 s) = 4 \<and> length (fst_padding0 s) = 3
     \<and> length (fst_liquidation_max_fee s) = 16 \<and> length (fst_program_fee_fixed s) = 16
     \<and> length (fst_program_fee_rate s) = 16 \<and> length (fst_order_execution_max_fee s) = 16
     \<and> pubkey_wf (fst_pause_delegate_admin s) \<and> length (fst_reserved0 s) = 32"

definition idl_fee_state_bytes :: "idl_fee_state \<Rightarrow> u8 list" where
  "idl_fee_state_bytes s =
     pk_bytes (fst_key s) @ pk_bytes (fst_global_fee_admin s) @ pk_bytes (fst_global_fee_wallet s)
     @ u32_le (fst_account_transfer_fee s) @ fst_placeholder0 s @ u32_le (fst_bank_init_flat_sol_fee s)
     @ [fst_bump_seed s] @ fst_padding0 s @ fst_liquidation_max_fee s @ fst_program_fee_fixed s
     @ fst_program_fee_rate s @ fst_panic_state s @ u64_le (fst_placeholder1 s)
     @ u32_le (fst_liquidation_flat_sol_fee s) @ u32_le (fst_order_init_flat_sol_fee s)
     @ fst_order_execution_max_fee s @ pk_bytes (fst_pause_delegate_admin s) @ concat (map u64_le (fst_reserved0 s))"

text \<open>The asserted size of 512 bytes leaves 32 for the panic state.\<close>

lemma panic_state_size:
  assumes "fee_state_wf s" "length (idl_fee_state_bytes s) = 512"
  shows "length (fst_panic_state s) = 32"
proof -
  have "length (concat (map u64_le ws)) = 8 * length ws" for ws by (induction ws) simp_all
  then show ?thesis
    using assms by (simp add: fee_state_wf_def idl_fee_state_bytes_def pubkey_wf_def)
qed

text \<open>
  C36: The parser reads the fee state account where the program keeps it: of the account's bytes, laid out as the
  program's own struct of the size it asserts, behind its discriminator, the parser returns the struct's maximum
  liquidation fee in basis points, its flat fee, its fee wallet, and the lowest bit of the panic state; it fails only
  when that fee has no basis points.
\<close>

theorem fee_state_read_as_laid_out:
  assumes "fee_state_wf s" "length (idl_fee_state_bytes s) = 512"
  shows "parse_fee_state (account_disc_fee_state @ idl_fee_state_bytes s) =
    and_then (i80f48_le_to_bps (fst_liquidation_max_fee s)) (\<lambda>bps. Inr
      \<lparr>fs_liquidation_max_fee_bps = bps,
       fs_liquidation_flat_sol_fee_lamports = ucast (fst_liquidation_flat_sol_fee s),
       fs_global_fee_wallet = fst_global_fee_wallet s,
       fs_paused = (hd (fst_panic_state s) AND 1 \<noteq> 0)\<rparr>)"
proof -
  let ?b = "idl_fee_state_bytes s"
  note wf = assms(1) [unfolded fee_state_wf_def pubkey_wf_def]
  note panic = panic_state_size [OF assms]
  have body: "fee_state_body (account_disc_fee_state @ ?b) = Inr ?b"
    by (simp add: fee_state_body_def account_disc_fee_state_def assms(2) slice_def)
  have "slice ?b 112 128 = fst_liquidation_max_fee s" "slice ?b 64 96 = pk_bytes (fst_global_fee_wallet s)"
      "slice ?b 200 204 = u32_le (fst_liquidation_flat_sol_fee s)"
    using wf panic by (simp_all add: idl_fee_state_bytes_def slice_simps)
  moreover have "?b ! 160 = hd (fst_panic_state s)"
    using wf panic by (cases "fst_panic_state s") (simp_all add: idl_fee_state_bytes_def nth_append)
  ultimately show ?thesis
    by (simp add: parse_fee_state_def body get_range_def assms(2) read_pubkey_def)
qed

definition sample_fee_state :: idl_fee_state where
  "sample_fee_state =
     \<lparr>fst_key = pubkey_test 1 1, fst_global_fee_admin = pubkey_test 1 2, fst_global_fee_wallet = pubkey_test 1 3,
      fst_account_transfer_fee = 7, fst_placeholder0 = replicate 4 0, fst_bank_init_flat_sol_fee = 8, fst_bump_seed = 255,
      fst_padding0 = replicate 3 0, fst_liquidation_max_fee = i80f48_from_ratio (ucast (250 :: u16)) 10000, fst_program_fee_fixed = replicate 16 1,
      fst_program_fee_rate = replicate 16 2, fst_panic_state = replicate 32 1, fst_placeholder1 = 9,
      fst_liquidation_flat_sol_fee = 5000, fst_order_init_flat_sol_fee = 6000,
      fst_order_execution_max_fee = replicate 16 3, fst_pause_delegate_admin = pubkey_test 1 4,
      fst_reserved0 = replicate 32 0\<rparr>"

theorem fee_state_read_as_laid_out_witness:
  "\<exists>view. parse_fee_state (account_disc_fee_state @ idl_fee_state_bytes sample_fee_state) = Inr view
     \<and> fs_liquidation_max_fee_bps view = 250 \<and> fs_liquidation_flat_sol_fee_lamports view = 5000 \<and> fs_global_fee_wallet view = pubkey_test 1 3 \<and> fs_paused view"
proof -
  have wf: "fee_state_wf sample_fee_state" by (simp add: fee_state_wf_def sample_fee_state_def i80f48_from_ratio_def)
  have "length (concat (replicate n (u64_le 0))) = 8 * n" for n by (induction n) simp_all
  then have size: "length (idl_fee_state_bytes sample_fee_state) = 512"
    by (simp add: idl_fee_state_bytes_def sample_fee_state_def pubkey_test_def i80f48_from_ratio_def)
  have "i80f48_le_to_bps (fst_liquidation_max_fee sample_fee_state) = Inr 250"
    using fee_bps_of_ratio [of 250] by (simp add: sample_fee_state_def)
  with fee_state_read_as_laid_out [OF wf size] show ?thesis by (simp add: sample_fee_state_def)
qed

end
