(* ===== verification/Bench.thy ===== *)
theory Bench
  imports LiveHealth CandidateIndex KaminoHealth Marginfi Save Strings
begin

text \<open>
  The microbenchmarks of \<^verbatim>\<open>bins/bench/src/main.rs\<close>. The clock is outside: the nanoseconds a
  loop took are an argument, as a natural number. What a run prints besides times, the number of triggers hit and of bytes
  encoded, is computed from the components, and its lemma checks that they compose. A run of zero triggers divides by
  zero (not a number in Rust) when it prints its rate; the model of \<open>ns_per\<close> is meant for a positive count.
\<close>

definition ns_per :: "nat \<Rightarrow> nat \<Rightarrow> f64" where
  "ns_per iters elapsed = fdiv (rnd (of_nat elapsed)) (rnd (of_nat iters))"

definition bench_trigger :: "nat \<Rightarrow> price_trigger" where
  "bench_trigger i =
     \<lparr>pt_account = pubkey_test 2 (word_of_nat i), pt_asset = pubkey_test 1 1, pt_side = CollateralDown,
      pt_trigger_price = price_from_f64 (fadd 100 (rnd (of_nat (i mod 50))))\<rparr>"

definition bench_index :: "nat \<Rightarrow> candidate_index" where
  "bench_index n = foldl (\<lambda>ix i. set_triggers ix (pubkey_test 2 (word_of_nat i)) [bench_trigger i]) index_new [0..<n]"

definition bench_candidate_lookup :: "nat \<Rightarrow> nat \<Rightarrow> nat \<times> nat \<times> f64" where
  "bench_candidate_lookup n dt =
     (let hits = on_price_update (bench_index n) (pubkey_test 1 1) (price_from_f64 150) (price_from_f64 90)
      in (length hits, dt, ns_per n dt))"

definition bench_obligation :: kamino_obligation where
  "bench_obligation =
     \<lparr>ko_address = pubkey_test 2 1, ko_market = pubkey_test 2 2,
      ko_deposits = [\<lparr>kd_reserve = pubkey_test 3 1, kd_mint = pubkey_test 1 1, kd_deposited_amount = 10000000000,
        kd_decimals = 9, kd_liq_threshold_bps = 8000\<rparr>],
      ko_borrows = [\<lparr>kb_reserve = pubkey_test 3 2, kb_mint = pubkey_test 1 2, kb_borrowed_amount = 700000000,
        kb_decimals = 6\<rparr>]\<rparr>"

definition bench_prices :: price_map where
  "bench_prices = [(pubkey_test 1 1, price_from_f64 100), (pubkey_test 1 2, price_from_f64 1)]"

text \<open>One pass of the loop; \<open>None\<close> is the panic of \<^verbatim>\<open>unwrap\<close>.\<close>

definition bench_health_pass :: "health_fx option" where
  "bench_health_pass =
     (case is_liquidatable bench_obligation bench_prices of Inl _ \<Rightarrow> None
      | Inr _ \<Rightarrow>
          let coll_usd = amount_to_usd_micro 10000000000 9 (price_from_f64 100);
              borrow_usd = amount_to_usd_micro 700000000 6 (price_from_f64 1)
          in Some (health_factor_ratio (coll_usd * 8000 div 10000) borrow_usd))"

definition bench_health_recompute :: "nat \<Rightarrow> nat \<Rightarrow> nat option" where
  "bench_health_recompute iters elapsed =
     (if 0 < iters \<and> bench_health_pass = None then None else Some elapsed)"

definition bench_ix_encode :: "nat \<Rightarrow> nat \<Rightarrow> nat \<times> u64" where
  "bench_ix_encode iters elapsed =
     (elapsed, foldl (\<lambda>bytes i. bytes + word_of_nat
        (length (encode_liquidate_v2_data (1000000 + word_of_nat i) 0 0) + length encode_refresh_reserve
         + length encode_refresh_obligation + length (encode_classic_liquidate (42 + word_of_nat i))
         + length (encode_liquidate_and_redeem (100 + word_of_nat i)))) 0 [0..<iters])"

text \<open>The counts of triggers, of iterations and of hits and bytes that the program prints, for the argument it
  is given; the products wrap around.\<close>

definition bench_main :: "string option \<Rightarrow> (nat \<times> nat \<times> nat \<times> u64) option" where
  "bench_main arg =
     (let n = (case Option.bind arg parse_u64 of Some n \<Rightarrow> n | None \<Rightarrow> 10000);
          iters = unat (max (n * 10) 50000)
      in if bench_health_recompute iters 0 = None then None
         else Some (unat n, iters, fst (bench_candidate_lookup (unat n) 0), snd (bench_ix_encode iters 0)))"

section \<open>What a run counts\<close>

lemma price_of_nat: "k < 2 ^ 20 \<Longrightarrow> price_from_f64 (of_nat k) = PriceFx (word_of_nat (k * 1000000000))"
proof -
  assume k: "k < 2 ^ 20"
  then have "k * 1000000000 < 2 ^ 53" by simp
  then have "rnd (of_nat (k * 1000000000)) = of_nat (k * 1000000000)" by (rule rnd_nat)
  moreover have "f64_of price_scale = 1000000000"
    by (subst f64_of_exact) simp_all
  ultimately have p: "fmul (max (of_nat k) 0) (f64_of price_scale) = of_nat (k * 1000000000)"
    by (simp add: fmul_def)
  have "round_away (of_nat m) = int m" for m
    by (simp add: round_away_def) linarith
  then show ?thesis
    using k by (simp only: price_from_f64_def p) (simp add: as_u128_def)
qed

lemma bench_price: "pt_trigger_price (bench_trigger i) = PriceFx (word_of_nat ((100 + i mod 50) * 1000000000))"
proof -
  have "i mod 50 < 50" by simp
  then have "rnd (of_nat (i mod 50)) = of_nat (i mod 50)" "rnd (of_nat (100 + i mod 50)) = of_nat (100 + i mod 50)"
    by (intro rnd_nat, simp)+
  then have "fadd 100 (rnd (of_nat (i mod 50))) = of_nat (100 + i mod 50)" by (simp add: fadd_def)
  moreover have "100 + i mod 50 < 2 ^ 20" using \<open>i mod 50 < 50\<close> by simp
  ultimately show ?thesis by (simp only: bench_trigger_def price_trigger.select_convs price_of_nat)
qed

lemma bench_index_inv: "trigger_inv (bench_index n)"
  by (induction n) (simp_all add: bench_index_def set_triggers_inv index_new_inv [THEN conjunct1])

lemma bench_index_stored:
  "account_triggers (bench_index n) a = Some ts
    \<Longrightarrow> \<exists>i < n. a = pubkey_test 2 (word_of_nat i) \<and> ts = [bench_trigger i]"
proof (induction n)
  case (Suc n)
  then show ?case
    by (cases "a = pubkey_test 2 (word_of_nat n)")
      (auto simp: bench_index_def less_Suc_eq)
qed (simp add: bench_index_def index_new_def)

lemma word_of_nat_inject64: "i < 2 ^ 64 \<Longrightarrow> j < 2 ^ 64 \<Longrightarrow> word_of_nat i = (word_of_nat j :: u64) \<Longrightarrow> i = j"
  by (simp add: word_of_nat_eq_iff take_bit_eq_mod)

lemma bench_index_has:
  "n \<le> 2 ^ 64 \<Longrightarrow> i < n
    \<Longrightarrow> account_triggers (bench_index n) (pubkey_test 2 (word_of_nat i)) = Some [bench_trigger i]"
proof (induction n)
  case (Suc n)
  show ?case
  proof (cases "i = n")
    case False
    with Suc.prems have "i < n" "n < 2 ^ 64" "i < 2 ^ 64" by simp_all
    moreover from this have "word_of_nat i \<noteq> (word_of_nat n :: u64)" using word_of_nat_inject64 by blast
    ultimately show ?thesis using Suc.IH by (simp add: bench_index_def)
  qed (simp add: bench_index_def)
qed simp

definition bench_hit :: "nat \<Rightarrow> trigger_hit" where
  "bench_hit i = \<lparr>th_account = pubkey_test 2 (word_of_nat i), th_asset = pubkey_test 1 1, th_side = CollateralDown,
     th_trigger_price = pt_trigger_price (bench_trigger i), th_new_price = price_from_f64 90\<rparr>"

lemma bench_crossed:
  "crossed CollateralDown (price_from_f64 150) (price_from_f64 90) (pt_trigger_price (bench_trigger i))"
proof -
  obtain k where k: "(100 + i mod 50) * 1000000000 = k" "90000000000 \<le> k" "k < 150000000000" by simp
  then have "unat (word_of_nat k :: u128) = k" by (simp add: unat_of_nat take_bit_eq_mod)
  moreover have "price_from_f64 150 = PriceFx (word_of_nat (150 * 1000000000))"
    "price_from_f64 90 = PriceFx (word_of_nat (90 * 1000000000))"
    using price_of_nat [of 150] price_of_nat [of 90] by simp_all
  ultimately show ?thesis
    using k(2,3) by (simp only: crossed.simps bench_price k(1)) (simp add: less_price_fx_def less_eq_price_fx_def
      word_less_nat_alt word_le_nat_alt)
qed

lemma bench_hits:
  assumes "n \<le> 2 ^ 64"
  shows "set (on_price_update (bench_index n) (pubkey_test 1 1) (price_from_f64 150) (price_from_f64 90)) =
    bench_hit ` {0..<n}"
proof (intro set_eqI iffI)
  fix h assume "h \<in> bench_hit ` {0..<n}"
  then obtain i where i: "i < n" "h = bench_hit i" by auto
  then show "h \<in> set (on_price_update (bench_index n) (pubkey_test 1 1) (price_from_f64 150) (price_from_f64 90))"
    using bench_index_has [OF assms i(1)] bench_crossed [of i]
    by (simp add: on_price_update_iff(2) [OF bench_index_inv] bench_hit_def has_trigger_def bench_trigger_def)
next
  fix h assume "h \<in> set (on_price_update (bench_index n) (pubkey_test 1 1) (price_from_f64 150) (price_from_f64 90))"
  then have h: "th_asset h = pubkey_test 1 1" "th_new_price h = price_from_f64 90"
    "has_trigger (bench_index n) (th_account h) (pubkey_test 1 1) (th_side h) (th_trigger_price h)"
    by (simp_all add: on_price_update_iff(2) [OF bench_index_inv])
  then obtain i where "i < n" "th_account h = pubkey_test 2 (word_of_nat i)" "th_side h = pt_side (bench_trigger i)"
      "th_trigger_price h = pt_trigger_price (bench_trigger i)"
    using bench_index_stored by (fastforce simp: has_trigger_def)
  with h have "h = bench_hit i" by (cases h) (simp add: bench_hit_def bench_trigger_def)
  with \<open>i < n\<close> show "h \<in> bench_hit ` {0..<n}" by simp
qed

text \<open>Every trigger is hit once, whatever the number of triggers.\<close>

lemma bench_lookup_count: "n \<le> 2 ^ 64 \<Longrightarrow> fst (bench_candidate_lookup n dt) = n"
proof -
  assume n: "n \<le> 2 ^ 64"
  let ?hits = "on_price_update (bench_index n) (pubkey_test 1 1) (price_from_f64 150) (price_from_f64 90)"
  have "inj_on bench_hit {0..<n}"
    using n word_of_nat_inject64 by (auto simp: inj_on_def bench_hit_def)
  then have "card (set ?hits) = n" by (simp add: bench_hits [OF n] card_image)
  then show ?thesis
    using distinct_card [OF on_price_update_iff(1) [OF bench_index_inv]] by (simp add: bench_candidate_lookup_def Let_def)
qed

lemma bench_health_passes: "bench_health_pass \<noteq> None"
proof -
  have "\<exists>b. is_liquidatable bench_obligation bench_prices = Inr b"
    by (simp add: is_liquidatable_def obligation_health_def bench_obligation_def price_get_def bench_prices_def)
  then show ?thesis by (auto simp: bench_health_pass_def Let_def)
qed

lemma bench_bytes: "snd (bench_ix_encode iters dt) = 73 * word_of_nat iters"
proof -
  have len: "length (encode_liquidate_v2_data a b c) = 32" "length (encode_classic_liquidate d) = 16"
    "length (encode_liquidate_and_redeem e) = 9" "length encode_refresh_reserve = 8" "length encode_refresh_obligation = 8"
    for a b c d e
    by (simp_all add: encode_liquidate_v2_data_def disc_liquidate_v2_def encode_classic_liquidate_def
        disc_lending_account_liquidate_def encode_liquidate_and_redeem_def encode_refresh_reserve_def
        disc_refresh_reserve_def encode_refresh_obligation_def disc_refresh_obligation_def)
  show ?thesis
    unfolding bench_ix_encode_def snd_conv len by (induction iters) (simp_all add: algebra_simps)
qed

lemma bench_main_counts:
  "bench_main arg =
     (let n = unat (case Option.bind arg parse_u64 of Some n \<Rightarrow> n | None \<Rightarrow> 10000);
          iters = unat (max (word_of_nat n * 10 :: u64) 50000)
      in Some (n, iters, n, 73 * word_of_nat iters))"
proof -
  have "bench_health_recompute iters 0 \<noteq> None" for iters
    using bench_health_passes by (simp add: bench_health_recompute_def)
  moreover have "unat (w :: u64) \<le> 2 ^ 64" for w using unsigned_less [of w, where ?'a = nat] by simp
  ultimately show ?thesis
    by (simp add: bench_main_def Let_def bench_lookup_count bench_bytes)
qed

end
