(* ===== verification/IndexThreads.thy ===== *)
theory IndexThreads
  imports CandidateIndex
begin

text \<open>
  The candidate index (\<^verbatim>\<open>crates/liq-core/src/candidate_index.rs\<close>) shared by several threads. Every method
  takes \<^verbatim>\<open>&self\<close> and locks the maps itself, so a step of the program is a locked section, and a method that
  lets its locks go in between is several sections: \<^verbatim>\<open>set_triggers\<close> and \<^verbatim>\<open>remove_candidate\<close> call
  \<^verbatim>\<open>clear_triggers\<close>, which releases both maps, and lock them again. The maps a section changes stay locked for
  writing until the section ends (theory \<open>Locks\<close> has the acquisitions and releases), so sections do not overlap.
\<close>

section \<open>Locked sections\<close>

datatype index_section =
    ClearSec pubkey
  | InsertSec pubkey "price_trigger list"
  | UpsertSec candidate_meta
  | RemoveSec pubkey

text \<open>The second section of \<^verbatim>\<open>set_triggers\<close>.\<close>

definition insert_triggers :: "candidate_index \<Rightarrow> pubkey \<Rightarrow> price_trigger list \<Rightarrow> candidate_index" where
  "insert_triggers ix account triggers =
     ix\<lparr>by_asset := fold (insert_trigger account) triggers (by_asset ix),
        account_triggers := (account_triggers ix)(account \<mapsto> triggers)\<rparr>"

text \<open>The second section of \<^verbatim>\<open>remove_candidate\<close>.\<close>

definition remove_entry :: "candidate_index \<Rightarrow> pubkey \<Rightarrow> candidate_index" where
  "remove_entry ix account =
     (case by_account ix account of
        None \<Rightarrow> ix
      | Some prev \<Rightarrow> ix\<lparr>by_account := (by_account ix)(account := None),
                       by_band := band_remove (by_band ix) (cm_band prev) account\<rparr>)"

fun section_step :: "index_section \<Rightarrow> candidate_index \<Rightarrow> candidate_index" where
  "section_step (ClearSec a) ix = clear_triggers ix a"
| "section_step (InsertSec a ts) ix = insert_triggers ix a ts"
| "section_step (UpsertSec m) ix = upsert_candidate ix m"
| "section_step (RemoveSec a) ix = remove_entry ix a"

fun sections_of :: "index_op \<Rightarrow> index_section list" where
  "sections_of (UpsertCandidate m) = [UpsertSec m]"
| "sections_of (RemoveCandidate a) = [ClearSec a, RemoveSec a]"
| "sections_of (SetTriggers a ts) = [ClearSec a, InsertSec a ts]"
| "sections_of (ClearTriggers a) = [ClearSec a]"

text \<open>Without another thread in between, the sections of an operation are the operation.\<close>

lemma sections_sequential: "fold section_step (sections_of op) ix = index_step op ix"
  by (cases op) (simp_all add: set_triggers_def insert_triggers_def remove_candidate_def
      remove_entry_def Let_def split: option.splits)

section \<open>Threads\<close>

text \<open>A pool is the index and, for every thread, the sections it still has to run.\<close>

type_synonym index_pool = "candidate_index \<times> index_section list list"

definition thread_of :: "index_op list \<Rightarrow> index_section list" where
  "thread_of ops = concat (map sections_of ops)"

inductive pool_step :: "index_pool \<Rightarrow> index_pool \<Rightarrow> bool" where
  run: "i < length ths \<Longrightarrow> ths ! i = sec # rest
    \<Longrightarrow> pool_step (ix, ths) (section_step sec ix, ths[i := rest])"

inductive_cases pool_stepE: "pool_step s s'"

inductive pool_reach :: "index_op list list \<Rightarrow> index_pool \<Rightarrow> bool" for progs where
  start: "pool_reach progs (index_new, map thread_of progs)"
| step: "pool_reach progs s \<Longrightarrow> pool_step s s' \<Longrightarrow> pool_reach progs s'"

definition insert_accounts :: "index_section list \<Rightarrow> pubkey set" where
  "insert_accounts secs = {a. \<exists>ts. InsertSec a ts \<in> set secs}"

definition trigger_accounts :: "index_op list \<Rightarrow> pubkey set" where
  "trigger_accounts ops = {a. \<exists>ts. SetTriggers a ts \<in> set ops}"

text \<open>
  What holds of a thread between two sections: it inserts only right after it has cleared the same account, and if
  the insertion is its next section the account has no triggers.
\<close>

fun insert_after_clear :: "index_section list \<Rightarrow> bool" where
  "insert_after_clear (ClearSec a # InsertSec b ts # secs) \<longleftrightarrow> a = b \<and> insert_after_clear (InsertSec b ts # secs)"
| "insert_after_clear (sec # InsertSec b ts # secs) \<longleftrightarrow> False"
| "insert_after_clear (sec # secs) \<longleftrightarrow> insert_after_clear secs"
| "insert_after_clear [] \<longleftrightarrow> True"

fun ready :: "candidate_index \<Rightarrow> index_section list \<Rightarrow> bool" where
  "ready ix (InsertSec a ts # secs) \<longleftrightarrow> account_triggers ix a = None"
| "ready ix secs \<longleftrightarrow> True"

lemma insert_accounts_Cons:
  "insert_accounts (sec # secs) = (case sec of InsertSec a ts \<Rightarrow> {a} | _ \<Rightarrow> {}) \<union> insert_accounts secs"
  by (auto simp: insert_accounts_def split: index_section.splits)

lemma insert_accounts_thread: "insert_accounts (thread_of ops) = trigger_accounts ops"
proof -
  have "InsertSec a ts \<in> set (sections_of op) \<longleftrightarrow> op = SetTriggers a ts" for a ts op
    by (cases op) auto
  then show ?thesis by (auto simp: insert_accounts_def trigger_accounts_def thread_of_def)
qed

lemma thread_of_Cons: "thread_of (op # ops) = sections_of op @ thread_of ops"
  by (simp add: thread_of_def)

lemma insert_after_clear_tl: "insert_after_clear (sec # secs) \<Longrightarrow> insert_after_clear secs"
  by (cases "sec # secs" rule: insert_after_clear.cases) auto

lemma thread_no_insert_first: "thread_of ops \<noteq> InsertSec a ts # secs"
proof (cases ops)
  case (Cons op rest)
  then show ?thesis by (cases op) (auto simp: thread_of_Cons)
qed (simp add: thread_of_def)

lemma insert_after_clear_Cons:
  assumes "\<And>a ts rest. secs \<noteq> InsertSec a ts # rest"
  shows "insert_after_clear (sec # secs) \<longleftrightarrow> insert_after_clear secs"
  using assms by (cases "sec # secs" rule: insert_after_clear.cases) auto

lemma thread_insert_after_clear: "insert_after_clear (thread_of ops)"
proof (induction ops)
  case (Cons op ops)
  then show ?case
    by (cases op) (simp_all add: thread_of_Cons insert_after_clear_Cons thread_no_insert_first)
qed (simp add: thread_of_def)

lemma thread_ready: "ready ix (thread_of ops)"
  using thread_no_insert_first [of ops] by (cases "(ix, thread_of ops)" rule: ready.cases) auto

section \<open>The invariant of the pool\<close>

definition pool_inv :: "index_pool \<Rightarrow> bool" where
  "pool_inv s \<longleftrightarrow> (case s of (ix, ths) \<Rightarrow>
     trigger_inv ix \<and> band_inv ix
     \<and> (\<forall>i < length ths. insert_after_clear (ths ! i) \<and> ready ix (ths ! i))
     \<and> (\<forall>i < length ths. \<forall>j < length ths. i \<noteq> j
          \<longrightarrow> insert_accounts (ths ! i) \<inter> insert_accounts (ths ! j) = {}))"

lemma insert_triggers_inv:
  assumes "trigger_inv ix" "account_triggers ix a = None"
  shows "trigger_inv (insert_triggers ix a ts)"
proof -
  have "ba_inv (by_asset ix)" using assms(1) by (simp add: trigger_inv_def)
  moreover have "(account_triggers ix)(a := None) = account_triggers ix"
    using assms(2) by (simp add: fun_upd_idem)
  ultimately show ?thesis
    using assms(1) fold_insert_trigger [of "by_asset ix" a ts]
    by (simp add: trigger_inv_def insert_triggers_def trigger_keys_upd(2))
qed

lemma insert_triggers_band_inv [simp]: "band_inv (insert_triggers ix a ts) \<longleftrightarrow> band_inv ix"
  by (rule band_inv_cong) (simp_all add: insert_triggers_def)

lemma remove_entry_trigger_inv [simp]: "trigger_inv (remove_entry ix a) \<longleftrightarrow> trigger_inv ix"
  by (simp add: trigger_inv_def remove_entry_def split: option.splits)

lemma remove_entry_band_inv:
  assumes "band_inv ix" shows "band_inv (remove_entry ix a)"
proof -
  have *: "remove_candidate ix a = remove_entry (clear_triggers ix a) a"
    by (simp add: remove_candidate_def remove_entry_def Let_def split: option.splits)
  have "band_inv (remove_candidate ix a)" using assms by (rule remove_candidate_band_inv)
  moreover have "band_inv (remove_candidate ix a) \<longleftrightarrow> band_inv (remove_entry ix a)"
    unfolding * by (rule band_inv_cong) (simp_all add: remove_entry_def split: option.splits)
  ultimately show ?thesis by simp
qed

lemma section_step_inv:
  assumes "trigger_inv ix" "band_inv ix" "ready ix (sec # rest)"
  shows "trigger_inv (section_step sec ix)" and "band_inv (section_step sec ix)"
  using assms
  by (cases sec; simp add: clear_triggers_inv insert_triggers_inv upsert_candidate_trigger_inv
      clear_triggers_band_inv upsert_candidate_band_inv remove_entry_band_inv)+

text \<open>A section gives triggers to an account only if it inserts for that account.\<close>

lemma section_step_no_triggers:
  assumes "account_triggers ix a = None" "a \<notin> insert_accounts (sec # rest)"
  shows "account_triggers (section_step sec ix) a = None"
  using assms
  by (cases sec) (auto simp: insert_accounts_Cons insert_triggers_def remove_entry_def split: option.splits)

lemma ready_step:
  assumes "insert_after_clear (sec # rest)"
  shows "ready (section_step sec ix) rest"
  using assms by (cases "sec # rest" rule: insert_after_clear.cases) auto

lemma ready_other:
  assumes "ready ix other" "insert_accounts other \<inter> insert_accounts (sec # rest) = {}"
  shows "ready (section_step sec ix) other"
  using assms section_step_no_triggers [of ix _ sec rest]
  by (cases "(ix, other)" rule: ready.cases) (auto simp: insert_accounts_Cons)

lemma pool_step_inv:
  assumes "pool_step s s'" "pool_inv s"
  shows "pool_inv s'"
  using assms
proof (induction rule: pool_step.induct)
  case (run i ths sec rest ix)
  have sub: "insert_accounts (ths[i := rest] ! j) \<subseteq> insert_accounts (ths ! j)" for j
    using run.hyps by (cases "j = i") (auto simp: insert_accounts_Cons)
  have thread: "insert_after_clear (ths ! j)" "ready ix (ths ! j)" if "j < length ths" for j
    using run.prems that by (auto simp: pool_inv_def)
  have disj: "insert_accounts (ths ! j) \<inter> insert_accounts (ths ! k) = {}"
    if "j < length ths" "k < length ths" "j \<noteq> k" for j k
    using run.prems that by (auto simp: pool_inv_def)
  have "insert_after_clear (ths[i := rest] ! j) \<and> ready (section_step sec ix) (ths[i := rest] ! j)"
    if "j < length ths" for j
  proof (cases "j = i")
    case True
    then show ?thesis
      using thread [OF run.hyps(1)] run.hyps ready_step [of sec rest ix] insert_after_clear_tl [of sec rest]
      by simp
  next
    case False
    then show ?thesis
      using thread [OF that] ready_other [of ix "ths ! j" sec rest] disj [OF that run.hyps(1)] run.hyps
      by simp
  qed
  moreover have "insert_accounts (ths[i := rest] ! j) \<inter> insert_accounts (ths[i := rest] ! k) = {}"
    if "j < length ths" "k < length ths" "j \<noteq> k" for j k
    using disj [OF that] sub [of j] sub [of k] by blast
  moreover have "trigger_inv (section_step sec ix)" "band_inv (section_step sec ix)"
    using run.prems thread(2) [OF run.hyps(1)] run.hyps section_step_inv [of ix sec rest]
    by (simp_all add: pool_inv_def)
  ultimately show ?case by (simp add: pool_inv_def)
qed

definition own_triggers :: "index_op list list \<Rightarrow> bool" where
  "own_triggers progs \<longleftrightarrow>
     (\<forall>i < length progs. \<forall>j < length progs. i \<noteq> j
        \<longrightarrow> trigger_accounts (progs ! i) \<inter> trigger_accounts (progs ! j) = {})"

lemma pool_reach_inv:
  assumes "pool_reach progs s" "own_triggers progs"
  shows "pool_inv s"
  using assms
proof (induction rule: pool_reach.induct)
  case start
  then show ?case
    using index_new_inv
    by (simp add: pool_inv_def own_triggers_def thread_insert_after_clear thread_ready insert_accounts_thread)
qed (blast intro: pool_step_inv)

section \<open>What a thread does to an account\<close>

text \<open>
  To one account the index is a pair: its triggers and its candidate entry. A section changes the pair of the account
  it names and no other, whatever else the index holds.
\<close>

definition account_view :: "pubkey \<Rightarrow> candidate_index \<Rightarrow> price_trigger list option \<times> candidate_meta option" where
  "account_view a ix = (account_triggers ix a, by_account ix a)"

fun section_account :: "index_section \<Rightarrow> pubkey" where
  "section_account (ClearSec a) = a"
| "section_account (InsertSec a ts) = a"
| "section_account (UpsertSec m) = cm_account m"
| "section_account (RemoveSec a) = a"

fun section_view :: "index_section \<Rightarrow> price_trigger list option \<times> candidate_meta option
    \<Rightarrow> price_trigger list option \<times> candidate_meta option" where
  "section_view (ClearSec a) (t, m) = (None, m)"
| "section_view (InsertSec a ts) (t, m) = (Some ts, m)"
| "section_view (UpsertSec n) (t, m) = (t, Some n)"
| "section_view (RemoveSec a) (t, m) = (t, None)"

fun op_account :: "index_op \<Rightarrow> pubkey" where
  "op_account (UpsertCandidate m) = cm_account m"
| "op_account (RemoveCandidate a) = a"
| "op_account (SetTriggers a ts) = a"
| "op_account (ClearTriggers a) = a"

lemma account_view_step:
  "account_view a (section_step sec ix) =
     (if section_account sec = a then section_view sec (account_view a ix) else account_view a ix)"
  by (cases sec) (auto simp: account_view_def insert_triggers_def remove_entry_def split: option.splits)

lemma account_view_fold_cong:
  "account_view a ix = account_view a iy
     \<Longrightarrow> account_view a (fold section_step secs ix) = account_view a (fold section_step secs iy)"
  by (induction secs arbitrary: ix iy) (simp_all add: account_view_step)

lemma sections_account: "section_account ` set (thread_of ops) = op_account ` set ops"
proof -
  have "section_account ` set (sections_of op) = {op_account op}" for op
    by (cases op) auto
  then show ?thesis by (induction ops) (simp_all add: thread_of_Cons image_Un, simp add: thread_of_def)
qed

lemma thread_of_run: "fold section_step (thread_of ops) ix = fold index_step ops ix"
proof (induction ops arbitrary: ix)
  case (Cons op ops)
  then show ?case by (simp add: thread_of_Cons sections_sequential)
qed (simp add: thread_of_def)

text \<open>
  While the other threads leave an account alone, what remains of its thread leads to what the thread alone would
  have led to.
\<close>

definition alone_on :: "nat \<Rightarrow> pubkey \<Rightarrow> index_op list list \<Rightarrow> bool" where
  "alone_on i a progs \<longleftrightarrow> (\<forall>j < length progs. j \<noteq> i \<longrightarrow> a \<notin> op_account ` set (progs ! j))"

lemma pool_reach_view:
  assumes "pool_reach progs s" "i < length progs" "alone_on i a progs"
  shows "length (snd s) = length progs
    \<and> (\<forall>j < length progs. j \<noteq> i \<longrightarrow> a \<notin> section_account ` set (snd s ! j))
    \<and> account_view a (fold section_step (snd s ! i) (fst s)) = account_view a (index_run (progs ! i))"
  using assms(1)
proof (induction rule: pool_reach.induct)
  case start
  then show ?case
    using assms(2,3) by (simp add: sections_account alone_on_def thread_of_run index_run_def)
next
  case (step s s')
  from step.hyps(2) step.IH show ?case
  proof (induction rule: pool_step.induct)
    case (run k ths sec rest ix)
    show ?case
    proof (cases "k = i")
      case True
      then show ?thesis using run assms(2) by simp
    next
      case False
      have "account_view a (section_step sec ix) = account_view a ix"
        using run False by (auto simp: account_view_step)
      then have "account_view a (fold section_step (ths ! i) (section_step sec ix))
          = account_view a (fold section_step (ths ! i) ix)"
        by (rule account_view_fold_cong)
      moreover have "set rest \<subseteq> set (ths ! k)" using run.hyps by auto
      ultimately show ?thesis
        using run False by (auto simp: nth_list_update)
    qed
  qed
qed

section \<open>Properties\<close>

text \<open>
  C10: When no two threads set triggers of the same account, the index is consistent between any two locked sections of
  any interleaving: bands agree with the stored candidates, ladders with the stored triggers, and a price
  update that is asked for at that moment reports every stored trigger it crosses and no other, each once. Removing and
  clearing may run in any thread.
\<close>

theorem shared_index_consistent:
  assumes "pool_reach progs (ix, ths)" "own_triggers progs"
  shows "trigger_inv ix \<and> band_inv ix
    \<and> distinct (on_price_update ix asset prev new)
    \<and> hit_keys (on_price_update ix asset prev new)
      = {(a, side, p). has_trigger ix a asset side p \<and> crossed side prev new p}"
proof -
  have inv: "trigger_inv ix" "band_inv ix"
    using pool_reach_inv [OF assms] by (simp_all add: pool_inv_def)
  then show ?thesis
    using on_price_update_iff(1) [OF inv(1)] hit_keys_iff [OF inv(1)] by auto
qed

definition thread_trigger :: "u64 \<Rightarrow> price_fx \<Rightarrow> price_trigger" where
  "thread_trigger n p = \<lparr>pt_account = pubkey_test 1 n, pt_asset = pubkey_test 2 1,
     pt_side = CollateralDown, pt_trigger_price = p\<rparr>"

theorem shared_index_consistent_witness:
  "\<exists>ix. pool_reach [[SetTriggers (pubkey_test 1 1) [thread_trigger 1 (PriceFx 95)]],
        [SetTriggers (pubkey_test 1 2) [thread_trigger 2 (PriceFx 90)]]]
      (ix, [[InsertSec (pubkey_test 1 1) [thread_trigger 1 (PriceFx 95)]], []])
    \<and> hit_keys (on_price_update ix (pubkey_test 2 1) (PriceFx 100) (PriceFx 80))
      = {(a, side, p). has_trigger ix a (pubkey_test 2 1) side p \<and> crossed side (PriceFx 100) (PriceFx 80) p}"
proof -
  let ?a = "pubkey_test 1 1" and ?b = "pubkey_test 1 2"
  let ?t = "[thread_trigger 1 (PriceFx 95)]" and ?u = "[thread_trigger 2 (PriceFx 90)]"
  let ?progs = "[[SetTriggers ?a ?t], [SetTriggers ?b ?u]]"
  let ?i1 = "clear_triggers index_new ?a"
  have "pool_reach ?progs (index_new, [[ClearSec ?a, InsertSec ?a ?t], [ClearSec ?b, InsertSec ?b ?u]])"
    using pool_reach.start [of ?progs] by (simp add: thread_of_def)
  from pool_reach.step [OF this run [of 0]]
  have "pool_reach ?progs (?i1, [[InsertSec ?a ?t], [ClearSec ?b, InsertSec ?b ?u]])" by simp
  from pool_reach.step [OF this run [of 1]]
  have "pool_reach ?progs (clear_triggers ?i1 ?b, [[InsertSec ?a ?t], [InsertSec ?b ?u]])" by simp
  from pool_reach.step [OF this run [of 1]]
  have r: "pool_reach ?progs (insert_triggers (clear_triggers ?i1 ?b) ?b ?u, [[InsertSec ?a ?t], []])" by simp
  have "own_triggers ?progs"
    by (auto simp: own_triggers_def trigger_accounts_def less_Suc_eq nth_Cons')
  from shared_index_consistent [OF r this, of "pubkey_test 2 1"] r show ?thesis by blast
qed

text \<open>
  C11: A thread that has finished has left every account that no other thread works on with exactly the triggers and
  the entry its operations give it when run alone, whatever the other threads were doing to the same maps in between.
\<close>

theorem threads_isolated:
  assumes "pool_reach progs (ix, ths)" "i < length progs" "ths ! i = []" "alone_on i a progs"
  shows "account_triggers ix a = account_triggers (index_run (progs ! i)) a
    \<and> by_account ix a = by_account (index_run (progs ! i)) a"
  using pool_reach_view [OF assms(1,2,4)] assms(3) by (simp add: account_view_def)

theorem threads_isolated_witness:
  "\<exists>ix. pool_reach [[SetTriggers (pubkey_test 1 1) [thread_trigger 1 (PriceFx 95)]],
        [ClearTriggers (pubkey_test 1 2)]] (ix, [[], []])
    \<and> account_triggers ix (pubkey_test 1 1)
      = account_triggers (index_run [SetTriggers (pubkey_test 1 1) [thread_trigger 1 (PriceFx 95)]]) (pubkey_test 1 1)"
proof -
  let ?a = "pubkey_test 1 1" and ?b = "pubkey_test 1 2" and ?t = "[thread_trigger 1 (PriceFx 95)]"
  let ?progs = "[[SetTriggers ?a ?t], [ClearTriggers ?b]]"
  have "pool_reach ?progs (index_new, [[ClearSec ?a, InsertSec ?a ?t], [ClearSec ?b]])"
    using pool_reach.start [of ?progs] by (simp add: thread_of_def)
  from pool_reach.step [OF this run [of 0]]
  have "pool_reach ?progs (clear_triggers index_new ?a, [[InsertSec ?a ?t], [ClearSec ?b]])" by simp
  from pool_reach.step [OF this run [of 1]]
  have "pool_reach ?progs (clear_triggers (clear_triggers index_new ?a) ?b, [[InsertSec ?a ?t], []])" by simp
  from pool_reach.step [OF this run [of 0]]
  have r: "pool_reach ?progs (insert_triggers (clear_triggers (clear_triggers index_new ?a) ?b) ?a ?t, [[], []])" by simp
  have "alone_on 0 ?a ?progs" by (auto simp: alone_on_def nth_Cons')
  with threads_isolated [OF r, of 0] r show ?thesis by auto
qed

text \<open>
  The two sections of set_triggers are a race: when two threads set triggers of the same account and both clear
  before either inserts, the account keeps the triggers of the second and the ladders those of both. A price move then
  reports a trigger the account does not have, and clearing the account does not take it away.
\<close>

lemma set_triggers_race:
  "\<exists>ix. pool_reach [[SetTriggers (pubkey_test 1 1) [thread_trigger 1 (PriceFx 95)]],
        [SetTriggers (pubkey_test 1 1) [thread_trigger 1 (PriceFx 90)]]] (ix, [[], []])
    \<and> \<not> trigger_inv ix
    \<and> \<not> has_trigger ix (pubkey_test 1 1) (pubkey_test 2 1) CollateralDown (PriceFx 95)
    \<and> (pubkey_test 1 1, CollateralDown, PriceFx 95)
        \<in> hit_keys (on_price_update ix (pubkey_test 2 1) (PriceFx 100) (PriceFx 93))
    \<and> (pubkey_test 1 1, CollateralDown, PriceFx 95)
        \<in> hit_keys (on_price_update (clear_triggers ix (pubkey_test 1 1)) (pubkey_test 2 1) (PriceFx 100) (PriceFx 93))"
proof -
  let ?a = "pubkey_test 1 1"
  let ?t = "[thread_trigger 1 (PriceFx 95)]" and ?u = "[thread_trigger 1 (PriceFx 90)]"
  let ?progs = "[[SetTriggers ?a ?t], [SetTriggers ?a ?u]]"
  let ?c = "clear_triggers (clear_triggers index_new ?a) ?a"
  let ?ix = "insert_triggers (insert_triggers ?c ?a ?t) ?a ?u"
  have "pool_reach ?progs (index_new, [[ClearSec ?a, InsertSec ?a ?t], [ClearSec ?a, InsertSec ?a ?u]])"
    using pool_reach.start [of ?progs] by (simp add: thread_of_def)
  from pool_reach.step [OF this run [of 0]]
  have "pool_reach ?progs (clear_triggers index_new ?a, [[InsertSec ?a ?t], [ClearSec ?a, InsertSec ?a ?u]])" by simp
  from pool_reach.step [OF this run [of 1]]
  have "pool_reach ?progs (?c, [[InsertSec ?a ?t], [InsertSec ?a ?u]])" by simp
  from pool_reach.step [OF this run [of 0]]
  have "pool_reach ?progs (insert_triggers ?c ?a ?t, [[], [InsertSec ?a ?u]])" by simp
  from pool_reach.step [OF this run [of 1]]
  have r: "pool_reach ?progs (?ix, [[], []])" by simp
  note race_simps = index_new_def clear_triggers_def insert_triggers_def insert_trigger_def remove_trigger_def
    thread_trigger_def empty_asset_index_def
  have no: "\<not> has_trigger ?ix ?a (pubkey_test 2 1) CollateralDown (PriceFx 95)"
    by (simp add: has_trigger_def race_simps)
  have hit: "(?a, CollateralDown, PriceFx 95) \<in> hit_keys (on_price_update ?ix (pubkey_test 2 1) (PriceFx 100) (PriceFx 93))"
    by (simp add: race_simps on_price_update_def scan_ladder_def ladder_range_def hit_keys_def hs_insert_def)
  have ghost: "(?a, CollateralDown, PriceFx 95)
      \<in> hit_keys (on_price_update (clear_triggers ?ix ?a) (pubkey_test 2 1) (PriceFx 100) (PriceFx 93))"
    by (simp add: race_simps on_price_update_def scan_ladder_def ladder_range_def hit_keys_def hs_insert_def
        hs_remove_def Let_def)
  from no hit hit_keys_iff [of ?ix ?a CollateralDown "PriceFx 95"] have "\<not> trigger_inv ?ix" by blast
  with r no hit ghost show ?thesis by blast
qed

end
