(* ===== verification/LockOrder.thy ===== *)
theory LockOrder
  imports Main
begin

text \<open>
  Readers-writer locks shared by threads, for any set of locks and any programs of acquisitions and releases. A thread
  is what it holds and what it still has to do. The step relation grants a lock whenever the other holders admit it;
  a lock that prefers waiting writers, or wakes waiters in some order, takes only some of these steps, so progress is
  stated with the steps that every such policy takes: a release, or a lock that nobody holds.
\<close>

section \<open>The machine\<close>

datatype lock_mode = Shared | Exclusive

datatype 'l lock_act = Acq lock_mode 'l | Rel 'l

type_synonym 'l lock_thread = "('l \<times> lock_mode) list \<times> 'l lock_act list"

abbreviation held :: "'l lock_thread \<Rightarrow> 'l set" where
  "held th \<equiv> fst ` set (fst th)"

fun admits :: "lock_mode \<Rightarrow> 'l \<Rightarrow> 'l lock_thread \<Rightarrow> bool" where
  "admits Exclusive l th \<longleftrightarrow> l \<notin> held th"
| "admits Shared l th \<longleftrightarrow> (l, Exclusive) \<notin> set (fst th)"

fun act_thread :: "'l lock_thread \<Rightarrow> 'l lock_thread" where
  "act_thread (h, Acq m l # p) = ((l, m) # h, p)"
| "act_thread (h, Rel l # p) = (filter (\<lambda>x. fst x \<noteq> l) h, p)"
| "act_thread (h, []) = (h, [])"

definition can_take :: "'l lock_thread list \<Rightarrow> nat \<Rightarrow> bool" where
  "can_take ths i \<longleftrightarrow> (case snd (ths ! i) of
       Acq m l # p \<Rightarrow> l \<notin> held (ths ! i) \<and> (\<forall>j < length ths. j \<noteq> i \<longrightarrow> admits m l (ths ! j))
     | Rel l # p \<Rightarrow> True
     | [] \<Rightarrow> False)"

definition sure_take :: "'l lock_thread list \<Rightarrow> nat \<Rightarrow> bool" where
  "sure_take ths i \<longleftrightarrow> (case snd (ths ! i) of
       Acq m l # p \<Rightarrow> \<forall>j < length ths. l \<notin> held (ths ! j)
     | Rel l # p \<Rightarrow> True
     | [] \<Rightarrow> False)"

inductive lock_step :: "'l lock_thread list \<Rightarrow> 'l lock_thread list \<Rightarrow> bool" where
  take: "i < length ths \<Longrightarrow> can_take ths i \<Longrightarrow> lock_step ths (ths[i := act_thread (ths ! i)])"

inductive sure_step :: "'l lock_thread list \<Rightarrow> 'l lock_thread list \<Rightarrow> bool" where
  sure: "i < length ths \<Longrightarrow> sure_take ths i \<Longrightarrow> sure_step ths (ths[i := act_thread (ths ! i)])"

inductive lock_reach :: "'l lock_act list list \<Rightarrow> 'l lock_thread list \<Rightarrow> bool" for progs where
  start: "lock_reach progs (map (Pair []) progs)"
| step: "lock_reach progs ths \<Longrightarrow> lock_step ths ths' \<Longrightarrow> lock_reach progs ths'"

inductive sure_steps :: "'l lock_thread list \<Rightarrow> 'l lock_thread list \<Rightarrow> bool" where
  refl: "sure_steps ths ths"
| trans: "sure_step ths ths' \<Longrightarrow> sure_steps ths' ths'' \<Longrightarrow> sure_steps ths ths''"

definition all_done :: "'l lock_thread list \<Rightarrow> bool" where
  "all_done ths \<longleftrightarrow> (\<forall>th \<in> set ths. snd th = [])"

text \<open>Two threads never hold a lock together unless both read.\<close>

definition exclusion :: "'l lock_thread list \<Rightarrow> bool" where
  "exclusion ths \<longleftrightarrow> (\<forall>i < length ths. \<forall>j < length ths. \<forall>l. i \<noteq> j
     \<longrightarrow> (l, Exclusive) \<in> set (fst (ths ! i)) \<longrightarrow> l \<notin> held (ths ! j))"

lemma act_thread_new:
  "x \<in> set (fst (act_thread th)) \<Longrightarrow> x \<notin> set (fst th) \<Longrightarrow> \<exists>p. snd th = Acq (snd x) (fst x) # p"
  by (cases th rule: act_thread.cases) auto

lemma can_take_admits:
  assumes "can_take ths i" "j < length ths" "j \<noteq> i"
    and x: "x \<in> set (fst (act_thread (ths ! i)))" "x \<notin> set (fst (ths ! i))"
  shows "admits (snd x) (fst x) (ths ! j)"
proof -
  obtain p where "snd (ths ! i) = Acq (snd x) (fst x) # p" using act_thread_new [OF x] ..
  with assms(1-3) show ?thesis by (simp add: can_take_def)
qed

lemma admits_simps:
  "admits Exclusive l th \<longleftrightarrow> l \<notin> held th"
  "(l, Exclusive) \<in> set (fst th) \<Longrightarrow> \<not> admits m l th"
  by (cases m; force)+

lemma lock_step_exclusion:
  assumes "lock_step ths ths'" "exclusion ths"
  shows "exclusion ths'"
  using assms
proof (induction rule: lock_step.induct)
  case (take i ths)
  let ?new = "act_thread (ths ! i)"
  note new = can_take_admits [OF take.hyps(2)]
  have A: "l \<notin> held (ths ! j)" if j: "j < length ths" "j \<noteq> i" and l: "(l, Exclusive) \<in> set (fst ?new)" for j l
  proof (cases "(l, Exclusive) \<in> set (fst (ths ! i))")
    case True
    then show ?thesis using take.prems take.hyps(1) j by (metis exclusion_def)
  next
    case False
    with new [OF j l] show ?thesis by (simp add: admits_simps)
  qed
  have B: "l \<notin> held ?new" if j: "j < length ths" "j \<noteq> i" and l: "(l, Exclusive) \<in> set (fst (ths ! j))" for j l
  proof
    assume "l \<in> held ?new"
    then obtain m where m: "(l, m) \<in> set (fst ?new)" by auto
    show False
    proof (cases "(l, m) \<in> set (fst (ths ! i))")
      case True
      then have "l \<in> held (ths ! i)" by force
      then show False using take.prems take.hyps(1) j l by (metis exclusion_def)
    next
      case False
      from new [OF j m False] admits_simps(2) [OF l] show False by simp
    qed
  qed
  show ?case
    unfolding exclusion_def
  proof (intro allI impI)
    fix j k l
    assume "j < length (ths[i := ?new])" "k < length (ths[i := ?new])" "j \<noteq> k"
      and "(l, Exclusive) \<in> set (fst (ths[i := ?new] ! j))"
    then show "l \<notin> held (ths[i := ?new] ! k)"
      using A [of k l] B [of j l] take.prems by (cases "j = i"; cases "k = i") (auto simp: exclusion_def)
  qed
qed

lemma lock_reach_exclusion: "lock_reach progs ths \<Longrightarrow> exclusion ths"
proof (induction rule: lock_reach.induct)
  case start
  then show ?case by (simp add: exclusion_def)
qed (rule lock_step_exclusion)

section \<open>Work left\<close>

definition work :: "'l lock_thread list \<Rightarrow> nat" where
  "work ths = (\<Sum>th \<leftarrow> ths. length (snd th))"

lemma sure_can_take: "sure_take ths i \<Longrightarrow> i < length ths \<Longrightarrow> can_take ths i"
proof -
  have "l \<notin> held th \<Longrightarrow> admits m l th" for m l and th :: "'a lock_thread"
    by (cases m) force+
  then show "sure_take ths i \<Longrightarrow> i < length ths \<Longrightarrow> can_take ths i"
    by (auto simp: sure_take_def can_take_def split: list.splits lock_act.splits)
qed

lemma sure_step_lock: "sure_step ths ths' \<Longrightarrow> lock_step ths ths'"
  by (induction rule: sure_step.induct) (simp add: lock_step.take sure_can_take)

lemma act_thread_work: "snd th \<noteq> [] \<Longrightarrow> length (snd th) = Suc (length (snd (act_thread th)))"
  by (cases th rule: act_thread.cases) auto

lemma lock_step_work: "lock_step ths ths' \<Longrightarrow> work ths = Suc (work ths')"
proof (induction rule: lock_step.induct)
  case (take i ths)
  then have "snd (ths ! i) \<noteq> []" by (auto simp: can_take_def)
  then have len: "length (snd (ths ! i)) = Suc (length (snd (act_thread (ths ! i))))"
    by (rule act_thread_work)
  have "ths = take i ths @ ths ! i # drop (Suc i) ths" using take.hyps(1) by (rule id_take_nth_drop)
  then have "work ths = work (take i ths) + length (snd (ths ! i)) + work (drop (Suc i) ths)"
    unfolding work_def by (metis (no_types, lifting) add.assoc list.simps(9) map_append sum_list.Cons sum_list_append)
  moreover have "work (ths[i := x]) = work (take i ths) + length (snd x) + work (drop (Suc i) ths)" for x
    using take.hyps(1) by (simp add: upd_conv_take_nth_drop work_def)
  ultimately show ?case using len by simp
qed

section \<open>Acquisition in order\<close>

text \<open>
  A program climbs when it takes no lock it already holds, only locks ranked above those it holds, releases only what
  it holds, and ends with nothing. Loosely, it may also take a lock of the same rank.
\<close>

fun climbs :: "('l \<Rightarrow> nat) \<Rightarrow> bool \<Rightarrow> 'l list \<Rightarrow> 'l lock_act list \<Rightarrow> bool" where
  "climbs rank strict h [] \<longleftrightarrow> h = []"
| "climbs rank strict h (Acq m l # p) \<longleftrightarrow>
     l \<notin> set h \<and> (\<forall>k \<in> set h. if strict then rank k < rank l else rank k \<le> rank l) \<and> climbs rank strict (l # h) p"
| "climbs rank strict h (Rel l # p) \<longleftrightarrow> l \<in> set h \<and> climbs rank strict (filter (\<lambda>k. k \<noteq> l) h) p"

lemma climbs_append: "climbs rank strict h p \<Longrightarrow> climbs rank strict [] q \<Longrightarrow> climbs rank strict h (p @ q)"
  by (induction rank strict h p rule: climbs.induct) auto

lemma climbs_concat: "(\<And>p. p \<in> set ps \<Longrightarrow> climbs rank strict [] p) \<Longrightarrow> climbs rank strict [] (concat ps)"
  by (induction ps) (simp_all add: climbs_append)

lemma climbs_loose: "climbs rank strict h p \<Longrightarrow> climbs rank False h p"
  by (induction rank strict h p rule: climbs.induct) (auto split: if_splits dest: less_imp_le)

definition climbs_thread :: "('l \<Rightarrow> nat) \<Rightarrow> bool \<Rightarrow> 'l lock_thread \<Rightarrow> bool" where
  "climbs_thread rank strict th \<longleftrightarrow> climbs rank strict (map fst (fst th)) (snd th)"

lemma climbs_act: "climbs_thread rank strict th \<Longrightarrow> climbs_thread rank strict (act_thread th)"
  by (cases th rule: act_thread.cases) (auto simp: climbs_thread_def filter_map comp_def)

text \<open>A thread that holds a lock and cannot go on for sure waits for another one.\<close>

definition wants :: "'l lock_thread \<Rightarrow> 'l option" where
  "wants th = (case snd th of Acq m l # p \<Rightarrow> Some l | _ \<Rightarrow> None)"

lemma climbs_thread_waits:
  assumes "climbs_thread rank strict (ths ! i)" "\<not> sure_take ths i" "snd (ths ! i) \<noteq> [] \<or> held (ths ! i) \<noteq> {}"
  shows "\<exists>l. wants (ths ! i) = Some l \<and> l \<notin> held (ths ! i) \<and> (\<exists>j < length ths. l \<in> held (ths ! j))
    \<and> (\<forall>k \<in> held (ths ! i). if strict then rank k < rank l else rank k \<le> rank l)"
proof (cases "snd (ths ! i)")
  case Nil
  then show ?thesis using assms by (simp add: climbs_thread_def)
next
  case (Cons act p)
  then obtain m l where "act = Acq m l" using assms(2) by (cases act) (auto simp: sure_take_def)
  with assms(1,2) Cons show ?thesis
    by (simp add: climbs_thread_def sure_take_def wants_def)
qed

locale lock_order =
  fixes rank :: "'l \<Rightarrow> nat"
    and strict_progs :: "'l lock_act list set"
    and loose_progs :: "'l lock_act list set"
  assumes strict_climbs: "p \<in> strict_progs \<Longrightarrow> climbs rank True [] p"
    and loose_climbs: "p \<in> loose_progs \<Longrightarrow> climbs rank False [] p"
begin

definition one_loose :: "nat \<Rightarrow> 'l lock_act list list \<Rightarrow> bool" where
  "one_loose w progs \<longleftrightarrow>
     (\<forall>i < length progs. progs ! i \<in> (if i = w then loose_progs else strict_progs))"

lemma reach_climbs:
  assumes "lock_reach progs ths" "one_loose w progs" "i < length ths"
  shows "climbs_thread rank (i \<noteq> w) (ths ! i)"
  using assms
proof (induction arbitrary: i rule: lock_reach.induct)
  case start
  then have "progs ! i \<in> (if i = w then loose_progs else strict_progs)" by (simp add: one_loose_def)
  then have "climbs rank (i \<noteq> w) [] (progs ! i)"
    using strict_climbs loose_climbs by (cases "i = w") simp_all
  with start show ?case by (simp add: climbs_thread_def)
next
  case (step ths ths')
  from step.hyps(2) obtain k where "ths' = ths[k := act_thread (ths ! k)]" "k < length ths"
    by (auto elim: lock_step.cases)
  with step.IH [OF step.prems(1)] step.prems(2) show ?case
    by (cases "i = k") (simp_all add: climbs_act)
qed

lemma waits_bounded:
  assumes "one_loose w progs" "lock_reach progs ths" and no: "\<forall>i < length ths. \<not> sure_take ths i"
    and i: "i < length ths" "wants (ths ! i) = Some l"
  shows "\<exists>j < length ths. \<exists>k. wants (ths ! j) = Some k \<and> rank l < rank k"
proof -
  have waits: "\<exists>l. wants (ths ! i) = Some l \<and> l \<notin> held (ths ! i) \<and> (\<exists>j < length ths. l \<in> held (ths ! j))
      \<and> (\<forall>k \<in> held (ths ! i). if i \<noteq> w then rank k < rank l else rank k \<le> rank l)"
    if "i < length ths" "snd (ths ! i) \<noteq> [] \<or> k \<in> held (ths ! i)" for i k
    using that no by (intro climbs_thread_waits reach_climbs [OF assms(2,1)]) auto
  have "snd (ths ! i) \<noteq> []" using i(2) by (auto simp: wants_def)
  then obtain j where j: "j < length ths" "l \<in> held (ths ! j)" using waits [OF i(1)] i(2) by auto
  obtain k where k: "wants (ths ! j) = Some k" "k \<notin> held (ths ! j)" "\<exists>j < length ths. k \<in> held (ths ! j)"
      and lk: "if j \<noteq> w then rank l < rank k else rank l \<le> rank k"
    using waits [OF j(1), of l] j(2) by blast
  show ?thesis
  proof (cases "j = w")
    case False
    then show ?thesis using j(1) k(1) lk by auto
  next
    case True
    obtain j' where j': "j' < length ths" "k \<in> held (ths ! j')" using k(3) by blast
    with True k(2) have "j' \<noteq> w" by auto
    with waits [OF j'(1), of k] j'(2) obtain k' where "wants (ths ! j') = Some k'" "rank k < rank k'" by auto
    with True lk j'(1) show ?thesis by (auto intro: le_less_trans)
  qed
qed

lemma progress:
  assumes "lock_reach progs ths" "one_loose w progs" "\<not> all_done ths"
  shows "\<exists>i < length ths. sure_take ths i"
proof (rule ccontr)
  assume "\<not> (\<exists>i < length ths. sure_take ths i)"
  then have no: "\<forall>i < length ths. \<not> sure_take ths i" by blast
  define W where "W = {i \<in> {..<length ths}. wants (ths ! i) \<noteq> None}"
  let ?r = "\<lambda>i. rank (the (wants (ths ! i)))"
  obtain i where i: "i < length ths" "snd (ths ! i) \<noteq> []"
    using assms(3) by (auto simp: all_done_def in_set_conv_nth)
  with climbs_thread_waits [OF reach_climbs [OF assms(1,2) i(1)]] no have "i \<in> W"
    by (auto simp: W_def)
  then have "finite (?r ` W)" "?r ` W \<noteq> {}" by (auto simp: W_def)
  then have "Max (?r ` W) \<in> ?r ` W" by (rule Max_in)
  then obtain k where k: "k \<in> W" "?r k = Max (?r ` W)" by auto
  then obtain l where l: "k < length ths" "wants (ths ! k) = Some l" by (auto simp: W_def)
  obtain j l' where "j < length ths" "wants (ths ! j) = Some l'" "rank l < rank l'"
    using waits_bounded [OF assms(2,1) no l] by blast
  then have "j \<in> W" "?r k < ?r j" using l by (auto simp: W_def)
  moreover have "?r j \<le> Max (?r ` W)" using \<open>j \<in> W\<close> \<open>finite (?r ` W)\<close> by simp
  ultimately show False using k(2) by simp
qed

text \<open>So from every reachable state the threads can finish, and they do under every policy that takes the sure steps.\<close>

lemma completes:
  assumes "lock_reach progs ths" "one_loose w progs"
  shows "\<exists>ths'. sure_steps ths ths' \<and> all_done ths'"
  using assms(1)
proof (induction "work ths" arbitrary: ths rule: less_induct)
  case less
  show ?case
  proof (cases "all_done ths")
    case True
    then show ?thesis by (blast intro: sure_steps.refl)
  next
    case False
    then obtain i where i: "i < length ths" "sure_take ths i" using progress [OF less.prems assms(2)] by blast
    let ?ths = "ths[i := act_thread (ths ! i)]"
    have s: "sure_step ths ?ths" using i by (rule sure_step.sure)
    then have l: "lock_step ths ?ths" by (rule sure_step_lock)
    then have "work ?ths < work ths" by (simp add: lock_step_work)
    from less.hyps [OF this lock_reach.step [OF less.prems l]] show ?thesis
      by (blast intro: sure_steps.trans [OF s])
  qed
qed

end

end
