(* ===== verification/Locks.thy ===== *)
theory Locks
  imports LockOrder IndexThreads
begin

text \<open>
  The locks of the program and the order in which every method takes them. A method is the sequence of its
  acquisitions and releases: a guard bound to a variable lives to the end of its block, and one that is a temporary to
  the end of its statement (in an \<^verbatim>\<open>if\<close> condition, to the end of the condition). Where the path depends on data,
  the path is an argument of the method. Counters of the metrics and the index of the pool are atomics and take no lock;
  the closures given to \<^verbatim>\<open>retain\<close> and to a mocked transport are taken to use none.
\<close>

section \<open>Methods\<close>

text \<open>There are several state stores; the other structures exist once.\<close>

datatype shared_lock =
    ByAccountL | ByBandL | ByAssetL | AccountTriggersL
  | StoreL nat | PricesL
  | OpenL | ReasonL | FailuresL | InFlightL | RollingL | PausedL
  | TipL | ProvidersL | StatsL | MockL
  | LabelsL | RoutesL | TablesL | TemplatesL | BlockhashL
  | FailL | SentL | FailingL | AttemptsL

type_synonym lock_prog = "shared_lock lock_act list"

definition reading :: "shared_lock \<Rightarrow> lock_prog" where
  "reading l = [Acq Shared l, Rel l]"

definition writing :: "shared_lock \<Rightarrow> lock_prog" where
  "writing l = [Acq Exclusive l, Rel l]"

text \<open>\<^verbatim>\<open>CandidateIndex\<close>; the flag says whether the account has triggers to clear.\<close>

datatype index_method =
    UpsertM | RemoveM bool | GetM | AccountsInBandM | ClearM bool | SetM bool | PriceUpdateM | TriggerCountM
  | CandidateCountM

definition candidate_locks :: lock_prog where
  "candidate_locks = [Acq Exclusive ByAccountL, Acq Exclusive ByBandL, Rel ByBandL, Rel ByAccountL]"

definition clear_locks :: "bool \<Rightarrow> lock_prog" where
  "clear_locks found =
     (if found then [Acq Exclusive AccountTriggersL, Acq Exclusive ByAssetL, Rel ByAssetL, Rel AccountTriggersL]
      else [Acq Exclusive AccountTriggersL, Rel AccountTriggersL])"

definition insert_locks :: lock_prog where
  "insert_locks = [Acq Exclusive ByAssetL, Acq Exclusive AccountTriggersL, Rel AccountTriggersL, Rel ByAssetL]"

fun index_locks :: "index_method \<Rightarrow> lock_prog" where
  "index_locks UpsertM = candidate_locks"
| "index_locks (RemoveM found) = clear_locks found @ candidate_locks"
| "index_locks GetM = reading ByAccountL"
| "index_locks AccountsInBandM = reading ByBandL"
| "index_locks (ClearM found) = clear_locks found"
| "index_locks (SetM found) = clear_locks found @ insert_locks"
| "index_locks PriceUpdateM = reading ByAssetL"
| "index_locks TriggerCountM = reading AccountTriggersL"
| "index_locks CandidateCountM = reading ByAccountL"

text \<open>
  The sections of theory \<open>IndexThreads\<close>: an operation locks what its sections lock, one after the other, and every
  section takes all its locks before it releases the first (it is two-phase), so what it does to the maps it holds is
  one step to every other section.
\<close>

fun section_locks :: "bool \<Rightarrow> index_section \<Rightarrow> lock_prog" where
  "section_locks found (ClearSec a) = clear_locks found"
| "section_locks found (InsertSec a ts) = insert_locks"
| "section_locks found (UpsertSec m) = candidate_locks"
| "section_locks found (RemoveSec a) = candidate_locks"

fun method_of :: "bool \<Rightarrow> index_op \<Rightarrow> index_method" where
  "method_of found (UpsertCandidate m) = UpsertM"
| "method_of found (RemoveCandidate a) = RemoveM found"
| "method_of found (SetTriggers a ts) = SetM found"
| "method_of found (ClearTriggers a) = ClearM found"

fun two_phase :: "'l lock_act list \<Rightarrow> bool" where
  "two_phase (Rel l # p) \<longleftrightarrow> (\<forall>act \<in> set p. \<exists>k. act = Rel k)"
| "two_phase (act # p) \<longleftrightarrow> two_phase p"
| "two_phase [] \<longleftrightarrow> True"

lemma section_locks_method:
  "index_locks (method_of found op) = concat (map (section_locks found) (sections_of op))"
  by (cases op) simp_all

lemma section_two_phase: "two_phase (section_locks found sec)"
  by (cases sec) (simp_all add: candidate_locks_def clear_locks_def insert_locks_def)

text \<open>\<^verbatim>\<open>CircuitBreaker\<close>; a check stops at its first refusal.\<close>

datatype check_end = AtPaused | AtOpen | AtLimits | AtConcurrency | AtRolling

datatype breaker_method =
    SetPausedM | IsOpenM bool | TripM | ResetM | CheckM check_end | BeginM | EndSuccessM | EndFailureM bool

definition trip_locks :: lock_prog where
  "trip_locks = writing OpenL @ writing ReasonL"

fun check_locks :: "check_end \<Rightarrow> lock_prog" where
  "check_locks AtPaused = reading PausedL"
| "check_locks AtOpen = reading PausedL @ reading OpenL @ reading ReasonL"
| "check_locks AtLimits = reading PausedL @ reading OpenL"
| "check_locks AtConcurrency = reading PausedL @ reading OpenL @ reading InFlightL"
| "check_locks AtRolling = reading PausedL @ reading OpenL @ reading InFlightL @ writing RollingL"

text \<open>The guard of the first operand of \<^verbatim>\<open>is_open\<close> lives while the second is read.\<close>

fun breaker_locks :: "breaker_method \<Rightarrow> lock_prog" where
  "breaker_locks SetPausedM = writing PausedL"
| "breaker_locks (IsOpenM opened) =
     (if opened then reading OpenL else [Acq Shared OpenL, Acq Shared PausedL, Rel PausedL, Rel OpenL])"
| "breaker_locks TripM = trip_locks"
| "breaker_locks ResetM = writing OpenL @ writing ReasonL @ writing FailuresL"
| "breaker_locks (CheckM e) = check_locks e"
| "breaker_locks BeginM = writing InFlightL @ writing RollingL"
| "breaker_locks EndSuccessM = writing InFlightL @ writing FailuresL"
| "breaker_locks (EndFailureM trips) =
     writing InFlightL @ writing FailuresL @ (if trips then trip_locks else [])"

text \<open>\<^verbatim>\<open>FreshnessTracker\<close>.\<close>

datatype tracker_method = RecordM | DisconnectedM | SilenceM | SnapshotM | PrimaryM | StaleM

definition silence_locks :: lock_prog where
  "silence_locks = writing ProvidersL"

fun tracker_locks :: "tracker_method \<Rightarrow> lock_prog" where
  "tracker_locks RecordM = writing TipL @ reading TipL @ writing ProvidersL"
| "tracker_locks DisconnectedM = writing ProvidersL"
| "tracker_locks SilenceM = silence_locks"
| "tracker_locks SnapshotM = reading ProvidersL"
| "tracker_locks PrimaryM = silence_locks @ reading ProvidersL"
| "tracker_locks StaleM = silence_locks @ reading ProvidersL"

text \<open>\<^verbatim>\<open>RotatingRpcPool\<close>; the flag says whether the transport is mocked.\<close>

datatype pool_method = StatsM | AdvanceM | PostOnceM bool

fun pool_locks :: "pool_method \<Rightarrow> lock_prog" where
  "pool_locks StatsM = writing StatsL"
| "pool_locks AdvanceM = writing StatsL"
| "pool_locks (PostOnceM mocked) =
     writing StatsL @ (if mocked then writing MockL else []) @ writing StatsL"

text \<open>\<^verbatim>\<open>MockJitoSender\<close> and \<^verbatim>\<open>MockMultiRpc\<close>, the latter with the number of endpoints it tries.\<close>

datatype sender_method = SetFailM | SentCountM | SendBundleM bool | SendTxM nat

definition send_tx_locks :: "nat \<Rightarrow> lock_prog" where
  "send_tx_locks n = writing FailingL @ concat (replicate n (writing AttemptsL))"

definition sent_count_locks :: lock_prog where
  "sent_count_locks = writing SentL"

fun sender_locks :: "sender_method \<Rightarrow> lock_prog" where
  "sender_locks SetFailM = writing FailL"
| "sender_locks SentCountM = sent_count_locks"
| "sender_locks (SendBundleM fails) =
     writing FailL @ (if fails then [] else writing SentL @ sent_count_locks)"
| "sender_locks (SendTxM n) = send_tx_locks n"

text \<open>An update of the oracle path; it reads the price again when the store refuses it, and stops there if it is the same.\<close>

datatype update_path = Stored | Refused | Repeated

fun update_locks :: "nat \<Rightarrow> update_path \<Rightarrow> lock_prog" where
  "update_locks store Stored =
     reading PricesL @ writing (StoreL store) @ writing PricesL @ index_locks PriceUpdateM"
| "update_locks store Refused =
     reading PricesL @ writing (StoreL store) @ reading PricesL @ writing PricesL @ index_locks PriceUpdateM"
| "update_locks store Repeated = reading PricesL @ writing (StoreL store) @ reading PricesL"

text \<open>All methods that lock; those of the stores, the price book, the labels and the caches take one lock each.\<close>

datatype shared_method =
    IndexM index_method | BreakerM breaker_method | TrackerM tracker_method | PoolM pool_method
  | SenderM sender_method | UpdateM nat update_path | ReadM shared_lock | WriteM shared_lock

fun method_locks :: "shared_method \<Rightarrow> lock_prog" where
  "method_locks (IndexM m) = index_locks m"
| "method_locks (BreakerM m) = breaker_locks m"
| "method_locks (TrackerM m) = tracker_locks m"
| "method_locks (PoolM m) = pool_locks m"
| "method_locks (SenderM m) = sender_locks m"
| "method_locks (UpdateM store u) = update_locks store u"
| "method_locks (ReadM l) = reading l"
| "method_locks (WriteM l) = writing l"

definition thread_locks :: "shared_method list \<Rightarrow> lock_prog" where
  "thread_locks ms = concat (map method_locks ms)"

section \<open>The orders\<close>

fun writes_triggers :: "shared_method \<Rightarrow> bool" where
  "writes_triggers (IndexM (RemoveM found)) = True"
| "writes_triggers (IndexM (ClearM found)) = True"
| "writes_triggers (IndexM (SetM found)) = True"
| "writes_triggers m = False"

fun sets_triggers :: "shared_method \<Rightarrow> bool" where
  "sets_triggers (IndexM (SetM found)) = True"
| "sets_triggers m = False"

text \<open>\<open>up\<close> is the rank of the map that \<^verbatim>\<open>clear_triggers\<close> takes second, against 2 for the first.\<close>

fun lock_rank :: "nat \<Rightarrow> shared_lock \<Rightarrow> nat" where
  "lock_rank up ByBandL = 1"
| "lock_rank up PausedL = 1"
| "lock_rank up AccountTriggersL = 2"
| "lock_rank up ByAssetL = up"
| "lock_rank up l = 0"

lemmas lock_prog_defs = reading_def writing_def candidate_locks_def clear_locks_def insert_locks_def trip_locks_def
  silence_locks_def sent_count_locks_def

lemma replicate_climbs: "climbs rank strict [] (concat (replicate n (writing l)))"
  by (rule climbs_concat) (auto simp: lock_prog_defs)

lemma other_methods_climb:
  assumes "\<not> writes_triggers m" shows "climbs (lock_rank up) True [] (method_locks m)"
proof (cases m)
  case (IndexM im)
  with assms show ?thesis by (cases im) (simp_all add: lock_prog_defs)
next
  case (BreakerM b)
  show ?thesis
  proof (cases b)
    case (CheckM e)
    with BreakerM show ?thesis by (cases e) (simp_all add: lock_prog_defs)
  qed (simp_all add: BreakerM lock_prog_defs)
next
  case (TrackerM t)
  then show ?thesis by (cases t) (simp_all add: lock_prog_defs)
next
  case (PoolM p)
  then show ?thesis by (cases p) (simp_all add: lock_prog_defs)
next
  case (SenderM s)
  then show ?thesis
    by (cases s) (simp_all add: lock_prog_defs send_tx_locks_def climbs_append replicate_climbs [unfolded lock_prog_defs])
next
  case (UpdateM store u)
  then show ?thesis by (cases u) (simp_all add: lock_prog_defs)
qed (simp_all add: lock_prog_defs)

lemma trigger_methods_climb: "climbs (lock_rank 2) False [] (method_locks m)"
proof (cases "writes_triggers m")
  case True
  then show ?thesis by (cases m rule: writes_triggers.cases) (simp_all add: lock_prog_defs)
next
  case False
  then show ?thesis by (rule climbs_loose [OF other_methods_climb])
qed

lemma no_set_climbs: "\<not> sets_triggers m \<Longrightarrow> climbs (lock_rank 3) True [] (method_locks m)"
proof (cases "writes_triggers m")
  case True
  assume "\<not> sets_triggers m"
  with True show ?thesis by (cases m rule: writes_triggers.cases) (simp_all add: lock_prog_defs)
qed (rule other_methods_climb)

lemma thread_climbs:
  "(\<And>m. m \<in> set ms \<Longrightarrow> climbs rank strict [] (method_locks m)) \<Longrightarrow> climbs rank strict [] (thread_locks ms)"
  unfolding thread_locks_def by (rule climbs_concat) auto

text \<open>
  Two orders: with one thread writing triggers, that thread may take the two trigger maps in either order; when no
  thread sets triggers, all take \<^verbatim>\<open>account_triggers\<close> first.
\<close>

interpretation one_writer: lock_order "lock_rank 2"
  "{thread_locks ms |ms. \<forall>m \<in> set ms. \<not> writes_triggers m}" "range thread_locks"
  by unfold_locales (auto intro!: thread_climbs other_methods_climb trigger_methods_climb)

interpretation no_setter: lock_order "lock_rank 3"
  "{thread_locks ms |ms. \<forall>m \<in> set ms. \<not> sets_triggers m}"
  "{thread_locks ms |ms. \<forall>m \<in> set ms. \<not> sets_triggers m}"
  by unfold_locales (auto intro!: thread_climbs no_set_climbs intro: climbs_loose)

section \<open>Properties\<close>

text \<open>
  C12: When at most one thread writes triggers, the threads of the program never deadlock, whatever methods they call in
  whatever order and whatever the interleaving: from every reachable state they all finish, by steps that no lock
  policy refuses (a release, or taking a lock that nobody holds); and a lock held for writing is held by one thread only.
\<close>

theorem one_trigger_writer_completes:
  assumes "lock_reach (map thread_locks progs) ths"
    and "\<forall>i < length progs. i \<noteq> w \<longrightarrow> (\<forall>m \<in> set (progs ! i). \<not> writes_triggers m)"
  shows "(\<exists>ths'. sure_steps ths ths' \<and> all_done ths')
    \<and> (all_done ths \<or> (\<exists>i < length ths. sure_take ths i))
    \<and> exclusion ths"
proof -
  have "one_writer.one_loose w (map thread_locks progs)"
    using assms(2) by (auto simp: one_writer.one_loose_def)
  then show ?thesis
    using one_writer.completes [OF assms(1)] one_writer.progress [OF assms(1)] lock_reach_exclusion [OF assms(1)]
    by blast
qed

lemma no_setter_completes:
  assumes "lock_reach (map thread_locks progs) ths" "\<forall>ms \<in> set progs. \<forall>m \<in> set ms. \<not> sets_triggers m"
  shows "\<exists>ths'. sure_steps ths ths' \<and> all_done ths'"
  using assms(2) no_setter.completes [OF assms(1), of 0] by (fastforce simp: no_setter.one_loose_def)

lemma reach_take:
  "lock_reach progs ths \<Longrightarrow> i < length ths \<Longrightarrow> can_take ths i \<Longrightarrow> ths' = ths[i := act_thread (ths ! i)]
     \<Longrightarrow> lock_reach progs ths'"
  by (blast intro: lock_reach.step lock_step.take)

lemmas take_simps = can_take_def less_Suc_eq thread_locks_def lock_prog_defs

theorem one_trigger_writer_completes_witness:
  "\<exists>ths'. sure_steps [([(ByAssetL, Exclusive)], [Acq Exclusive AccountTriggersL, Rel AccountTriggersL, Rel ByAssetL]),
      ([], [Acq Shared ByAssetL, Rel ByAssetL])] ths' \<and> all_done ths'"
proof -
  let ?progs = "[[IndexM (SetM False)], [IndexM PriceUpdateM]]"
  have "lock_reach (map thread_locks ?progs) [([], thread_locks [IndexM (SetM False)]), ([], thread_locks [IndexM PriceUpdateM])]"
    using lock_reach.start [of "map thread_locks ?progs"] by simp
  then have "lock_reach (map thread_locks ?progs)
      [([(AccountTriggersL, Exclusive)], tl (thread_locks [IndexM (SetM False)])), ([], [Acq Shared ByAssetL, Rel ByAssetL])]"
    by (rule reach_take [where i = 0]) (simp_all add: take_simps)
  then have "lock_reach (map thread_locks ?progs) [([], insert_locks), ([], [Acq Shared ByAssetL, Rel ByAssetL])]"
    by (rule reach_take [where i = 0]) (simp_all add: take_simps)
  then have r: "lock_reach (map thread_locks ?progs)
      [([(ByAssetL, Exclusive)], [Acq Exclusive AccountTriggersL, Rel AccountTriggersL, Rel ByAssetL]),
       ([], [Acq Shared ByAssetL, Rel ByAssetL])]"
    by (rule reach_take [where i = 0]) (simp_all add: take_simps)
  from one_trigger_writer_completes [OF r, of 0] show ?thesis by (simp add: less_Suc_eq)
qed

text \<open>
  Two threads that set triggers, even of different accounts, can deadlock: the second section of set_triggers holds
  by_asset and waits for account_triggers, while clear_triggers in the other thread holds account_triggers and waits
  for by_asset. The state is reachable, neither thread has finished, and no step is possible.
\<close>

lemma set_triggers_deadlock:
  "\<exists>ths. lock_reach (map thread_locks [[IndexM (SetM False)], [IndexM (SetM True)]]) ths
    \<and> \<not> all_done ths \<and> \<not> (\<exists>ths'. lock_step ths ths')"
proof -
  let ?progs = "[[IndexM (SetM False)], [IndexM (SetM True)]]"
  let ?set = "thread_locks [IndexM (SetM True)]"
  let ?ths = "[([(ByAssetL, Exclusive)], tl insert_locks), ([(AccountTriggersL, Exclusive)], tl ?set)]"
  have "lock_reach (map thread_locks ?progs) [([], thread_locks [IndexM (SetM False)]), ([], ?set)]"
    using lock_reach.start [of "map thread_locks ?progs"] by simp
  then have "lock_reach (map thread_locks ?progs)
      [([(AccountTriggersL, Exclusive)], tl (thread_locks [IndexM (SetM False)])), ([], ?set)]"
    by (rule reach_take [where i = 0]) (simp_all add: take_simps)
  then have "lock_reach (map thread_locks ?progs) [([], insert_locks), ([], ?set)]"
    by (rule reach_take [where i = 0]) (simp_all add: take_simps)
  then have "lock_reach (map thread_locks ?progs) [([(ByAssetL, Exclusive)], tl insert_locks), ([], ?set)]"
    by (rule reach_take [where i = 0]) (simp_all add: take_simps)
  then have r: "lock_reach (map thread_locks ?progs) ?ths"
    by (rule reach_take [where i = 1]) (simp_all add: take_simps)
  have "\<not> can_take ?ths 0" "\<not> can_take ?ths 1" by (simp_all add: take_simps)
  then have "\<not> can_take ?ths i" if "i < length ?ths" for i
    using that by (cases "i = 0") (simp_all add: less_Suc_eq)
  then have "\<not> (\<exists>ths'. lock_step ?ths ths')" by (blast elim: lock_step.cases)
  moreover have "\<not> all_done ?ths" by (simp add: all_done_def lock_prog_defs)
  ultimately show ?thesis using r by blast
qed

end
