(* ===== verification/P0Constants.thy ===== *)
theory P0Constants
  imports Complex_Main P0Wire
begin

text \<open>
  The table of constants of the marginfi program, of which the repository keeps an excerpt
  (\<^verbatim>\<open>crates/liq-project0/idls/type_constants_excerpt.rs\<close>), and the constants the adapter copies from it
  (\<^verbatim>\<open>crates/liq-project0/src/lib.rs\<close>). A fixed-point literal \<^verbatim>\<open>I80F48!(q)\<close> is the work of a macro
  of another package: it is the parameter \<open>fx\<close> from the rational written in the source to the 128 bits of the
  constant, and what is relied on is that it rounds to the nearest multiple of 2^-48, so that integers are exact.
\<close>

section \<open>Fixed-point literals\<close>

type_synonym fixed_macro = "rat \<Rightarrow> i128"

definition nearest_literal :: "fixed_macro \<Rightarrow> bool" where
  "nearest_literal fx \<longleftrightarrow>
     (\<forall>q. 0 \<le> q \<and> q \<le> 2 ^ 79 - 1 \<longrightarrow> \<bar>of_int (sint (fx q)) - q * 2 ^ 48\<bar> \<le> 1 / 2)"

text \<open>An instance: half a unit is added and the rest cut off.\<close>

definition round_literal :: fixed_macro where
  "round_literal q = word_of_int \<lfloor>q * 2 ^ 48 + 1 / 2\<rfloor>"

lemma round_literal_nearest: "nearest_literal round_literal"
  unfolding nearest_literal_def
proof (intro allI impI)
  fix q :: rat assume q: "0 \<le> q \<and> q \<le> 2 ^ 79 - 1"
  define n where "n = \<lfloor>q * 2 ^ 48 + 1 / 2\<rfloor>"
  have lo: "0 \<le> n" using q by (simp add: n_def)
  have "q * 2 ^ 48 \<le> (2 ^ 79 - 1) * 2 ^ 48" using q by (intro mult_right_mono) simp_all
  then have "n < 2 ^ 127" by (simp add: n_def floor_less_iff)
  with lo have s: "sint (word_of_int n :: i128) = n"
    by (simp add: sint_sbintrunc' signed_take_bit_int_eq_self)
  have "of_int n \<le> q * 2 ^ 48 + 1 / 2 \<and> q * 2 ^ 48 + 1 / 2 < of_int (n + 1)"
    unfolding n_def by (rule floor_correct)
  then show "\<bar>of_int (sint (round_literal q)) - q * 2 ^ 48\<bar> \<le> 1 / 2"
    unfolding round_literal_def n_def [symmetric] s of_int_add of_int_1 by linarith
qed

lemma nearest_literal_int:
  assumes "nearest_literal fx" "0 \<le> n" "n \<le> 2 ^ 79 - 1"
  shows "sint (fx (of_int n)) = n * 2 ^ 48"
proof -
  have "\<bar>of_int (sint (fx (of_int n))) - (of_int n * 2 ^ 48 :: rat)\<bar> \<le> 1 / 2"
    using assms by (simp add: nearest_literal_def)
  then have "\<bar>of_int (sint (fx (of_int n)) - n * 2 ^ 48)\<bar> \<le> (1 / 2 :: rat)" by simp
  then show ?thesis by linarith
qed

section \<open>The constants\<close>

definition p0_seeds :: "(string \<times> string) list" where
  "p0_seeds =
     [(''LIQUIDITY_VAULT_AUTHORITY_SEED'', ''liquidity_vault_auth''),
      (''INSURANCE_VAULT_AUTHORITY_SEED'', ''insurance_vault_auth''),
      (''FEE_VAULT_AUTHORITY_SEED'', ''fee_vault_auth''),
      (''LIQUIDITY_VAULT_SEED'', ''liquidity_vault''),
      (''INSURANCE_VAULT_SEED'', ''insurance_vault''),
      (''FEE_VAULT_SEED'', ''fee_vault''),
      (''DRIFT_USER_SEED'', ''user''),
      (''DRIFT_USER_STATS_SEED'', ''user_stats''),
      (''SOLEND_OBLIGATION_SEED'', ''solend_obligation''),
      (''JUPLEND_F_TOKEN_VAULT_SEED'', ''f_token_vault''),
      (''FEE_STATE_SEED'', ''feestate''),
      (''STAKED_SETTINGS_SEED'', ''staked_settings''),
      (''SAME_ASSET_EMODE_REGISTRY_SEED'', ''same_asset_emode_registry''),
      (''EMISSIONS_TOKEN_ACCOUNT_SEED'', ''emissions_token_account_seed''),
      (''LIQUIDATION_RECORD_SEED'', ''liq_record''),
      (''MARGINFI_ACCOUNT_SEED'', ''marginfi_account''),
      (''ORDER_SEED'', ''order''),
      (''EXECUTE_ORDER_SEED'', ''execute_order''),
      (''METADATA_SEED'', ''metadata'')]"

definition default_liquidation_fee :: "fixed_macro \<Rightarrow> i128" where
  "default_liquidation_fee fx = fx (25 / 1000)"

definition max_liquidation_fee_u32 :: u32 where
  "max_liquidation_fee_u32 = (- 1) div 2"

definition seconds_per_year :: "fixed_macro \<Rightarrow> i128" where
  "seconds_per_year fx = fx 31536000"

definition daily_reset_interval :: i64 where
  "daily_reset_interval = 24 * 60 * 60"

definition hourly_reset_duration :: u64 where
  "hourly_reset_duration = 60 * 60"

definition oracle_min_age :: u16 where
  "oracle_min_age = 10"

definition max_pyth_oracle_age :: u64 where
  "max_pyth_oracle_age = 60"

definition order_active_tags :: nat where
  "order_active_tags = 2"

definition order_tag_padding :: nat where
  "order_tag_padding = 32"

definition conf_interval_multiple :: "fixed_macro \<Rightarrow> i128" where
  "conf_interval_multiple fx = fx (212 / 100)"

definition max_conf_interval :: "fixed_macro \<Rightarrow> i128" where
  "max_conf_interval fx = fx (5 / 100)"

definition u32_max_fixed :: "fixed_macro \<Rightarrow> i128" where
  "u32_max_fixed fx = fx 4294967295"

definition u32_max_div_10 :: "fixed_macro \<Rightarrow> i128" where
  "u32_max_div_10 fx = fx 429496730"

definition usdc_exponent :: "32 word" where
  "usdc_exponent = 6"

definition max_oracle_keys :: nat where
  "max_oracle_keys = 5"

definition empty_balance_threshold :: "fixed_macro \<Rightarrow> i128" where
  "empty_balance_threshold fx = fx 1"

definition bankrupt_threshold :: "fixed_macro \<Rightarrow> i128" where
  "bankrupt_threshold fx = fx (1 / 10)"

definition zero_amount_threshold :: "fixed_macro \<Rightarrow> i128" where
  "zero_amount_threshold fx = fx (1 / 10000)"

text \<open>Flags, each a bit of \<^verbatim>\<open>Bank.flags\<close> but for the one of a byte of its own.\<close>

definition emissions_flag_borrow_active :: u64 where
  "emissions_flag_borrow_active = push_bit 0 1"

definition emissions_flag_lending_active :: u64 where
  "emissions_flag_lending_active = push_bit 1 1"

definition permissionless_bad_debt_settlement_flag :: u64 where
  "permissionless_bad_debt_settlement_flag = push_bit 2 1"

definition freeze_settings :: u64 where
  "freeze_settings = push_bit 3 1"

definition close_enabled_flag :: u64 where
  "close_enabled_flag = push_bit 4 1"

definition tokenless_repayments_allowed :: u64 where
  "tokenless_repayments_allowed = push_bit 5 1"

definition tokenless_repayments_complete :: u64 where
  "tokenless_repayments_complete = push_bit 6 1"

definition is_t22 :: u64 where
  "is_t22 = push_bit 7 1"

definition bank_seed_known :: u64 where
  "bank_seed_known = push_bit 8 1"

definition pyth_push_migrated_deprecated :: u8 where
  "pyth_push_migrated_deprecated = push_bit 0 1"

definition staked_oracle_disabled :: u64 where
  "staked_oracle_disabled = push_bit 9 1"

definition staked_oracle_price_uses_onramp :: u64 where
  "staked_oracle_price_uses_onramp = push_bit 10 1"

definition staked_oracle_flags :: u64 where
  "staked_oracle_flags = staked_oracle_disabled OR staked_oracle_price_uses_onramp"

definition circuit_breaker_enabled :: u64 where
  "circuit_breaker_enabled = push_bit 11 1"

definition bank_same_asset_emode_eligible :: u64 where
  "bank_same_asset_emode_eligible = push_bit 12 1"

definition group_flags :: u64 where
  "group_flags = permissionless_bad_debt_settlement_flag OR freeze_settings OR tokenless_repayments_allowed
     OR tokenless_repayments_complete OR circuit_breaker_enabled OR bank_same_asset_emode_eligible"

text \<open>Powers of ten.\<close>

definition max_exp_10_i80f48 :: nat where
  "max_exp_10_i80f48 = 24"

definition exp_10_i80f48 :: "fixed_macro \<Rightarrow> i128 list" where
  "exp_10_i80f48 fx = map fx
     [1, 10, 100, 1000, 10000, 100000,
      1000000, 10000000, 100000000, 1000000000, 10000000000, 100000000000,
      1000000000000, 10000000000000, 100000000000000, 1000000000000000, 10000000000000000, 100000000000000000,
      1000000000000000000, 10000000000000000000, 100000000000000000000, 1000000000000000000000, 10000000000000000000000, 100000000000000000000000]"

definition max_exp_10 :: nat where
  "max_exp_10 = 21"

definition exp_10 :: "i128 list" where
  "exp_10 =
     [1, 10, 100, 1000, 10000, 100000, 1000000,
      10000000, 100000000, 1000000000, 10000000000, 100000000000, 1000000000000, 10000000000000,
      100000000000000, 1000000000000000, 10000000000000000, 100000000000000000, 1000000000000000000, 10000000000000000000, 100000000000000000000]"

definition total_asset_value_init_limit_inactive :: u64 where
  "total_asset_value_init_limit_inactive = 0"

definition protocol_fee_rate_default :: "fixed_macro \<Rightarrow> i128" where
  "protocol_fee_rate_default fx = fx (25 / 1000)"

definition protocol_fee_fixed_default :: "fixed_macro \<Rightarrow> i128" where
  "protocol_fee_fixed_default fx = fx (1 / 100)"

definition pyth_sponsored_shard_id :: u16 where
  "pyth_sponsored_shard_id = 0"

definition marginfi_sponsored_shard_id :: u16 where
  "marginfi_sponsored_shard_id = 3301"

text \<open>The kinds of assets an account may hold.\<close>

definition asset_tags :: "(string \<times> u8) list" where
  "asset_tags = [(''DEFAULT'', 0), (''SOL'', 1), (''STAKED'', 2), (''KAMINO'', 3), (''DRIFT'', 4), (''SOLEND'', 5),
     (''JUPLEND'', 6)]"

definition drift_scaled_balance_decimals :: u8 where
  "drift_scaled_balance_decimals = 9"

definition max_integration_positions :: nat where
  "max_integration_positions = 8"

definition p0_account_discriminators :: "(string \<times> u8 list) list" where
  "p0_account_discriminators =
     [(''GROUP'', [182, 23, 173, 240, 151, 206, 182, 67]),
      (''BANK'', [142, 49, 166, 242, 50, 66, 97, 188]),
      (''ACCOUNT'', [67, 178, 130, 109, 126, 114, 28, 42]),
      (''FEE_STATE'', [63, 224, 16, 85, 193, 36, 235, 220]),
      (''STAKED_SETTINGS'', [157, 140, 6, 77, 89, 173, 173, 125]),
      (''LIQUIDATION_RECORD'', [95, 116, 23, 132, 89, 210, 245, 162]),
      (''ORDER'', [134, 173, 223, 185, 77, 86, 28, 51]),
      (''EXECUTE_ORDER_RECORD'', [6, 100, 107, 60, 164, 226, 56, 97]),
      (''BANK_METADATA'', [49, 207, 31, 34, 67, 225, 169, 186]),
      (''SAME_ASSET_EMODE_REGISTRY'', [222, 21, 195, 149, 193, 72, 219, 31])]"

definition p0_ix_discriminators :: "(string \<times> u8 list) list" where
  "p0_ix_discriminators =
     [(''INIT_LIQUIDATION_RECORD'', [236, 213, 238, 126, 147, 251, 164, 8]),
      (''START_LIQUIDATION'', [244, 93, 90, 214, 192, 166, 191, 21]),
      (''END_LIQUIDATION'', [110, 11, 244, 54, 229, 181, 22, 184]),
      (''START_EXECUTE_ORDER'', [1, 70, 140, 134, 183, 29, 208, 224]),
      (''END_EXECUTE_ORDER'', [115, 42, 20, 93, 121, 84, 178, 83]),
      (''LENDING_ACCOUNT_WITHDRAW'', [36, 72, 74, 19, 210, 210, 192, 192]),
      (''LENDING_ACCOUNT_REPAY'', [79, 209, 172, 177, 222, 51, 173, 151]),
      (''KAMINO_WITHDRAW'', [199, 101, 41, 45, 213, 98, 224, 200]),
      (''DRIFT_WITHDRAW'', [86, 59, 186, 123, 183, 181, 234, 137]),
      (''JUPLEND_WITHDRAW'', [245, 164, 253, 202, 53, 77, 251, 221]),
      (''START_FLASHLOAN'', [14, 131, 33, 220, 81, 186, 180, 107]),
      (''END_FLASHLOAN'', [105, 124, 201, 106, 153, 2, 8, 156]),
      (''START_DELEVERAGE'', [10, 138, 10, 57, 40, 232, 182, 193]),
      (''END_DELEVERAGE'', [114, 14, 250, 143, 252, 104, 214, 209])]"

section \<open>What the adapter copies\<close>

definition classic_liquidator_premium_bps :: u16 where
  "classic_liquidator_premium_bps = 250"

definition classic_insurance_bps :: u16 where
  "classic_insurance_bps = 250"

definition adapter_seeds :: "(string \<times> string) list" where
  "adapter_seeds = [(''FEE_STATE_SEED'', ''feestate''), (''LIQUIDATION_RECORD_SEED'', ''liq_record'')]"

definition adapter_ix_discs :: "(string \<times> u8 list) list" where
  "adapter_ix_discs =
     [(''INIT_LIQUIDATION_RECORD'', [236, 213, 238, 126, 147, 251, 164, 8]),
      (''START_LIQUIDATION'', [244, 93, 90, 214, 192, 166, 191, 21]),
      (''END_LIQUIDATION'', [110, 11, 244, 54, 229, 181, 22, 184]),
      (''LENDING_ACCOUNT_WITHDRAW'', [36, 72, 74, 19, 210, 210, 192, 192]),
      (''LENDING_ACCOUNT_REPAY'', [79, 209, 172, 177, 222, 51, 173, 151]),
      (''LENDING_ACCOUNT_LIQUIDATE'', [214, 169, 151, 213, 251, 167, 86, 219]),
      (''START_FLASHLOAN'', [14, 131, 33, 220, 81, 186, 180, 107]),
      (''END_FLASHLOAN'', [105, 124, 201, 106, 153, 2, 8, 156])]"

definition adapter_account_discs :: "(string \<times> u8 list) list" where
  "adapter_account_discs =
     [(''FEE_STATE'', [63, 224, 16, 85, 193, 36, 235, 220]),
      (''LIQUIDATION_RECORD'', [95, 116, 23, 132, 89, 210, 245, 162]),
      (''ACCOUNT'', [67, 178, 130, 109, 126, 114, 28, 42]),
      (''BANK'', [142, 49, 166, 242, 50, 66, 97, 188]),
      (''GROUP'', [182, 23, 173, 240, 151, 206, 182, 67])]"


section \<open>Lemmas\<close>

lemma exp_10_table: "exp_10 = map (\<lambda>i. 10 ^ i) [0..<max_exp_10]"
  by (simp add: exp_10_def max_exp_10_def upt_rec)

lemma exp_10_i80f48_table: "exp_10_i80f48 fx = map (\<lambda>i. fx (of_int (10 ^ i))) [0..<max_exp_10_i80f48]"
  by (simp add: exp_10_i80f48_def max_exp_10_i80f48_def upt_rec)

lemma exp_10_exact: "i < max_exp_10 \<Longrightarrow> sint (exp_10 ! i) = 10 ^ i"
proof -
  assume i: "i < max_exp_10"
  then have "(10 :: int) ^ i \<le> 10 ^ 20" by (intro power_increasing) (simp_all add: max_exp_10_def)
  moreover have "- (2 ^ 127) \<le> (10 :: int) ^ i" by (rule order_trans [of _ 0]) simp_all
  ultimately have "signed_take_bit 127 ((10 :: int) ^ i) = 10 ^ i" by (intro signed_take_bit_int_eq_self) simp_all
  moreover have "sint ((10 :: i128) ^ i) = signed_take_bit 127 (10 ^ i)"
    using sint_sbintrunc' [where 'a = 128, of "10 ^ i"] by simp
  ultimately show ?thesis using i by (simp add: exp_10_table)
qed

lemma exp_10_i80f48_exact:
  assumes "nearest_literal fx" "i < max_exp_10_i80f48"
  shows "sint (exp_10_i80f48 fx ! i) = 10 ^ i * 2 ^ 48"
proof -
  have "(10 :: int) ^ i \<le> 10 ^ 23" using assms(2) by (intro power_increasing) (simp_all add: max_exp_10_i80f48_def)
  then show ?thesis
    using assms(2) nearest_literal_int [OF assms(1), of "10 ^ i"] by (simp add: exp_10_i80f48_table)
qed

definition bank_flags :: "u64 list" where
  "bank_flags = [emissions_flag_borrow_active, emissions_flag_lending_active,
     permissionless_bad_debt_settlement_flag, freeze_settings, close_enabled_flag, tokenless_repayments_allowed,
     tokenless_repayments_complete, is_t22, bank_seed_known, staked_oracle_disabled, staked_oracle_price_uses_onramp,
     circuit_breaker_enabled, bank_same_asset_emode_eligible]"

lemmas flag_defs = emissions_flag_borrow_active_def emissions_flag_lending_active_def
  permissionless_bad_debt_settlement_flag_def freeze_settings_def close_enabled_flag_def
  tokenless_repayments_allowed_def tokenless_repayments_complete_def is_t22_def bank_seed_known_def
  staked_oracle_disabled_def staked_oracle_price_uses_onramp_def circuit_breaker_enabled_def
  bank_same_asset_emode_eligible_def

lemma bank_flags_bits: "bank_flags = map (\<lambda>n. push_bit n 1) [0..<13]"
  by (simp add: bank_flags_def flag_defs upt_rec)

text \<open>A flag is one bit, no two share it, and a group may set neither the oracle flags nor those outside its mask.\<close>

lemma bank_flags_disjoint: "sorted_wrt (\<lambda>x y. x AND y = 0) bank_flags"
  by (simp add: bank_flags_def flag_defs)

lemma group_flags_mask:
  "group_flags AND staked_oracle_flags = 0"
  "f \<in> set bank_flags \<Longrightarrow> group_flags AND f = (if f \<in> {permissionless_bad_debt_settlement_flag, freeze_settings,
     tokenless_repayments_allowed, tokenless_repayments_complete, circuit_breaker_enabled,
     bank_same_asset_emode_eligible} then f else 0)"
  by (auto simp: group_flags_def staked_oracle_flags_def bank_flags_def flag_defs)

text \<open>Two fees at their maximum are below 100 percent, which is the largest value of the encoding.\<close>

lemma max_liquidation_fees: "2 * unat max_liquidation_fee_u32 < 2 ^ 32 - 1"
  by (simp add: max_liquidation_fee_u32_def)

text \<open>The copy of the discriminators in the table is that of \<^verbatim>\<open>discriminators.rs\<close>.\<close>

lemma p0_discriminators_agree:
  "p0_account_discriminators = idl_account_discriminators" "p0_ix_discriminators = idl_ix_discriminators"
  by (simp_all add: p0_account_discriminators_def idl_account_discriminators_def p0_ix_discriminators_def
      idl_ix_discriminators_def)

lemma nearest_literal_nat:
  assumes "nearest_literal fx" "0 \<le> q" "q \<le> 1"
  shows "\<bar>of_nat (unat (fx q)) - q * 2 ^ 48\<bar> \<le> 1 / 2"
proof -
  have r: "\<bar>of_int (sint (fx q)) - q * 2 ^ 48\<bar> \<le> 1 / 2" using assms by (simp add: nearest_literal_def)
  have "0 \<le> q * 2 ^ 48" using assms by simp
  then have "of_int (- 1) < (of_int (sint (fx q)) :: rat)" using r unfolding of_int_minus of_int_1 by linarith
  then have "0 \<le> sint (fx q)" unfolding of_int_less_iff by simp
  then have "int (unat (fx q)) = sint (fx q)" by (simp add: unat_sint_nonneg)
  then have "(of_nat (unat (fx q)) :: rat) = of_int (sint (fx q))" by (metis of_int_of_nat_eq)
  with r show ?thesis by simp
qed

section \<open>The copies agree\<close>

text \<open>A fee of 2.5 percent, however the last bit of its literal is rounded, is read as 250 basis points.\<close>

lemma default_fee_bps:
  assumes "nearest_literal fx"
  shows "i80f48_le_to_bps (u128_le (default_liquidation_fee fx)) = Inr 250"
proof -
  define n where "n = unat (fx (25 / 1000))"
  have "\<bar>of_nat n - 25 / 1000 * 2 ^ 48\<bar> \<le> (1 / 2 :: rat)"
    unfolding n_def using assms by (rule nearest_literal_nat) simp_all
  then have "40 * of_nat n \<le> (2 ^ 48 + 20 :: rat)" "(2 ^ 48 :: rat) \<le> 40 * of_nat n + 20" by linarith+
  then have "(of_nat (40 * n) :: rat) \<le> of_nat (2 ^ 48 + 20)" "(of_nat (2 ^ 48) :: rat) \<le> of_nat (40 * n + 20)"
    by simp_all
  then have n: "40 * n \<le> 2 ^ 48 + 20" "2 ^ 48 \<le> 40 * n + 20"
    unfolding of_nat_le_iff .
  then have "(n * 10000 + 2 ^ 47) div 2 ^ 48 = 250" by (intro div_nat_eqI) simp_all
  moreover have "n * 10000 + 2 ^ 47 < 2 ^ 127" using n(1) by simp
  ultimately show ?thesis
    using fee_bps_exact [of "fx (25 / 1000)"] by (simp add: default_liquidation_fee_def n_def)
qed

text \<open>
  Every seed and discriminator the adapter copies has the program's name and value, but for the discriminator of the
  classic liquidation, which is not in the table; its classic premium and its insurance fee are the program's default
  liquidation fee; and the seeds have at most the 32 bytes a seed may have.
\<close>

theorem adapter_constants_agree:
  assumes "nearest_literal fx"
  shows "set adapter_seeds \<subseteq> set p0_seeds \<and> set adapter_account_discs \<subseteq> set p0_account_discriminators
    \<and> {d \<in> set adapter_ix_discs. d \<notin> set p0_ix_discriminators}
      = {(''LENDING_ACCOUNT_LIQUIDATE'', disc_lending_account_liquidate)}
    \<and> i80f48_le_to_bps (u128_le (default_liquidation_fee fx)) = Inr classic_liquidator_premium_bps
    \<and> classic_insurance_bps = classic_liquidator_premium_bps
    \<and> list_all (\<lambda>(name, seed). length (ascii seed) \<le> 32) p0_seeds"
  using default_fee_bps [OF assms]
  by (auto simp: adapter_seeds_def p0_seeds_def adapter_account_discs_def p0_account_discriminators_def
      adapter_ix_discs_def p0_ix_discriminators_def disc_lending_account_liquidate_def
      classic_liquidator_premium_bps_def classic_insurance_bps_def ascii_def)

theorem adapter_constants_agree_witness:
  "i80f48_le_to_bps (u128_le (default_liquidation_fee round_literal)) = Inr classic_liquidator_premium_bps"
  using adapter_constants_agree [OF round_literal_nearest] by blast

end
