(* ===== verification/FixedFloat.thy ===== *)
theory FixedFloat
  imports LiveHealth
begin

text \<open>
  The conversions between the fixed-point types of \<^verbatim>\<open>crates/liq-core/src/types.rs\<close> and f64, which theory
  \<open>LiveHealth\<close> defines: within the stated ranges a price or a health factor goes through f64 and back unchanged, and a
  decimal literal with no more digits than the scale becomes exactly the fixed-point number it denotes.
\<close>

section \<open>Rounding a near integer\<close>

lemma round_away_near:
  assumes "\<bar>x - of_int n\<bar> < 1 / 2" shows "round_away x = n"
proof -
  have b: "x < of_int n + 1 / 2" "of_int n - 1 / 2 < x"
    using assms unfolding abs_less_iff by linarith+
  then have "\<lfloor>x + 1 / 2\<rfloor> = n" by (intro floor_unique) linarith+
  moreover from b have "\<lceil>x - 1 / 2\<rceil> = n" by (intro ceiling_unique) linarith+
  ultimately show ?thesis by (simp add: round_away_def)
qed

lemma approx_near:
  assumes "approx 2 x (of_nat n)" "n < 2 ^ 49"
  shows "\<bar>x - of_nat n\<bar> < 1 / 2"
proof -
  have n: "(of_nat n :: rat) < 2 ^ 49" using assms(2) by (simp add: of_nat_less_numeral_power_cancel_iff)
  have "f64_step ^ 2 \<le> 1 + 1 / 2 ^ 50" by (simp add: f64_step_def power2_eq_square)
  then have "of_nat n * f64_step ^ 2 \<le> of_nat n * (1 + 1 / 2 ^ 50)" by (intro mult_left_mono) simp_all
  then have "x \<le> of_nat n * (1 + 1 / 2 ^ 50)" using assms(1) by (simp add: approx_def)
  then have up: "x - of_nat n \<le> of_nat n / 2 ^ 50" by (simp add: distrib_left)
  have "f64_step ^ 2 * (1 - 1 / 2 ^ 50) \<le> 1" by (simp add: f64_step_def power2_eq_square)
  then have "(1 - 1 / 2 ^ 50) \<le> 1 / f64_step ^ 2" by (simp add: pos_le_divide_eq mult_ac)
  then have "of_nat n * (1 - 1 / 2 ^ 50) \<le> of_nat n * (1 / f64_step ^ 2)" by (intro mult_left_mono) simp_all
  also have "\<dots> \<le> x" using assms(1) by (simp add: approx_def)
  finally have "of_nat n * (1 - 1 / 2 ^ 50) \<le> x" .
  then have lo: "of_nat n - x \<le> of_nat n / 2 ^ 50" by (simp add: right_diff_distrib)
  have "of_nat n / 2 ^ 50 < (1 / 2 :: rat)" using n by simp
  with up lo show ?thesis unfolding abs_less_iff by linarith
qed

section \<open>Prices and health factors\<close>

lemma f64_of_price_scale: "f64_of price_scale = 1000000000"
  by (subst f64_of_exact) (simp_all add: price_scale_def)

lemma f64_of_health_scale: "f64_of_signed health_scale = 1000000"
proof -
  have "rnd (of_nat 1000000) = of_nat 1000000" by (rule rnd_nat) simp
  then show ?thesis by (simp add: f64_of_signed_def health_scale_def)
qed

lemma approx_scaled:
  assumes "approx 1 x (of_nat n / s)" "0 < s" "n < 2 ^ 49"
  shows "round_away (fmul x s) = int n"
proof -
  have "approx (Suc (1 + 0)) (fmul x s) (of_nat n / s * s)"
    using assms(1,2) by (intro approx_fmul approx_exact) simp_all
  then have "approx 2 (fmul x s) (of_nat n)" using assms(2) by (simp add: numeral_2_eq_2)
  from approx_near [OF this assms(3)] show ?thesis by (intro round_away_near) simp
qed

lemma price_from_approx:
  assumes "approx 1 x (of_nat n / 1000000000)" "n < 2 ^ 49"
  shows "price_from_f64 x = PriceFx (word_of_nat n)"
proof -
  have "max x 0 = x" using approx_nonneg [OF assms(1)] by simp
  moreover have "int n \<le> 2 ^ 128 - 1" using assms(2) by (simp add: order_trans [of _ "2 ^ 49"])
  ultimately show ?thesis
    using approx_scaled [OF assms(1) _ assms(2)] by (simp add: price_from_f64_def f64_of_price_scale as_u128_def)
qed

lemma health_from_approx:
  assumes "approx 1 x (of_nat n / 1000000)" "n < 2 ^ 49"
  shows "health_from_f64 x = HealthFx (word_of_nat n)"
proof -
  have "int n \<le> 2 ^ 127 - 1" using assms(2) by (simp add: order_trans [of _ "2 ^ 49"])
  then show ?thesis
    using approx_scaled [OF assms(1) _ assms(2)] by (simp add: health_from_f64_def f64_of_health_scale as_i128_def)
qed

text \<open>Decimal literals.\<close>

lemma price_literal:
  assumes q: "q = of_nat n / 1000000000" and n: "n < 2 ^ 49"
  shows "price_from_f64 (rnd q) = PriceFx (word_of_nat n)"
proof -
  have "approx (Suc 0) (rnd (of_nat n / 1000000000)) (of_nat n / 1000000000)"
    by (intro approx_rnd approx_exact) simp
  with n show ?thesis unfolding q by (intro price_from_approx) simp_all
qed

lemma health_literal:
  assumes q: "q = of_nat n / 1000000" and n: "n < 2 ^ 49"
  shows "health_from_f64 (rnd q) = HealthFx (word_of_nat n)"
proof -
  have "approx (Suc 0) (rnd (of_nat n / 1000000)) (of_nat n / 1000000)"
    by (intro approx_rnd approx_exact) simp
  with n show ?thesis unfolding q by (intro health_from_approx) simp_all
qed

text \<open>
  Below 2^49 units (about 562,949 dollars for a price, 562 million for a health factor) a fixed-point price and a
  non-negative fixed-point health factor go through f64 and back unchanged.
\<close>

lemma fixed_float_roundtrip:
  assumes "unat (px p) < 2 ^ 49" "0 \<le> sint (hf h)" "sint (hf h) < 2 ^ 49"
  shows "price_from_f64 (price_to_f64 p) = p \<and> health_from_f64 (health_to_f64 h) = h"
proof
  let ?n = "unat (px p)"
  have "f64_of (px p) = of_nat ?n" using assms(1) by (intro f64_of_exact) simp
  moreover have "approx (Suc (0 + 0)) (fdiv (of_nat ?n) 1000000000) (of_nat ?n / 1000000000)"
    by (intro approx_fdiv approx_exact) simp_all
  ultimately have "approx 1 (price_to_f64 p) (of_nat ?n / 1000000000)"
    by (simp add: price_to_f64_def f64_of_price_scale)
  from price_from_approx [OF this assms(1)] show "price_from_f64 (price_to_f64 p) = p" by simp
next
  define n where "n = nat (sint (hf h))"
  have n: "sint (hf h) = int n" "n < 2 ^ 49" using assms(2,3) by (simp_all add: n_def)
  have "rnd (of_nat n) = of_nat n" using n(2) by (intro rnd_nat) simp
  then have "f64_of_signed (hf h) = of_nat n" by (simp add: f64_of_signed_def n(1))
  moreover have "approx (Suc (0 + 0)) (fdiv (of_nat n) 1000000) (of_nat n / 1000000)"
    by (intro approx_fdiv approx_exact) simp_all
  ultimately have "approx 1 (health_to_f64 h) (of_nat n / 1000000)"
    by (simp add: health_to_f64_def f64_of_health_scale)
  from health_from_approx [OF this n(2)] have "health_from_f64 (health_to_f64 h) = HealthFx (word_of_int (int n))" by simp
  then show "health_from_f64 (health_to_f64 h) = h" unfolding n(1) [symmetric] by simp
qed

lemma fixed_float_roundtrip_witness:
  "price_from_f64 (price_to_f64 (PriceFx 101230000000)) = PriceFx 101230000000
     \<and> health_from_f64 (health_to_f64 (HealthFx 1034567)) = HealthFx 1034567"
  by (rule fixed_float_roundtrip) simp_all

end
