(* ===== verification/CoreTests.thy ===== *)
theory CoreTests
  imports FixedFloat OraclePath Funding Risk Instructions Strings
begin

text \<open>
  The unit tests of \<^verbatim>\<open>crates/liq-core\<close>, \<^verbatim>\<open>crates/liq-risk\<close> and \<^verbatim>\<open>crates/liq-telemetry\<close> as
  checks of the model: each test is a bool, the conjunction of its assertions over the model's operations, and a lemma
  proves that it passes. A match that accepts one variant is \<open>\<exists>\<close> over the fields it ignores. Clock
  readings are an argument, the k-th reading \<open>now k\<close>; a test that calls a third-party package has that package as
  its argument. The tests that compare with fixed base58 texts are left out: they test that package.
\<close>

section \<open>candidate\_index.rs\<close>

definition test_trigger :: "pubkey \<Rightarrow> pubkey \<Rightarrow> trigger_side \<Rightarrow> rat \<Rightarrow> price_trigger" where
  "test_trigger acct asset side usd = \<lparr>pt_account = acct, pt_asset = asset, pt_side = side,
     pt_trigger_price = price_from_f64 (rnd usd)\<rparr>"

definition test_collateral_down_trigger_crossing :: bool where
  "test_collateral_down_trigger_crossing =
     (let acct = pubkey_test 7 1; sol = pubkey_test 9 1;
          idx = upsert_candidate index_new \<lparr>cm_account = acct, cm_protocol = Kamino, cm_band = Hot,
            cm_health = health_from_f64 (rnd (105 / 100)), cm_assets = [sol]\<rparr>;
          idx = set_triggers idx acct [test_trigger acct sol CollateralDown 100];
          hits = on_price_update idx sol (price_from_f64 (rnd 110)) (price_from_f64 (rnd 99));
          hits2 = on_price_update idx sol (price_from_f64 (rnd 99)) (price_from_f64 (rnd 90));
          hits3 = on_price_update idx sol (price_from_f64 (rnd 110)) (price_from_f64 (rnd 105))
      in length hits = 1 \<and> th_account (hits ! 0) = acct \<and> hits2 = [] \<and> hits3 = [])"

definition test_debt_up_trigger_crossing :: bool where
  "test_debt_up_trigger_crossing =
     (let acct = pubkey_test 7 2; usdc = pubkey_test 9 2;
          idx = set_triggers index_new acct [test_trigger acct usdc DebtUp (102 / 100)];
          hits = on_price_update idx usdc (price_from_f64 (rnd 1)) (price_from_f64 (rnd (103 / 100)));
          hits2 = on_price_update idx usdc (price_from_f64 (rnd (103 / 100))) (price_from_f64 (rnd (105 / 100)))
      in length hits = 1 \<and> th_side (hits ! 0) = DebtUp \<and> hits2 = [])"

definition test_band_classification :: bool where
  "test_band_classification =
     (classify_band (health_from_f64 (rnd (95 / 100))) 0 = Critical
      \<and> classify_band (health_from_f64 (rnd (101 / 100))) (rnd (1 / 100)) = Hot
      \<and> classify_band (health_from_f64 (rnd (105 / 100))) (rnd (5 / 100)) = Warm
      \<and> classify_band (health_from_f64 (rnd (120 / 100))) (rnd (20 / 100)) = Cold)"

lemma test_prices:
  "price_from_f64 (rnd 120) = PriceFx 120000000000" "price_from_f64 (rnd 110) = PriceFx 110000000000"
  "price_from_f64 (rnd 105) = PriceFx 105000000000" "price_from_f64 (rnd 100) = PriceFx 100000000000"
  "price_from_f64 (rnd 99) = PriceFx 99000000000" "price_from_f64 (rnd 95) = PriceFx 95000000000"
  "price_from_f64 (rnd 90) = PriceFx 90000000000" "price_from_f64 (rnd 1) = PriceFx 1000000000"
  "price_from_f64 (rnd (51 / 50)) = PriceFx 1020000000" "price_from_f64 (rnd (103 / 100)) = PriceFx 1030000000"
  "price_from_f64 (rnd (21 / 20)) = PriceFx 1050000000"
  using price_literal [of _ 120000000000] price_literal [of _ 110000000000] price_literal [of _ 105000000000]
    price_literal [of _ 100000000000] price_literal [of _ 99000000000] price_literal [of _ 95000000000]
    price_literal [of _ 90000000000] price_literal [of _ 1000000000] price_literal [of _ 1020000000]
    price_literal [of _ 1030000000] price_literal [of _ 1050000000]
  by simp_all

lemma test_healths:
  "health_from_f64 (rnd (19 / 20)) = HealthFx 950000" "health_from_f64 (rnd (101 / 100)) = HealthFx 1010000"
  "health_from_f64 (rnd (21 / 20)) = HealthFx 1050000" "health_from_f64 (rnd (6 / 5)) = HealthFx 1200000"
  using health_literal [of _ 950000] health_literal [of _ 1010000] health_literal [of _ 1050000]
    health_literal [of _ 1200000]
  by simp_all

lemmas index_test_simps = test_trigger_def index_new_def upsert_candidate_def set_triggers_def clear_triggers_def
  insert_trigger_def empty_asset_index_def on_price_update_def scan_ladder_def ladder_range_def test_prices Let_def

lemma test_collateral_down_trigger_crossing_passes: test_collateral_down_trigger_crossing
  by (auto simp: test_collateral_down_trigger_crossing_def index_test_simps)

lemma test_debt_up_trigger_crossing_passes: test_debt_up_trigger_crossing
  by (auto simp: test_debt_up_trigger_crossing_def index_test_simps)

lemma rnd_less:
  assumes "0 < x" "x < (y :: rat)" "x * (1 + 1 / 2 ^ 53) < y * (1 - 1 / 2 ^ 53)"
  shows "rnd x < rnd y"
proof -
  have "\<bar>rnd x - x\<bar> \<le> x / 2 ^ 53" "\<bar>rnd y - y\<bar> \<le> y / 2 ^ 53"
    using rnd_error [of x] rnd_error [of y] assms(1,2) by simp_all
  then have "rnd x \<le> x * (1 + 1 / 2 ^ 53)" "y * (1 - 1 / 2 ^ 53) \<le> rnd y"
    unfolding distrib_left right_diff_distrib abs_le_iff by simp_all
  with assms(3) show ?thesis by linarith
qed

lemma test_band_classification_passes: test_band_classification
proof -
  have "rnd (1 / 100) \<le> rnd (2 / 100)" by (rule rnd_mono) simp_all
  moreover have "rnd (2 / 100) < rnd (5 / 100)" by (rule rnd_less) simp_all
  moreover have "rnd (5 / 100) \<le> rnd (8 / 100)" by (rule rnd_mono) simp_all
  moreover have "rnd (8 / 100) < rnd (20 / 100)" by (rule rnd_less) simp_all
  moreover have "rnd (2 / 100) < rnd (20 / 100)" by (rule rnd_less) simp_all
  ultimately show ?thesis
    by (simp add: test_band_classification_def classify_band_def test_healths is_liquidatable_hf_def)
qed

section \<open>oracle\_path.rs, state\_store.rs\<close>

definition test_oracle_update_wakes_crossed_candidates :: "u64 \<Rightarrow> bool" where
  "test_oracle_update_wakes_crossed_candidates now =
     (let acct = pubkey_test 1 42; sol = pubkey_test 2 1;
          index = upsert_candidate index_new \<lparr>cm_account = acct, cm_protocol = Save, cm_band = Hot,
            cm_health = health_from_f64 (rnd (103 / 100)), cm_assets = [sol]\<rparr>;
          index = set_triggers index acct [test_trigger acct sol CollateralDown 100];
          path = oracle_path_new index metrics_new;
          path = path\<lparr>op_prices := price_book_set (op_prices path) sol (price_from_f64 (rnd 120))\<rparr>;
          (hits, path') = apply_oracle_update now path sol (price_from_f64 (rnd 95)) 100 1 Mock
      in length hits = 1
         \<and> map_option sa_decoded (store_get (op_store path') sol) = Some (price_from_f64 (rnd 95)))"

lemma test_oracle_update_passes: "test_oracle_update_wakes_crossed_candidates now"
  by (simp add: test_oracle_update_wakes_crossed_candidates_def index_test_simps oracle_path_new_def
      price_book_set_def apply_oracle_update_def price_book_get_def store_upsert_def store_new_def store_get_def)

definition test_upsert_respects_slot_write_version :: "(nat \<Rightarrow> u64) \<Rightarrow> bool" where
  "test_upsert_respects_slot_write_version now =
     (let pk = pubkey_test 1 1;
          (a1, s1) = store_upsert store_new (stored_account_new (now 1) 10 1 pk (100 :: u32) Mock);
          (a2, s2) = store_upsert s1 (stored_account_new (now 2) 10 1 pk 200 Mock);
          (a3, s3) = store_upsert s2 (stored_account_new (now 3) 9 99 pk 300 Mock);
          (a4, s4) = store_upsert s3 (stored_account_new (now 4) 10 2 pk 400 Mock);
          (a5, s5) = store_upsert s4 (stored_account_new (now 5) 11 0 pk 500 Geyser)
      in a1 \<and> \<not> a2 \<and> \<not> a3 \<and> a4 \<and> map_option sa_decoded (store_get s4 pk) = Some 400 \<and> a5
         \<and> map_option sa_decoded (store_get s5 pk) = Some 500
         \<and> map_option sa_source (store_get s5 pk) = Some Geyser)"

lemma test_upsert_passes: "test_upsert_respects_slot_write_version now"
  by (simp add: test_upsert_respects_slot_write_version_def store_upsert_def store_new_def store_get_def is_stale_vs_def)

section \<open>funding.rs, profitability.rs\<close>

definition test_profit_config :: profit_config where
  "test_profit_config = \<lparr>pc_min_profit_usd_micro = 100000, pc_min_roi_bps = 1,
     pc_max_cost_usd_micro = 50000000, pc_min_notional_usd_micro = 1000000\<rparr>"

definition test_picks_flash_when_inventory_short :: bool where
  "test_picks_flash_when_inventory_short =
     (let paths = default_paths_for Save 5000000 100000 50000 50000 100000000 1000000 9
      in case plan_best (pick_best test_profit_config paths) of
           None \<Rightarrow> False
         | Some best \<Rightarrow> sp_strategy best = SaveFlashLoan \<and> is_accept (sp_decision best))"

definition test_inventory_preferred_when_funded_and_faster :: bool where
  "test_inventory_preferred_when_funded_and_faster =
     (let paths = default_paths_for Kamino 5000000 50000 50000 50000 50000000 100000000 30
      in case plan_best (pick_best test_profit_config paths) of
           None \<Rightarrow> False
         | Some best \<Rightarrow> sp_strategy best = Inventory)"

definition test_p0_receivership_applicable :: bool where
  "test_p0_receivership_applicable =
     (Project0Receivership \<in> set (applicable_for Project0)
      \<and> (let paths = default_paths_for Project0 8000000 200000 100000 100000 80000000 500000 0
         in map_option sp_strategy (plan_best (pick_best profit_config_default paths)) = Some Project0Receivership))"

definition test_accepts_profitable_liquidation :: bool where
  "test_accepts_profitable_liquidation =
     (case profit_evaluate profit_config_default
        \<lparr>pi_gross_profit_usd_micro = 5000000, pi_swap_cost_usd_micro = 200000, pi_chain_cost_usd_micro = 100000,
         pi_capital_used_usd_micro = 100000000, pi_notional_usd_micro = 100000000\<rparr> of
        Accept net roi \<Rightarrow> net = 4700000 \<and> 10 \<le> roi
      | Reject e net \<Rightarrow> False)"

definition test_rejects_below_min_profit :: bool where
  "test_rejects_below_min_profit =
     (\<exists>net. profit_evaluate profit_config_default
        \<lparr>pi_gross_profit_usd_micro = 600000, pi_swap_cost_usd_micro = 200000, pi_chain_cost_usd_micro = 100000,
         pi_capital_used_usd_micro = 50000000, pi_notional_usd_micro = 50000000\<rparr> = Reject BelowMinProfit net)"

definition test_rejects_dust_notional :: bool where
  "test_rejects_dust_notional =
     (\<exists>net. profit_evaluate profit_config_default
        \<lparr>pi_gross_profit_usd_micro = 5000000, pi_swap_cost_usd_micro = 0, pi_chain_cost_usd_micro = 0,
         pi_capital_used_usd_micro = 1000000, pi_notional_usd_micro = 1000000\<rparr> = Reject NotionalTooSmall net)"

lemmas profit_test_simps = profit_evaluate_def profit_config_default_def test_profit_config_def sat_add_def roi_bps_def Let_def

lemma test_accepts_profitable_liquidation_passes: test_accepts_profitable_liquidation
  by (simp add: test_accepts_profitable_liquidation_def profit_test_simps)

lemma test_rejects_below_min_profit_passes: test_rejects_below_min_profit
  by (simp add: test_rejects_below_min_profit_def profit_test_simps)

lemma test_rejects_dust_notional_passes: test_rejects_dust_notional
  by (simp add: test_rejects_dust_notional_def profit_test_simps)

lemmas funding_test_simps = default_paths_for_def default_path_def pick_best_def score_one_def funding_profit_input_def
  expected_value_score_def sat_mul_def max_def List.map_filter_def profit_test_simps

lemma test_picks_flash_when_inventory_short_passes: test_picks_flash_when_inventory_short
  by (simp add: test_picks_flash_when_inventory_short_def funding_test_simps)

lemma test_inventory_preferred_passes: test_inventory_preferred_when_funded_and_faster
  by (simp add: test_inventory_preferred_when_funded_and_faster_def funding_test_simps) (simp add: word_le_nat_alt)

lemma test_p0_receivership_applicable_passes: test_p0_receivership_applicable
  by (simp add: test_p0_receivership_applicable_def funding_test_simps)

section \<open>Risk control and metrics\<close>

definition test_breaker_trips_on_failures :: "(nat \<Rightarrow> nat) \<Rightarrow> bool" where
  "test_breaker_trips_on_failures now =
     (let cb0 = cb_new (risk_limits_default\<lparr>rl_max_consecutive_failures := 3\<rparr>) metrics_new;
          (r, cb1) = check_allow (now 1) cb0 1000000 0;
          cb2 = end_failure (cb_begin (now 2) cb1 1000000);
          cb3 = end_failure (cb_begin (now 3) cb2 1000000);
          cb4 = end_failure (cb_begin (now 4) cb3 1000000)
      in r = Inr () \<and> is_open cb4 \<and> (\<exists>reason. fst (check_allow (now 5) cb4 1000000 0) = Inl (CircuitOpen reason)))"

definition test_rejects_stale_oracle :: "nat \<Rightarrow> bool" where
  "test_rejects_stale_oracle now \<longleftrightarrow>
     fst (check_allow now (cb_new risk_limits_default metrics_new) 1000000 100) = Inl StaleOracle"

lemma test_breaker_trips_on_failures_passes: "test_breaker_trips_on_failures now"
proof -
  let ?cb0 = "cb_new (risk_limits_default\<lparr>rl_max_consecutive_failures := 3\<rparr>) metrics_new"
  let ?cb1 = "?cb0\<lparr>cb_rolling := rw_prune (cb_rolling ?cb0) (now 1)\<rparr>"
  have 1: "check_allow (now 1) ?cb0 1000000 0 = (Inr (), ?cb1)"
    by (simp add: check_allow_Inr) (simp add: cb_new_def risk_limits_default_def rw_new_def rw_sum_def rw_prune_def sat_add_def)
  have begin_fields: "cb_consecutive_failures (cb_begin t cb n) = cb_consecutive_failures cb"
    "cb_paused (cb_begin t cb n) = cb_paused cb" for t cb n
    by (simp_all add: cb_begin_def)
  have paused: "cb_paused (end_failure cb) = cb_paused cb" for cb
    by (simp add: end_failure_def trip_def Let_def)
  let ?cb4 = "end_failure (cb_begin (now 4) (end_failure (cb_begin (now 3) (end_failure (cb_begin (now 2) ?cb1
    1000000)) 1000000)) 1000000)"
  have "cb_open ?cb4" "\<not> cb_paused ?cb4"
    by (simp_all add: end_failure_fields begin_fields paused cb_new_def risk_limits_default_def)
  then have "\<exists>reason. fst (check_allow (now 5) ?cb4 1000000 0) = Inl (CircuitOpen reason)"
    by (simp add: check_allow_def Let_def)
  with 1 \<open>cb_open ?cb4\<close> show ?thesis
    by (simp add: test_breaker_trips_on_failures_def is_open_def Let_def)
qed

lemma test_rejects_stale_oracle_passes: "test_rejects_stale_oracle now"
  by (simp add: test_rejects_stale_oracle_def check_allow_def cb_new_def risk_limits_default_def Let_def)

definition test_prometheus_encode_contains_counters :: bool where
  "test_prometheus_encode_contains_counters =
     (let m = metrics_new\<lparr>m_oracle_updates := counter_inc (m_oracle_updates metrics_new)\<rparr>
      in str_contains (encode_prometheus m) ''liq_oracle_updates_total 1'')"

lemma prom_line_value: "sublist (name @ '' '' @ show_nat (unat v)) (prom_line name help ty v @ rest)"
  unfolding sublist_def prom_line_def
  by (intro exI [of _ "''# HELP '' @ name @ '' '' @ help @ newline @ ''# TYPE '' @ name @ '' '' @ ty @ newline"]
      exI [of _ "newline @ rest"]) simp

lemma test_prometheus_passes: test_prometheus_encode_contains_counters
proof -
  let ?m = "metrics_new\<lparr>m_oracle_updates := counter_inc (m_oracle_updates metrics_new)\<rparr>"
  have "digit_char (Suc 0) = CHR ''1''" by code_simp
  then have one: "show_nat (unat (m_oracle_updates ?m)) = ''1''"
    by (simp add: metrics_new_def counter_inc_def counter_add_def show_nat.simps)
  have "sublist (''liq_oracle_updates_total'' @ '' '' @ show_nat (unat (m_oracle_updates ?m))) (encode_prometheus ?m)"
    unfolding encode_prometheus_def by (rule prom_line_value)
  then show ?thesis
    unfolding one by (simp add: test_prometheus_encode_contains_counters_def str_contains_sublist)
qed

section \<open>instruction.rs, pda.rs\<close>

definition test_compute_budget_data_nonempty :: bool where
  "test_compute_budget_data_nonempty =
     (let ix = compute_unit_limit 200000
      in ix_data ix ! 0 = 2 \<and> ix_program_id ix = prog_compute_budget \<and> is_wire_ready ix)"

lemma test_compute_budget_passes: test_compute_budget_data_nonempty
  by (simp add: test_compute_budget_data_nonempty_def compute_unit_limit_def is_wire_ready_def)

definition test_token_program_from_mint_owner_detects_2022 :: "crypto \<Rightarrow> bool" where
  "test_token_program_from_mint_owner_detects_2022 c =
     (token_program_from_mint_owner c (prog_token_2022 c) = prog_token_2022 c
      \<and> token_program_from_mint_owner c prog_token = prog_token
      \<and> token_program_from_mint_owner c (pubkey_test 1 1) = prog_token)"

text \<open>It passes if the decoded address of the token-2022 program is not the test key.\<close>

lemma test_token_program_passes:
  "prog_token_2022 c \<noteq> pubkey_test 1 1 \<Longrightarrow> test_token_program_from_mint_owner_detects_2022 c"
  by (auto simp: test_token_program_from_mint_owner_detects_2022_def token_program_from_mint_owner_def)

definition test_find_program_address_system_nonce_style :: "crypto \<Rightarrow> bool" where
  "test_find_program_address_system_nonce_style c =
     (let (pda, bump) = find_program_address c [] prog_system
      in (0 < bump \<or> pk_bytes pda \<noteq> replicate 32 0) \<and> \<not> on_curve c (pk_bytes pda))"

lemma test_find_program_address_passes:
  assumes "0 < b" "b < 256" "\<not> on_curve c (pda_hash c [] prog_system (word_of_nat b))"
  shows "test_find_program_address_system_nonce_style c"
proof -
  obtain k where k: "k \<le> 255" "\<not> on_curve c (pda_hash c [] prog_system (word_of_nat k))"
      "find_program_address c [] prog_system = (Pubkey (pda_hash c [] prog_system (word_of_nat k)), word_of_nat k)"
      "\<forall>b'. k < b' \<and> b' \<le> 255 \<longrightarrow> on_curve c (pda_hash c [] prog_system (word_of_nat b'))"
    using pda_search_correct [of 255 c "[]" prog_system] assms unfolding find_program_address_def by auto
  have "0 < k" using k(4) assms by (cases "k = 0") auto
  then have "0 < unat (word_of_nat k :: u8)" using k(1) by (simp only: unat_of_nat) (simp add: take_bit_nat_eq_self)
  then have "(0 :: u8) < word_of_nat k" by (simp only: word_less_nat_alt unat_0)
  with k(2,3) show ?thesis by (simp add: test_find_program_address_system_nonce_style_def)
qed

definition test_create_idempotent_encoding_and_metas :: "crypto \<Rightarrow> pubkey \<Rightarrow> pubkey \<Rightarrow> bool" where
  "test_create_idempotent_encoding_and_metas c owner mint =
     (let payer = pubkey_test 9 1;
          ix = create_ata_idempotent c payer owner mint prog_token
      in ix_program_id ix = prog_associated_token c \<and> ix_data ix = [1] \<and> length (ix_accounts ix) = 6
         \<and> am_is_signer (ix_accounts ix ! 0) \<and> am_is_writable (ix_accounts ix ! 0)
         \<and> am_pubkey (ix_accounts ix ! 0) = payer
         \<and> am_is_writable (ix_accounts ix ! 1) \<and> \<not> am_is_signer (ix_accounts ix ! 1)
         \<and> am_pubkey (ix_accounts ix ! 1) = get_associated_token_address c owner mint prog_token
         \<and> am_pubkey (ix_accounts ix ! 2) = owner \<and> am_pubkey (ix_accounts ix ! 3) = mint
         \<and> am_pubkey (ix_accounts ix ! 4) = prog_system \<and> am_pubkey (ix_accounts ix ! 5) = prog_token)"

lemma test_create_idempotent_passes: "test_create_idempotent_encoding_and_metas c owner mint"
  by (simp add: test_create_idempotent_encoding_and_metas_def create_ata_idempotent_def Let_def)

end
