(* ===== verification/KaminoTests.thy ===== *)
theory KaminoTests
  imports KaminoTx CoreTests
begin

text \<open>
  The unit tests of \<^verbatim>\<open>crates/liq-kamino/src\<close> (\<^verbatim>\<open>accounts.rs\<close>, \<^verbatim>\<open>flash.rs\<close>,
  \<^verbatim>\<open>refresh.rs\<close>, \<^verbatim>\<open>scope.rs\<close>, \<^verbatim>\<open>lib.rs\<close> and
  \<^verbatim>\<open>tx_builder.rs\<close>) as checks of the model, in the manner of theory \<open>CoreTests\<close>. Hashing and
  the curve, which the addresses of token accounts need, are an argument of the tests that build such accounts.
\<close>

section \<open>accounts.rs\<close>

definition accounts_sample :: liquidate_v2_accounts where
  "accounts_sample = \<lparr>
     lv_liquidator = pubkey_test 1 1, lv_obligation = pubkey_test 1 2, lv_lending_market = pubkey_test 1 3,
     lv_lending_market_authority = pubkey_test 1 4, lv_repay_reserve = pubkey_test 1 5,
     lv_repay_reserve_liquidity_mint = pubkey_test 1 6, lv_repay_reserve_liquidity_supply = pubkey_test 1 7,
     lv_withdraw_reserve = pubkey_test 1 8, lv_withdraw_reserve_liquidity_mint = pubkey_test 1 9,
     lv_withdraw_reserve_collateral_mint = pubkey_test 1 10,
     lv_withdraw_reserve_collateral_supply = pubkey_test 1 11,
     lv_withdraw_reserve_liquidity_supply = pubkey_test 1 12,
     lv_withdraw_reserve_liquidity_fee_receiver = pubkey_test 1 13, lv_user_source_liquidity = pubkey_test 1 14,
     lv_user_destination_collateral = pubkey_test 1 15, lv_user_destination_liquidity = pubkey_test 1 16,
     lv_collateral_token_program = pubkey_test 1 17, lv_repay_liquidity_token_program = pubkey_test 1 18,
     lv_withdraw_liquidity_token_program = pubkey_test 1 19, lv_instruction_sysvar_account = pubkey_test 1 20,
     lv_collateral_obligation_farm_user_state = None, lv_collateral_reserve_farm_state = None,
     lv_debt_obligation_farm_user_state = None, lv_debt_reserve_farm_state = None,
     lv_farms_program = pubkey_test 1 21, lv_deposit_reserves = [pubkey_test 1 22]\<rparr>"

definition test_v2_meta_count_without_farms :: bool where
  "test_v2_meta_count_without_farms \<longleftrightarrow> length (liquidate_v2_metas accounts_sample) = 26"

definition meta_named :: "string \<Rightarrow> account_meta_desc list \<Rightarrow> account_meta_desc option" where
  "meta_named name metas = List.find (\<lambda>m. md_name m = name) metas"

definition test_farm_placeholder_uses_klend_program_id_not_farms :: bool where
  "test_farm_placeholder_uses_klend_program_id_not_farms =
     (let metas = liquidate_v2_metas accounts_sample
      in case meta_named ''farms_program'' metas of
           None \<Rightarrow> False
         | Some farms_prog \<Rightarrow>
             md_key farms_prog = pubkey_test 1 21
             \<and> list_all (\<lambda>name. case meta_named name metas of
                   None \<Rightarrow> False
                 | Some m \<Rightarrow> md_key m = prog_klend \<and> md_role m = Readonly \<and> md_key m \<noteq> md_key farms_prog)
               [''collateral_obligation_farm_user_state'', ''collateral_reserve_farm_state'',
                ''debt_obligation_farm_user_state'', ''debt_reserve_farm_state''])"

lemma klend_not_test: "prog_klend \<noteq> pubkey_test t i" if "t \<noteq> 4"
proof -
  have "hd (pk_bytes prog_klend) \<noteq> hd (pk_bytes (pubkey_test t i))" using that by (simp add: prog_klend_def)
  then show ?thesis by metis
qed

lemma test_v2_meta_count_passes: test_v2_meta_count_without_farms
  by (simp add: test_v2_meta_count_without_farms_def liquidate_v2_metas_def accounts_sample_def Let_def)

lemma test_farm_placeholder_passes: test_farm_placeholder_uses_klend_program_id_not_farms
  by (simp add: test_farm_placeholder_uses_klend_program_id_not_farms_def meta_named_def liquidate_v2_metas_def
      accounts_sample_def opt_farm_def klend_not_test Let_def)

section \<open>flash.rs\<close>

definition sample_borrow :: "bool \<Rightarrow> flash_borrow_accounts" where
  "sample_borrow with_referrer = \<lparr>
     kfb_user_transfer_authority = pubkey_test 2 1, kfb_lending_market_authority = pubkey_test 2 2,
     kfb_lending_market = pubkey_test 2 3, kfb_reserve = pubkey_test 2 4,
     kfb_reserve_liquidity_mint = pubkey_test 2 5, kfb_reserve_source_liquidity = pubkey_test 2 6,
     kfb_user_destination_liquidity = pubkey_test 2 7, kfb_reserve_liquidity_fee_receiver = pubkey_test 2 8,
     kfb_referrer_token_state = (if with_referrer then Some (pubkey_test 2 9) else None),
     kfb_referrer_account = (if with_referrer then Some (pubkey_test 2 10) else None)\<rparr>"

definition test_flash_supported_and_data_layout :: bool where
  "test_flash_supported_and_data_layout =
     (let d = encode_flash_borrow 100; r = encode_flash_repay 100 3
      in slice d 0 8 = disc_flash_borrow \<and> drop 8 d = u64_le 100
         \<and> slice r 0 8 = disc_flash_repay \<and> r ! 16 = 3)"

definition test_absent_referrer_uses_klend_program_id_readonly :: bool where
  "test_absent_referrer_uses_klend_program_id_readonly =
     (let metas = flash_borrow_metas (sample_borrow False); rts = metas ! 8; ra = metas ! 9
      in length metas = 12 \<and> am_pubkey rts = prog_klend \<and> am_pubkey ra = prog_klend
         \<and> \<not> am_is_writable rts \<and> \<not> am_is_writable ra \<and> \<not> am_is_signer rts \<and> \<not> am_is_signer ra
         \<and> am_pubkey rts \<noteq> pubkey_test 2 3 \<and> \<not> am_is_writable (metas ! 8))"

definition test_present_referrer_is_writable :: bool where
  "test_present_referrer_is_writable =
     (let metas = flash_borrow_metas (sample_borrow True)
      in am_pubkey (metas ! 8) = pubkey_test 2 9 \<and> am_is_writable (metas ! 8)
         \<and> am_pubkey (metas ! 9) = pubkey_test 2 10 \<and> am_is_writable (metas ! 9))"

lemma test_flash_supported_passes: test_flash_supported_and_data_layout
  by (simp add: test_flash_supported_and_data_layout_def encode_flash_borrow_def encode_flash_repay_def
      disc_flash_borrow_def disc_flash_repay_def slice_def nth_append)

lemma test_absent_referrer_passes: test_absent_referrer_uses_klend_program_id_readonly
  by (simp add: test_absent_referrer_uses_klend_program_id_readonly_def flash_borrow_metas_def sample_borrow_def
      referrer_meta_def absent_referrer_meta_def klend_not_test Let_def)

lemma test_present_referrer_passes: test_present_referrer_is_writable
  by (simp add: test_present_referrer_is_writable_def flash_borrow_metas_def sample_borrow_def referrer_meta_def Let_def)

section \<open>refresh.rs, scope.rs, lib.rs\<close>

definition test_dedups_reserves_then_obligation :: bool where
  "test_dedups_reserves_then_obligation =
     (let a = pubkey_test 1 1; b = pubkey_test 1 2; obl = pubkey_test 2 1;
          plan = build_refresh_plan obl [a, b] [b]
      in rp_reserve_order plan = [a, b] \<and> length (rp_datas plan) = 3
         \<and> slice (rp_datas plan ! 0) 0 8 = disc_refresh_reserve
         \<and> slice (rp_datas plan ! 2) 0 8 = disc_refresh_obligation)"

definition test_fresh_within_512 :: bool where
  "test_fresh_within_512 =
     (let f = scope_freshness_new 1000 (1000 + 512) in is_fresh f \<and> scope_check f = Inr ())"

definition test_stale_beyond_512 :: bool where
  "test_stale_beyond_512 =
     (let f = scope_freshness_new 1000 (1000 + 513) in \<not> is_fresh f \<and> scope_check f = Inl ScopeStale)"

definition test_unhealthy_when_borrows_exceed_allowed :: bool where
  "test_unhealthy_when_borrows_exceed_allowed =
     (let coll = pubkey_test 1 1; debt = pubkey_test 1 2;
          obl = \<lparr>ko_address = pubkey_test 2 1, ko_market = pubkey_test 2 2,
            ko_deposits = [\<lparr>kd_reserve = pubkey_test 3 1, kd_mint = coll, kd_deposited_amount = 10000000000,
              kd_decimals = 9, kd_liq_threshold_bps = 8000\<rparr>],
            ko_borrows = [\<lparr>kb_reserve = pubkey_test 3 2, kb_mint = debt, kb_borrowed_amount = 900000000,
              kb_decimals = 6\<rparr>]\<rparr>;
          prices = [(coll, price_from_f64 (rnd 100)), (debt, price_from_f64 (rnd 1))]
      in is_liquidatable obl prices = Inr True
         \<and> (case obligation_health obl prices of
              Inr (factor, _, _) \<Rightarrow> is_liquidatable_hf factor
            | Inl e \<Rightarrow> False))"

definition test_encode_liquidate_data_matches_sdk_disc :: bool where
  "test_encode_liquidate_data_matches_sdk_disc =
     (let d = encode_liquidate_v2_data 1000000 0 0
      in length d = 32 \<and> slice d 0 8 = disc_liquidate_v2
         \<and> disc_liquidate_v2 = [162, 161, 35, 143, 30, 187, 185, 103])"

lemma test_dedups_reserves_passes: test_dedups_reserves_then_obligation
  by (simp add: test_dedups_reserves_then_obligation_def build_refresh_plan_def encode_refresh_reserve_def
      encode_refresh_obligation_def disc_refresh_reserve_def disc_refresh_obligation_def slice_def Let_def)

lemma test_fresh_within_512_passes: test_fresh_within_512
  by (simp add: test_fresh_within_512_def scope_check_def is_fresh_def age_slots_def scope_freshness_new_def sat_sub_def Let_def)

lemma test_stale_beyond_512_passes: test_stale_beyond_512
  by (simp add: test_stale_beyond_512_def scope_check_def is_fresh_def age_slots_def scope_freshness_new_def sat_sub_def Let_def)

lemmas kamino_health_simps = is_liquidatable_def obligation_health_def price_get_map_of deposit_allowed_def borrow_usd_def
  weighted_usd_def amount_to_usd_micro_def health_factor_ratio_def is_liquidatable_hf_def sat_mul_def pow10_def
  price_scale_def health_scale_def Let_def

lemma test_unhealthy_passes: test_unhealthy_when_borrows_exceed_allowed
  by (simp add: test_unhealthy_when_borrows_exceed_allowed_def test_prices kamino_health_simps)

lemma test_encode_liquidate_passes: test_encode_liquidate_data_matches_sdk_disc
  by (simp add: test_encode_liquidate_data_matches_sdk_disc_def encode_liquidate_v2_data_def disc_liquidate_v2_def slice_def)

section \<open>tx\_builder.rs\<close>

text \<open>The sample accounts of both test modules of the file.\<close>

definition sample_liq :: liquidate_v2_accounts where
  "sample_liq = \<lparr>
     lv_liquidator = pubkey_test 1 1, lv_obligation = pubkey_test 1 2, lv_lending_market = pubkey_test 1 3,
     lv_lending_market_authority = pubkey_test 1 4, lv_repay_reserve = pubkey_test 1 5,
     lv_repay_reserve_liquidity_mint = pubkey_test 1 6, lv_repay_reserve_liquidity_supply = pubkey_test 1 7,
     lv_withdraw_reserve = pubkey_test 1 8, lv_withdraw_reserve_liquidity_mint = pubkey_test 1 9,
     lv_withdraw_reserve_collateral_mint = pubkey_test 1 10,
     lv_withdraw_reserve_collateral_supply = pubkey_test 1 11,
     lv_withdraw_reserve_liquidity_supply = pubkey_test 1 12,
     lv_withdraw_reserve_liquidity_fee_receiver = pubkey_test 1 13, lv_user_source_liquidity = pubkey_test 1 14,
     lv_user_destination_collateral = pubkey_test 1 15, lv_user_destination_liquidity = pubkey_test 1 16,
     lv_collateral_token_program = prog_token, lv_repay_liquidity_token_program = prog_token,
     lv_withdraw_liquidity_token_program = prog_token, lv_instruction_sysvar_account = prog_sysvar_instructions,
     lv_collateral_obligation_farm_user_state = None, lv_collateral_reserve_farm_state = None,
     lv_debt_obligation_farm_user_state = None, lv_debt_reserve_farm_state = None,
     lv_farms_program = pubkey_test 1 21, lv_deposit_reserves = []\<rparr>"

definition sample_flash :: "flash_borrow_accounts \<times> flash_repay_accounts" where
  "sample_flash =
     (\<lparr>kfb_user_transfer_authority = pubkey_test 3 1, kfb_lending_market_authority = pubkey_test 1 4,
       kfb_lending_market = pubkey_test 1 3, kfb_reserve = pubkey_test 1 5,
       kfb_reserve_liquidity_mint = pubkey_test 1 6, kfb_reserve_source_liquidity = pubkey_test 1 7,
       kfb_user_destination_liquidity = pubkey_test 1 14, kfb_reserve_liquidity_fee_receiver = pubkey_test 1 13,
       kfb_referrer_token_state = None, kfb_referrer_account = None\<rparr>,
      \<lparr>kfr_user_transfer_authority = pubkey_test 3 1, kfr_lending_market_authority = pubkey_test 1 4,
       kfr_lending_market = pubkey_test 1 3, kfr_reserve = pubkey_test 1 5,
       kfr_reserve_liquidity_mint = pubkey_test 1 6, kfr_reserve_destination_liquidity = pubkey_test 1 7,
       kfr_user_source_liquidity = pubkey_test 1 14, kfr_reserve_liquidity_fee_receiver = pubkey_test 1 13,
       kfr_referrer_token_state = None, kfr_referrer_account = None\<rparr>)"

definition sample_params :: "(flash_borrow_accounts \<times> flash_repay_accounts) option
    \<Rightarrow> refresh_reserve_accounts list \<Rightarrow> ensure_ata list \<Rightarrow> kamino_tx_build_params" where
  "sample_params flash refresh ensure = \<lparr>
     kp_obligation = pubkey_test 1 2, kp_deposit_reserves = [pubkey_test 1 8],
     kp_borrow_reserves = [pubkey_test 1 5], kp_liquidate = sample_liq, kp_liquidity_amount = 1000,
     kp_min_acceptable_received = 0, kp_max_allowed_ltv_override_percent = 0, kp_cu_limit = 400000,
     kp_cu_price = 1000, kp_flash = flash, kp_refresh_reserves = refresh, kp_referrer_token_states = [],
     kp_ensure_atas = ensure\<rparr>"

definition sample_ata :: "u64 \<Rightarrow> ensure_ata" where
  "sample_ata mint = \<lparr>ea_payer = pubkey_test 3 1, ea_owner = pubkey_test 3 1, ea_mint = pubkey_test 1 mint,
     ea_token_program = prog_token\<rparr>"

definition sample_refresh :: "pubkey \<Rightarrow> refresh_reserve_accounts" where
  "sample_refresh reserve = \<lparr>rr_reserve = reserve, rr_lending_market = pubkey_test 1 3,
     rr_pyth_oracle = pubkey_default, rr_switchboard_price = pubkey_default,
     rr_switchboard_twap = pubkey_default, rr_scope_prices = pubkey_default\<rparr>"

text \<open>The first position whose label satisfies a test, and the instruction there.\<close>

fun label_position :: "(string \<Rightarrow> bool) \<Rightarrow> labeled_ix list \<Rightarrow> nat option" where
  "label_position P [] = None"
| "label_position P (l # ls) = (if P (li_label l) then Some 0 else map_option Suc (label_position P ls))"

abbreviation containing :: "string \<Rightarrow> string \<Rightarrow> bool" where
  "containing p s \<equiv> str_contains s p"

definition test_inventory_builder :: "crypto \<Rightarrow> bool" where
  "test_inventory_builder c =
     (let ixs = build_inventory_tx c (sample_params None [] []) []
      in 5 \<le> length ixs
         \<and> (case List.find (\<lambda>l. str_contains (li_label l) ''liquidate'') ixs of
              None \<Rightarrow> False
            | Some liq \<Rightarrow> 8 \<le> length (ix_data (li_ix liq)) \<and> slice (ix_data (li_ix liq)) 0 8 = disc_liquidate_v2
                \<and> ix_accounts (li_ix liq) \<noteq> []))"

definition test_flash_tx_emits_borrow_and_repay :: "crypto \<Rightarrow> bool" where
  "test_flash_tx_emits_borrow_and_repay c =
     (case build_flash_tx c (sample_params (Some sample_flash) [] []) [] of
        None \<Rightarrow> False
      | Some ixs \<Rightarrow>
          ''flash_borrow_reserve_liquidity'' \<in> li_label ` set ixs
          \<and> ''flash_repay_reserve_liquidity'' \<in> li_label ` set ixs
          \<and> (case List.find (\<lambda>l. str_contains (li_label l) ''flash_borrow'') ixs of
               None \<Rightarrow> False
             | Some borrow \<Rightarrow>
                 (let ref_meta = ix_accounts (li_ix borrow) ! 8
                  in am_pubkey ref_meta = prog_klend \<and> \<not> am_is_writable ref_meta)))"

definition test_create_atas_before_flash_borrow :: "crypto \<Rightarrow> bool" where
  "test_create_atas_before_flash_borrow c =
     (case build_flash_tx c (sample_params (Some sample_flash) [] [sample_ata 6]) [] of
        None \<Rightarrow> False
      | Some ixs \<Rightarrow>
          (case (label_position (containing ''CreateIdempotent'') ixs,
                 label_position (\<lambda>l. l = ''flash_borrow_reserve_liquidity'') ixs,
                 label_position (containing ''liquidate'') ixs,
                 List.find (\<lambda>l. str_contains (li_label l) ''flash_repay'') ixs) of
             (Some create_pos, Some borrow_pos, Some liq_pos, Some repay) \<Rightarrow>
               create_pos < borrow_pos \<and> borrow_pos < liq_pos
               \<and> last (ix_data (li_ix repay)) = word_of_nat borrow_pos
               \<and> ix_program_id (li_ix (ixs ! create_pos)) = prog_associated_token c
               \<and> ix_data (li_ix (ixs ! create_pos)) = [1]
           | _ \<Rightarrow> False))"

definition test_flash_plan_refreshes :: "crypto \<Rightarrow> bool" where
  "test_flash_plan_refreshes c =
     (case build_flash_tx c (sample_params (Some sample_flash)
             [sample_refresh (pubkey_test 1 5), sample_refresh (pubkey_test 1 8)] [sample_ata 6, sample_ata 10]) [] of
        None \<Rightarrow> False
      | Some ixs \<Rightarrow>
          (case (label_position (\<lambda>l. l = ''flash_borrow_reserve_liquidity'') ixs,
                 label_position (containing ''liquidate'') ixs,
                 label_position (\<lambda>l. l = ''flash_repay_reserve_liquidity'') ixs,
                 label_position (containing ''CreateIdempotent'') ixs) of
             (Some borrow_pos, Some liq_pos, Some repay_pos, Some create_pos) \<Rightarrow>
               (let between = slice (map li_label ixs) (borrow_pos + 1) liq_pos
                in ''refresh_reserve'' \<in> set between \<and> between \<noteq> [] \<and> last between = ''refresh_obligation'')
               \<and> borrow_pos < liq_pos \<and> liq_pos < repay_pos
               \<and> last (ix_data (li_ix (ixs ! repay_pos))) = word_of_nat borrow_pos
               \<and> create_pos < borrow_pos
           | _ \<Rightarrow> False))"

lemmas tx_test_simps = sample_params_def sample_liq_def sample_flash_def sample_ata_def sample_refresh_def
  build_inventory_tx_def build_flash_tx_def cu_limit_ix_def cu_price_ix_def refresh_ixs_def
  unique_refresh_reserve_keys_def refresh_reserve_ix_def refresh_obligation_ix_def ensure_ata_ixs_def
  ensure_ata_to_labeled_ix_def create_ata_idempotent_def liquidate_ix_def post_flash_refresh_ixs_def
  flash_borrow_build_ix_def flash_repay_build_ix_def Let_def

lemma test_inventory_builder_passes: "test_inventory_builder c"
  by (simp add: test_inventory_builder_def tx_test_simps encode_liquidate_v2_data_def disc_liquidate_v2_def slice_def
      liquidate_v2_metas_def)

lemma test_flash_tx_emits_passes: "test_flash_tx_emits_borrow_and_repay c"
  by (simp add: test_flash_tx_emits_borrow_and_repay_def tx_test_simps flash_borrow_metas_def referrer_meta_def
      absent_referrer_meta_def)

lemma test_create_atas_passes: "test_create_atas_before_flash_borrow c"
  by (simp add: test_create_atas_before_flash_borrow_def tx_test_simps encode_flash_repay_def)

lemma test_flash_plan_refreshes_passes: "test_flash_plan_refreshes c"
  by (simp add: test_flash_plan_refreshes_def tx_test_simps encode_flash_repay_def slice_def)

end
