(* ===== verification/LiveTests.thy ===== *)
theory LiveTests
  imports CoreTests Health
begin

text \<open>
  The unit tests of \<^verbatim>\<open>crates/liq-kamino/src/live_health.rs\<close> and \<^verbatim>\<open>decode.rs\<close> as checks of the
  model, stated and proved as in theory \<open>CoreTests\<close>. The values of the tests are small integers, which f64 holds
  exactly, or decimals far from a threshold, which the error bounds of theory \<open>LiveHealth\<close> decide. The base58 printing
  \<open>b58\<close> of a key is an argument.
\<close>

section \<open>Small integers in f64\<close>

named_theorems f64_exact "computation on values that f64 holds exactly"

lemma rnd_numeral [f64_exact]: "(numeral n :: nat) < 2 ^ 53 \<Longrightarrow> rnd (numeral n) = numeral n"
  using rnd_nat [of "numeral n"] by simp

lemma rnd_one [f64_exact]: "rnd 1 = 1"
  using rnd_nat [of 1] by simp

lemma as_u128_nat: "k < 2 ^ 128 \<Longrightarrow> as_u128 (int k) = word_of_nat k"
proof -
  assume "k < 2 ^ 128"
  then have "int k < int (2 ^ 128)" by (simp only: of_nat_less_iff)
  then show ?thesis by (simp add: as_u128_def)
qed

lemma f64_to_sf_nat:
  assumes "n < 2 ^ 53"
  shows "unat (f64_to_sf (of_nat n)) = n * 2 ^ 60"
proof -
  have "rnd (of_nat n * 2 ^ 60) = of_nat n * 2 ^ 60"
    using rnd_exact [of "int n" 60] assms by simp
  then have "fmul (of_nat n) (f64_of fraction_scale) = of_int (int (n * 2 ^ 60))"
    by (simp add: fmul_def)
  then have "round_away (fmul (of_nat n) (f64_of fraction_scale)) = int (n * 2 ^ 60)"
    by (simp only: round_away_near diff_self abs_zero)
  moreover have "n * 2 ^ 60 < 2 ^ 128" using assms by simp
  ultimately show ?thesis
    by (cases "n = 0") (simp_all add: f64_to_sf_def as_u128_nat unat_of_nat take_bit_nat_eq_self del: of_nat_mult)
qed

lemma sf_of_nat:
  assumes "n < 2 ^ 53"
  shows "sf_value (f64_to_sf (of_nat n)) = of_nat n" "sf_to_f64 (f64_to_sf (of_nat n)) = of_nat n"
    "0 < n \<Longrightarrow> f64_to_sf (of_nat n) \<noteq> 0"
proof -
  note u = f64_to_sf_nat [OF assms]
  have "rnd (of_nat n * 2 ^ 60) = of_nat n * 2 ^ 60"
    using rnd_exact [of "int n" 60] assms by simp
  then have "f64_of (f64_to_sf (of_nat n)) = of_nat n * 2 ^ 60" by (simp add: f64_of_def u)
  then show "sf_to_f64 (f64_to_sf (of_nat n)) = of_nat n"
    using rnd_nat [OF assms] by (simp add: sf_to_f64_def fdiv_def)
  show "sf_value (f64_to_sf (of_nat n)) = of_nat n" by (simp add: sf_value_def u)
  show "0 < n \<Longrightarrow> f64_to_sf (of_nat n) \<noteq> 0" using u by (auto simp flip: unat_eq_zero)
qed

lemma sf_numeral [f64_exact]:
  assumes "(numeral k :: nat) < 2 ^ 53"
  shows "sf_value (f64_to_sf (numeral k)) = numeral k" "sf_to_f64 (f64_to_sf (numeral k)) = numeral k"
    "f64_to_sf (numeral k) \<noteq> 0"
  using sf_of_nat [OF assms] by simp_all

lemma sf_one [f64_exact]:
  "sf_value (f64_to_sf 1) = 1" "sf_to_f64 (f64_to_sf 1) = 1" "f64_to_sf 1 \<noteq> 0"
  using sf_of_nat [of 1] by simp_all

section \<open>The tests of the health\<close>

definition live_pk :: "u64 \<Rightarrow> pubkey" where
  "live_pk i = pubkey_test 42 i"

text \<open>A reserve and an obligation of the tests; the fields that no test varies are fixed here.\<close>

definition test_risk :: "pubkey \<Rightarrow> pubkey \<Rightarrow> u8 \<Rightarrow> u8 \<Rightarrow> u8 \<Rightarrow> u64 \<Rightarrow> u128 \<Rightarrow> u64 \<Rightarrow> live_reserve_risk" where
  "test_risk res mint decimals ltv thr bf price_sf supply =
     \<lparr>lr_address = res, lr_lending_market = live_pk 9, lr_liquidity_mint = mint, lr_mint_decimals = decimals,
      lr_loan_to_value_pct = ltv, lr_liquidation_threshold_pct = thr, lr_borrow_factor_pct = bf,
      lr_market_price_sf = price_sf, lr_total_available_amount = supply, lr_borrowed_amount_sf = 0,
      lr_accumulated_protocol_fees_sf = 0, lr_accumulated_referrer_fees_sf = 0,
      lr_pending_referrer_fees_sf = 0, lr_collateral_mint_total_supply = supply,
      lr_pyth_oracle = pubkey_default, lr_switchboard_price = pubkey_default, lr_scope_prices = pubkey_default\<rparr>"

definition test_positions :: "u8 \<Rightarrow> u64 \<Rightarrow> u128 \<Rightarrow> live_obligation_positions" where
  "test_positions elev_group deposited borrowed_sf =
     \<lparr>lp_header = \<lparr>lh_address = live_pk 5, lh_lending_market = live_pk 9, lh_owner = live_pk 6,
        lh_deposited_value_sf = 0, lh_borrow_factor_adjusted_debt_value_sf = 0,
        lh_borrowed_assets_market_value_sf = 0, lh_allowed_borrow_value_sf = 0,
        lh_unhealthy_borrow_value_sf = 0, lh_has_debt = True, lh_elevation_group = elev_group,
        lh_referrer = pubkey_default\<rparr>,
      lp_deposits = [\<lparr>ld_reserve = live_pk 3, ld_deposited_amount = deposited, ld_market_value_sf = 0\<rparr>],
      lp_borrows = [\<lparr>lb_reserve = live_pk 4, lb_borrowed_amount_sf = borrowed_sf, lb_market_value_sf = 0\<rparr>]\<rparr>"

definition healthy_msol_reserves :: reserve_map where
  "healthy_msol_reserves =
     [live_pk 3 \<mapsto> test_risk (live_pk 3) (live_pk 1) 9 65 75 100 (f64_to_sf (rnd (149558 / 1000))) 1000000000000,
      live_pk 4 \<mapsto> test_risk (live_pk 4) (live_pk 2) 6 0 0 100 (f64_to_sf (rnd (9999 / 10000))) 1000000000000]"

definition test_healthy_msol_usdc_fixture :: "(u8 list \<Rightarrow> string) \<Rightarrow> bool" where
  "test_healthy_msol_usdc_fixture b58 =
     (let pos = test_positions 0 68785363 (f64_to_sf (rnd (34777641358 / 10000)))
      in case compute_obligation_health_live b58 pos healthy_msol_reserves of
           Inl e \<Rightarrow> False
         | Inr h \<Rightarrow>
             \<not> kh_is_liquidatable h
             \<and> \<bar>fsub (kh_ltv h) (rnd (338 / 1000))\<bar> < rnd (2 / 100)
             \<and> 2 < kh_health_factor h
             \<and> (case stale_sf_header_health_ratio 1000 998 of
                  None \<Rightarrow> False
                | Some stale \<Rightarrow> stale < 1 \<and> (stale < 1) \<noteq> kh_is_liquidatable h))"

definition unhealthy_reserves :: reserve_map where
  "unhealthy_reserves =
     [live_pk 3 \<mapsto> test_risk (live_pk 3) (live_pk 1) 6 50 60 100 (f64_to_sf 1) 1000000000,
      live_pk 4 \<mapsto> test_risk (live_pk 4) (live_pk 2) 6 0 0 100 (f64_to_sf 1) 1000000000]"

definition test_unhealthy_when_borrow_exceeds :: "(u8 list \<Rightarrow> string) \<Rightarrow> bool" where
  "test_unhealthy_when_borrow_exceeds b58 =
     (let pos = test_positions 0 100000000 (f64_to_sf 70000000);
          pos2 = test_positions 0 100000000 (f64_to_sf 60000000)
      in (case compute_obligation_health_live b58 pos unhealthy_reserves of
            Inl e \<Rightarrow> False
          | Inr h \<Rightarrow> kh_is_liquidatable h \<and> kh_health_factor h < 1 \<and> kh_below_maintenance h)
         \<and> (case compute_obligation_health_live b58 pos2 unhealthy_reserves of
              Inl e \<Rightarrow> False
            | Inr h2 \<Rightarrow> \<not> kh_is_liquidatable h2 \<and> \<bar>fsub (kh_health_factor h2) 1\<bar> < rnd (1 / 1000000)))"

definition borrow_factor_reserves :: reserve_map where
  "borrow_factor_reserves =
     [live_pk 3 \<mapsto> test_risk (live_pk 3) (live_pk 1) 6 80 90 100 (f64_to_sf 1) 1000000000,
      live_pk 4 \<mapsto> test_risk (live_pk 4) (live_pk 2) 6 0 0 200 (f64_to_sf 1) 1000000000]"

definition test_borrow_factor_scales_debt :: "(u8 list \<Rightarrow> string) \<Rightarrow> bool" where
  "test_borrow_factor_scales_debt b58 =
     (case compute_obligation_health_live b58 (test_positions 0 100000000 (f64_to_sf 50000000)) borrow_factor_reserves of
        Inl e \<Rightarrow> False
      | Inr h \<Rightarrow> kh_is_liquidatable h
          \<and> kh_borrowed_value_usd_micro h < kh_borrow_factor_adjusted_debt_usd_micro h)"

definition dust_reserves :: reserve_map where
  "dust_reserves =
     foldl (\<lambda>m (res, mint, thr). m(res \<mapsto> test_risk res mint 6 80 thr 100 (f64_to_sf 1) 100000000000000)) Map.empty
       [(live_pk 3, live_pk 1, 90), (live_pk 4, live_pk 2, 0)]"

definition test_dust_obligation_not_marked :: "(u8 list \<Rightarrow> string) \<Rightarrow> bool" where
  "test_dust_obligation_not_marked b58 =
     (case compute_obligation_health_live b58 (test_positions 0 1 (f64_to_sf 1)) dust_reserves of
        Inl e \<Rightarrow> False
      | Inr h \<Rightarrow> \<not> kh_is_liquidatable h)"

definition elevation_reserves :: reserve_map where
  "elevation_reserves =
     [live_pk 3 \<mapsto> test_risk (live_pk 3) (live_pk 1) 9 45 55 125 (f64_to_sf 100) 1000000000000,
      live_pk 4 \<mapsto> test_risk (live_pk 4) (live_pk 2) 9 0 0 125 (f64_to_sf 100) 1000000000000]"

definition elevation_test_group :: elevation_map where
  "elevation_test_group = [2 \<mapsto> \<lparr>eg_id = 2, eg_ltv_pct = 87, eg_liquidation_threshold_pct = 92,
     eg_max_liquidation_bonus_bps = 500\<rparr>]"

definition test_elevation_group_overrides :: "(u8 list \<Rightarrow> string) \<Rightarrow> bool" where
  "test_elevation_group_overrides b58 =
     (let pos = test_positions 2 1000000000 (f64_to_sf 870000000);
          pos2 = pos\<lparr>lp_header := (lp_header pos)\<lparr>lh_elevation_group := 0\<rparr>\<rparr>
      in (case compute_obligation_health_live_with_elevation b58 pos elevation_reserves (Some elevation_test_group) of
            Inl e \<Rightarrow> False
          | Inr h \<Rightarrow> \<not> kh_is_liquidatable h \<and> \<bar>fsub (kh_ltv h) (rnd (87 / 100))\<bar> < rnd (1 / 100))
         \<and> (case compute_obligation_health_live b58 pos2 elevation_reserves of
              Inl e \<Rightarrow> False
            | Inr h2 \<Rightarrow> kh_is_liquidatable h2))"

definition test_amount_to_usd_micro_matches :: bool where
  "test_amount_to_usd_micro_matches =
     (let p = price_from_f64 (rnd (149558 / 1000));
          a = amount_to_usd_micro 68785363 9 p;
          b = tokens_to_usd_micro 68785363 9 (f64_to_sf (rnd (149558 / 1000)))
      in \<bar>sint (a - b)\<bar> < 50)"

section \<open>They pass\<close>

lemma live_pk_inject [simp]: "live_pk i = live_pk j \<longleftrightarrow> i = j"
  by (simp add: live_pk_def)

lemma rnd_powers [f64_exact]: "rnd 100000000000000000 = 100000000000000000" "rnd 1000000000000000000000 = 1000000000000000000000"
  using rnd_ten [of 17] rnd_ten [of 21] by simp_all

lemma f64_powi_6_9 [f64_exact]: "f64_powi 10 6 = 1000000" "f64_powi 10 9 = 1000000000"
  using f64_powi_ten [of 6] f64_powi_ten [of 9] by simp_all

lemma sf_to_f64_0 [f64_exact]: "sf_to_f64 0 = 0"
  by (simp add: sf_to_f64_def f64_of_def fdiv_def)

lemmas live_test_simps = compute_obligation_health_live_def compute_obligation_health_live_with_elevation_def
  active_elevation_def test_positions_def test_risk_def deposit_step_def borrow_step_def collateral_to_liquidity_def
  total_liquidity_tokens_f64_def tokens_to_usd_f64_def f64_of_def fadd_def fsub_def fmul_def fdiv_def Let_def

lemma test_unhealthy_when_borrow_exceeds_passes: "test_unhealthy_when_borrow_exceeds b58"
proof -
  have "rnd (1 / 100) \<le> rnd 60" by (rule rnd_mono) simp_all
  moreover have "rnd (6 / 7) < rnd 1" by (rule rnd_less) simp_all
  moreover have "0 < rnd (1 / 1000000)" by (rule rnd_pos) simp
  ultimately show ?thesis
    by (simp add: test_unhealthy_when_borrow_exceeds_def live_test_simps unhealthy_reserves_def
        min_liquidation_notional_usd_def f64_exact)
qed

lemma to_micro_nat: "n < 1000000000 \<Longrightarrow> to_micro (of_nat n) = of_nat (n * 1000000)"
proof -
  assume n: "n < 1000000000"
  then have "rnd (of_nat (n * 1000000)) = of_nat (n * 1000000)" by (intro rnd_nat) simp
  then have "fmul (of_nat n) 1000000 = of_int (int (n * 1000000))" by (simp add: fmul_def)
  then have "round_away (fmul (of_nat n) 1000000) = int (n * 1000000)"
    by (simp only: round_away_near diff_self abs_zero)
  with n show ?thesis by (simp add: to_micro_def as_u128_def)
qed

lemma test_borrow_factor_scales_debt_passes: "test_borrow_factor_scales_debt b58"
proof -
  have "rnd (1 / 100) \<le> rnd 100" by (rule rnd_mono) simp_all
  moreover have "to_micro 50 = 50000000" "to_micro 100 = 100000000"
    using to_micro_nat [of 50] to_micro_nat [of 100] by simp_all
  ultimately show ?thesis
    by (simp add: test_borrow_factor_scales_debt_def live_test_simps borrow_factor_reserves_def
        min_liquidation_notional_usd_def f64_exact)
qed

lemma test_dust_obligation_not_marked_passes: "test_dust_obligation_not_marked b58"
proof -
  have "rnd (1 / 1000000) < rnd (1 / 100)" by (rule rnd_less) simp_all
  then show ?thesis
    by (simp add: test_dust_obligation_not_marked_def live_test_simps dust_reserves_def
        min_liquidation_notional_usd_def f64_exact rnd_idem rnd_nonneg)
qed

text \<open>Decimals: the nearest f64, and bounds of a computed value.\<close>

lemma rnd_eval:
  assumes "2 ^ 52 \<le> x * 2 ^ j" "x * 2 ^ j < 2 ^ 53" "\<bar>x * 2 ^ j - of_nat m\<bar> < 1 / 2"
  shows "rnd x = of_nat m / 2 ^ j"
proof -
  have p: "(2 :: rat) powi (52 - int j) = 2 ^ 52 / 2 ^ j" "(2 :: rat) powi (52 - int j + 1) = 2 ^ 53 / 2 ^ j"
    by (simp_all add: power_int_diff power_int_add)
  have "f64_exp x = 52 - int j"
    using assms(1,2) by (intro f64_exp_eq) (simp_all only: p pos_divide_le_eq pos_less_divide_eq zero_less_power zero_less_numeral)
  then have u: "f64_ulp x = 1 / 2 ^ j" by (simp add: f64_ulp_def power_int_minus_divide)
  have "0 < x * 2 ^ j" using assms(1) by (rule less_le_trans [rotated]) simp
  then have x: "0 < x" by (simp add: zero_less_mult_iff)
  have "\<bar>of_int (round_half_even (x * 2 ^ j)) - x * 2 ^ j\<bar> \<le> 1 / 2" by (rule round_half_even_near)
  with assms(3) have "\<bar>of_int (round_half_even (x * 2 ^ j)) - of_int (int m)\<bar> < (of_int 1 :: rat)"
    unfolding of_int_of_nat_eq of_int_1 by linarith
  then have "\<bar>round_half_even (x * 2 ^ j) - int m\<bar> < 1" by (simp only: of_int_less_iff flip: of_int_diff of_int_abs)
  then have "round_half_even (x * 2 ^ j) = int m" by simp
  then show ?thesis by (simp add: rnd_pos_eq [OF x] u)
qed

lemma rnd_decimals:
  "rnd (149558 / 1000) = of_nat 5262104320861536 / 2 ^ 45"
  "rnd (9999 / 10000) = of_nat 9006298534815518 / 2 ^ 53"
  "rnd (34777641358 / 10000) = of_nat 7468441613231351 / 2 ^ 31"
  by (rule rnd_eval; simp)+

lemma sf_decimal:
  assumes "rnd x = of_nat m / 2 ^ j" "j \<le> 60" "0 < m" "m < 2 ^ 53"
  shows "sf_value (f64_to_sf (rnd x)) = rnd x" "f64_to_sf (rnd x) \<noteq> 0"
proof -
  have s: "(2 :: rat) ^ 60 = 2 ^ (60 - j) * 2 ^ j" using assms(2) by (simp flip: power_add)
  have x: "rnd x * 2 ^ 60 = of_nat (m * 2 ^ (60 - j))" unfolding s assms(1) by simp
  have "rnd (of_nat (m * 2 ^ (60 - j))) = of_nat (m * 2 ^ (60 - j))"
    using rnd_exact [of "int m" "int (60 - j)"] assms(4) by simp
  then have "fmul (rnd x) (f64_of fraction_scale) = of_int (int (m * 2 ^ (60 - j)))"
    unfolding fmul_def fraction_scale_exact x by simp
  then have r: "round_away (fmul (rnd x) (f64_of fraction_scale)) = int (m * 2 ^ (60 - j))"
    by (simp only: round_away_near diff_self abs_zero)
  have "m * 2 ^ (60 - j) \<le> m * 2 ^ 60" by (intro mult_left_mono power_increasing) simp_all
  also have "\<dots> < 2 ^ 128" using assms(4) by simp
  finally have b: "m * 2 ^ (60 - j) < 2 ^ 128" .
  have "0 < rnd x" using assms(1,3) by simp
  with r b have "f64_to_sf (rnd x) = word_of_nat (m * 2 ^ (60 - j))"
    by (simp add: f64_to_sf_def as_u128_nat del: of_nat_mult)
  then have u: "unat (f64_to_sf (rnd x)) = m * 2 ^ (60 - j)"
    using b by (simp add: unat_of_nat take_bit_nat_eq_self del: of_nat_mult)
  then show "sf_value (f64_to_sf (rnd x)) = rnd x" using x by (simp add: sf_value_def divide_eq_eq)
  show "f64_to_sf (rnd x) \<noteq> 0" using u assms(3) by (auto simp flip: unat_eq_zero)
qed

lemma approx_within:
  assumes "approx n x y" "n \<le> 51" shows "y * (1 - 1 / 2 ^ 46) \<le> x" "x \<le> y * (1 + 1 / 2 ^ 46)"
proof -
  have a: "0 \<le> y" "y / f64_step ^ n \<le> x" "x \<le> y * f64_step ^ n" using assms(1) by (simp_all only: approx_def)
  note e = f64_step_power [OF assms(2)]
  show "x \<le> y * (1 + 1 / 2 ^ 46)" using mult_left_mono [OF e a(1)] a(3) by (rule order_trans [rotated])
  have "(1 - 1 / 2 ^ 46) * f64_step ^ n \<le> (1 - 1 / 2 ^ 46) * (1 + 1 / 2 ^ 46)"
    using e by (rule mult_left_mono) simp
  then have "(1 - 1 / 2 ^ 46) * f64_step ^ n \<le> 1" by simp
  then have "1 - 1 / 2 ^ 46 \<le> 1 / f64_step ^ n" by (simp only: pos_le_divide_eq f64_step_pow_pos)
  from mult_left_mono [OF this a(1)] a(2) show "y * (1 - 1 / 2 ^ 46) \<le> x"
    by (simp only: times_divide_eq_right mult_1_right)
qed

lemmas sf_decimals = sf_decimal [OF rnd_decimals(1)] sf_decimal [OF rnd_decimals(2)] sf_decimal [OF rnd_decimals(3)]

lemma rnd_error_abs: "\<bar>rnd x - x\<bar> \<le> \<bar>x\<bar> / 2 ^ 53"
proof (cases "x = 0")
  case False
  then have p: "0 < \<bar>x\<bar>" by simp
  have u: "f64_ulp \<bar>x\<bar> = f64_ulp x" by (simp add: f64_ulp_def f64_exp_def)
  have "rnd x - x = (of_int (round_half_even (x / f64_ulp x)) - x / f64_ulp x) * f64_ulp x"
    using False by (simp add: rnd_def left_diff_distrib)
  then have "\<bar>rnd x - x\<bar> = \<bar>of_int (round_half_even (x / f64_ulp x)) - x / f64_ulp x\<bar> * f64_ulp x"
    using f64_ulp_pos [of x] by (simp only: abs_mult abs_of_pos)
  also have "\<dots> \<le> 1 / 2 * f64_ulp x"
    by (intro mult_right_mono round_half_even_near less_imp_le f64_ulp_pos)
  also have "\<dots> \<le> \<bar>x\<bar> / 2 ^ 53" using f64_ulp_bounds(1) [OF p] unfolding u by simp
  finally show ?thesis .
qed simp

lemma rnd_abs_less:
  assumes "\<bar>x\<bar> \<le> y / 2" "0 < y" shows "\<bar>rnd x\<bar> < rnd y"
proof -
  have "\<bar>rnd x\<bar> \<le> \<bar>x\<bar> + \<bar>x\<bar> / 2 ^ 53" using rnd_error_abs [of x] by linarith
  also have "\<dots> \<le> y / 2 + y / 2 / 2 ^ 53" using assms(1) by (intro add_mono divide_right_mono) simp_all
  also have "\<dots> < y - y / 2 ^ 53" using assms(2) by simp
  also have "\<dots> \<le> rnd y" using rnd_error_abs [of y] assms(2) unfolding abs_le_iff by simp
  finally show ?thesis .
qed

lemma near_decimal:
  assumes "c - e \<le> x" "x \<le> c + e" "0 < c" "e + c / 2 ^ 53 \<le> y / 2" "0 < y"
  shows "\<bar>fsub x (rnd c)\<bar> < rnd y"
proof -
  have "\<bar>rnd c - c\<bar> \<le> c / 2 ^ 53" by (rule rnd_error [OF assms(3)])
  then have "\<bar>x - rnd c\<bar> \<le> y / 2" using assms(1,2,4) by (intro abs_leI) (auto simp only: abs_le_iff)
  then show ?thesis unfolding fsub_def using assms(5) by (rule rnd_abs_less)
qed

lemma live_ltv:
  assumes "compute_obligation_health_live_with_elevation b58 pos reserves groups = Inr h"
  shows "kh_ltv h = (if ds_deposited_usd (live_deposits b58 pos reserves groups) \<le> 0 then 0
    else fdiv (bs_bf_debt (live_borrows b58 pos reserves groups)) (ds_deposited_usd (live_deposits b58 pos reserves groups)))"
  using assms
  by (auto simp: compute_obligation_health_live_with_elevation_def Let_def
      live_deposits_def live_borrows_def start_deposits_def)

text \<open>The health factor and the loan to value, to one part in 2^46.\<close>

lemma live_ratios:
  assumes "compute_obligation_health_live_with_elevation b58 pos reserves groups = Inr h"
    and "positions_scaled pos reserves" "exact_sums pos reserves groups = (D, U, B)" "0 < D" "0 < U" "0 < B"
  shows "approx 51 (kh_ltv h) (B / D)" "approx 51 (kh_health_factor h) (U / B)"
proof -
  note a = live_sums_approx [OF assms(2,3), where ?b58.0 = b58]
  have "\<not> ds_deposited_usd (live_deposits b58 pos reserves groups) \<le> 0"
    "\<not> (bs_bf_debt (live_borrows b58 pos reserves groups) \<le> 0
      \<or> ds_unhealthy (live_deposits b58 pos reserves groups) \<le> 0)"
    using approx_pos [OF a(1) assms(4)] approx_pos [OF a(2) assms(5)] approx_pos [OF a(3) assms(6)] by simp_all
  then show "approx 51 (kh_ltv h) (B / D)" "approx 51 (kh_health_factor h) (U / B)"
    using approx_fdiv [OF a(3) a(1) assms(4)] approx_fdiv [OF a(2) a(3) assms(6)]
    by (simp_all only: live_ltv [OF assms(1)] live_health_flags(3) [OF assms(1)] if_False) simp_all
qed

lemmas test_sums_simps = test_positions_def test_risk_def positions_scaled_def reserve_sat_def well_scaled_def
  exact_decimals_def reserve_fees_def gross_liquidity_def exact_sums_def exact_deposited_def exact_limit_def
  exact_debt_def exact_deposit_usd_def exact_borrow_usd_def token_usd_def share_tokens_def leg_pct_def debt_pct_def
  active_elevation_def

lemma sf_value_0 [simp]: "sf_value 0 = 0"
  by (simp add: sf_value_def)

lemma msol_sums:
  "positions_scaled (test_positions 0 68785363 (f64_to_sf (rnd (34777641358 / 10000)))) healthy_msol_reserves"
  "exact_sums (test_positions 0 68785363 (f64_to_sf (rnd (34777641358 / 10000)))) healthy_msol_reserves None =
     (68785363 / 10 ^ 9 * rnd (149558 / 1000), 68785363 / 10 ^ 9 * rnd (149558 / 1000) * 75 / 100,
      rnd (34777641358 / 10000) / 10 ^ 6 * rnd (9999 / 10000))"
  by (simp_all add: test_sums_simps healthy_msol_reserves_def sf_decimals [simplified])

lemma ltv_within:
  assumes "approx 51 x y" "c \<le> y * (1 - 1 / 2 ^ 46)" "y * (1 + 1 / 2 ^ 46) \<le> d"
  shows "c \<le> x" "x \<le> d"
  using approx_within [OF assms(1)] assms(2,3) by simp_all

lemma test_healthy_msol_usdc_fixture_passes: "test_healthy_msol_usdc_fixture b58"
proof -
  let ?D = "68785363 / 10 ^ 9 * rnd (149558 / 1000)"
  let ?B = "rnd (34777641358 / 10000) / 10 ^ 6 * rnd (9999 / 10000)"
  obtain h where h: "compute_obligation_health_live_with_elevation b58
      (test_positions 0 68785363 (f64_to_sf (rnd (34777641358 / 10000)))) healthy_msol_reserves None = Inr h"
    using sample_computed by blast
  have n: "\<not> kh_is_liquidatable h"
    using live_decision(2) [OF h msol_sums] unfolding rnd_decimals by (simp add: decisive_def)
  have p: "0 < ?D" "0 < ?D * 75 / 100" "0 < ?B" unfolding rnd_decimals by simp_all
  note r = live_ratios [OF h msol_sums p]
  have "338 / 1000 \<le> kh_ltv h" "kh_ltv h \<le> 339 / 1000"
    by (rule ltv_within [where c = "338 / 1000" and d = "339 / 1000", OF r(1)]; unfold rnd_decimals; simp)+
  then have l: "\<bar>fsub (kh_ltv h) (rnd (338 / 1000))\<bar> < rnd (2 / 100)"
    by (intro near_decimal [where e = "1 / 1000"]) simp_all
  have "21 / 10 \<le> kh_health_factor h"
    by (rule ltv_within(1) [where d = 3, OF r(2)]; unfold rnd_decimals; simp)
  moreover have "rnd (998 / 1000) < rnd 1" by (rule rnd_less) simp_all
  ultimately show ?thesis using h n l
    by (simp add: test_healthy_msol_usdc_fixture_def compute_obligation_health_live_def
        stale_sf_header_health_ratio_def f64_of_def fdiv_def f64_exact)
qed

lemma elevation_sums:
  "positions_scaled (test_positions 2 1000000000 (f64_to_sf 870000000)) elevation_reserves"
  "exact_sums (test_positions 2 1000000000 (f64_to_sf 870000000)) elevation_reserves (Some elevation_test_group) =
     (100, 92, 87)"
  "positions_scaled (test_positions 0 1000000000 (f64_to_sf 870000000)) elevation_reserves"
  "exact_sums (test_positions 0 1000000000 (f64_to_sf 870000000)) elevation_reserves None = (100, 55, 435 / 4)"
  by (simp_all add: test_sums_simps elevation_reserves_def elevation_test_group_def f64_exact)

lemma test_elevation_group_overrides_passes: "test_elevation_group_overrides b58"
proof -
  let ?pos = "\<lambda>g. test_positions g 1000000000 (f64_to_sf 870000000)"
  obtain h h2 where
    h: "compute_obligation_health_live_with_elevation b58 (?pos 2) elevation_reserves (Some elevation_test_group) = Inr h" and
    h2: "compute_obligation_health_live_with_elevation b58 (?pos 0) elevation_reserves None = Inr h2"
    using sample_computed by blast
  have f: "\<not> kh_is_liquidatable h" "kh_is_liquidatable h2"
    using live_decision(2) [OF h elevation_sums(1,2)] live_decision(1) [OF h2 elevation_sums(3,4)]
    by (simp_all add: decisive_def)
  have r: "approx 51 (kh_ltv h) (87 / 100)" by (rule live_ratios(1) [OF h elevation_sums(1,2)]) simp_all
  have "869 / 1000 \<le> kh_ltv h" "kh_ltv h \<le> 871 / 1000"
    by (rule ltv_within [where c = "869 / 1000" and d = "871 / 1000", OF r]; simp)+
  then have l: "\<bar>fsub (kh_ltv h) (rnd (87 / 100))\<bar> < rnd (1 / 100)"
    by (intro near_decimal [where e = "1 / 1000"]) simp_all
  have e: "(?pos 2)\<lparr>lp_header := (lp_header (?pos 2))\<lparr>lh_elevation_group := 0\<rparr>\<rparr> = ?pos 0"
    by (simp add: test_positions_def)
  from l f h h2 show ?thesis
    unfolding test_elevation_group_overrides_def Let_def compute_obligation_health_live_def e by simp
qed

lemma test_amount_to_usd_micro_matches_passes: test_amount_to_usd_micro_matches
proof -
  define p where "p = price_from_f64 (rnd (149558 / 1000))"
  define a where "a = amount_to_usd_micro 68785363 9 p"
  define b where "b = tokens_to_usd_micro 68785363 9 (f64_to_sf (rnd (149558 / 1000)))"
  define u where "u = tokens_to_usd_f64 68785363 9 (f64_to_sf (rnd (149558 / 1000)))"
  have "px p = 149558000000" using price_literal [of "149558 / 1000" 149558000000] by (simp add: p_def)
  then have a: "unat a = 10287401" unfolding a_def by (subst amount_to_usd_micro_exact) simp_all
  have au: "approx 4 u (68785363 / 10 ^ 9 * rnd (149558 / 1000))"
    using approx_token_usd [OF approx_exact, of 68785363 9 "f64_to_sf (rnd (149558 / 1000))"]
    by (simp add: u_def token_usd_def sf_decimals(1) [simplified])
  then have "0 < u" using approx_pos [OF au] by (simp add: rnd_pos)
  have "approx (Suc (4 + 0)) (fmul u 1000000) (68785363 / 10 ^ 9 * rnd (149558 / 1000) * 1000000)"
    by (intro approx_fmul au approx_exact) simp
  then have x: "approx 51 (fmul u 1000000) (68785363 / 10 ^ 9 * rnd (149558 / 1000) * 1000000)"
    by (rule approx_weaken) simp
  have "10287401 \<le> fmul u 1000000" "fmul u 1000000 \<le> 10287402"
    by (rule ltv_within [where c = 10287401 and d = 10287402, OF x]; unfold rnd_decimals; simp)+
  then have k: "10287401 \<le> round_away (fmul u 1000000)" "round_away (fmul u 1000000) \<le> 10287402"
    by (simp_all add: round_away_def le_floor_iff floor_le_iff)
  define k where "k = nat (round_away (fmul u 1000000))"
  have "round_away (fmul u 1000000) = int k" "10287401 \<le> k" "k \<le> 10287402" using k by (simp_all add: k_def)
  moreover from this have "unat (word_of_nat k :: u128) = k" by (simp add: unat_of_nat take_bit_nat_eq_self)
  moreover have "b = as_u128 (round_away (fmul u 1000000))" if "0 < u"
    using that by (simp only: b_def tokens_to_usd_micro_def u_def Let_def not_le [symmetric] if_False)
  ultimately have b: "unat b = k" using \<open>0 < u\<close> by (simp add: as_u128_nat)
  have "sint (a - b) = int (unat a) - int (unat b)" by (rule sint_diff_small) (use a b \<open>k \<le> 10287402\<close> in simp_all)
  then have "\<bar>sint (a - b)\<bar> < 50" using \<open>10287401 \<le> k\<close> \<open>k \<le> 10287402\<close> a b by simp
  then show ?thesis by (simp only: test_amount_to_usd_micro_matches_def p_def a_def b_def Let_def)
qed

end
