(* ===== verification/DecodeTests.thy ===== *)
theory DecodeTests
  imports LiveTests KaminoTests
begin

text \<open>
  The unit tests of the account decoders, \<^verbatim>\<open>crates/liq-kamino/src/decode.rs\<close> and
  \<^verbatim>\<open>live_health.rs\<close>, as checks of the model: a buffer of zeros, the fields the test writes, and what the
  decoder makes of it. Stated and proved as in theory \<open>CoreTests\<close>.
\<close>

section \<open>The tests\<close>

text \<open>The writes of a test, in order: an offset and the bytes copied there.\<close>

definition write_all :: "nat \<Rightarrow> (nat \<times> u8 list) list \<Rightarrow> u8 list" where
  "write_all n ws = foldl (\<lambda>data (off, bs). splice data off bs) (replicate n 0) ws"

definition test_roundtrip_planning_obligation_and_health :: bool where
  "test_roundtrip_planning_obligation_and_health =
     (let mint_c = pubkey_test 10 1; mint_d = pubkey_test 10 2;
          obl = \<lparr>ko_address = pubkey_test 10 3, ko_market = pubkey_test 10 4,
            ko_deposits = [\<lparr>kd_reserve = pubkey_test 10 5, kd_mint = mint_c, kd_deposited_amount = 1000000000,
              kd_decimals = 9, kd_liq_threshold_bps = 8000\<rparr>],
            ko_borrows = [\<lparr>kb_reserve = pubkey_test 10 6, kb_mint = mint_d, kb_borrowed_amount = 500000000,
              kb_decimals = 9\<rparr>]\<rparr>
      in case decode_obligation_planning (ko_address obl) (encode_obligation_planning obl) of
           Inl e \<Rightarrow> False
         | Inr decoded \<Rightarrow>
             kd_deposited_amount (ko_deposits decoded ! 0) = 1000000000
             \<and> kb_borrowed_amount (ko_borrows decoded ! 0) = 500000000
             \<and> (case obligation_health decoded [(mint_c, price_from_f64 (rnd 100)), (mint_d, price_from_f64 (rnd 100))] of
                  Inl e \<Rightarrow> False
                | Inr (factor, _, _) \<Rightarrow> 1 < health_to_f64 factor))"

definition test_live_header_offsets_roundtrip :: bool where
  "test_live_header_offsets_roundtrip =
     (let market = pubkey_test 11 1; owner = pubkey_test 11 2;
          bf_debt = 200; borrowed = 180; unhealthy = 100;
          data = write_all live_obligation_datasize
            [(32, pk_bytes market), (64, pk_bytes owner), (2208, u128_le bf_debt), (2224, u128_le borrowed),
             (2256, u128_le unhealthy), (2287, [1])]
      in case decode_obligation_live_header (pubkey_test 11 3) data of
           Inl e \<Rightarrow> False
         | Inr h \<Rightarrow> lh_lending_market h = market \<and> lh_owner h = owner
             \<and> lh_borrow_factor_adjusted_debt_value_sf h = bf_debt \<and> live_obligation_is_liquidatable h)"

definition test_live_positions_extract :: bool where
  "test_live_positions_extract =
     (let market = pubkey_test 20 1; owner = pubkey_test 20 2; dep_res = pubkey_test 20 3; bor_res = pubkey_test 20 4;
          dep_off = live_deposits_offset; bor_off = live_borrows_offset;
          data = write_all live_obligation_datasize
            [(32, pk_bytes market), (64, pk_bytes owner),
             (dep_off, pk_bytes dep_res), (dep_off + 32, u64_le 1000), (dep_off + 40, u128_le 50),
             (bor_off, pk_bytes bor_res), (bor_off + 88, u128_le 10), (bor_off + 104, u128_le 40),
             (2224, u128_le 40), (2256, u128_le 30), (2287, [1])]
      in case decode_obligation_live_positions (pubkey_test 20 5) data of
           Inl e \<Rightarrow> False
         | Inr pos \<Rightarrow>
             length (lp_deposits pos) = 1 \<and> ld_reserve (lp_deposits pos ! 0) = dep_res
             \<and> ld_deposited_amount (lp_deposits pos ! 0) = 1000
             \<and> length (lp_borrows pos) = 1 \<and> lb_reserve (lp_borrows pos ! 0) = bor_res
             \<and> pick_liquidate_reserves pos = Some (bor_res, dep_res))"

definition test_live_reserve_vault_offsets :: bool where
  "test_live_reserve_vault_offsets =
     (let market = pubkey_test 21 1; mint = pubkey_test 21 2; supply = pubkey_test 21 3; fee = pubkey_test 21 4;
          c_mint = pubkey_test 21 5; c_supply = pubkey_test 21 6; token = pubkey_test 21 7;
          liq = live_reserve_liquidity_offset; col = live_reserve_collateral_offset;
          data = write_all live_reserve_datasize
            [(32, pk_bytes market), (liq, pk_bytes mint), (liq + 32, pk_bytes supply), (liq + 64, pk_bytes fee),
             (liq + 144, [6]), (liq + 280, pk_bytes token), (col, pk_bytes c_mint), (col + 40, pk_bytes c_supply)]
      in case decode_reserve_live_vaults (pubkey_test 21 8) data of
           Inl e \<Rightarrow> False
         | Inr v \<Rightarrow> rv_liquidity_mint v = mint \<and> rv_liquidity_supply v = supply \<and> rv_fee_vault v = fee
             \<and> rv_collateral_mint v = c_mint \<and> rv_collateral_supply v = c_supply \<and> rv_token_program v = token
             \<and> rv_mint_decimals v = 6)"

definition test_decode_reserve_risk_offsets :: bool where
  "test_decode_reserve_risk_offsets =
     (let market = live_pk 1; mint = live_pk 2; liq = live_reserve_liquidity_offset; price = f64_to_sf 100;
          data = write_all live_reserve_datasize
            [(32, pk_bytes market), (liq, pk_bytes mint), (liq + 144, [6]),
             (live_reserve_liquidity_offset + 120, u128_le price),
             (live_reserve_config_offset + 16, [65]), (live_reserve_config_offset + 17, [75]),
             (live_reserve_config_offset + 152, u64_le 100), (live_reserve_liquidity_offset + 96, u64_le 1000),
             (live_reserve_collateral_offset + 32, u64_le 1000)]
      in case decode_reserve_live_risk (live_pk 8) data of
           Inl e \<Rightarrow> False
         | Inr r \<Rightarrow> lr_loan_to_value_pct r = 65 \<and> lr_liquidation_threshold_pct r = 75
             \<and> lr_borrow_factor_pct r = 100 \<and> \<bar>fsub (price_f64 r) 100\<bar> < rnd (1 / 1000000)
             \<and> lr_mint_decimals r = 6)"

section \<open>They pass\<close>

lemma test_roundtrip_planning_passes: test_roundtrip_planning_obligation_and_health
proof -
  have "rnd 1 < rnd (8 / 5)" by (rule rnd_less) simp_all
  then show ?thesis
    unfolding test_roundtrip_planning_obligation_and_health_def Let_def
    by (subst planning_roundtrip)
      (simp_all add: obligation_keys_wf_def test_prices kamino_health_simps health_to_f64_def fdiv_def
        f64_of_health_scale [unfolded health_scale_def] f64_of_signed_def, simp add: f64_exact)
qed

text \<open>What a read finds: the last write at its place, else zeros. The list holds the last write first.\<close>

primrec written :: "nat \<Rightarrow> (nat \<times> u8 list) list \<Rightarrow> u8 list" where
  "written n [] = replicate n 0"
| "written n (w # ws) = splice (written n ws) (fst w) (snd w)"

lemma write_all_written: "write_all n ws = written n (rev ws)"
proof (induction ws rule: rev_induct)
  case (snoc w ws)
  then show ?case by (cases w) (simp add: write_all_def)
qed (simp add: write_all_def)

primrec fits :: "nat \<Rightarrow> (nat \<times> u8 list) list \<Rightarrow> bool" where
  "fits n [] \<longleftrightarrow> True"
| "fits n (w # ws) \<longleftrightarrow> fst w + length (snd w) \<le> n \<and> fits n ws"

lemma length_written [simp]: "fits n ws \<Longrightarrow> length (written n ws) = n"
  by (induction ws) simp_all

lemma slice_written:
  "fits n ((a, ys) # ws) \<Longrightarrow> b = a + length ys \<Longrightarrow> slice (written n ((a, ys) # ws)) a b = ys"
  "fits n ((a, ys) # ws) \<Longrightarrow> d \<le> a \<or> a + length ys \<le> c \<Longrightarrow>
     slice (written n ((a, ys) # ws)) c d = slice (written n ws) c d"
  "d \<le> n \<Longrightarrow> slice (written n []) c d = replicate (d - c) 0"
  by (auto simp: slice_simps slice_replicate min_def)

lemma nth_written:
  "fits n ((a, ys) # ws) \<Longrightarrow> i < a \<or> a + length ys \<le> i \<Longrightarrow> written n ((a, ys) # ws) ! i = written n ws ! i"
  "fits n ((i, [y]) # ws) \<Longrightarrow> written n ((i, [y]) # ws) ! i = y"
  "i < n \<Longrightarrow> written n [] ! i = 0"
  by (auto simp: nth_splice_other) (simp add: splice_def nth_append min_def)

lemma word_of_zeros [simp]: "word_of_le (replicate n 0) = 0"
proof -
  have "le_nat (replicate n 0) = 0" by (induction n) simp_all
  then show ?thesis by (simp add: word_of_le_def)
qed

lemma length_test_key [simp]: "length (pk_bytes (pubkey_test t i)) = 32" "length (pk_bytes (live_pk i)) = 32"
  by (simp_all add: pubkey_test_def live_pk_def)

lemma key_of_bytes [simp]: "Pubkey (pk_bytes k) = k"
  by (cases k) simp

lemmas buffer_simps = write_all_written key_at_def word_at_def slice_written nth_written

lemma test_live_header_offsets_roundtrip_passes: test_live_header_offsets_roundtrip
  by (simp add: test_live_header_offsets_roundtrip_def decode_live_header_total live_header_view_def buffer_simps
      live_obligation_is_liquidatable_def del: written.simps)

lemma test_live_reserve_vault_offsets_passes: test_live_reserve_vault_offsets
  by (simp add: test_live_reserve_vault_offsets_def decode_live_vaults_total live_vaults_view_def buffer_simps
      del: written.simps)

lemma test_live_positions_extract_passes: test_live_positions_extract
  by (simp add: test_live_positions_extract_def decode_live_positions_total live_positions_view_def buffer_simps
      upt_rec active_deposit_def active_borrow_def deposit_at_def borrow_at_def pubkey_default_def pick_liquidate_reserves_def
      max_by_key_def Let_def del: written.simps)

lemma test_decode_reserve_risk_offsets_passes: test_decode_reserve_risk_offsets
  by (simp add: test_decode_reserve_risk_offsets_def decode_live_risk_total live_risk_view_def buffer_simps
      price_f64_def f64_exact fsub_def rnd_pos del: written.simps)

end
