(* ===== verification/SaveTests.thy ===== *)
theory SaveTests
  imports Save KaminoTests
begin

text \<open>
  The unit tests of \<^verbatim>\<open>crates/liq-save/src\<close> as checks of the model, stated and proved as in theory
  \<open>CoreTests\<close>.
\<close>

section \<open>flash.rs\<close>

definition sample_accounts_save :: save_flash_plan_accounts where
  "sample_accounts_save =
     (let pk = pubkey_test 7 in
      \<lparr>sfp_flash_borrow = \<lparr>sfb_source_liquidity = pk 1, sfb_destination_liquidity = pk 2, sfb_reserve = pk 3,
         sfb_lending_market = pk 4, sfb_lending_market_authority = pk 5\<rparr>,
       sfp_liquidate = \<lparr>sl_source_liquidity = pk 2, sl_destination_collateral = pk 10,
         sl_destination_liquidity = pk 11, sl_repay_reserve = pk 3, sl_repay_reserve_liquidity_supply = pk 12,
         sl_withdraw_reserve = pk 13, sl_withdraw_reserve_collateral_mint = pk 14,
         sl_withdraw_reserve_collateral_supply = pk 15, sl_withdraw_reserve_liquidity_supply = pk 16,
         sl_withdraw_reserve_fee_receiver = pk 17, sl_obligation = pk 18, sl_lending_market = pk 4,
         sl_lending_market_authority = pk 5, sl_user_transfer_authority = pk 19\<rparr>,
       sfp_flash_repay = \<lparr>sfr_source_liquidity = pk 2, sfr_destination_liquidity = pk 1,
         sfr_fee_receiver = pk 20, sfr_host_fee_receiver = pk 21, sfr_reserve = pk 3,
         sfr_lending_market = pk 4, sfr_user_transfer_authority = pk 19\<rparr>,
       sfp_refresh_reserves = [pk 3, pk 13], sfp_obligation = pk 18\<rparr>)"

definition test_flash_ix_ordering :: bool where
  "test_flash_ix_ordering =
     (let plan = build_flash_atomic_plan sample_accounts_save 1000000 [] 400000 1000;
          ixs = sap_labeled plan
      in case (label_position ((=) ''FlashBorrowReserveLiquidity'') ixs,
               label_position ((=) ''LiquidateObligationAndRedeemReserveCollateral'') ixs,
               label_position ((=) ''FlashRepayReserveLiquidity'') ixs) of
           (Some borrow_pos, Some liq_pos, Some repay_pos) \<Rightarrow>
             let repay_data = ix_data (li_ix (ixs ! repay_pos))
             in borrow_pos < liq_pos \<and> liq_pos < repay_pos
                \<and> unat (sap_flash_borrow_index plan) = borrow_pos
                \<and> repay_data ! 0 = 20 \<and> last repay_data = sap_flash_borrow_index plan
         | _ \<Rightarrow> False)"

definition test_flash_data_bytes_and_account_metas :: bool where
  "test_flash_data_bytes_and_account_metas =
     (let borrow = flash_borrow_build_ix_save (sfp_flash_borrow sample_accounts_save) 42;
          repay = flash_repay_build_ix_save (sfp_flash_repay sample_accounts_save) 42 4
      in ix_data borrow ! 0 = 19 \<and> slice (ix_data borrow) 1 9 = u64_le 42 \<and> length (ix_accounts borrow) = 7
         \<and> ix_data borrow \<noteq> [] \<and> ix_data repay ! 0 = 20 \<and> length (ix_accounts repay) = 9
         \<and> list_ex am_is_signer (ix_accounts repay))"

definition test_legacy_flash_loan_tag_13 :: bool where
  "test_legacy_flash_loan_tag_13 \<longleftrightarrow> encode_flash_loan_legacy 99 ! 0 = 13"

definition test_flash_borrow_meta_flags :: bool where
  "test_flash_borrow_meta_flags =
     (let m = flash_borrow_metas_save (sfp_flash_borrow sample_accounts_save)
      in length m = 7 \<and> am_is_writable (m ! 0) \<and> \<not> am_is_signer (m ! 0) \<and> am_is_writable (m ! 1)
         \<and> am_is_writable (m ! 2) \<and> \<not> am_is_writable (m ! 3) \<and> \<not> am_is_writable (m ! 4)
         \<and> \<not> am_is_writable (m ! 5) \<and> \<not> am_is_writable (m ! 6))"

definition test_flash_repay_meta_flags :: bool where
  "test_flash_repay_meta_flags =
     (let m = flash_repay_metas_save (sfp_flash_repay sample_accounts_save)
      in length m = 9 \<and> am_is_writable (m ! 0) \<and> am_is_writable (m ! 1) \<and> am_is_writable (m ! 2)
         \<and> am_is_writable (m ! 3) \<and> am_is_writable (m ! 4) \<and> \<not> am_is_writable (m ! 5)
         \<and> \<not> am_is_writable (m ! 6) \<and> am_is_signer (m ! 6) \<and> \<not> am_is_writable (m ! 7)
         \<and> \<not> am_is_writable (m ! 8))"

definition test_liquidate_meta_flags :: bool where
  "test_liquidate_meta_flags =
     (let m = save_liquidate_metas (sfp_liquidate sample_accounts_save)
      in length m = 15 \<and> list_all (\<lambda>i. am_is_writable (m ! i)) [0..<11]
         \<and> \<not> am_is_writable (m ! 11) \<and> \<not> am_is_writable (m ! 12)
         \<and> \<not> am_is_writable (m ! 13) \<and> am_is_signer (m ! 13) \<and> \<not> am_is_writable (m ! 14))"

lemmas save_test_simps = sample_accounts_save_def flash_borrow_metas_save_def flash_repay_metas_save_def
  save_liquidate_metas_def meta_new_def meta_new_readonly_def Let_def

lemma test_flash_ix_ordering_passes: test_flash_ix_ordering
  by (simp add: test_flash_ix_ordering_def sample_accounts_save_def build_flash_atomic_plan_def
      labeled_def cu_limit_ix_def cu_price_ix_def refresh_reserve_ix_save_def refresh_obligation_ix_save_def
      liquidate_ix_save_def flash_repay_build_ix_save_def encode_flash_repay_save_def instruction_new_def Let_def)

lemma test_flash_data_bytes_passes: test_flash_data_bytes_and_account_metas
  by (simp add: test_flash_data_bytes_and_account_metas_def flash_borrow_build_ix_save_def
      flash_repay_build_ix_save_def encode_flash_borrow_save_def encode_flash_repay_save_def instruction_new_def
      slice_simps save_test_simps)

lemma test_legacy_flash_loan_passes: test_legacy_flash_loan_tag_13
  by (simp add: test_legacy_flash_loan_tag_13_def encode_flash_loan_legacy_def)

lemma test_flash_borrow_meta_flags_pass: test_flash_borrow_meta_flags
  by (simp add: test_flash_borrow_meta_flags_def save_test_simps)

lemma test_flash_repay_meta_flags_pass: test_flash_repay_meta_flags
  by (simp add: test_flash_repay_meta_flags_def save_test_simps)

lemma test_liquidate_meta_flags_pass: test_liquidate_meta_flags
  by (simp add: test_liquidate_meta_flags_def save_test_simps upt_rec)

section \<open>lib.rs, ordering.rs, close\_factor.rs, accounts.rs\<close>

definition test_liquidatable_and_tags :: bool where
  "test_liquidatable_and_tags =
     (let coll = pubkey_test 1 1; debt = pubkey_test 1 2;
          obl = \<lparr>so_address = pubkey_test 2 1, so_lending_market = pubkey_test 2 2,
            so_deposits = [\<lparr>sd_reserve = pubkey_test 3 1, sd_mint = coll, sd_deposited_amount = 1000000000,
              sd_decimals = 9, sd_liq_threshold_bps = 8500, sd_liq_bonus_bps = 500\<rparr>],
            so_borrows = [\<lparr>sb_reserve = pubkey_test 3 2, sb_mint = debt, sb_borrowed_amount = 200000000,
              sb_decimals = 6\<rparr>]\<rparr>;
          prices = [(coll, price_from_f64 (rnd 50)), (debt, price_from_f64 (rnd 1))];
          data = encode_liquidate_and_redeem 100
      in is_liquidatable_save obl prices = Inr True
         \<and> max_repay 200000000 default_close_factor_bps = 100000000
         \<and> data ! 0 = 17 \<and> slice data 1 9 = u64_le 100 \<and> encode_liquidate_obligation 1 ! 0 = 12)"

definition test_order_refresh_then_liquidate :: bool where
  "test_order_refresh_then_liquidate =
     (let obl = pubkey_test 1 1; r1 = pubkey_test 2 1; r2 = pubkey_test 2 2;
          plan = build_liquidation_plan obl [r1] [r2] 42
      in slp_labels plan = [''RefreshReserve'', ''RefreshReserve'', ''RefreshObligation'',
            ''LiquidateObligationAndRedeemReserveCollateral'']
         \<and> slp_datas plan ! 0 ! 0 = save_tag RefreshReserve
         \<and> slp_datas plan ! 2 ! 0 = save_tag RefreshObligation
         \<and> slp_datas plan ! 3 ! 0 = save_tag LiquidateObligationAndRedeemReserveCollateral)"

definition test_close_factor_half :: bool where
  "test_close_factor_half =
     (max_repay 1000000 5000 = 500000 \<and> size_repay 1000000 800000 5000 = Inr 500000
      \<and> size_repay 1000000 100000 5000 = Inr 100000 \<and> isl (size_repay 0 1 5000))"

definition test_seize_with_5pct_bonus :: bool where
  "test_seize_with_5pct_bonus \<longleftrightarrow> seize_collateral_amount 100000000 50000000 0 500 = 2"

definition test_twelve_accounts :: bool where
  "test_twelve_accounts \<longleftrightarrow> length liquidate_obligation_names = 12"

lemma test_liquidatable_and_tags_passes: test_liquidatable_and_tags
proof -
  have "price_from_f64 (rnd 50) = PriceFx 50000000000" using price_literal [of 50 50000000000] by simp
  then show ?thesis
    by (simp add: test_liquidatable_and_tags_def test_prices kamino_health_simps is_liquidatable_save_def
        obligation_health_save_def deposit_allowed_save_def borrow_usd_save_def max_repay_def close_factor_cap_def
        default_close_factor_bps_def encode_liquidate_and_redeem_def encode_liquidate_obligation_def slice_simps)
qed

lemma test_order_refresh_passes: test_order_refresh_then_liquidate
  by (simp add: test_order_refresh_then_liquidate_def build_liquidation_plan_def encode_refresh_reserve_save_def
      encode_refresh_obligation_save_def encode_liquidate_and_redeem_def Let_def)

lemma test_close_factor_half_passes: test_close_factor_half
  by (simp add: test_close_factor_half_def size_repay_def max_repay_def close_factor_cap_def)

lemma test_seize_with_5pct_bonus_passes: test_seize_with_5pct_bonus
  by (simp add: test_seize_with_5pct_bonus_def seize_collateral_amount_def sat_mul_def pow10_def)

lemma test_twelve_accounts_passes: test_twelve_accounts
  by (simp add: test_twelve_accounts_def liquidate_obligation_names_def)

end
