(* ===== verification/P0Tests.thy ===== *)
theory P0Tests
  imports Marginfi SaveTests
begin

text \<open>
  The unit tests of \<^verbatim>\<open>crates/liq-project0/src\<close> as checks of the model, stated and proved as in theory
  \<open>CoreTests\<close>.
\<close>

section \<open>tx\_builder.rs\<close>

definition sample_recv :: receivership_build_params where
  "sample_recv =
     (let pk = pubkey_test 8 in
      \<lparr>rb_start = \<lparr>st_marginfi_account = pk 1, st_liquidation_record = pk 2, st_group = pk 3,
         st_liquidation_receiver = pk 4, st_instruction_sysvar = prog_sysvar_instructions,
         st_remaining_writable = [pk 5, pk 6]\<rparr>,
       rb_withdraw = \<lparr>wa_group = pk 3, wa_marginfi_account = pk 4, wa_authority = pk 4, wa_bank = pk 5,
         wa_vault = pk 7, wa_destination = pk 8, wa_bank_liquidity_vault_authority = pk 9,
         wa_token_program = prog_token\<rparr>,
       rb_repay = \<lparr>ra_group = pk 3, ra_marginfi_account = pk 4, ra_authority = pk 4, ra_bank = pk 6,
         ra_signer_token_account = pk 10, ra_vault = pk 11, ra_token_program = prog_token\<rparr>,
       rb_end = \<lparr>en_marginfi_account = pk 1, en_liquidation_record = pk 2, en_group = pk 3,
         en_liquidation_receiver = pk 4, en_fee_state = pk 12, en_global_fee_wallet = pk 13,
         en_system_program = prog_system, en_fee_payer = None\<rparr>,
       rb_withdraw_amount = 1000, rb_repay_amount = 900, rb_cu_limit = 500000, rb_cu_price = 2000\<rparr>)"

definition test_receivership_sequence_order_and_wire_bytes :: bool where
  "test_receivership_sequence_order_and_wire_bytes =
     (let ixs = build_receivership_tx sample_recv [];
          labels = map li_label ixs
      in ''start_liquidation'' \<in> set labels \<and> ''lending_account_withdraw'' \<in> set labels
         \<and> ''lending_account_repay'' \<in> set labels \<and> ''end_liquidation'' \<in> set labels
         \<and> (case (label_position ((=) ''start_liquidation'') ixs, label_position ((=) ''end_liquidation'') ixs) of
              (Some start, Some finish) \<Rightarrow>
                start < finish
                \<and> slice (ix_data (li_ix (ixs ! start))) 0 8 = disc_start_liquidation
                \<and> slice (ix_data (li_ix (ixs ! finish))) 0 8 = disc_end_liquidation
                \<and> ix_accounts (li_ix (ixs ! start)) \<noteq> []
            | _ \<Rightarrow> False)
         \<and> list_all (\<lambda>ix. (is_wire_ready (li_ix ix) \<or> prefix ''ComputeBudget'' (li_label ix))
                       \<and> ix_data (li_ix ix) \<noteq> []) ixs)"

definition test_classic_emits_liquidate_data :: bool where
  "test_classic_emits_liquidate_data =
     (let params = \<lparr>cb_accounts =
            \<lparr>cl_group = pubkey_test 1 1, cl_asset_bank = pubkey_test 1 2, cl_liab_bank = pubkey_test 1 3,
             cl_liquidator_marginfi_account = pubkey_test 1 4, cl_authority = pubkey_test 1 5,
             cl_liquidatee_marginfi_account = pubkey_test 1 6,
             cl_bank_liquidity_vault_authority = pubkey_test 1 7, cl_bank_liquidity_vault = pubkey_test 1 8,
             cl_bank_insurance_vault = pubkey_test 1 9, cl_token_program = prog_token, cl_remaining = []\<rparr>,
            cb_asset_amount = 55, cb_cu_limit = 200000, cb_cu_price = 1\<rparr>;
          liq = build_classic_tx params ! 2
      in slice (ix_data (li_ix liq)) 0 8 = disc_lending_account_liquidate
         \<and> slice (ix_data (li_ix liq)) 8 16 = u64_le 55 \<and> ix_accounts (li_ix liq) \<noteq> [])"

lemmas p0_disc_simps = disc_start_liquidation_def disc_end_liquidation_def disc_lending_account_withdraw_def
  disc_lending_account_repay_def disc_lending_account_liquidate_def

lemma slice_take: "slice xs 0 b = take b xs"
  by (simp add: slice_def)

lemma test_receivership_sequence_passes: test_receivership_sequence_order_and_wire_bytes
  by (simp add: test_receivership_sequence_order_and_wire_bytes_def sample_recv_def build_receivership_tx_def
      labeled_def cu_limit_ix_def cu_price_ix_def compute_unit_limit_def compute_unit_price_def instruction_new_def
      is_wire_ready_def encode_start_liquidation_def encode_end_liquidation_def encode_withdraw_def encode_repay_def
      start_liquidation_metas_def p0_disc_simps slice_def Let_def)

lemma test_classic_emits_passes: test_classic_emits_liquidate_data
  by (simp add: test_classic_emits_liquidate_data_def build_classic_tx_def labeled_def instruction_new_def
      encode_classic_liquidate_def classic_liquidate_metas_def p0_disc_simps slice_take slice_simps Let_def)

section \<open>lib.rs\<close>

definition p0_sample :: "marginfi_account_view \<times> bank_book" where
  "p0_sample =
     (let bank_a = pubkey_test 10 1; bank_b = pubkey_test 10 2; mint_a = pubkey_test 11 1; mint_b = pubkey_test 11 2
      in (\<lparr>ma_address = pubkey_test 12 1, ma_group = pubkey_test 12 2,
           ma_balances = [\<lparr>bal_bank = bank_a, bal_kind = Asset, bal_amount = 10000000000\<rparr>,
             \<lparr>bal_bank = bank_b, bal_kind = Liability, bal_amount = 800000000\<rparr>]\<rparr>,
          \<lparr>bb_banks = [\<lparr>bm_bank = bank_a, bm_mint = mint_a, bm_maint_asset_weight_fx = 900000,
               bm_maint_liab_weight_fx = 1000000, bm_decimals = 9\<rparr>,
             \<lparr>bm_bank = bank_b, bm_mint = mint_b, bm_maint_asset_weight_fx = 1000000,
               bm_maint_liab_weight_fx = 1100000, bm_decimals = 6\<rparr>],
           bb_prices = [(mint_a, price_from_f64 (rnd 100)), (mint_b, price_from_f64 (rnd 1))],
           bb_confidence = []\<rparr>))"

definition test_detects_negative_maint_health :: bool where
  "test_detects_negative_maint_health =
     (let (account, book) = p0_sample;
          book2 = book\<lparr>bb_prices := (bb_prices book)[0 := (fst (bb_prices book ! 0), price_from_f64 (rnd 50))]\<rparr>
      in is_liquidatable_p0 account book = Inr False \<and> is_liquidatable_p0 account book2 = Inr True)"

definition test_classic_math_matches_docs :: bool where
  "test_classic_math_matches_docs =
     (let seized = 1000000
      in classic_assumed_liability seized = 975000 \<and> classic_borrower_debt_relief seized = 950000)"

definition test_discriminators_match_upstream_pins :: bool where
  "test_discriminators_match_upstream_pins =
     (let data = encode_classic_liquidate 42
      in disc_start_liquidation ! 0 = 244 \<and> disc_end_liquidation ! 0 = 110
         \<and> disc_lending_account_liquidate = [214, 169, 151, 213, 251, 167, 86, 219]
         \<and> slice data 0 8 = disc_lending_account_liquidate \<and> slice data 8 16 = u64_le 42)"

definition test_receivership_plan_sequences_start_end :: bool where
  "test_receivership_plan_sequences_start_end =
     (let plan = plan_receivership 100 90
      in lp_mode plan = Receivership \<and> lp_datas plan ! 0 = disc_start_liquidation
         \<and> lp_datas plan ! 3 = disc_end_liquidation
         \<and> receivership_profit_ok 110 100 1000 \<and> \<not> receivership_profit_ok 111 100 1000)"

lemma price_50: "price_from_f64 (rnd 50) = PriceFx 50000000000"
  using price_literal [of 50 50000000000] by simp

lemma test_usd:
  "amount_to_usd_micro 10000000000 9 (PriceFx 100000000000) = 1000000000"
  "amount_to_usd_micro 10000000000 9 (PriceFx 50000000000) = 500000000"
  "amount_to_usd_micro 800000000 6 (PriceFx 1000000000) = 800000000"
  by (simp_all add: amount_to_usd_micro_def sat_mul_def pow10_def price_scale_def)

lemma signed_div_million: "signed_div (900000000000000 :: i128) 1000000 = 900000000"
  "signed_div (450000000000000 :: i128) 1000000 = 450000000"
  "signed_div (880000000000000 :: i128) 1000000 = 880000000"
  by (simp_all add: signed_div_def trunc_div_def)

lemma adjusted_price_0:
  "adjusted_price k (PriceFx 100000000000) 0 = PriceFx 100000000000"
  "adjusted_price k (PriceFx 50000000000) 0 = PriceFx 50000000000"
  "adjusted_price k (PriceFx 1000000000) 0 = PriceFx 1000000000"
  by (cases k; simp add: adjusted_price_def sat_mul_def)+

lemma test_detects_negative_maint_health_passes: test_detects_negative_maint_health
  by (simp add: test_detects_negative_maint_health_def p0_sample_def test_prices price_50 is_liquidatable_p0_def
      maintenance_health_def book_bank_def book_price_def book_conf_def price_get_def weighted_balance_def
      adjusted_price_0 test_usd signed_div_million Let_def)

lemma test_classic_math_matches_docs_passes: test_classic_math_matches_docs
  by (simp add: test_classic_math_matches_docs_def classic_assumed_liability_def classic_borrower_debt_relief_def)

lemma test_discriminators_match_passes: test_discriminators_match_upstream_pins
  by (simp add: test_discriminators_match_upstream_pins_def encode_classic_liquidate_def p0_disc_simps slice_take slice_simps)

lemma test_receivership_plan_passes: test_receivership_plan_sequences_start_end
  by (simp add: test_receivership_plan_sequences_start_end_def plan_receivership_def receivership_profit_ok_def
      encode_start_liquidation_def encode_end_liquidation_def)

section \<open>accounts.rs, classic.rs, receivership.rs, fee\_state.rs\<close>

definition test_classic_meta_count :: bool where
  "test_classic_meta_count =
     (let a = \<lparr>cl_group = pubkey_test 1 1, cl_asset_bank = pubkey_test 1 2, cl_liab_bank = pubkey_test 1 3,
            cl_liquidator_marginfi_account = pubkey_test 1 4, cl_authority = pubkey_test 1 5,
            cl_liquidatee_marginfi_account = pubkey_test 1 6, cl_bank_liquidity_vault_authority = pubkey_test 1 7,
            cl_bank_liquidity_vault = pubkey_test 1 8, cl_bank_insurance_vault = pubkey_test 1 9,
            cl_token_program = pubkey_test 1 10, cl_remaining = [pubkey_test 1 11]\<rparr>
      in length (classic_liquidate_metas a) = 11)"

definition test_start_end_meta_roles :: bool where
  "test_start_end_meta_roles =
     (let s = \<lparr>st_marginfi_account = pubkey_test 2 1, st_liquidation_record = pubkey_test 2 2,
            st_group = pubkey_test 2 3, st_liquidation_receiver = pubkey_test 2 4,
            st_instruction_sysvar = pubkey_test 2 5, st_remaining_writable = []\<rparr>;
          e = \<lparr>en_marginfi_account = pubkey_test 2 1, en_liquidation_record = pubkey_test 2 2,
            en_group = pubkey_test 2 3, en_liquidation_receiver = pubkey_test 2 4, en_fee_state = pubkey_test 2 6,
            en_global_fee_wallet = pubkey_test 2 7, en_system_program = pubkey_test 2 8, en_fee_payer = None\<rparr>
      in length (start_liquidation_metas s) = 5 \<and> length (end_liquidation_metas e) = 7)"

definition test_insurance_is_difference :: bool where
  "test_insurance_is_difference =
     (let seized = 10000
      in classic_insurance_take seized = classic_assumed_liability seized - classic_borrower_debt_relief seized)"

definition test_sizing_caps_at_100pct :: bool where
  "test_sizing_caps_at_100pct = (size_classic_seize 1000 8000 = 800 \<and> size_classic_seize 1000 12000 = 1000)"

definition test_profit_cap_at_10pct :: bool where
  "test_profit_cap_at_10pct = (receivership_profit_ok 110 100 1000 \<and> \<not> receivership_profit_ok 111 100 1000
     \<and> max_seize_for_repay 100 1000 = 110)"

definition test_health_must_rise :: bool where
  "test_health_must_rise =
     (health_improved (- 100) (- 50) \<and> \<not> health_improved (- 50) (- 50) \<and> \<not> health_improved (- 40) (- 50))"

definition test_parse_fixture_10pct_fee :: bool where
  "test_parse_fixture_10pct_fee =
     (let wallet = pubkey_test 9 9;
          bytes = fixture_fee_state_bytes 1000 5000 wallet False
      in case parse_fee_state bytes of
           Inl e \<Rightarrow> False
         | Inr view \<Rightarrow> fs_liquidation_max_fee_bps view = 1000
             \<and> fs_liquidation_flat_sol_fee_lamports view = 5000
             \<and> fs_global_fee_wallet view = wallet \<and> \<not> fs_paused view)"

definition test_parse_detects_pause_flag :: bool where
  "test_parse_detects_pause_flag =
     (let bytes = fixture_fee_state_bytes 500 0 pubkey_default True
      in case parse_fee_state bytes of
           Inl e \<Rightarrow> False
         | Inr view \<Rightarrow> fs_paused view \<and> fs_liquidation_max_fee_bps view = 500)"

definition test_rejects_short_buffer :: bool where
  "test_rejects_short_buffer \<longleftrightarrow> isl (parse_fee_state [1, 2, 3])"

lemma test_classic_meta_count_passes: test_classic_meta_count
  by (simp add: test_classic_meta_count_def classic_liquidate_metas_def)

lemma test_start_end_meta_roles_passes: test_start_end_meta_roles
  by (simp add: test_start_end_meta_roles_def start_liquidation_metas_def end_liquidation_metas_def)

lemma test_insurance_is_difference_passes: test_insurance_is_difference
  by (simp add: test_insurance_is_difference_def classic_insurance_take_def classic_assumed_liability_def
      classic_borrower_debt_relief_def sat_sub_def)

lemma test_sizing_caps_at_100pct_passes: test_sizing_caps_at_100pct
  by (simp add: test_sizing_caps_at_100pct_def size_classic_seize_def min_def word_le_nat_alt)

lemma test_profit_cap_at_10pct_passes: test_profit_cap_at_10pct
  by (simp add: test_profit_cap_at_10pct_def receivership_profit_ok_def max_seize_for_repay_def)

lemma test_health_must_rise_passes: test_health_must_rise
  by (simp add: test_health_must_rise_def health_improved_def)

lemma test_parse_fixture_10pct_fee_passes: test_parse_fixture_10pct_fee
  by (simp add: test_parse_fixture_10pct_fee_def fee_state_roundtrip)

lemma test_parse_detects_pause_flag_passes: test_parse_detects_pause_flag
  by (simp add: test_parse_detects_pause_flag_def fee_state_roundtrip)

lemma test_rejects_short_buffer_passes: test_rejects_short_buffer
  by (simp add: test_rejects_short_buffer_def parse_fee_state_def fee_state_body_def)

end
