(* ===== verification/ExecTests.thy ===== *)
theory ExecTests
  imports Plan Vtx Execution SaveTests
begin

text \<open>
  The unit tests of \<^verbatim>\<open>crates/liq-execution/src\<close> as checks of the model, stated and proved as in theory
  \<open>CoreTests\<close>. A lock around the fields of a mock is the field; the tests that only compare fixed base58 texts are
  left out.
\<close>

section \<open>plan.rs\<close>

definition test_planner_selects_kamino_flash_builder :: "crypto \<Rightarrow> bool" where
  "test_planner_selects_kamino_flash_builder c =
     (let accounts = from_seed (pubkey_test 1 1);
          planned = build_strategy_ixs c Kamino KaminoFlashBorrow accounts 1000000 blob_default;
          ixs = pn_labeled planned
      in pn_used_flash_builder planned \<and> pn_swap_incomplete planned
         \<and> list_ex (\<lambda>l. str_contains (li_label l) ''flash_borrow'') ixs
         \<and> list_ex (\<lambda>l. str_contains (li_label l) ''flash_repay'') ixs
         \<and> (case List.find (\<lambda>l. str_contains (li_label l) ''flash_borrow'') ixs of
              None \<Rightarrow> False
            | Some borrow \<Rightarrow> am_pubkey (ix_accounts (li_ix borrow) ! 8) = prog_klend
                \<and> \<not> am_is_writable (ix_accounts (li_ix borrow) ! 8)))"

definition test_planner_kamino_inventory_skips_flash :: "crypto \<Rightarrow> bool" where
  "test_planner_kamino_inventory_skips_flash c =
     (let accounts = from_seed (pubkey_test 1 2);
          planned = build_strategy_ixs c Kamino Inventory accounts 1000 blob_default
      in \<not> pn_used_flash_builder planned
         \<and> \<not> list_ex (\<lambda>l. str_contains (li_label l) ''flash_borrow'') (pn_labeled planned))"

definition test_farm_placeholder_metas_use_klend :: "crypto \<Rightarrow> bool" where
  "test_farm_placeholder_metas_use_klend c =
     (let metas = liquidate_v2_metas (kamino_liquidate_accounts c (from_seed (pubkey_test 9 9)))
      in list_all (\<lambda>name. case meta_named name metas of
             None \<Rightarrow> False
           | Some m \<Rightarrow> md_key m = prog_klend \<and> md_key m \<noteq> prog_kfarms c)
           [''collateral_obligation_farm_user_state'', ''collateral_reserve_farm_state'',
            ''debt_obligation_farm_user_state'', ''debt_reserve_farm_state'']
         \<and> (case meta_named ''farms_program'' metas of None \<Rightarrow> False | Some fp \<Rightarrow> md_key fp = prog_kfarms c))"

definition test_planner_save_flash_uses_builder :: "crypto \<Rightarrow> bool" where
  "test_planner_save_flash_uses_builder c =
     (let planned = build_strategy_ixs c Save SaveFlashLoan (from_seed (pubkey_test 7 1)) 1000000 blob_default
      in pn_used_flash_builder planned
         \<and> list_ex (\<lambda>l. li_label l = ''FlashBorrowReserveLiquidity'') (pn_labeled planned))"

definition test_planner_emits_create_idempotent :: "crypto \<Rightarrow> bool" where
  "test_planner_emits_create_idempotent c =
     (let accounts = (from_seed (pubkey_test 1 1))
            \<lparr>pa_repay_liquidity_mint := Some (pubkey_test 1 100),
             pa_withdraw_collateral_mint := Some (pubkey_test 1 103),
             pa_withdraw_liquidity_mint := Some (pubkey_test 1 102),
             pa_repay_token_program := Some prog_token, pa_withdraw_token_program := Some prog_token\<rparr>;
          ixs = pn_labeled (build_strategy_ixs c Kamino KaminoFlashBorrow accounts 1000000 blob_default);
          creates = map fst (filter (\<lambda>(i, l). str_contains (li_label l) ''CreateIdempotent'') (enumerate 0 ixs))
      in creates \<noteq> []
         \<and> (case (label_position ((=) ''flash_borrow_reserve_liquidity'') ixs,
                  label_position (containing ''liquidate'') ixs) of
              (Some borrow, Some liq) \<Rightarrow> list_all (\<lambda>i. i < borrow) creates \<and> borrow < liq
            | _ \<Rightarrow> False)
         \<and> (let cix = li_ix (ixs ! hd creates)
            in ix_program_id cix = prog_associated_token c \<and> ix_data cix = [1] \<and> length (ix_accounts cix) = 6))"

definition missing_filter_accounts :: plan_account_set where
  "missing_filter_accounts = (from_seed (pubkey_test 2 2))
     \<lparr>pa_repay_liquidity_mint := Some (pubkey_test 2 100), pa_withdraw_collateral_mint := Some (pubkey_test 2 103),
      pa_withdraw_liquidity_mint := Some (pubkey_test 2 102)\<rparr>"

definition test_missing_ata_filter :: "crypto \<Rightarrow> bool" where
  "test_missing_ata_filter c =
     (let all = liquidator_ensure_atas c missing_filter_accounts;
          only = ata_address c (all ! 1);
          filtered = liquidator_ensure_atas c (missing_filter_accounts\<lparr>pa_missing_ata_filter := Some [only]\<rparr>)
      in length all = 3 \<and> length filtered = 1 \<and> ata_address c (filtered ! 0) = only)"

lemmas plan_test_simps = from_seed_def blob_default_def attach_or_omit_def kamino_params_def flash_reserves_def
  inventory_reserves_def kamino_flash_pair_def liquidator_ensure_atas_def padded_def tx_test_simps

lemma test_planner_selects_kamino_flash_builder_passes: "test_planner_selects_kamino_flash_builder c"
  by (simp add: test_planner_selects_kamino_flash_builder_def plan_test_simps flash_borrow_metas_def referrer_meta_def
      absent_referrer_meta_def)

lemma test_planner_kamino_inventory_passes: "test_planner_kamino_inventory_skips_flash c"
  by (simp add: test_planner_kamino_inventory_skips_flash_def plan_test_simps)

lemma test_farm_placeholder_metas_pass:
  "prog_kfarms c \<noteq> prog_klend \<Longrightarrow> test_farm_placeholder_metas_use_klend c"
  by (simp add: test_farm_placeholder_metas_use_klend_def kamino_liquidate_accounts_def from_seed_def meta_named_def
      liquidate_v2_metas_def opt_farm_def Let_def)

lemma test_planner_save_flash_passes: "test_planner_save_flash_uses_builder c"
  by (simp add: test_planner_save_flash_uses_builder_def save_flash_accounts_def from_seed_def blob_default_def
      attach_or_omit_def build_flash_atomic_plan_def Let_def)

text \<open>The block of instructions that create token accounts, whatever its length.\<close>

lemma label_position_append:
  "label_position P (xs @ ys) = (case label_position P xs of Some i \<Rightarrow> Some i
     | None \<Rightarrow> map_option (\<lambda>j. length xs + j) (label_position P ys))"
proof (induction xs)
  case Nil
  show ?case by (cases "label_position P ys") simp_all
next
  case (Cons x xs)
  then show ?case by (cases "label_position P xs"; cases "label_position P ys") simp_all
qed

lemma label_position_None: "label_position P ls = None \<longleftrightarrow> list_all (\<lambda>l. \<not> P (li_label l)) ls"
  by (induction ls) simp_all

lemma ensure_block: "list_all (\<lambda>l. \<exists>e. l = ensure_ata_to_labeled_ix c e) (ensure_ata_loop c seen specs)"
  by (induction c seen specs rule: ensure_ata_loop.induct) (auto simp: Let_def)

lemma filter_enumerate:
  "list_all P ls \<Longrightarrow> filter (\<lambda>(i, l). P l) (enumerate n ls) = enumerate n ls"
  "list_all (\<lambda>l. \<not> P l) ls \<Longrightarrow> filter (\<lambda>(i, l). P l) (enumerate n ls) = []"
  by (induction ls arbitrary: n) simp_all

definition creates_first :: "crypto \<Rightarrow> labeled_ix list \<Rightarrow> bool" where
  "creates_first c ixs =
     (let creates = map fst (filter (\<lambda>(i, l). str_contains (li_label l) ''CreateIdempotent'') (enumerate 0 ixs))
      in creates \<noteq> []
         \<and> (case (label_position ((=) ''flash_borrow_reserve_liquidity'') ixs,
                  label_position (containing ''liquidate'') ixs) of
              (Some borrow, Some liq) \<Rightarrow> list_all (\<lambda>i. i < borrow) creates \<and> borrow < liq
            | _ \<Rightarrow> False)
         \<and> (let cix = li_ix (ixs ! hd creates)
            in ix_program_id cix = prog_associated_token c \<and> ix_data cix = [1] \<and> length (ix_accounts cix) = 6))"

lemma creates_block:
  assumes "list_all (\<lambda>l. \<not> str_contains (li_label l) ''CreateIdempotent''
      \<and> li_label l \<noteq> ''flash_borrow_reserve_liquidity'' \<and> \<not> str_contains (li_label l) ''liquidate'') A"
    and "list_all (\<lambda>l. \<not> str_contains (li_label l) ''CreateIdempotent'') B"
    and "label_position ((=) ''flash_borrow_reserve_liquidity'') B = Some 0"
    and "label_position (containing ''liquidate'') B = Some (Suc j)"
  shows "creates_first c (A @ ensure_ata_loop c [] (spec # specs) @ B)"
proof -
  define L where "L = ensure_ata_loop c [] (spec # specs)"
  obtain L' where L': "L = ensure_ata_to_labeled_ix c spec # L'" by (simp add: L_def Let_def)
  have all: "list_all (\<lambda>l. \<exists>e. l = ensure_ata_to_labeled_ix c e) L" unfolding L_def by (rule ensure_block)
  have create: "list_all (\<lambda>l. str_contains (li_label l) ''CreateIdempotent'') L"
    "list_all (\<lambda>l. li_label l \<noteq> ''flash_borrow_reserve_liquidity'') L"
    "list_all (\<lambda>l. \<not> str_contains (li_label l) ''liquidate'') L"
    using all by (auto simp: list_all_iff ensure_ata_to_labeled_ix_def)
  have A: "list_all (\<lambda>l. \<not> str_contains (li_label l) ''CreateIdempotent'') A"
    "list_all (\<lambda>l. li_label l \<noteq> ''flash_borrow_reserve_liquidity'') A"
    "list_all (\<lambda>l. \<not> str_contains (li_label l) ''liquidate'') A"
    using assms(1) by (auto simp: list_all_iff)
  have none: "label_position ((=) ''flash_borrow_reserve_liquidity'') A = None"
    "label_position ((=) ''flash_borrow_reserve_liquidity'') L = None"
    "label_position (containing ''liquidate'') A = None" "label_position (containing ''liquidate'') L = None"
    using A(2,3) create(2,3) by (auto simp: label_position_None list_all_iff)
  have c: "map fst (filter (\<lambda>(i, l). str_contains (li_label l) ''CreateIdempotent'') (enumerate 0 (A @ L @ B)))
      = [length A..<length A + length L]"
    by (simp add: enumerate_append_eq filter_enumerate A(1) create(1) assms(2))
  have p: "label_position ((=) ''flash_borrow_reserve_liquidity'') (A @ L @ B) = Some (length A + length L)"
    "label_position (containing ''liquidate'') (A @ L @ B) = Some (length A + length L + Suc j)"
    by (simp_all add: label_position_append none assms(3,4))
  have "[length A..<length A + length L] = length A # [Suc (length A)..<length A + length L]"
    using upt_conv_Cons [of "length A" "length A + length L"] by (simp add: L' del: upt_Suc)
  moreover have "li_ix ((A @ L @ B) ! length A) =
      create_ata_idempotent c (ea_payer spec) (ea_owner spec) (ea_mint spec) (ea_token_program spec)"
    by (simp add: L' nth_append ensure_ata_to_labeled_ix_def labeled_def)
  moreover have "L \<noteq> []" by (simp add: L')
  ultimately show ?thesis
    unfolding creates_first_def L_def [symmetric] Let_def c p
    by (simp add: create_ata_idempotent_def list_all_iff Let_def del: upt_Suc)
qed

lemma refresh_labels:
  "list_all (\<lambda>l. li_label l \<in> {''refresh_reserve'', ''refresh_obligation''}) (refresh_ixs p)"
  "list_all (\<lambda>l. li_label l \<in> {''refresh_reserve'', ''refresh_obligation''}) (post_flash_refresh_ixs p r)"
proof -
  have "li_label (refresh_reserve_ix p k) = ''refresh_reserve''" for k
    by (simp add: refresh_reserve_ix_def split: option.split)
  then show "list_all (\<lambda>l. li_label l \<in> {''refresh_reserve'', ''refresh_obligation''}) (refresh_ixs p)"
    "list_all (\<lambda>l. li_label l \<in> {''refresh_reserve'', ''refresh_obligation''}) (post_flash_refresh_ixs p r)"
    by (simp_all add: refresh_ixs_def post_flash_refresh_ixs_def refresh_obligation_ix_def list_all_iff Let_def)
qed

lemma flash_tx_creates_first:
  assumes "build_flash_tx c p [] = Some ixs" "kp_ensure_atas p = spec # specs"
  shows "creates_first c ixs"
proof -
  obtain b r where f: "kp_flash p = Some (b, r)"
    using assms(1) by (cases "kp_flash p") (auto simp: build_flash_tx_def)
  let ?A = "[cu_limit_ix (kp_cu_limit p), cu_price_ix (kp_cu_price p)] @ refresh_ixs p"
  let ?post = "post_flash_refresh_ixs p (kfb_reserve b)"
  let ?repay = "labeled ''flash_repay_reserve_liquidity''
    (flash_repay_build_ix r (kp_liquidity_amount p) (word_of_nat (length (?A @ ensure_ata_ixs c p))))"
  let ?B = "[labeled ''flash_borrow_reserve_liquidity'' (flash_borrow_build_ix b (kp_liquidity_amount p))]
    @ ?post @ [liquidate_ix p] @ [?repay]"
  have ixs: "ixs = ?A @ ensure_ata_loop c [] (spec # specs) @ ?B"
    using assms by (simp add: build_flash_tx_def f ensure_ata_ixs_def Let_def)
  have "label_position (containing ''liquidate'') ?post = None"
    unfolding label_position_None using refresh_labels(2) by (rule list.pred_mono_strong) auto
  then have "label_position (containing ''liquidate'') ?B = Some (Suc (length ?post))"
    by (simp add: label_position_append liquidate_ix_def)
  moreover have "list_all (\<lambda>l. \<not> str_contains (li_label l) ''CreateIdempotent''
      \<and> li_label l \<noteq> ''flash_borrow_reserve_liquidity'' \<and> \<not> str_contains (li_label l) ''liquidate'') ?A"
  proof -
    have "list_all (\<lambda>l. \<not> str_contains (li_label l) ''CreateIdempotent''
      \<and> li_label l \<noteq> ''flash_borrow_reserve_liquidity'' \<and> \<not> str_contains (li_label l) ''liquidate'') (refresh_ixs p)"
      using refresh_labels(1) by (rule list.pred_mono_strong) auto
    then show ?thesis by (simp add: cu_limit_ix_def cu_price_ix_def)
  qed
  moreover have "list_all (\<lambda>l. \<not> str_contains (li_label l) ''CreateIdempotent'') ?B"
  proof -
    have "list_all (\<lambda>l. \<not> str_contains (li_label l) ''CreateIdempotent'') ?post"
      using refresh_labels(2) by (rule list.pred_mono_strong) auto
    then show ?thesis by (simp add: liquidate_ix_def)
  qed
  ultimately show ?thesis unfolding ixs by (intro creates_block) simp_all
qed

lemma test_planner_emits_create_idempotent_passes: "test_planner_emits_create_idempotent c"
proof -
  have "creates_first c (pn_labeled (build_strategy_ixs c Kamino KaminoFlashBorrow a 1000000 blob_default))"
    if "liquidator_ensure_atas c a = spec # specs" for a spec specs
  proof -
    obtain ixs where "build_flash_tx c (flash_params c a 1000000) (jq_instructions blob_default) = Some ixs"
      "pn_labeled (build_strategy_ixs c Kamino KaminoFlashBorrow a 1000000 blob_default) = ixs"
      using kamino_flash_plan_tx by metis
    then show ?thesis
      using that flash_tx_creates_first [of c "flash_params c a 1000000" ixs spec specs]
      by (simp add: blob_default_def flash_params_def kamino_params_def)
  qed
  moreover have "\<exists>spec specs. liquidator_ensure_atas c a = spec # specs" if "pa_missing_ata_filter a = None" for a
    using that by (simp add: liquidator_ensure_atas_def Let_def)
  ultimately have "creates_first c (pn_labeled (build_strategy_ixs c Kamino KaminoFlashBorrow a 1000000 blob_default))"
    if "pa_missing_ata_filter a = None" for a
    using that by metis
  moreover have "pa_missing_ata_filter (from_seed k) = None" for k by (simp add: from_seed_def Let_def)
  ultimately show ?thesis
    unfolding test_planner_emits_create_idempotent_def Let_def creates_first_def [unfolded Let_def, symmetric]
    by simp
qed

text \<open>The addresses of the three token accounts differ when the hash has no collision on them.\<close>

lemma test_missing_ata_filter_passes:
  assumes "distinct (map (\<lambda>m. get_associated_token_address c (pa_liquidator missing_filter_accounts) m prog_token)
    [pubkey_test 2 100, pubkey_test 2 103, pubkey_test 2 102])"
  shows "test_missing_ata_filter c"
  using assms
  by (auto simp: test_missing_ata_filter_def missing_filter_accounts_def liquidator_ensure_atas_def ata_address_make
      from_seed_def Let_def)

section \<open>vtx.rs\<close>

definition memo_like :: "u8 list \<Rightarrow> instruction" where
  "memo_like bytes = instruction_new prog_system [meta_new_readonly (pubkey_test 9 1) False] bytes"

definition test_encode_cu_and_memo ::
    "(u8 list \<Rightarrow> string) \<Rightarrow> (string \<Rightarrow> u8 list option) \<Rightarrow> pubkey list \<Rightarrow> bool" where
  "test_encode_cu_and_memo encode decode order =
     (let payer = pubkey_test 1 1;
          ixs = [compute_unit_limit 200000, compute_unit_price 1000, memo_like (ascii ''shadow-vtx-test'')]
      in case encode_versioned_tx_base64 encode order ixs payer (replicate 32 7) of
           Inl e \<Rightarrow> False
         | Inr b64 \<Rightarrow> b64 \<noteq> []
             \<and> (case decode b64 of
                  None \<Rightarrow> False
                | Some raw \<Rightarrow> 100 < length raw \<and> list_ex (\<lambda>b. b = 0x80) raw \<and> raw ! 0 = 1
                    \<and> list_all (\<lambda>b. b = 0) (slice raw 1 65) \<and> raw ! 65 = 0x80))"

definition test_empty_ixs_err :: "(u8 list \<Rightarrow> string) \<Rightarrow> pubkey list \<Rightarrow> bool" where
  "test_empty_ixs_err encode order =
     (let payer = pubkey_test 1 2
      in encode_versioned_tx_base64 encode order [] payer (replicate 32 0) = Inl EmptyInstructions)"

definition test_blockhash_b58_roundtrip_len :: "crypto \<Rightarrow> (u8 list \<Rightarrow> string) \<Rightarrow> bool" where
  "test_blockhash_b58_roundtrip_len c b58_encode =
     (let h = replicate 32 9; s = b58_encode h
      in blockhash_from_base58 c s = Some h)"

lemma test_empty_ixs_err_passes: "test_empty_ixs_err encode order"
  by (simp add: test_empty_ixs_err_def encode_versioned_tx_base64_def encode_versioned_tx_bytes_def)

lemma test_encode_cu_and_memo_passes:
  assumes iter: "iterates order (pubkey_test 1 1)
      [compute_unit_limit 200000, compute_unit_price 1000, memo_like (ascii ''shadow-vtx-test'')]"
    and codec: "\<And>bs. decode (encode bs) = Some bs" "\<And>bs. bs \<noteq> [] \<Longrightarrow> encode bs \<noteq> []"
  shows "test_encode_cu_and_memo encode decode order"
proof -
  let ?fp = "pubkey_test 1 1"
  let ?ixs = "[compute_unit_limit 200000, compute_unit_price 1000, memo_like (ascii ''shadow-vtx-test'')]"
  have "\<not> (\<exists>ix \<in> set ?ixs. signs ix k)" for k
    by (simp add: signs_def compute_unit_limit_def compute_unit_price_def memo_like_def instruction_new_def
        meta_new_readonly_def)
  then have "k \<notin> set (keys_with (collect_flags ?fp ?ixs) ?fp order True w)" for k w
    by (subst in_tab [OF iter]) (simp add: collect_flags_facts)
  then have none: "keys_with (collect_flags ?fp ?ixs) ?fp order True w = []" for w by (simp add: set_empty [symmetric] set_eq_iff)
  have "dom (collect_flags ?fp ?ixs) \<subseteq> set [?fp, prog_compute_budget, prog_system, pubkey_test 9 1]"
    by (auto simp: collect_flags_facts names_key_def compute_unit_limit_def compute_unit_price_def memo_like_def
        instruction_new_def meta_new_readonly_def)
  then have "card (dom (collect_flags ?fp ?ixs)) \<le> card (set [?fp, prog_compute_budget, prog_system, pubkey_test 9 1])"
    by (intro card_mono) simp_all
  also have "\<dots> \<le> 4" by (rule order_trans [OF card_length]) simp
  finally have "length (account_keys order ?fp ?ixs) \<le> 256" by (simp add: key_count [OF iter])
  from encode_eq [OF iter _ this, of "replicate 32 7"]
  obtain rest where "encode_versioned_tx_bytes order ?ixs ?fp (replicate 32 7)
      = Inr ([1] @ replicate 64 0 @ [0x80] @ rest)" "34 < length rest"
    by (simp add: none shortvec_encode.simps [of "Suc 0"] Let_def)
  then show ?thesis
    by (simp add: test_encode_cu_and_memo_def encode_versioned_tx_base64_def codec slice_def nth_append
        list_all_iff Let_def)
qed

lemma test_blockhash_b58_passes:
  assumes "\<And>bs. b58_decode c (b58_encode bs) = Some bs" shows "test_blockhash_b58_roundtrip_len c b58_encode"
  by (simp add: test_blockhash_b58_roundtrip_len_def blockhash_from_base58_def assms)

section \<open>Caches, bids and senders\<close>

definition test_evaluate_returns_best_for_save :: bool where
  "test_evaluate_returns_best_for_save =
     (let cfg = \<lparr>pc_min_profit_usd_micro = 100000, pc_min_roi_bps = 1, pc_max_cost_usd_micro = 50000000,
            pc_min_notional_usd_micro = 1\<rparr>;
          plan = evaluate_funding cfg Save 4000000 100000 50000 50000 50000000 0 9
      in map_option sp_strategy (plan_best plan) = Some SaveFlashLoan)"

definition test_failover_to_second :: bool where
  "test_failover_to_second =
     (let m = (mock_rpc_new [\<lparr>re_name = ''a'', re_url = ''http://a''\<rparr>, \<lparr>re_name = ''b'', re_url = ''http://b''\<rparr>])
            \<lparr>mr_failing := [0]\<rparr>;
          tx = \<lparr>pt_label = ''t'', pt_protocol = ''p0'', pt_account = ''x'', pt_notional_usd_micro = 1,
            pt_expected_profit_usd_micro = 1, pt_wire = [], pt_ixs = [], pt_instructions = [],
            pt_funding_strategy = None\<rparr>
      in case send_tx m tx of
           (Inl e, m') \<Rightarrow> False
         | (Inr r, m') \<Rightarrow> str_contains (sr_detail r) ''b'' \<and> mr_attempts m' = [''a'', ''b''])"

definition test_mock_records_bundle :: bool where
  "test_mock_records_bundle =
     (let bundle = \<lparr>jb_txs = [\<lparr>pt_label = ''x'', pt_protocol = ''save'', pt_account = ''a'',
              pt_notional_usd_micro = 1, pt_expected_profit_usd_micro = 1, pt_wire = [1, 2], pt_ixs = [],
              pt_instructions = [], pt_funding_strategy = None\<rparr>],
            jb_tip_lamports = 10000\<rparr>
      in case send_bundle mock_jito_new bundle of
           (Inl e, m) \<Rightarrow> False
         | (Inr r, m) \<Rightarrow> sr_accepted r \<and> length (mj_sent m) = 1)"

definition test_template_cache_roundtrip :: bool where
  "test_template_cache_roundtrip =
     (let acct = pubkey_test 3 1;
          c = template_put template_cache_new \<lparr>tt_account = acct, tt_protocol = ''kamino'',
            tt_ix_labels = [''refresh'', ''liq''], tt_ix_datas = [[1], [2]], tt_account_metas = [pubkey_test 3 2],
            tt_updated_slot = 99\<rparr>
      in map_option tt_updated_slot (template_get c acct) = Some 99
         \<and> template_get (template_invalidate c acct) acct = None)"

definition test_profiles_escalate :: bool where
  "test_profiles_escalate =
     (let p = 2000000; c = compute_bid Conservative p; a = compute_bid Aggressive p; m = compute_bid MaxCapture p
      in bq_jito_tip_lamports c \<le> bq_jito_tip_lamports a \<and> bq_jito_tip_lamports a \<le> bq_jito_tip_lamports m
         \<and> bq_priority_fee_micro_lamports c < bq_priority_fee_micro_lamports a)"

definition test_floor_at_base_tip :: bool where
  "test_floor_at_base_tip \<longleftrightarrow> bq_jito_tip_lamports (compute_bid Balanced 0) = base_tip_lamports Balanced"

definition test_resolve_by_index :: bool where
  "test_resolve_by_index =
     (let table = pubkey_test 1 1;
          m = alt_upsert alt_new \<lparr>ae_table = table, ae_addresses = [pubkey_test 2 1, pubkey_test 2 2]\<rparr>
      in resolve_index m table 1 = Some (pubkey_test 2 2) \<and> resolve_index m table 9 = None)"

definition test_put_and_get :: "(nat \<Rightarrow> nat) \<Rightarrow> bool" where
  "test_put_and_get now =
     (let c = blockhash_cache_new 60; c' = blockhash_put (now 2) c (replicate 32 7) 42
      in \<not> blockhash_is_fresh (now 1) c
         \<and> (case get_fresh (now 3) c' of
              None \<Rightarrow> False
            | Some got \<Rightarrow> cbh_slot got = 42 \<and> cbh_hash got ! 0 = 7))"

definition test_dry_run_succeeds_with_bid :: "nat \<Rightarrow> nat \<Rightarrow> bool" where
  "test_dry_run_succeeds_with_bid now later =
     (let risk = cb_new risk_limits_default metrics_new;
          cfg = exec_config_default\<lparr>ec_bid_profile := Aggressive\<rparr>;
          eng = engine_new cfg risk metrics_new;
          tx = \<lparr>pt_label = ''test'', pt_protocol = ''kamino'', pt_account = ''acct'',
            pt_notional_usd_micro = 50000000, pt_expected_profit_usd_micro = 1000000, pt_wire = [],
            pt_ixs = [''refresh'', ''liquidate''], pt_instructions = [], pt_funding_strategy = None\<rparr>
      in case execute now later eng tx 0 of
           (Inl e, eng') \<Rightarrow> False
         | (Inr r, eng') \<Rightarrow> sr_dry_run r \<and> str_contains (sr_detail r) ''tip=''
             \<and> m_dry_run_skips (ee_metrics eng') = 1)"

lemma test_evaluate_returns_best_passes: test_evaluate_returns_best_for_save
  by (simp add: test_evaluate_returns_best_for_save_def evaluate_funding_def funding_test_simps)

lemma test_failover_to_second_passes: test_failover_to_second
  by (simp add: test_failover_to_second_def mock_rpc_new_def send_tx_def Let_def)

lemma test_mock_records_bundle_passes: test_mock_records_bundle
  by (simp add: test_mock_records_bundle_def send_bundle_def mock_jito_new_def Let_def)

lemma test_template_cache_roundtrip_passes: test_template_cache_roundtrip
  by (simp add: test_template_cache_roundtrip_def template_put_def template_get_def template_invalidate_def)

lemma test_profiles_escalate_passes: test_profiles_escalate
  by (simp add: test_profiles_escalate_def compute_bid_def sat_mul_def max_def min_def word_le_nat_alt Let_def)

lemma test_floor_at_base_tip_passes: test_floor_at_base_tip
  by (simp add: test_floor_at_base_tip_def compute_bid_def sat_mul_def max_def Let_def)

lemma test_resolve_by_index_passes: test_resolve_by_index
  by (simp add: test_resolve_by_index_def alt_upsert_def alt_get_def resolve_index_def)

lemma test_put_and_get_passes: "now 3 \<le> now 2 + 60 * 10 ^ 9 \<Longrightarrow> test_put_and_get now"
  by (simp add: test_put_and_get_def blockhash_cache_new_def blockhash_put_def blockhash_is_fresh_def get_fresh_def)

lemma test_dry_run_succeeds_passes: "test_dry_run_succeeds_with_bid now later"
  by (simp add: test_dry_run_succeeds_with_bid_def execute_def engine_new_def exec_config_default_def check_allow_def
      cb_new_def risk_limits_default_def rw_new_def rw_sum_def rw_prune_def sat_add_def metrics_new_def counter_inc_def
      counter_add_def Let_def)

end
