(* ===== verification/StreamTests.thy ===== *)
theory StreamTests
  imports Failover RpcPool JsonRpc EnvFile Fixtures Discovery Routing LiveTests
begin

text \<open>
  The unit tests of \<^verbatim>\<open>crates/liq-streaming/src\<close> and \<^verbatim>\<open>crates/liq-routing/src\<close> as checks of the
  model, stated and proved as in theory \<open>CoreTests\<close>. JSON, base58 and base64 are the argument \<open>j\<close>, of which a
  test needs \<open>json_laws\<close>; a handler that records its calls has them as its state. The tests that read files
  of the repository or only decode fixed base58 texts are left out.
\<close>

section \<open>failover.rs\<close>

definition test_failover_selects_fresh_over_stale :: "(nat \<Rightarrow> u64) \<Rightarrow> bool" where
  "test_failover_selects_fresh_over_stale now =
     (let t0 = tracker_new [''primary'', ''backup''] \<lparr>pol_max_slot_lag = 8, pol_max_silence_ms = 60000\<rparr>;
          t1 = tracker_record (now 1) ''backup'' 100 t0;
          t2 = tracker_record (now 2) ''primary'' 80 t1;
          (primary_stale, t3) = is_stale (now 3) ''primary'' t2;
          (backup_stale, t4) = is_stale (now 4) ''backup'' t3;
          (sel, t5) = select_primary (now 5) t4
      in primary_stale \<and> \<not> backup_stale \<and> sel = Some ''backup'')"

definition test_silence_marks_stale :: "(nat \<Rightarrow> u64) \<Rightarrow> bool" where
  "test_silence_marks_stale now =
     (let t0 = tracker_new [''solo''] \<lparr>pol_max_slot_lag = 1000, pol_max_silence_ms = 1\<rparr>;
          t1 = tracker_record (now 1) ''solo'' 1 t0
      in fst (is_stale (now 2) ''solo'' t1))"

definition received :: "u64 \<Rightarrow> (stream_error + string \<times> stream_event list) \<times> failover_mux \<Rightarrow> stream_event list option" where
  "received ts r = (case r of (Inl e, m) \<Rightarrow> None
     | (Inr (name, events), m) \<Rightarrow> Some (fst (forward_events name (map (\<lambda>ev. (ev, ts, True)) events) (fm_tracker m))))"

definition test_mux_drains_selected_provider :: "(nat \<Rightarrow> u64) \<Rightarrow> bool" where
  "test_mux_drains_selected_provider now =
     (let asset = pubkey_test 9 9;
          primary = mock_subscribe (mock_geyser_named ''primary'' [PriceEvent asset (px (price_from_f64 1)) 10 1]);
          backup = mock_subscribe (mock_geyser_named ''backup'' [PriceEvent asset (px (price_from_f64 2)) 50 1]);
          mux = failover_mux_new [(''primary'', primary), (''backup'', backup)] freshness_policy_default
      in case received (now 3) (mux_subscribe (now 1) (now 2) subscribe_filter_default mux) of
           Some (PriceEvent a price slot wv # evs) \<Rightarrow> price = px (price_from_f64 1)
         | _ \<Rightarrow> False)"

definition test_mux_fails_over_when_primary_stale :: "(nat \<Rightarrow> u64) \<Rightarrow> bool" where
  "test_mux_fails_over_when_primary_stale now =
     (let asset = pubkey_test 9 8;
          primary = mock_subscribe (mock_geyser_named ''primary'' []);
          backup = mock_subscribe (mock_geyser_named ''backup'' [PriceEvent asset (px (price_from_f64 9)) 200 1]);
          mux = failover_mux_new [(''primary'', primary), (''backup'', backup)]
            \<lparr>pol_max_slot_lag = 5, pol_max_silence_ms = 60000\<rparr>;
          mux1 = mux\<lparr>fm_tracker := tracker_record (now 1) ''backup'' 200 (fm_tracker mux)\<rparr>;
          mux2 = mux1\<lparr>fm_tracker := tracker_record (now 2) ''primary'' 10 (fm_tracker mux1)\<rparr>;
          (active, mux3) = active_provider (now 3) mux2
      in active = Some ''backup''
         \<and> (case received (now 6) (mux_subscribe (now 4) (now 5) subscribe_filter_default mux3) of
              Some (PriceEvent a price slot wv # evs) \<Rightarrow> price = px (price_from_f64 9) \<and> slot = 200
            | _ \<Rightarrow> False))"

lemmas failover_test_simps = tracker_new_def tracker_record_def is_stale_def select_primary_def refresh_silence_def
  active_provider_def mux_subscribe_def failover_mux_new_def mock_subscribe_def mock_geyser_named_def received_def
  freshness_policy_default_def sat_sub_def Let_def

text \<open>A provider that is down and one that spoke within the time allowed are left as they are.\<close>

lemma refresh_silence_id:
  assumes "\<And>p. p \<in> set (ft_providers t) \<Longrightarrow> pf_healthy p
    \<Longrightarrow> sat_sub now (pf_last_event_ms p) \<le> pol_max_silence_ms (ft_policy t)"
  shows "refresh_silence now t = t"
proof -
  have "p\<lparr>pf_healthy := live (ft_policy t) now p\<rparr> = p" if "p \<in> set (ft_providers t)" for p
    using assms [OF that] by (cases p) (auto simp: live_def)
  then have "map (\<lambda>p. p\<lparr>pf_healthy := live (ft_policy t) now p\<rparr>) (ft_providers t) = ft_providers t"
    by (intro map_idI)
  then have "ft_providers (refresh_silence now t) = ft_providers t" by (simp only: refresh_silence_providers)
  then show ?thesis by (simp add: refresh_silence_def)
qed

definition two_providers :: "u64 \<Rightarrow> u64 \<Rightarrow> u64 \<Rightarrow> u64 \<Rightarrow> u64 \<Rightarrow> freshness_tracker" where
  "two_providers lag ts1 ts2 slot1 slot2 =
     \<lparr>ft_policy = \<lparr>pol_max_slot_lag = lag, pol_max_silence_ms = 60000\<rparr>,
      ft_providers = [\<lparr>pf_name = ''primary'', pf_last_slot = slot2, pf_last_event_ms = ts2, pf_healthy = False\<rparr>,
        \<lparr>pf_name = ''backup'', pf_last_slot = slot1, pf_last_event_ms = ts1, pf_healthy = True\<rparr>],
      ft_tip_slot = slot1\<rparr>"

lemma two_providers_kept:
  "sat_sub now ts1 \<le> 60000 \<Longrightarrow>
     refresh_silence now (two_providers lag ts1 ts2 slot1 slot2) = two_providers lag ts1 ts2 slot1 slot2"
  by (rule refresh_silence_id) (auto simp: two_providers_def)

lemma two_providers_chosen:
  assumes "sat_sub now ts1 \<le> 60000"
  shows "select_primary now (two_providers lag ts1 ts2 slot1 slot2) = (Some ''backup'', two_providers lag ts1 ts2 slot1 slot2)"
    and "is_stale now ''primary'' (two_providers lag ts1 ts2 slot1 slot2) = (True, two_providers lag ts1 ts2 slot1 slot2)"
    and "is_stale now ''backup'' (two_providers lag ts1 ts2 slot1 slot2) = (False, two_providers lag ts1 ts2 slot1 slot2)"
  using two_providers_kept [OF assms, of lag ts2 slot1 slot2]
  by (simp_all add: select_primary_def is_stale_def Let_def) (simp_all add: two_providers_def)

lemma two_providers_recorded:
  assumes "slot2 \<le> slot1" "lag < slot1 - slot2" "0 < slot1"
  shows "tracker_record ts2 ''primary'' slot2 (tracker_record ts1 ''backup'' slot1
      (tracker_new [''primary'', ''backup''] \<lparr>pol_max_slot_lag = lag, pol_max_silence_ms = 60000\<rparr>))
    = two_providers lag ts1 ts2 slot1 slot2"
  using assms by (simp add: tracker_record_def tracker_new_def two_providers_def sat_sub_def not_less not_le Let_def)

text \<open>The first test takes less than the sixty seconds of its policy; the second one sleeps.\<close>

lemma test_failover_selects_fresh_passes:
  assumes "\<And>k. sat_sub (now k) (now 1) \<le> 60000"
  shows "test_failover_selects_fresh_over_stale now"
  using assms
  by (simp add: test_failover_selects_fresh_over_stale_def two_providers_recorded two_providers_chosen)

lemma test_silence_marks_stale_passes:
  "now 1 \<noteq> 0 \<Longrightarrow> now 1 < now 2 \<Longrightarrow> 1 < now 2 - now 1 \<Longrightarrow> test_silence_marks_stale now"
  by (simp add: test_silence_marks_stale_def failover_test_simps)

lemma test_mux_drains_selected_provider_passes: "test_mux_drains_selected_provider now"
  by (simp add: test_mux_drains_selected_provider_def failover_test_simps)

lemma test_mux_fails_over_passes:
  assumes "\<And>k. sat_sub (now k) (now 1) \<le> 60000"
  shows "test_mux_fails_over_when_primary_stale now"
  using assms
  by (simp add: test_mux_fails_over_when_primary_stale_def failover_mux_new_def active_provider_def mux_subscribe_def
      two_providers_recorded two_providers_chosen mock_subscribe_def mock_geyser_named_def received_def Let_def)

section \<open>yellowstone.rs, lib.rs\<close>

definition test_config_from_env_ignores_placeholders :: bool where
  "test_config_from_env_ignores_placeholders =
     (yellowstone_from_env [''GEYSER_ENDPOINT'' \<mapsto> ''https://YOUR_GEYSER_GRPC''] = None
      \<and> (case yellowstone_from_env [''GEYSER_ENDPOINT'' \<mapsto> ''https://grpc.example.test:443''] of
           None \<Rightarrow> False | Some cfg \<Rightarrow> \<not> has_credentials cfg))"

definition test_stub_subscribe_errors_without_live_client :: bool where
  "test_stub_subscribe_errors_without_live_client =
     (case yellowstone_subscribe \<lparr>yc_endpoint = ''https://grpc.example.test:443'', yc_x_token = Some ''test-token'',
             yc_commitment = ''processed'', yc_ping_interval_ms = 1000\<rparr> subscribe_filter_default of
        Some (Inl (SubscribeFailed msg)) \<Rightarrow> str_contains msg ''not linked'' | _ \<Rightarrow> False)"

definition test_mock_replays_events :: bool where
  "test_mock_replays_events =
     (let mock = mock_geyser_new
            [SlotEvent \<lparr>su_slot = 10, su_parent = Some 9, su_root = False\<rparr>,
             AccountEvent \<lparr>au_pubkey = pubkey_test 3 1, au_slot = 10, au_write_version = 1, au_data = ascii ''abc'',
               au_owner = pubkey_test 4 1, au_source = Mock\<rparr>]
      in case drain_all (mock_subscribe mock) of Inl e \<Rightarrow> False | Inr events \<Rightarrow> length events = 2)"

lemma test_config_from_env_passes: test_config_from_env_ignores_placeholders
  by (simp add: test_config_from_env_ignores_placeholders_def yellowstone_from_env_def has_credentials_def)

lemma test_stub_subscribe_passes: test_stub_subscribe_errors_without_live_client
  by (simp add: test_stub_subscribe_errors_without_live_client_def yellowstone_subscribe_def connect_placeholder_def
      has_credentials_def)

lemma test_mock_replays_events_passes: test_mock_replays_events
  by (simp add: test_mock_replays_events_def mock_geyser_new_def mock_subscribe_def drain_all_def)

section \<open>local\_env.rs, redact.rs, discovery.rs\<close>

definition test_parse_basic_env :: bool where
  "test_parse_basic_env =
     (case parse_env_file (''RPC_URL=https://a.example/key'' @ newline @ ''# c'' @ newline @ ''DRY_RUN=true'' @ newline) of
        None \<Rightarrow> False
      | Some m \<Rightarrow> m ''RPC_URL'' = Some ''https://a.example/key'' \<and> m ''DRY_RUN'' = Some ''true'')"

definition test_rpc_urls_split :: bool where
  "test_rpc_urls_split = (length (rpc_urls_from_env [''RPC_URLS'' \<mapsto> ''https://a/x, https://b/y'']) = 2)"

definition test_strips_api_key_path_and_query :: bool where
  "test_strips_api_key_path_and_query =
     (rpc_url_host_only ''https://mainnet.helius-rpc.com/?api-key=SECRET123'' = ''https://mainnet.helius-rpc.com''
      \<and> rpc_url_host_only ''https://mainnet.helius-rpc.com/SECRET123'' = ''https://mainnet.helius-rpc.com'')"

definition test_short_b58_truncates :: bool where
  "test_short_b58_truncates =
     (let out = short_b58 ''7u3HeHxYDLhnCoErrtycNokbQYbWGzLs6JSDqGAv5PfF''
      in str_contains out [CHR 0xE2, CHR 0x80, CHR 0xA6] \<and> \<not> str_contains out ''CoErrtyc'')"

definition test_classify_short_obligation :: "(u8 list \<Rightarrow> string) \<Rightarrow> (f64 \<Rightarrow> string) \<Rightarrow> bool" where
  "test_classify_short_obligation b58 fmt6 \<longleftrightarrow>
     da_decode (classify_klend_obligation b58 fmt6 (pubkey_test 1 1) (replicate 10 0)) = ''incomplete''"

lemma test_parse_basic_env_passes: test_parse_basic_env
  by code_simp

lemma test_rpc_urls_split_passes: test_rpc_urls_split
  by code_simp

lemma test_strips_api_key_passes: test_strips_api_key_path_and_query
  by code_simp

lemma test_short_b58_truncates_passes: test_short_b58_truncates
  by code_simp

lemma test_classify_short_obligation_passes: "test_classify_short_obligation b58 fmt6"
  by (simp add: test_classify_short_obligation_def classify_klend_obligation_def
      classify_klend_obligation_with_reserves_def classify_klend_obligation_full_def)

section \<open>rpc\_pool.rs\<close>

definition test_classify_429_and_5xx :: bool where
  "test_classify_429_and_5xx =
     (classify_error (HttpError ''HTTP 429: ...'') = RateLimited
      \<and> classify_error (HttpError ''HTTP 503: unavailable'') = ServerError
      \<and> classify_error (HttpError ''timeout waiting'') = Timeout)"

text \<open>The handler keeps the calls it got, with the method of each; \<open>us\<close> is the time of an answer.\<close>

definition rotating_handler :: "'v json_rpc_api \<Rightarrow> (nat \<Rightarrow> u64) \<Rightarrow> ((nat \<times> string) list, 'v) rpc_handler" where
  "rotating_handler j us calls idx body =
     (let method = (case Option.bind (j_get j body ''method'') (j_as_str j) of Some m \<Rightarrow> m | None \<Rightarrow> '''');
          answer = (if idx = 0 then Inl (HttpError ''HTTP 429: rate limited'')
                    else if idx = 1 then Inl (HttpError ''HTTP 503: overload'')
                    else Inr (j_obj j [(''jsonrpc'', j_str j ''2.0''), (''id'', j_num j 1), (''result'', j_num j 42)]))
      in (Some answer, us idx, calls @ [(idx, method)]))"

definition test_rotates_on_429_then_succeeds :: "'v json_rpc_api \<Rightarrow> (nat \<Rightarrow> u64) \<Rightarrow> bool" where
  "test_rotates_on_429_then_succeeds j us =
     (case post_json (rotating_handler j us) (mock_for_tests 3) [] (jsonrpc_request j ''getSlot'' []) of
        Some (Inr resp, pool, calls) \<Rightarrow>
          Option.bind (j_get j resp ''result'') (j_as_u64 j) = Some 42
          \<and> map fst calls = [0, 1, 2] \<and> list_all (\<lambda>c. snd c = ''getSlot'') calls
          \<and> es_errors (rp_stats pool ! 0) = 1 \<and> es_rotations_away (rp_stats pool ! 0) = 1
          \<and> es_successes (rp_stats pool ! 2) = 1
          \<and> list_all (\<lambda>s. \<not> str_contains (es_host s) ''/key'' \<and> starts_with (es_host s) ''https://mock-'') (rp_stats pool)
      | _ \<Rightarrow> False)"

definition app_error_handler :: "(nat \<Rightarrow> u64) \<Rightarrow> (nat, 'v) rpc_handler" where
  "app_error_handler us calls idx body =
     (Some (Inl (RpcError ''{\"code\":-32602,\"message\":\"invalid\"}'')), us idx, calls + 1)"

definition test_does_not_rotate_on_rpc_app_error :: "'v json_rpc_api \<Rightarrow> (nat \<Rightarrow> u64) \<Rightarrow> bool" where
  "test_does_not_rotate_on_rpc_app_error j us =
     (case post_json (app_error_handler us) (mock_for_tests 2) 0 (j_obj j [(''method'', j_str j ''getSlot'')]) of
        Some (Inl (RpcError e), pool, calls) \<Rightarrow> calls = 1
      | _ \<Rightarrow> False)"

definition test_from_urls_rejects_empty_and_placeholder :: bool where
  "test_from_urls_rejects_empty_and_placeholder =
     ((case from_urls [] of Inl e \<Rightarrow> True | Inr pool \<Rightarrow> False)
      \<and> (case from_urls [''https://YOUR_PRIVATE_RPC''] of Inl e \<Rightarrow> True | Inr pool \<Rightarrow> False))"

lemma test_classify_429_and_5xx_passes: test_classify_429_and_5xx
  by code_simp

lemma mock_pool_3:
  "mock_for_tests 3 = \<lparr>rp_urls = [''https://mock-0.example/key'', ''https://mock-1.example/key'', ''https://mock-2.example/key''],
     rp_index = 0, rp_stats = map endpoint_stats_new
       [''https://mock-0.example'', ''https://mock-1.example'', ''https://mock-2.example''], rp_max_attempts = 3\<rparr>"
  by code_simp

lemma mock_hosts_3:
  "map es_host (rp_stats (mock_for_tests 3)) =
     [''https://mock-0.example'', ''https://mock-1.example'', ''https://mock-2.example'']"
  by (simp add: mock_pool_3 endpoint_stats_new_def)

lemma classified:
  "classify_error (HttpError ''HTTP 429: rate limited'') = RateLimited"
  "classify_error (HttpError ''HTTP 503: overload'') = ServerError"
  "classify_error (RpcError ''{\"code\":-32602,\"message\":\"invalid\"}'') = RpcApp"
  by code_simp+

lemma hosts_hide_paths:
  "list_all (\<lambda>h. \<not> str_contains h ''/key'' \<and> starts_with h ''https://mock-'')
     [''https://mock-0.example'', ''https://mock-1.example'', ''https://mock-2.example'']"
  by code_simp

lemma post_json_3:
  "post_json h (mock_for_tests 3) st body = Some (post_loop h 3 0 3 body [0, 1, 2] (RpcError ''no attempts'') (mock_for_tests 3) st)"
proof -
  have "[0..<3] = [0, 1, 2 :: nat]" by code_simp
  moreover have "length (rp_urls (mock_for_tests 3)) = 3" "rp_max_attempts (mock_for_tests 3) = 3"
      "rp_index (mock_for_tests 3) = 0"
    by (simp_all add: mock_for_tests_def pool_of_def)
  ultimately show ?thesis by (simp add: post_json_def current_index_def Let_def del: post_loop.simps)
qed

lemma rotating_answers:
  assumes "json_laws c j"
  shows "rotating_handler j us calls 0 (jsonrpc_request j ''getSlot'' []) =
      (Some (Inl (HttpError ''HTTP 429: rate limited'')), us 0, calls @ [(0, ''getSlot'')])"
    "rotating_handler j us calls (Suc 0) (jsonrpc_request j ''getSlot'' []) =
      (Some (Inl (HttpError ''HTTP 503: overload'')), us 1, calls @ [(1, ''getSlot'')])"
    "rotating_handler j us calls 2 (jsonrpc_request j ''getSlot'' []) =
      (Some (Inr (j_obj j [(''jsonrpc'', j_str j ''2.0''), (''id'', j_num j 1), (''result'', j_num j 42)])), us 2,
       calls @ [(2, ''getSlot'')])"
  using assms by (simp_all add: rotating_handler_def jsonrpc_request_def json_laws_def)

definition recorded :: "u64 \<Rightarrow> nat \<Rightarrow> bootstrap_error + 'v \<Rightarrow> rpc_pool \<Rightarrow> rpc_pool" where
  "recorded elapsed i r p =
     update_stats i (record_result elapsed r) (update_stats i (\<lambda>st. st\<lparr>es_requests := es_requests st + 1\<rparr>) p)"

lemma post_once_recorded:
  "h s i body = (Some r, elapsed, s') \<Longrightarrow> post_once h p s i body = (r, recorded elapsed i r p, s')"
  by (simp add: post_once_def recorded_def)

lemma recorded_stats:
  "length (rp_stats (recorded elapsed i r p)) = length (rp_stats p)" "rp_urls (recorded elapsed i r p) = rp_urls p"
  "k < length (rp_stats p) \<Longrightarrow> es_host (rp_stats (recorded elapsed i r p) ! k) = es_host (rp_stats p ! k)"
  "k < length (rp_stats p) \<Longrightarrow> es_errors (rp_stats (recorded elapsed i r p) ! k)
     = es_errors (rp_stats p ! k) + (if i = k \<and> isl r then 1 else 0)"
  "k < length (rp_stats p) \<Longrightarrow> es_successes (rp_stats (recorded elapsed i r p) ! k)
     = es_successes (rp_stats p ! k) + (if i = k \<and> \<not> isl r then 1 else 0)"
  "k < length (rp_stats p) \<Longrightarrow> es_rotations_away (rp_stats (recorded elapsed i r p) ! k)
     = es_rotations_away (rp_stats p ! k)"
  by (cases r; simp add: recorded_def nth_update_stats)+

lemma test_rotates_passes:
  assumes "json_laws c j"
  shows "test_rotates_on_429_then_succeeds j us"
proof -
  let ?h = "rotating_handler j us" and ?body = "jsonrpc_request j ''getSlot'' []" and ?p = "mock_for_tests 3"
  let ?v = "j_obj j [(''jsonrpc'', j_str j ''2.0''), (''id'', j_num j 1), (''result'', j_num j 42)]"
  let ?e0 = "HttpError ''HTTP 429: rate limited''" and ?e1 = "HttpError ''HTTP 503: overload''"
  let ?p1 = "advance (recorded (us 0) 0 (Inl ?e0 :: _ + 'a) ?p) 0 RateLimited"
  let ?p2 = "advance (recorded (us 1) 1 (Inl ?e1 :: _ + 'a) ?p1) 1 ServerError"
  let ?p3 = "(recorded (us 2) 2 (Inr ?v) ?p2)\<lparr>rp_index := 2\<rparr>"
  note once = post_once_recorded [of ?h, OF rotating_answers(1) [OF assms]]
    post_once_recorded [of ?h, OF rotating_answers(2) [OF assms]] post_once_recorded [of ?h, OF rotating_answers(3) [OF assms, unfolded numeral_2_eq_2]]
  have "post_loop ?h 3 0 3 ?body [0, 1, 2] (RpcError ''no attempts'') ?p []
      = (Inr ?v, ?p3, [(0, ''getSlot''), (1, ''getSlot''), (2, ''getSlot'')])"
    by (simp add: once classified should_rotate_def numeral_2_eq_2 Let_def del: classify_error.simps)
  moreover have "Option.bind (j_get j ?v ''result'') (j_as_u64 j) = Some 42"
    using assms by (simp add: json_laws_def)
  moreover have p: "length (rp_stats ?p) = 3" "rp_urls ?p \<noteq> []"
      "es_errors (rp_stats ?p ! 0) = 0" "es_rotations_away (rp_stats ?p ! 0) = 0" "es_successes (rp_stats ?p ! 2) = 0"
    by (simp_all add: mock_pool_3 endpoint_stats_new_def)
  then have "es_errors (rp_stats ?p3 ! 0) = 1" "es_rotations_away (rp_stats ?p3 ! 0) = 1" "es_successes (rp_stats ?p3 ! 2) = 1"
    by (simp_all add: recorded_stats nth_advance)
  moreover have "map es_host (rp_stats ?p3) = map es_host (rp_stats ?p)"
    using p by (intro nth_equalityI) (simp_all add: recorded_stats nth_advance)
  then have "list_all (\<lambda>h. \<not> str_contains h ''/key'' \<and> starts_with h ''https://mock-'') (map es_host (rp_stats ?p3))"
    by (simp only: mock_hosts_3 hosts_hide_paths)
  then have "list_all (\<lambda>s. \<not> str_contains (es_host s) ''/key'' \<and> starts_with (es_host s) ''https://mock-'') (rp_stats ?p3)"
    by (simp only: list.pred_map comp_def)
  ultimately show ?thesis
    by (simp add: test_rotates_on_429_then_succeeds_def post_json_3 del: post_loop.simps)
qed

lemma test_does_not_rotate_passes: "test_does_not_rotate_on_rpc_app_error j us"
proof -
  have upt_2: "[0..<2] = [0, 1 :: nat]" by code_simp
  have "length (rp_urls (mock_for_tests 2)) = 2" "rp_max_attempts (mock_for_tests 2) = 2"
    by (simp_all add: mock_for_tests_def pool_of_def)
  then show ?thesis
    by (simp add: test_does_not_rotate_on_rpc_app_error_def post_json_def post_once_def app_error_handler_def
        classified should_rotate_def upt_2 Let_def del: classify_error.simps)
qed

lemma test_from_urls_rejects_passes: test_from_urls_rejects_empty_and_placeholder
  by code_simp

section \<open>bootstrap.rs\<close>

definition test_fixture_bootstrap_loads_by_owner :: "u64 \<Rightarrow> bool" where
  "test_fixture_bootstrap_loads_by_owner now =
     (case fixture_get_program_accounts demo_for_protocols prog_klend of
        Inl e \<Rightarrow> False
      | Inr accts \<Rightarrow> length accts = 3 \<and> store_len (apply_raw_to_store now store_new accts Rpc) = 3)"

definition at_index :: "'v json_rpc_api \<Rightarrow> nat \<Rightarrow> 'v \<Rightarrow> 'v option" where
  "at_index j i v = Option.bind (j_as_array j v) (\<lambda>xs. if i < length xs then Some (xs ! i) else None)"

definition method_of :: "'v json_rpc_api \<Rightarrow> 'v \<Rightarrow> string option" where
  "method_of j v = Option.bind (j_get j v ''method'') (j_as_str j)"

definition test_jsonrpc_shapes :: "'v json_rpc_api \<Rightarrow> bool" where
  "test_jsonrpc_shapes j =
     (let second = (\<lambda>v. Option.bind (j_get j v ''params'') (at_index j 1));
          v2f = jsonrpc_get_program_accounts_filtered j ''Prog'' ''confirmed'' [j_obj j [(''dataSize'', j_num j 3344)]];
          v3 = jsonrpc_simulate_transaction j ''AQ=='' False
      in method_of j (jsonrpc_get_multiple_accounts j [''Abc''] ''processed'') = Some ''getMultipleAccounts''
         \<and> method_of j (jsonrpc_get_program_accounts j ''Prog'' ''confirmed'') = Some ''getProgramAccounts''
         \<and> Option.bind (Option.bind (Option.bind (Option.bind (second v2f) (\<lambda>v. j_get j v ''filters'')) (at_index j 0))
             (\<lambda>v. j_get j v ''dataSize'')) (j_as_u64 j) = Some 3344
         \<and> method_of j v3 = Some ''simulateTransaction''
         \<and> Option.bind (Option.bind (second v3) (\<lambda>v. j_get j v ''sigVerify'')) (j_as_bool j) = Some False
         \<and> method_of j (jsonrpc_get_slot j ''processed'') = Some ''getSlot''
         \<and> method_of j (jsonrpc_get_health j) = Some ''getHealth'')"

definition test_http_transport_rejects_placeholder_url :: bool where
  "test_http_transport_rejects_placeholder_url =
     (case http_transport_new ''https://YOUR_PRIVATE_RPC'' of Inl (ConfigError e) \<Rightarrow> True | _ \<Rightarrow> False)"

definition mock_answers :: "'v json_rpc_api \<Rightarrow> pubkey \<Rightarrow> 'v transport" where
  "mock_answers j owner body =
     (let answer = (\<lambda>value. Inr (j_obj j [(''jsonrpc'', j_str j ''2.0''), (''id'', j_num j 1),
            (''result'', j_obj j [(''context'', j_obj j [(''slot'', j_num j 42)]), (''value'', value)])]));
          m = (case method_of j body of Some s \<Rightarrow> s | None \<Rightarrow> '''')
      in if m = ''getMultipleAccounts'' then
           answer (j_arr j [j_obj j [(''lamports'', j_num j 10), (''owner'', j_str j (to_base58 j owner)),
             (''data'', j_arr j [j_str j (b64_encode j [1, 2, 3]), j_str j ''base64'']),
             (''executable'', j_bool j False), (''rentEpoch'', j_num j 0)]])
         else if m = ''simulateTransaction'' then
           answer (j_obj j [(''err'', j_null j), (''logs'', j_arr j [j_str j ''Program log: shadow-ok'']),
             (''unitsConsumed'', j_num j 1234)])
         else Inl (RpcError (''unexpected '' @ m)))"

definition test_mock_transport_bootstrap_and_simulate :: "crypto \<Rightarrow> 'v json_rpc_api \<Rightarrow> bool" where
  "test_mock_transport_bootstrap_and_simulate c j =
     (let boot = json_rpc_bootstrap_new (mock_answers j prog_klend)
      in (case json_get_multiple_accounts c j boot [pubkey_test 9 1] of
            Inr [Some a] \<Rightarrow> ra_data a = [1, 2, 3] \<and> ra_slot a = 42 | _ \<Rightarrow> False)
         \<and> (case json_simulate_transaction j boot
                (shadow_tx_base64 j [compute_unit_limit 200000] ''11111111111111111111111111111111'') False of
              Inl e \<Rightarrow> False
            | Inr sim \<Rightarrow> sim_err sim = None \<and> sim_units_consumed sim = Some 1234
                \<and> list_ex (\<lambda>l. str_contains l ''shadow-ok'') (sim_logs sim)))"

definition test_rpc_url_configured_helper :: bool where
  "test_rpc_url_configured_helper =
     (\<not> rpc_url_configured ''https://YOUR_PRIVATE_RPC'' \<and> \<not> rpc_url_configured ''''
      \<and> rpc_url_configured ''https://api.mainnet-beta.solana.com'')"

definition test_minimal_cu_tx_is_small_wire :: "'v json_rpc_api \<Rightarrow> bool" where
  "test_minimal_cu_tx_is_small_wire j =
     (case b64_decode j (minimal_cu_limit_tx_base64 j 200000) of
        None \<Rightarrow> False | Some raw \<Rightarrow> length raw < 200 \<and> 64 < length raw)"

lemma test_fixture_bootstrap_passes: "test_fixture_bootstrap_loads_by_owner now"
proof -
  let ?a = "\<lambda>i. \<lparr>ra_pubkey = pubkey_test 50 (word_of_nat i), ra_lamports = 1000000, ra_owner = prog_klend,
      ra_data = [0, word_of_nat i, 0xDE, 0xAD], ra_slot = 1\<rparr>"
  have "filter (\<lambda>a. ra_owner a = prog_klend) demo_for_protocols = [?a 0, ?a 1, ?a 2]"
    by code_simp
  then show ?thesis
    by (simp add: test_fixture_bootstrap_loads_by_owner_def fixture_get_program_accounts_def apply_raw_to_store_def
        store_upsert_def store_new_def store_len_def)
qed

lemma json_lawsD:
  assumes "json_laws c j"
  shows "distinct (map fst kvs) \<Longrightarrow> j_get j (j_obj j kvs) k = map_of kvs k"
    "j_as_str j (j_str j s) = Some s" "j_as_u64 j (j_num j n) = Some n" "j_as_array j (j_arr j vs) = Some vs"
    "j_is_null j (j_null j)" "\<not> j_is_null j (j_obj j kvs)" "b64_decode j (b64_encode j bs) = Some bs"
    "b58_decode c (b58_encode j bs) = Some bs"
  using assms by (simp_all add: json_laws_def)

lemma test_jsonrpc_shapes_passes: "json_laws c j \<Longrightarrow> test_jsonrpc_shapes j"
  by (simp add: test_jsonrpc_shapes_def at_index_def method_of_def json_laws_def jsonrpc_get_multiple_accounts_def
      jsonrpc_get_program_accounts_def jsonrpc_get_program_accounts_filtered_def jsonrpc_simulate_transaction_def
      jsonrpc_get_slot_def jsonrpc_get_health_def jsonrpc_request_def base64_config_def Let_def)

lemma test_http_transport_rejects_passes: test_http_transport_rejects_placeholder_url
  by code_simp

lemma mock_answers_by_method:
  assumes "json_laws c j"
  shows "mock_answers j owner (jsonrpc_get_multiple_accounts j keys commitment) =
      Inr (j_obj j [(''jsonrpc'', j_str j ''2.0''), (''id'', j_num j 1),
        (''result'', j_obj j [(''context'', j_obj j [(''slot'', j_num j 42)]),
          (''value'', j_arr j [j_obj j [(''lamports'', j_num j 10), (''owner'', j_str j (to_base58 j owner)),
             (''data'', j_arr j [j_str j (b64_encode j [1, 2, 3]), j_str j ''base64'']),
             (''executable'', j_bool j False), (''rentEpoch'', j_num j 0)]])])])" (is ?get)
    "mock_answers j owner (jsonrpc_simulate_transaction j tx sv) =
      Inr (j_obj j [(''jsonrpc'', j_str j ''2.0''), (''id'', j_num j 1),
        (''result'', j_obj j [(''context'', j_obj j [(''slot'', j_num j 42)]),
          (''value'', j_obj j [(''err'', j_null j), (''logs'', j_arr j [j_str j ''Program log: shadow-ok'']),
             (''unitsConsumed'', j_num j 1234)])])])" (is ?sim)
proof -
  have "method_of j (jsonrpc_request j m ps) = Some m" for m ps
    by (simp add: method_of_def jsonrpc_request_def json_lawsD [OF assms])
  note m = this
  show ?get ?sim
    by (simp_all only: m mock_answers_def jsonrpc_get_multiple_accounts_def jsonrpc_simulate_transaction_def Let_def
        option.case) (simp_all cong: if_cong)
qed

lemma test_mock_transport_passes:
  assumes laws: "json_laws c j"
  shows "test_mock_transport_bootstrap_and_simulate c j"
proof -
  let ?boot = "json_rpc_bootstrap_new (mock_answers j prog_klend)"
  note get = mock_answers_by_method [OF laws] json_lawsD [OF laws]
  have "json_get_multiple_accounts c j ?boot [k] = Inr [Some \<lparr>ra_pubkey = k, ra_lamports = 10,
      ra_owner = owner_of c (to_base58 j prog_klend), ra_data = [1, 2, 3], ra_slot = 42\<rparr>]" for k
    by (simp add: json_get_multiple_accounts_def json_rpc_bootstrap_new_def parse_account_value_def account_data_def
        b64_decode_or_def result_slot_def get)
  moreover have "\<exists>r. json_simulate_transaction j ?boot tx False =
      Inr \<lparr>sim_err = None, sim_logs = [''Program log: shadow-ok''], sim_units_consumed = Some 1234, sim_raw = r\<rparr>" for tx
    by (simp add: json_simulate_transaction_def json_rpc_bootstrap_new_def List.map_filter_def get Let_def)
  then obtain r where "json_simulate_transaction j ?boot
      (shadow_tx_base64 j [compute_unit_limit 200000] ''11111111111111111111111111111111'') False =
      Inr \<lparr>sim_err = None, sim_logs = [''Program log: shadow-ok''], sim_units_consumed = Some 1234, sim_raw = r\<rparr>"
    by blast
  moreover have "str_contains ''Program log: shadow-ok'' ''shadow-ok''" by code_simp
  ultimately show ?thesis
    by (simp add: test_mock_transport_bootstrap_and_simulate_def del: str_contains.simps)
qed

lemma test_rpc_url_configured_passes: test_rpc_url_configured_helper
  by code_simp

lemma test_minimal_cu_tx_passes:
  assumes "json_laws c j" shows "test_minimal_cu_tx_is_small_wire j"
proof -
  have "length (minimal_cu_limit_tx_bytes 200000 (replicate 32 1)) = 174"
  proof -
    have "length (shortvec_encode n) = 1" if "n < 128" for n
      using that by (simp add: shortvec_encode.simps [of n])
    moreover have "length (pk_bytes prog_compute_budget) = 32" by code_simp
    ultimately show ?thesis by (simp add: minimal_cu_limit_tx_bytes_def Let_def)
  qed
  then show ?thesis
    using assms by (simp add: test_minimal_cu_tx_is_small_wire_def minimal_cu_limit_tx_base64_def
        minimal_cu_limit_tx_base64_with_payer_def json_laws_def)
qed

section \<open>liq-routing\<close>

definition test_stub_quote_applies_slippage :: bool where
  "test_stub_quote_applies_slippage =
     (case stub_quote \<lparr>qr_input_mint = pubkey_test 1 1, qr_output_mint = pubkey_test 1 2, qr_amount_in = 1000000000,
             qr_input_decimals = 9, qr_output_decimals = 6, qr_input_price = price_from_f64 100,
             qr_output_price = price_from_f64 1, qr_slippage_bps = 30\<rparr> of
        Inl e \<Rightarrow> False | Inr q \<Rightarrow> 0 < q_cost_usd_micro q \<and> 0 < q_amount_out q)"

definition test_jupiter_placeholder_builds_ix :: bool where
  "test_jupiter_placeholder_builds_ix =
     (let req = \<lparr>qr_input_mint = pubkey_test 1 1, qr_output_mint = pubkey_test 1 2, qr_amount_in = 1000,
             qr_input_decimals = 6, qr_output_decimals = 6, qr_input_price = price_from_f64 1,
             qr_output_price = price_from_f64 1, qr_slippage_bps = 10\<rparr>
      in case jupiter_quote req of
           Inl e \<Rightarrow> False
         | Inr q \<Rightarrow> (let ixs = jupiter_build_swap_ixs jupiter_placeholder_default req q
             in length ixs = 1 \<and> ix_data (li_ix (ixs ! 0)) \<noteq> [] \<and> ix_accounts (li_ix (ixs ! 0)) \<noteq> []))"

definition test_route_cache_prefetch :: bool where
  "test_route_cache_prefetch =
     (let a = pubkey_test 1 1; b = pubkey_test 1 2;
          cache = prefetch_hot route_cache_new [(a, b)]
            [\<lparr>q_amount_out = 1, q_cost_usd_micro = 1, q_route_label = ''hot''\<rparr>]
      in route_len cache = 1 \<and> route_get cache (RouteKey a b) \<noteq> None)"

definition test_jupiter_quote_blob_attaches :: "crypto \<Rightarrow> 'v json_rpc_api \<Rightarrow> bool" where
  "test_jupiter_quote_blob_attaches c j =
     (let api = json_api.truncate j;
          json = j_obj j [(''swapInstruction'', j_obj j
            [(''programId'', j_str j (to_base58 j (pubkey_test 74 9))),
             (''accounts'', j_arr j [j_obj j [(''pubkey'', j_str j (to_base58 j (pubkey_test 74 10))),
                (''isSigner'', j_bool j False), (''isWritable'', j_bool j True)]]),
             (''data'', j_str j (b64_encode j (ascii ''REALJUP'')))])];
          blob = from_json_value c api json;
          empty = from_json_value c api (j_obj j [])
      in \<not> jq_incomplete blob \<and> ix_data (li_ix (jq_instructions blob ! 0)) = ascii ''REALJUP''
         \<and> jq_incomplete empty \<and> jq_instructions empty = [])"

lemma test_stub_quote_passes: test_stub_quote_applies_slippage
proof -
  have "price_from_f64 100 = PriceFx 100000000000" "price_from_f64 1 = PriceFx 1000000000"
    using test_prices(4,8) by (simp_all add: f64_exact)
  moreover have "amount_to_usd_micro 1000000000 9 (PriceFx 100000000000) = 100000000"
    by (simp add: amount_to_usd_micro_def pow10_def sat_mul_def price_scale_def max_def word_le_nat_alt Let_def)
  ultimately show ?thesis
    by (simp add: test_stub_quote_applies_slippage_def stub_quote_def mid_quote_def pow10_def
        sat_mul_def price_scale_def max_def word_le_nat_alt Let_def)
qed

lemma test_jupiter_placeholder_passes: test_jupiter_placeholder_builds_ix
  by (simp add: test_jupiter_placeholder_builds_ix_def jupiter_quote_def mid_quote_def jupiter_build_swap_ixs_def
      labeled_def instruction_new_def ascii_def Let_def)

lemma test_route_cache_prefetch_passes: test_route_cache_prefetch
  by (simp add: test_route_cache_prefetch_def route_insert_def route_get_def route_len_def route_cache_new_def)

lemma test_jupiter_quote_blob_passes: "json_laws c j \<Longrightarrow> test_jupiter_quote_blob_attaches c j"
  by (simp add: test_jupiter_quote_blob_attaches_def from_json_value_def push_parsed_def parse_one_ix_def json_laws_def
      json_api.truncate_def to_base58_def pubkey_from_base58_def ascii_def Let_def)

end
