(* ===== verification/Spec2Isabelle.thy ===== *)
theory Spec2Isabelle
  imports Prelude CoreTypes Instructions KeyedCache StateStore CandidateIndex Metrics OraclePath
    Health Profitability Funding Risk Lending KaminoHealth FlashPlan Save KaminoTx KaminoDecode
    Vtx Marginfi Routing Plan LivePlan Bootstrap Execution Strings
    EnvFile RpcPool Failover JsonRpc F64 LiveHealth Discovery Fixtures Liquidator
    ReplayRun Shadow MainnetShadow PlanWire SolendSdk SaveWire P0Wire Bench
    IndexThreads LockOrder Locks P0Constants FixedFloat CoreTests KaminoTests
    LiveTests DecodeTests SaveTests P0Tests ExecTests StreamTests
begin

text \<open>
  A model of the Solana liquidation engine of this repository: a program that watches lending obligations on three
  protocols (Kamino, Save, marginfi), decides which of them can be liquidated, plans the transaction, checks profit and
  risk, and executes, simulates or replays it. The model follows the Rust source function by function; this header says
  which theory models which file, what is proved, and what is left out. File names are relative to the repository, and
  C stands for \<^verbatim>\<open>crates\<close>.

  Conventions. A struct is a record, an enum a datatype, a w-bit integer a word of that width with the wrap-around,
  saturation or checked result the source asks for; a plain operator wraps, as in a release build. An f64 is the
  rational it stands for (theory \<open>F64\<close>). A slice out of range, a failed unwrap and other panics are values where the
  code can reach them. A hash map is a partial map, and where the code iterates over one the order is an argument; a
  lock-protected map is a field of the state and a locked section one step. Time, the file system, the environment, the
  endpoints and third-party crates (hashing, the curve, base58, base64, serde, serde_json) are arguments; what the
  code relies on in them is a named hypothesis (\<open>json_laws\<close>, \<open>hash_typed\<close>) with an instance that has it. Strings are lists of
  bytes of ASCII text.

  The parts and how they interact.

  Data. \<open>CoreTypes\<close>, \<open>Instructions\<close>: keys, prices, bands (C/liq-core/src/types.rs), instructions and program derived
  addresses (instruction.rs, pda.rs). \<open>Prelude\<close> holds the byte order, slices, the error monad and list lemmas all
  share; \<open>Strings\<close> the string functions of the standard library that the texts need.

  State. \<open>StateStore\<close>: the account store that keeps the newest version (state_store.rs). \<open>CandidateIndex\<close>: bands and
  price ladders (candidate_index.rs). \<open>OraclePath\<close>: an oracle update goes through the store and the price book to the
  index and yields hits (oracle_path.rs). \<open>Metrics\<close>: counters (C/liq-telemetry). \<open>Risk\<close>: limits, rolling budget and
  breaker (C/liq-risk). \<open>IndexThreads\<close>: the index shared by threads, one locked section a step. \<open>LockOrder\<close>: a machine
  of threads that take readers-writer locks; \<open>Locks\<close>: the lock calls of every component, run on that machine.

  Decisions. \<open>Health\<close>: dollar values, health factor and trigger prices (health.rs). \<open>Profitability\<close>,
  \<open>Funding\<close>: the profit gate and the choice among funding paths (profitability.rs, funding.rs). \<open>Routing\<close>: quotes and
  the Jupiter reply (C/liq-routing).

  Protocols. \<open>Lending\<close>: the loop over priced legs that two adapters share. Kamino (C/liq-kamino):
  \<open>KaminoHealth\<close> (lib.rs), \<open>KaminoDecode\<close> (decode.rs and the decoders of live_health.rs), \<open>F64\<close> and
  \<open>LiveHealth\<close> (the health in f64, live_health.rs), \<open>KaminoTx\<close> (accounts.rs, flash.rs, refresh.rs, scope.rs,
  tx_builder.rs). Save (C/liq-save): \<open>Save\<close>. Marginfi (C/liq-project0): \<open>Marginfi\<close>. \<open>FlashPlan\<close> is the shape the two
  flash loans have in common.

  Interfaces of the programs on chain, of which the repository keeps copies under idls: \<open>SolendSdk\<close> is the Save
  program's instruction type with its reader and writer, \<open>SaveWire\<close> holds the Save adapter against it; \<open>P0Wire\<close> holds
  the marginfi adapter against the program's discriminators and its fee state struct, \<open>P0Constants\<close> against its table
  of constants.

  Plans. \<open>Plan\<close>: account sets and the instructions of every protocol and strategy (C/liq-execution/src/plan.rs).
  \<open>LivePlan\<close>: the account set of a candidate, read over RPC (build_plan_accounts_for_candidate of
  bins/shadow/src/main.rs). \<open>Vtx\<close>: a transaction as bytes (vtx.rs). \<open>PlanWire\<close>: from a candidate to the bytes.

  Execution. \<open>Execution\<close>: the engine, bids, caches and senders (C/liq-execution/src).

  Input. \<open>Bootstrap\<close> and \<open>JsonRpc\<close>: account snapshots over JSON-RPC (C/liq-streaming/src/bootstrap.rs).
  \<open>RpcPool\<close>: the rotating endpoints (rpc_pool.rs). \<open>Failover\<close>: streams and their fail-over (lib.rs, failover.rs).
  \<open>Fixtures\<close>: recordings and the gRPC settings (fixtures.rs, yellowstone.rs). \<open>EnvFile\<close>: the environment file and
  redaction (local_env.rs, redact.rs). \<open>Discovery\<close>: the search of mainnet for candidates (discovery.rs).

  Programs. \<open>Liquidator\<close> on \<open>EventLoop\<close>: the main loop (bins/liquidator). \<open>ReplayRun\<close>: bins/replay. \<open>Shadow\<close> and
  \<open>MainnetShadow\<close>: bins/shadow on recordings and on mainnet. \<open>Bench\<close>: bins/bench.

  Checks of the model. The unit tests of the crates are stated over the model's operations, each as a bool, and proved
  to pass: \<open>CoreTests\<close> for liq-core, liq-risk and liq-telemetry, \<open>KaminoTests\<close>, \<open>LiveTests\<close> and \<open>DecodeTests\<close> for
  liq-kamino, \<open>SaveTests\<close> for liq-save, \<open>P0Tests\<close> for liq-project0, \<open>ExecTests\<close> for liq-execution, \<open>StreamTests\<close> for
  liq-streaming and liq-routing. \<open>FixedFloat\<close> has the conversions between fixed point and f64 that their decimal
  literals need. Tests of a fixed base58 text, of a hash, or of files of the repository are left out.

  What is proved. Each theory proves the behaviour of its operations; the properties, numbered C1 to C40 in order of
  importance, are these.

  Arithmetic and decisions: the sums, quotients and trigger prices are those of the natural numbers under bounds stated
  with each theorem; the health flags of Kamino and marginfi are the exact comparison; the flag computed in f64 is that of
  exact rationals outside a margin of a few units in the last place, it never turns off when debt grows, and it agrees
  with the band; the profit gate and the choice of a path refine their specification.

  State: the store holds the newest version of each account, the index agrees with itself after any sequence of
  operations, a price move reports exactly the triggers it crosses, an oracle update composes the three, and the risk
  control keeps the in-flight count and the rolling budget in every reachable state. Under threads the index keeps its
  invariant whatever the order of the locked sections, threads on different accounts do not disturb each other, and with
  one thread that sets triggers no run of the lock programs of all components gets stuck. With two there is a race
  and a deadlock, and lemmas show both.

  Plans: a live Kamino flash plan and a Save flash plan refresh what they use, pair the borrow with the repay and name
  it by its place; every key of a plan has its length and only the fee payer signs; the bytes read back to the same
  instructions, with one signature; the Save instructions are those of the program's own interface, and the program's
  reader, which is the inverse of its writer, reads the plan as planned. The refresh instructions of Save are the
  exception, and a theorem says so.

  Input: the decoders are total and never panic, the planning format, the RPC answers and the environment file
  round-trip, the fee state is read where the program puts it, a pool call tries each endpoint at most once and settles with the first
  final answer, a provider that is down is selected only when none is healthy, the discovery reports only live candidates.

  Programs: the main loop returns, or a theorem says when it cannot; a dry run submits nothing; a live run stays within
  its limits; every plan comes from a candidate that was hit; replay makes one pass; the mainnet shadow only reads, and
  completes.

  Interfaces are locales, each interpreted on the model that provides it: the versioned store, the price ladder, the keyed caches (routes, lookup
  tables, templates), the priced legs (deposits and borrows of Kamino and Save), the swap router, the flash loan (Kamino
  and Save), the RPC source (recorded and JSON-RPC), the field codec of the Save interface, and the lock order.
  Facts about one step relation or one family of builders are collected in named_theorems of the theory they belong to.

  Bounds and fuel. Only the event loop has no bound of its own. \<open>run_loop\<close> takes fuel; a run of m ticks needs more than
  2 m (each tick handles an event and may first subscribe again), which theorem liquidator_returns states, together with
  the recordings for which no fuel is enough because the program spins. All other loops are structural or run over a list
  the source fixes: 256 bumps of a derived address, one pass over the endpoints of a pool, the slots of an account.
  The u8 index of a flash borrow is exact below 256 instructions, which bounds the reserves in the theorems about plans,
  and a transaction reads back when it names less than 256 keys.

  Not modelled, and why. Log lines, printed JSON and the report file of the shadow run with its search for key material:
  output only. The constants and copied counters of that report. The gRPC client, which the source does not link.
  Infinities, NaN, signed zero and subnormal values of f64: the inputs the theorems cover do not reach them. Text beyond
  ASCII, except where a slice at a fixed byte panics on it, which is recorded as a finding. Sending over HTTP and the
  waits between attempts. Interleavings inside a locked section of one component: a section holds its locks from its
  first access to its last (the lock programs of \<open>Locks\<close> are two-phase), so it is one step; the race between check and
  begin, two locked sections, is modelled in \<open>Risk\<close>. The crate roots, which declare modules.
\<close>

end
